(* ===== verification/Prelude.thy ===== *)
theory Prelude
  imports Complex_Main "HOL-Library.AList" "HOL-Library.Sublist" "HOL-Library.Multiset"
begin

section \<open>Shared vocabulary: actions with exceptions, positions in lists\<close>

text \<open>
  What every component of the development uses:
  \<^item> \<open>('s, 'e, 'a) act\<close>, a Python method seen as a function of the state it runs in: it
    returns a value or raises, and in both cases leaves a state behind. A Python exception
    does not undo the mutations made before it, so the error branch carries a state too.
  \<^item> list positions the way \<open>list.insert\<close>, \<open>enumerate\<close> and \<open>pop\<close> use them.
  The collection \<open>act_simps\<close> evaluates actions; \<open>list_pos\<close> holds the facts on positions.
\<close>

named_theorems act_simps \<open>evaluation of actions\<close>
named_theorems list_pos \<open>insertion and removal at a position\<close>

subsection \<open>Actions\<close>

type_synonym ('s, 'e, 'a) act = "'s \<Rightarrow> ('e + 'a) \<times> 's"

definition ret :: "'a \<Rightarrow> ('s, 'e, 'a) act" where
  "ret x = (\<lambda>s. (Inr x, s))"

definition throw :: "'e \<Rightarrow> ('s, 'e, 'a) act" where
  "throw e = (\<lambda>s. (Inl e, s))"

definition chain :: "('s, 'e, 'a) act \<Rightarrow> ('a \<Rightarrow> ('s, 'e, 'b) act) \<Rightarrow> ('s, 'e, 'b) act" where
  "chain m f = (\<lambda>s. case m s of (Inl e, s') \<Rightarrow> (Inl e, s') | (Inr x, s') \<Rightarrow> f x s')"

text \<open>\<open>try: m except E: h\<close>, with the handler deciding by the exception it gets.\<close>

definition handle :: "('s, 'e, 'a) act \<Rightarrow> ('e \<Rightarrow> ('s, 'e, 'a) act) \<Rightarrow> ('s, 'e, 'a) act" where
  "handle m h = (\<lambda>s. case m s of (Inl e, s') \<Rightarrow> h e s' | (Inr x, s') \<Rightarrow> (Inr x, s'))"

definition get_state :: "('s \<Rightarrow> 'a) \<Rightarrow> ('s, 'e, 'a) act" where
  "get_state f = (\<lambda>s. (Inr (f s), s))"

definition modify :: "('s \<Rightarrow> 's) \<Rightarrow> ('s, 'e, unit) act" where
  "modify f = (\<lambda>s. (Inr (), f s))"

text \<open>Running an action on a part of a larger state (an object's attribute).\<close>

definition on_part :: "('s \<Rightarrow> 'p) \<Rightarrow> ('p \<Rightarrow> 's \<Rightarrow> 's) \<Rightarrow> ('p, 'e, 'a) act \<Rightarrow> ('s, 'e, 'a) act" where
  "on_part get put m = (\<lambda>s. case m (get s) of (r, p) \<Rightarrow> (r, put p s))"

lemma chain_eq [act_simps]:
  "chain m f s = (case fst (m s) of Inl e \<Rightarrow> (Inl e, snd (m s)) | Inr x \<Rightarrow> f x (snd (m s)))"
  by (simp add: chain_def split: prod.split sum.split)

lemma handle_eq [act_simps]:
  "handle m h s = (case fst (m s) of Inl e \<Rightarrow> h e (snd (m s)) | Inr x \<Rightarrow> (Inr x, snd (m s)))"
  by (simp add: handle_def split: prod.split sum.split)

lemma on_part_eq [act_simps]:
  "on_part get put m s = (fst (m (get s)), put (snd (m (get s))) s)"
  by (simp add: on_part_def split: prod.split)

lemma basic_eqs [act_simps]:
  "ret x s = (Inr x, s)" "throw e s = (Inl e, s)"
  "get_state f s = (Inr (f s), s)" "modify g s = (Inr (), g s)"
  by (simp_all add: ret_def throw_def get_state_def modify_def)

text \<open>A loop over a list: \<open>for x in xs: f(x)\<close>, collecting the results.\<close>

fun for_each :: "('a \<Rightarrow> ('s, 'e, 'b) act) \<Rightarrow> 'a list \<Rightarrow> ('s, 'e, 'b list) act" where
  "for_each f [] = ret []"
| "for_each f (x # xs) = chain (f x) (\<lambda>y. chain (for_each f xs) (\<lambda>ys. ret (y # ys)))"

lemma for_each_length: "for_each f xs s = (Inr ys, s') \<Longrightarrow> length ys = length xs"
proof (induction xs arbitrary: s ys s')
  case Nil
  then show ?case by (simp add: act_simps)
next
  case (Cons x xs)
  then show ?case
    by (cases "for_each f xs (snd (f x s))") (auto simp: act_simps split: sum.splits)
qed

text \<open>An action preserves a predicate of the state when it does so on return and on raise.\<close>

definition keeps :: "('s \<Rightarrow> bool) \<Rightarrow> ('s, 'e, 'a) act \<Rightarrow> bool" where
  "keeps P m \<longleftrightarrow> (\<forall>s. P s \<longrightarrow> P (snd (m s)))"

lemma keepsI: "(\<And>s. P s \<Longrightarrow> P (snd (m s))) \<Longrightarrow> keeps P m"
  by (simp add: keeps_def)

lemma keepsD: "keeps P m \<Longrightarrow> P s \<Longrightarrow> P (snd (m s))"
  by (simp add: keeps_def)

lemma keeps_basic [intro, simp]:
  "keeps P (ret x)" "keeps P (throw e)" "keeps P (get_state f)"
  by (simp_all add: keeps_def act_simps)

lemma keeps_chain [intro]: "keeps P m \<Longrightarrow> (\<And>x. keeps P (f x)) \<Longrightarrow> keeps P (chain m f)"
  by (simp add: keeps_def act_simps split: sum.split)

lemma keeps_handle [intro]: "keeps P m \<Longrightarrow> (\<And>e. keeps P (h e)) \<Longrightarrow> keeps P (handle m h)"
  by (simp add: keeps_def act_simps split: sum.split)

lemma keeps_for_each [intro]: "(\<And>x. keeps P (f x)) \<Longrightarrow> keeps P (for_each f xs)"
  by (induction xs) auto

subsection \<open>Refinement of an action\<close>

text \<open>
  \<open>implements\<close>: from a valid state the concrete action keeps the state valid and behaves as
  the abstract one; or the store is not available (\<open>up\<close> fails), the action raises, and the
  abstract state is as before. An available store stays available.
\<close>

definition implements ::
  "('r \<Rightarrow> 'q) \<Rightarrow> ('r \<Rightarrow> bool) \<Rightarrow> ('r \<Rightarrow> bool) \<Rightarrow>
   ('r, 'e, 'a) act \<Rightarrow> ('q, 'e, 'a) act \<Rightarrow> bool" where
  "implements absq valid up m spec \<longleftrightarrow> (\<forall>r. valid r \<longrightarrow>
     valid (snd (m r)) \<and> (up r \<longrightarrow> up (snd (m r))) \<and>
     (fst (m r) = fst (spec (absq r)) \<and> absq (snd (m r)) = snd (spec (absq r)) \<or>
      \<not> up r \<and> (\<exists>e. fst (m r) = Inl e) \<and> absq (snd (m r)) = absq r))"

lemma implementsI:
  assumes "\<And>r. valid r \<Longrightarrow> valid (snd (m r))"
    and "\<And>r. valid r \<Longrightarrow> up r \<Longrightarrow> up (snd (m r))"
    and "\<And>r. valid r \<Longrightarrow>
      fst (m r) = fst (spec (absq r)) \<and> absq (snd (m r)) = snd (spec (absq r)) \<or>
      \<not> up r \<and> (\<exists>e. fst (m r) = Inl e) \<and> absq (snd (m r)) = absq r"
  shows "implements absq valid up m spec"
  using assms by (auto simp: implements_def)

lemma implements_up:
  assumes "implements absq valid up m spec" "valid r" "up r"
  shows "fst (m r) = fst (spec (absq r))" "absq (snd (m r)) = snd (spec (absq r))"
    "valid (snd (m r))" "up (snd (m r))"
  using assms by (auto simp: implements_def)

lemma implements_cases:
  assumes "implements absq valid up m spec" "valid r"
  obtains (effect) "fst (m r) = fst (spec (absq r))" "absq (snd (m r)) = snd (spec (absq r))"
      "valid (snd (m r))"
    | (fault) e where "\<not> up r" "fst (m r) = Inl e" "absq (snd (m r)) = absq r" "valid (snd (m r))"
  using assms by (auto simp: implements_def)

subsection \<open>Positions in lists\<close>

text \<open>\<open>xs.insert(i, x)\<close> for an index in range.\<close>

definition insert_at :: "nat \<Rightarrow> 'a \<Rightarrow> 'a list \<Rightarrow> 'a list" where
  "insert_at i x xs = take i xs @ x # drop i xs"

text \<open>\<open>max(0, min(i, n))\<close>.\<close>

definition clamp :: "int \<Rightarrow> nat \<Rightarrow> nat" where
  "clamp i n = nat (max 0 (min i (int n)))"

text \<open>The first position whose element satisfies a test (an \<open>enumerate\<close> loop that returns).\<close>

fun find_pos :: "('a \<Rightarrow> bool) \<Rightarrow> 'a list \<Rightarrow> nat option" where
  "find_pos p [] = None"
| "find_pos p (x # xs) = (if p x then Some 0 else map_option Suc (find_pos p xs))"

text \<open>\<open>xs.pop(i)\<close>: what is left.\<close>

definition delete_at :: "nat \<Rightarrow> 'a list \<Rightarrow> 'a list" where
  "delete_at i xs = take i xs @ drop (Suc i) xs"

text \<open>Python indexing: negative indices count from the end; \<open>None\<close> is \<open>IndexError\<close>.\<close>

definition py_index :: "'a list \<Rightarrow> int \<Rightarrow> 'a option" where
  "py_index xs i =
     (let j = (if i < 0 then i + int (length xs) else i)
      in if 0 \<le> j \<and> j < int (length xs) then Some (xs ! nat j) else None)"

lemma clamp_le [simp]: "clamp i n \<le> n"
  by (simp add: clamp_def)

lemma clamp_of_nat [simp]: "k \<le> n \<Longrightarrow> clamp (int k) n = k"
  by (simp add: clamp_def)

lemma clamp_zero [simp]: "clamp 0 n = 0"
  by (simp add: clamp_def)

lemma set_insert_at [simp]: "set (insert_at i x xs) = insert x (set xs)"
proof -
  have "set (insert_at i x xs) = insert x (set (take i xs @ drop i xs))"
    unfolding insert_at_def set_append list.set by blast
  then show ?thesis by simp
qed

lemma length_insert_at [simp]: "length (insert_at i x xs) = Suc (length xs)"
  by (simp add: insert_at_def)

lemma mset_insert_at [simp]: "mset (insert_at i x xs) = add_mset x (mset xs)"
proof -
  have "mset (insert_at i x xs) = add_mset x (mset (take i xs @ drop i xs))"
    unfolding insert_at_def mset_append by simp
  then show ?thesis by simp
qed

lemma map_insert_at: "map f (insert_at i x xs) = insert_at i (f x) (map f xs)"
  by (simp add: insert_at_def take_map drop_map)

lemma distinct_insert_at [simp]:
  "distinct (insert_at i x xs) \<longleftrightarrow> x \<notin> set xs \<and> distinct xs"
proof -
  have "distinct (insert_at i x xs) \<longleftrightarrow> distinct (x # xs)"
    by (metis mset_insert_at mset.simps(2) mset_eq_imp_distinct_iff)
  then show ?thesis by simp
qed

lemma insert_at_front [simp]: "insert_at 0 x xs = x # xs"
  by (simp add: insert_at_def)

lemma insert_at_back [simp]: "insert_at (length xs) x xs = xs @ [x]"
  by (simp add: insert_at_def)

lemma nth_insert_at [list_pos]: "i \<le> length xs \<Longrightarrow> insert_at i x xs ! i = x"
  by (simp add: insert_at_def nth_append)

lemma insert_at_delete_at [list_pos]:
  "i < length xs \<Longrightarrow> insert_at i (xs ! i) (delete_at i xs) = xs"
  by (simp add: insert_at_def delete_at_def min_def Cons_nth_drop_Suc)

lemma distinct_delete_at: "distinct xs \<Longrightarrow> distinct (delete_at i xs)"
  using set_take_disj_set_drop_if_distinct [of xs i "Suc i"] by (simp add: delete_at_def)

lemma map_delete_at: "map f (delete_at i xs) = delete_at i (map f xs)"
  by (simp add: delete_at_def take_map drop_map)

lemma find_pos_None: "find_pos p xs = None \<longleftrightarrow> (\<forall>x \<in> set xs. \<not> p x)"
  by (induction xs) auto

lemma find_pos_Some:
  "find_pos p xs = Some i \<Longrightarrow> i < length xs \<and> p (xs ! i) \<and> (\<forall>j < i. \<not> p (xs ! j))"
proof (induction xs arbitrary: i)
  case Nil
  then show ?case by simp
next
  case (Cons x xs)
  show ?case
  proof (cases "p x")
    case True
    with Cons.prems show ?thesis by simp
  next
    case False
    with Cons.prems obtain k where k: "find_pos p xs = Some k" "i = Suc k" by auto
    from Cons.IH [OF k(1)] False k(2) show ?thesis
      by (auto simp: less_Suc_eq_0_disj)
  qed
qed

lemma delete_at_find_pos:
  "find_pos p xs = Some i \<Longrightarrow> (\<And>x y. x \<in> set xs \<Longrightarrow> y \<in> set xs \<Longrightarrow> p x \<Longrightarrow> p y \<Longrightarrow> x = y) \<Longrightarrow>
   distinct xs \<Longrightarrow> delete_at i xs = filter (\<lambda>x. \<not> p x) xs"
proof (induction xs arbitrary: i)
  case Nil
  then show ?case by simp
next
  case (Cons x xs)
  show ?case
  proof (cases "p x")
    case True
    with Cons.prems have "\<forall>y \<in> set xs. \<not> p y" by (metis distinct.simps(2) list.set_intros)
    with True Cons.prems(1) show ?thesis by (simp add: delete_at_def)
  next
    case False
    with Cons.prems obtain k where k: "find_pos p xs = Some k" "i = Suc k" by auto
    have "delete_at k xs = filter (\<lambda>x. \<not> p x) xs"
      using Cons.IH [OF k(1)] Cons.prems(2,3) by simp
    with False k(2) show ?thesis by (simp add: delete_at_def)
  qed
qed

lemma find_pos_nth:
  assumes "distinct (map f xs)" "k < length xs"
  shows "find_pos (\<lambda>x. f x = f (xs ! k)) xs = Some k"
proof (cases "find_pos (\<lambda>x. f x = f (xs ! k)) xs")
  case None
  with assms(2) show ?thesis unfolding find_pos_None by (metis nth_mem)
next
  case (Some j)
  with find_pos_Some [OF Some] assms nth_eq_iff_index_eq [OF assms(1), of j k] show ?thesis
    by auto
qed

lemma delete_at_key:
  assumes "distinct (map f xs)" "find_pos (\<lambda>x. f x = u) xs = Some i"
  shows "delete_at i xs = filter (\<lambda>x. f x \<noteq> u) xs"
  by (rule delete_at_find_pos [OF assms(2)])
    (use assms(1) in \<open>auto simp: distinct_map inj_on_def\<close>)

lemma find_pos_insert_at:
  "i \<le> length xs \<Longrightarrow> p x \<Longrightarrow> \<forall>y \<in> set xs. \<not> p y \<Longrightarrow> find_pos p (insert_at i x xs) = Some i"
proof (induction xs arbitrary: i)
  case Nil
  then show ?case by (simp add: insert_at_def)
next
  case (Cons y ys)
  then show ?case by (cases i) (auto simp: insert_at_def)
qed

end
