(* ===== verification/ErrorCodes.thy ===== *)
theory ErrorCodes
  imports Prelude
begin

section \<open>The error catalogue (\<open>errors.py\<close>)\<close>

text \<open>
  The codes that log headlines, \<open>qs.last_error\<close> and HTTP failure bodies carry, the table of
  their titles, meanings and remedies, and the renderer that writes \<open>docs/errors.md\<close> from it.
\<close>

datatype error_code =
    PROFILE_LOAD
  | CONFIG
  | PLAN_FAIL
  | PLAN_ABORT
  | PLAN_HALT
  | PLAN_STOP
  | ITEM_INVALID
  | QUEUE_EMPTY
  | QUEUE_REFUSED
  | EXPERIMENT_UNSYNCED
  | DB_UNAVAILABLE
  | ENGINE_FAULT
  | ENGINE_BUSY
  | AUTH
  | UNSUPPORTED
  | INTERNAL

text \<open>A \<open>StrEnum\<close> member prints as its value.\<close>

fun code_str :: "error_code \<Rightarrow> string" where
  "code_str PROFILE_LOAD = ''QS-PROFILE-LOAD''"
| "code_str CONFIG = ''QS-CONFIG''"
| "code_str PLAN_FAIL = ''QS-PLAN-FAIL''"
| "code_str PLAN_ABORT = ''QS-PLAN-ABORT''"
| "code_str PLAN_HALT = ''QS-PLAN-HALT''"
| "code_str PLAN_STOP = ''QS-PLAN-STOP''"
| "code_str ITEM_INVALID = ''QS-ITEM-INVALID''"
| "code_str QUEUE_EMPTY = ''QS-QUEUE-EMPTY''"
| "code_str QUEUE_REFUSED = ''QS-QUEUE-REFUSED''"
| "code_str EXPERIMENT_UNSYNCED = ''QS-EXPERIMENT-UNSYNCED''"
| "code_str DB_UNAVAILABLE = ''QS-DB-UNAVAILABLE''"
| "code_str ENGINE_FAULT = ''QS-ENGINE-FAULT''"
| "code_str ENGINE_BUSY = ''QS-ENGINE-BUSY''"
| "code_str AUTH = ''QS-AUTH''"
| "code_str UNSUPPORTED = ''QS-UNSUPPORTED''"
| "code_str INTERNAL = ''QS-INTERNAL''"

text \<open>The members in the order of the class body, as iterating over the enumeration gives them.\<close>

definition error_codes :: "error_code list" where
  "error_codes =
    [PROFILE_LOAD, CONFIG, PLAN_FAIL, PLAN_ABORT, PLAN_HALT, PLAN_STOP, ITEM_INVALID, QUEUE_EMPTY, QUEUE_REFUSED, EXPERIMENT_UNSYNCED, DB_UNAVAILABLE, ENGINE_FAULT, ENGINE_BUSY, AUTH, UNSUPPORTED, INTERNAL]"

record error_info =
  info_code :: error_code
  info_title :: string
  info_meaning :: string
  info_remedy :: string

definition error_infos :: "error_info list" where
  "error_infos = [
    \<lparr>info_code = PROFILE_LOAD,
     info_title =
      ''The profile-collection did not load'',
     info_meaning =
      ''A startup file raised while qs executed it, or a device failed to connect during '' @
      ''the load. The headline names the file, line and function in the profile and the '' @
      ''innermost exception. qs exits: it never serves a half-loaded profile.'',
     info_remedy =
      ''Fix the profile (or the IOC it needs) and restart the service. `qs --list-plans` '' @
      ''reproduces the load without serving.''\<rparr>,
    \<lparr>info_code = CONFIG,
     info_title =
      ''Configuration is invalid'',
     info_meaning =
      ''The YAML file, an environment variable or a command-line flag could not be applied.'',
     info_remedy =
      ''Correct the setting named in the message; see the README Configuration table.''\<rparr>,
    \<lparr>info_code = PLAN_FAIL,
     info_title =
      ''A plan raised an exception'',
     info_meaning =
      ''The RunEngine finished the item with exit status `fail`. The headline gives the '' @
      ''root cause (innermost exception, e.g. the PV that timed out) and, when the fault is '' @
      ''in profile code, the profile file, line and function. The queue stopped afterwards '' @
      ''(stop-and-wait).'',
     info_remedy =
      ''Read the root cause: a PV timeout points at an IOC or network problem; an '' @
      ''AttributeError/TypeError in a profile file is a profile bug. Fix, then `qsctl queue '' @
      ''start`. The full traceback is in the item's history entry and in the log at DEBUG.''\<rparr>,
    \<lparr>info_code = PLAN_ABORT,
     info_title =
      ''A plan was aborted'',
     info_meaning =
      ''Someone (or a suspender) aborted the running plan; its cleanup ran and the item is '' @
      ''in history with exit status `abort`. The queue stopped.'',
     info_remedy =
      ''Nothing to fix unless the abort was unexpected; `qsctl queue start` to continue.''\<rparr>,
    \<lparr>info_code = PLAN_HALT,
     info_title =
      ''A plan was halted'',
     info_meaning =
      ''The running plan was halted: it ended immediately WITHOUT running its cleanup. '' @
      ''Devices may be left staged or in motion.'',
     info_remedy =
      ''Check device state (shutters, motors, detectors) before continuing.''\<rparr>,
    \<lparr>info_code = PLAN_STOP,
     info_title =
      ''A plan was stopped early'',
     info_meaning =
      ''The running plan was stopped gracefully; data collected so far is kept.'',
     info_remedy =
      ''Nothing to fix; `qsctl queue start` to continue.''\<rparr>,
    \<lparr>info_code = ITEM_INVALID,
     info_title =
      ''A queue item cannot be run'',
     info_meaning =
      ''The item names a plan that is not in the profile, a device that does not exist, or '' @
      ''arguments the plan does not accept.'',
     info_remedy =
      ''Check `qsctl plans` / `qsctl devices` and the item's args; edit or remove the item.''\<rparr>,
    \<lparr>info_code = QUEUE_EMPTY,
     info_title =
      ''The queue is empty'',
     info_meaning =
      ''`queue/start` was called with nothing to run (bluesky-queueserver's wording is kept '' @
      ''for client compatibility).'',
     info_remedy =
      ''Add items first.''\<rparr>,
    \<lparr>info_code = QUEUE_REFUSED,
     info_title =
      ''A queue operation was refused'',
     info_meaning =
      ''The queue is in a state where the operation makes no sense (e.g. stop while not '' @
      ''running, start with no profile loaded).'',
     info_remedy =
      ''Check `qsctl status`.''\<rparr>,
    \<lparr>info_code = EXPERIMENT_UNSYNCED,
     info_title =
      ''No experiment is synced'',
     info_meaning =
      ''engine.require_synced_experiment is on and the profile's RE.md has no '' @
      ''`data_session`, so data would be written without a proposal.'',
     info_remedy =
      ''Run `sync-experiment` (nslsii) for the proposal, then start the queue again.''\<rparr>,
    \<lparr>info_code = DB_UNAVAILABLE,
     info_title =
      ''The queue database is unreachable'',
     info_meaning =
      ''A history entry could not be written (or the queue could not be read). The finished '' @
      ''item's outcome is held in memory (`qs.pending_history`) and the queue stopped; the '' @
      ''running plan was never affected.'',
     info_remedy =
      ''Restore the database. `qsctl queue start` writes the held entries first and refuses '' @
      ''until that succeeds.''\<rparr>,
    \<lparr>info_code = ENGINE_FAULT,
     info_title =
      ''The engine host hit an internal fault'',
     info_meaning =
      ''Something outside the plan (the engine thread, an event consumer, a bookkeeping '' @
      ''step) raised. The plan's outcome is still recorded; the queue stopped.'',
     info_remedy =
      ''Report it with the log line; the traceback is at DEBUG. Start the queue again.''\<rparr>,
    \<lparr>info_code = ENGINE_BUSY,
     info_title =
      ''The engine is busy or idle in a way that refuses the command'',
     info_meaning =
      ''pause/resume/abort/stop/halt was sent in a state that cannot accept it (e.g. resume '' @
      ''while nothing is paused).'',
     info_remedy =
      ''Check `qsctl status` for the engine state.''\<rparr>,
    \<lparr>info_code = AUTH,
     info_title =
      ''Authentication failed'',
     info_meaning =
      ''The request carried no API key, an unknown key, or a key without the needed scope.'',
     info_remedy =
      ''Send `Authorization: ApiKey <key>` with the configured '' @
      ''QSERVER_HTTP_SERVER_SINGLE_USER_API_KEY.''\<rparr>,
    \<lparr>info_code = UNSUPPORTED,
     info_title =
      ''The route is not supported by qs'',
     info_meaning =
      ''bluesky-httpserver operations that qs deliberately does not implement (locks, '' @
      ''function/script execution, IPython kernel, test routes) answer success=false.'',
     info_remedy =
      ''Use the queue: everything qs does happens through plans.''\<rparr>,
    \<lparr>info_code = INTERNAL,
     info_title =
      ''Unhandled internal error'',
     info_meaning =
      ''An HTTP handler raised an exception qs did not anticipate. The running plan is '' @
      ''unaffected.'',
     info_remedy =
      ''Report it with the log line (journalctl shows the traceback at DEBUG).''\<rparr>]"

text \<open>The dictionary comprehension \<open>{info.code: info for info in ...}\<close>.\<close>

definition CATALOGUE :: "(error_code \<times> error_info) list" where
  "CATALOGUE = fold (\<lambda>i d. AList.update (info_code i) i d) error_infos []"

text \<open>\<open>"\\n".join(lines)\<close>.\<close>

fun join_lines :: "string list \<Rightarrow> string" where
  "join_lines [] = []"
| "join_lines [l] = l"
| "join_lines (l # ls) = l @ [char_of (10 :: nat)] @ join_lines ls"

definition render_info :: "error_info \<Rightarrow> string list" where
  "render_info i =
    [''## '' @ code_str (info_code i) @ '': '' @ info_title i, [], info_meaning i, [],
     ''**Remedy:** '' @ info_remedy i, []]"

definition render_markdown :: string where
  "render_markdown = join_lines (
    [''# qs error codes'', [],
     ''Generated from `src/qs/errors.py` (`python -m qs.errors > docs/errors.md`). Each code appears'',
     ''in the log headline, in `qs.last_error` and in the `code` field of HTTP failure bodies.'', []]
    @ concat (map (render_info \<circ> snd) CATALOGUE))"

lemma code_str_inj: "code_str a = code_str b \<Longrightarrow> a = b"
  by (cases a; cases b; simp)

lemma code_str_nonempty [simp]: "code_str c \<noteq> []"
  by (cases c) simp_all

lemma error_codes_all: "set error_codes = UNIV" "distinct error_codes"
proof -
  have "c \<in> set error_codes" for c by (cases c) (simp_all add: error_codes_def)
  then show "set error_codes = UNIV" by blast
qed (simp add: error_codes_def)

lemma map_info_code: "map info_code error_infos = error_codes"
  by (simp add: error_infos_def error_codes_def)

lemma fold_update_fresh:
  "distinct (map f xs) \<Longrightarrow> \<forall>x \<in> set xs. f x \<notin> fst ` set d \<Longrightarrow>
   fold (\<lambda>x d. AList.update (f x) x d) xs d = d @ map (\<lambda>x. (f x, x)) xs"
proof (induction xs arbitrary: d)
  case Nil
  then show ?case by simp
next
  case (Cons x xs)
  have upd: "AList.update (f x) x d = d @ [(f x, x)]"
    using Cons.prems(2) by (induction d) auto
  have "fold (\<lambda>x d. AList.update (f x) x d) xs (d @ [(f x, x)])
      = (d @ [(f x, x)]) @ map (\<lambda>x. (f x, x)) xs"
    using Cons.prems by (intro Cons.IH) (auto, metis rev_image_eqI)
  with upd show ?case by simp
qed

lemma CATALOGUE_eq: "CATALOGUE = map (\<lambda>i. (info_code i, i)) error_infos"
  by (simp add: CATALOGUE_def fold_update_fresh map_info_code error_codes_all)

end
