(* ===== verification/PyValue.thy ===== *)
theory PyValue
  imports ErrorCodes "HOL-Library.List_Lexorder" "HOL-Library.Char_ord"
begin

section \<open>Python values and dictionaries\<close>

text \<open>
  The values that queue items, request payloads and responses carry, with the operations of
  the language the source applies to them: truth, \<open>str\<close>, \<open>list\<close> and \<open>dict\<close> conversion,
  dictionaries in insertion order (association lists, \<open>AList.update\<close> being \<open>d[k] = v\<close>),
  f-strings, and the exception classes of the program.

  An object that is not plain data (a device, a plan function) is a reference \<open>PObj n\<close>; what
  its attributes are is code outside the repository, a parameter where it is used. A float is
  the rational number it denotes; rounding is not modelled. Strings are sequences of
  characters up to code point 255. Dictionary keys are compared structurally: Python also
  identifies \<open>1\<close>, \<open>1.0\<close> and \<open>True\<close>, which the program never uses as keys.
\<close>

datatype pyval =
    PNone
  | PBool bool
  | PInt int
  | PFloat rat
  | PStr string
  | PList "pyval list"
  | PTuple "pyval list"
  | PSet "pyval list"
  | PDict "(pyval \<times> pyval) list"
  | PObj nat

type_synonym pydict = "(pyval \<times> pyval) list"

subsection \<open>Truth, classes\<close>

text \<open>\<open>bool(v)\<close>. An object is true unless its class says otherwise, which none here does.\<close>

fun truthy :: "pyval \<Rightarrow> bool" where
  "truthy PNone = False"
| "truthy (PBool b) = b"
| "truthy (PInt i) = (i \<noteq> 0)"
| "truthy (PFloat r) = (r \<noteq> 0)"
| "truthy (PStr s) = (s \<noteq> [])"
| "truthy (PList xs) = (xs \<noteq> [])"
| "truthy (PTuple xs) = (xs \<noteq> [])"
| "truthy (PSet xs) = (xs \<noteq> [])"
| "truthy (PDict d) = (d \<noteq> [])"
| "truthy (PObj n) = True"

text \<open>\<open>a or b\<close>.\<close>

definition py_or :: "pyval \<Rightarrow> pyval \<Rightarrow> pyval" where
  "py_or a b = (if truthy a then a else b)"

text \<open>\<open>isinstance(v, int)\<close>: a \<open>bool\<close> is an \<open>int\<close>.\<close>

fun as_int :: "pyval \<Rightarrow> int option" where
  "as_int (PInt i) = Some i"
| "as_int (PBool b) = Some (if b then 1 else 0)"
| "as_int _ = None"

fun is_dict :: "pyval \<Rightarrow> bool" where
  "is_dict (PDict _) = True"
| "is_dict _ = False"

fun is_list :: "pyval \<Rightarrow> bool" where
  "is_list (PList _) = True"
| "is_list _ = False"

fun as_list :: "pyval \<Rightarrow> pyval list" where
  "as_list (PList xs) = xs"
| "as_list _ = []"

fun as_dict :: "pyval \<Rightarrow> pydict" where
  "as_dict (PDict d) = d"
| "as_dict _ = []"

fun hashable :: "pyval \<Rightarrow> bool" where
  "hashable (PList _) = False"
| "hashable (PSet _) = False"
| "hashable (PDict _) = False"
| "hashable (PTuple xs) = list_all hashable xs"
| "hashable _ = True"

subsection \<open>Dictionaries\<close>

text \<open>\<open>d.get(k)\<close> on a dictionary with string keys; \<open>PNone\<close> when the key is missing.\<close>

definition dget :: "string \<Rightarrow> pydict \<Rightarrow> pyval" where
  "dget k d = (case map_of d (PStr k) of None \<Rightarrow> PNone | Some v \<Rightarrow> v)"

text \<open>\<open>d.get(k, default)\<close>.\<close>

definition dget_or :: "string \<Rightarrow> pyval \<Rightarrow> pydict \<Rightarrow> pyval" where
  "dget_or k v0 d = (case map_of d (PStr k) of None \<Rightarrow> v0 | Some v \<Rightarrow> v)"

definition dhas :: "string \<Rightarrow> pydict \<Rightarrow> bool" where
  "dhas k d \<longleftrightarrow> map_of d (PStr k) \<noteq> None"

text \<open>\<open>d.update(e)\<close> and \<open>{**d, **e}\<close>: in place where the key exists, else appended.\<close>

definition dict_update :: "('k \<times> 'v) list \<Rightarrow> ('k \<times> 'v) list \<Rightarrow> ('k \<times> 'v) list" where
  "dict_update d e = fold (\<lambda>(k, v). AList.update k v) e d"

lemma map_of_dict_update:
  "distinct (map fst e) \<Longrightarrow> map_of (dict_update d e) = map_of d ++ map_of e"
proof (induction e arbitrary: d)
  case Nil
  then show ?case by (simp add: dict_update_def)
next
  case (Cons p e)
  obtain k v where p: "p = (k, v)" by force
  have "map_of (dict_update d (p # e)) = map_of (dict_update (AList.update k v d) e)"
    by (simp add: p dict_update_def)
  also have "\<dots> = (map_of d)(k \<mapsto> v) ++ map_of e"
    using Cons by (simp add: update_conv')
  also have "\<dots> = map_of d ++ map_of (p # e)"
  proof -
    from Cons.prems have "k \<notin> dom (map_of e)" by (simp add: p dom_map_of_conv_image_fst)
    then show ?thesis by (simp add: p map_add_upd_left)
  qed
  finally show ?case .
qed

lemma dom_dict_update: "fst ` set (dict_update d e) = fst ` set d \<union> fst ` set e"
proof (induction e arbitrary: d)
  case Nil
  then show ?case by (simp add: dict_update_def)
next
  case (Cons p e)
  have "dict_update d (p # e) = dict_update (AList.update (fst p) (snd p) d) e"
    by (simp add: dict_update_def case_prod_beta)
  with Cons show ?case by (auto simp: dom_update)
qed

lemma distinct_dict_update: "distinct (map fst d) \<Longrightarrow> distinct (map fst (dict_update d e))"
proof (induction e arbitrary: d)
  case Nil
  then show ?case by (simp add: dict_update_def)
next
  case (Cons p e)
  have "dict_update d (p # e) = dict_update (AList.update (fst p) (snd p) d) e"
    by (simp add: dict_update_def case_prod_beta)
  with Cons show ?case by (simp add: distinct_update)
qed

subsection \<open>Conversions: \<open>str\<close>, \<open>list\<close>, \<open>dict\<close>\<close>

fun show_nat :: "nat \<Rightarrow> string" where
  "show_nat n = (if n < 10 then [char_of (48 + n)] else show_nat (n div 10) @ [char_of (48 + n mod 10)])"

declare show_nat.simps [simp del]

definition show_int :: "int \<Rightarrow> string" where
  "show_int i = (if i < 0 then ''-'' @ show_nat (nat (- i)) else show_nat (nat i))"

text \<open>
  \<open>str(v)\<close>. How floats, containers and objects print is left to \<open>fmt\<close>, a parameter: the
  program only passes such texts on.
\<close>

fun py_str :: "(pyval \<Rightarrow> string) \<Rightarrow> pyval \<Rightarrow> string" where
  "py_str fmt PNone = ''None''"
| "py_str fmt (PBool b) = (if b then ''True'' else ''False'')"
| "py_str fmt (PInt i) = show_int i"
| "py_str fmt (PStr s) = s"
| "py_str fmt v = fmt v"

subsection \<open>Texts built by f-strings\<close>

text \<open>
  An f-string is the list of its parts: literal text, \<open>{v!r}\<close> and \<open>{v}\<close>. Messages keep
  this form, so that a theorem can say which value a message names without modelling how
  \<open>repr\<close> quotes it.
\<close>

datatype fpart = Txt string | Rep pyval | Fmt pyval

type_synonym fstring = "fpart list"

text \<open>Whether the text is non-empty; a formatted or quoted value always prints something.\<close>

definition text_nonempty :: "fstring \<Rightarrow> bool" where
  "text_nonempty t \<longleftrightarrow> (\<exists>p \<in> set t. case p of Txt s \<Rightarrow> s \<noteq> [] | _ \<Rightarrow> True)"

text \<open>\<open>a or b\<close> on texts.\<close>

definition text_or :: "fstring \<Rightarrow> fstring \<Rightarrow> fstring" where
  "text_or a b = (if text_nonempty a then a else b)"

lemma text_nonempty_simps [simp]:
  "\<not> text_nonempty []"
  "text_nonempty (Txt s # t) \<longleftrightarrow> s \<noteq> [] \<or> text_nonempty t"
  "text_nonempty (Rep v # t)" "text_nonempty (Fmt v # t)"
  by (auto simp: text_nonempty_def)

lemma text_or_Nil [simp]: "text_or [] b = b"
  by (simp add: text_or_def)

text \<open>\<open>t.startswith(p)\<close> for a text whose first part is literal (a class name and more).\<close>

fun text_starts_with :: "string \<Rightarrow> fstring \<Rightarrow> bool" where
  "text_starts_with p (Txt s # t) = prefix p s"
| "text_starts_with p t = (p = [])"

subsection \<open>Exceptions\<close>

text \<open>
  The classes the program raises or catches. A \<open>SequencerError\<close> carries its catalogue code, an
  \<open>AuthenticationError\<close> its HTTP status.
\<close>

datatype exn_class =
    QueueError
  | RegistryError
  | SequencerError error_code
  | EngineHostError
  | DeviceDefinitionError
  | AuthenticationError int
  | ValueError
  | KeyError
  | IndexError
  | TypeError
  | AttributeError
  | FileNotFoundError
  | RuntimeError
  | OtherException string
  | BaseExceptionOnly string

datatype exn = Exn (exn_class: "exn_class") (exn_text: fstring)

text \<open>\<open>type(exc).__name__\<close>.\<close>

fun class_name :: "exn_class \<Rightarrow> string" where
  "class_name QueueError = ''QueueError''"
| "class_name RegistryError = ''RegistryError''"
| "class_name (SequencerError _) = ''SequencerError''"
| "class_name EngineHostError = ''EngineHostError''"
| "class_name DeviceDefinitionError = ''DeviceDefinitionError''"
| "class_name (AuthenticationError _) = ''AuthenticationError''"
| "class_name ValueError = ''ValueError''"
| "class_name KeyError = ''KeyError''"
| "class_name IndexError = ''IndexError''"
| "class_name TypeError = ''TypeError''"
| "class_name AttributeError = ''AttributeError''"
| "class_name FileNotFoundError = ''FileNotFoundError''"
| "class_name RuntimeError = ''RuntimeError''"
| "class_name (OtherException n) = n"
| "class_name (BaseExceptionOnly n) = n"

text \<open>\<open>isinstance(exc, Exception)\<close>: all but \<open>KeyboardInterrupt\<close>, \<open>SystemExit\<close> and their kin.\<close>

fun is_exception :: "exn_class \<Rightarrow> bool" where
  "is_exception (BaseExceptionOnly _) = False"
| "is_exception _ = True"

text \<open>\<open>isinstance(exc, ValueError)\<close>: the program's own subclasses included.\<close>

fun is_value_error :: "exn_class \<Rightarrow> bool" where
  "is_value_error ValueError = True"
| "is_value_error QueueError = True"
| "is_value_error DeviceDefinitionError = True"
| "is_value_error _ = False"

text \<open>\<open>f"{type(exc).__name__}: {exc}"\<close>.\<close>

definition typed_text :: "exn \<Rightarrow> fstring" where
  "typed_text e = Txt (class_name (exn_class e)) # Txt '': '' # exn_text e"

text \<open>
  \<open>list(v)\<close>: a string gives its characters, a dictionary its keys; anything that cannot be
  iterated raises \<open>TypeError\<close>.
\<close>

fun py_list :: "pyval \<Rightarrow> exn + pyval list" where
  "py_list (PList xs) = Inr xs"
| "py_list (PTuple xs) = Inr xs"
| "py_list (PSet xs) = Inr xs"
| "py_list (PStr s) = Inr (map (\<lambda>c. PStr [c]) s)"
| "py_list (PDict d) = Inr (map fst d)"
| "py_list v = Inl (Exn TypeError [Txt ''object is not iterable''])"

text \<open>
  \<open>dict(v)\<close>: a dictionary is copied; a sequence must hold pairs (two-element sequences, two
  characters) with hashable keys; anything else raises.
\<close>

definition pair_of :: "pyval \<Rightarrow> exn + pyval \<times> pyval" where
  "pair_of v = (case py_list v of
     Inl _ \<Rightarrow> Inl (Exn TypeError [Txt ''cannot convert dictionary update sequence element to a sequence''])
   | Inr [k, x] \<Rightarrow> (if hashable k then Inr (k, x) else Inl (Exn TypeError [Txt ''unhashable type'']))
   | Inr _ \<Rightarrow> Inl (Exn ValueError [Txt ''dictionary update sequence element: length 2 is required'']))"

fun dict_of_pairs :: "pyval list \<Rightarrow> pydict \<Rightarrow> exn + pydict" where
  "dict_of_pairs [] d = Inr d"
| "dict_of_pairs (v # vs) d =
     (case pair_of v of Inl e \<Rightarrow> Inl e | Inr (k, x) \<Rightarrow> dict_of_pairs vs (AList.update k x d))"

fun py_dict :: "pyval \<Rightarrow> exn + pydict" where
  "py_dict (PDict d) = Inr d"
| "py_dict v = (case py_list v of
     Inl _ \<Rightarrow> Inl (Exn TypeError [Txt ''object is not iterable'']) | Inr vs \<Rightarrow> dict_of_pairs vs [])"

lemma dict_of_pairs_distinct:
  "distinct (map fst d) \<Longrightarrow> dict_of_pairs vs d = Inr d' \<Longrightarrow> distinct (map fst d')"
proof (induction vs arbitrary: d)
  case Nil
  then show ?case by simp
next
  case (Cons v vs)
  then show ?case by (auto split: sum.splits prod.splits intro: distinct_update)
qed

end
