(* ===== verification/PyString.thy ===== *)
theory PyString
  imports PyValue
begin

section \<open>String methods\<close>

text \<open>
  The \<open>str\<close> methods the program calls: \<open>partition\<close>, \<open>split\<close> on a one-character separator,
  \<open>strip\<close>, \<open>lower\<close> and \<open>join\<close>. Case and white space are those of the code points up to 255.
\<close>

text \<open>\<open>s.partition(c)\<close>: head, whether the separator occurs, tail.\<close>

definition partition_at :: "char \<Rightarrow> string \<Rightarrow> string \<times> bool \<times> string" where
  "partition_at c s =
     (case dropWhile (\<lambda>x. x \<noteq> c) s of [] \<Rightarrow> (s, False, [])
      | _ # rest \<Rightarrow> (takeWhile (\<lambda>x. x \<noteq> c) s, True, rest))"

text \<open>\<open>s.split(c)\<close>: never empty; \<open>join\<close> undoes it.\<close>

fun split_on :: "char \<Rightarrow> string \<Rightarrow> string list" where
  "split_on c [] = [[]]"
| "split_on c (x # xs) =
     (if x = c then [] # split_on c xs
      else (case split_on c xs of [] \<Rightarrow> [[x]] | w # ws \<Rightarrow> (x # w) # ws))"

fun join_with :: "string \<Rightarrow> string list \<Rightarrow> string" where
  "join_with sep [] = []"
| "join_with sep [w] = w"
| "join_with sep (w # ws) = w @ sep @ join_with sep ws"

definition is_space :: "char \<Rightarrow> bool" where
  "is_space c \<longleftrightarrow> of_char c \<in> {9, 10, 11, 12, 13, 28, 29, 30, 31, 32, 133, 160 :: nat}"

definition strip :: "string \<Rightarrow> string" where
  "strip s = rev (dropWhile is_space (rev (dropWhile is_space s)))"

definition lower_char :: "char \<Rightarrow> char" where
  "lower_char c = (let n = of_char c :: nat in 
     if 65 \<le> n \<and> n \<le> 90 \<or> 192 \<le> n \<and> n \<le> 222 \<and> n \<noteq> 215 then char_of (n + 32) else c)"

definition lower :: "string \<Rightarrow> string" where
  "lower s = map lower_char s"

lemma split_on_not_Nil [simp]: "split_on c s \<noteq> []"
  by (induction s) (auto split: list.split)

lemma join_split: "join_with [c] (split_on c s) = s"
proof (induction s)
  case Nil
  then show ?case by simp
next
  case (Cons x xs)
  obtain w ws where w: "split_on c xs = w # ws" by (cases "split_on c xs") auto
  have eq: "join_with [c] ((x # w) # ws) = x # join_with [c] (w # ws)" by (cases ws) auto
  from Cons w show ?case by (cases "x = c") (simp_all add: eq)
qed

lemma split_on_no_sep: "w \<in> set (split_on c s) \<Longrightarrow> c \<notin> set w"
proof (induction s arbitrary: w)
  case Nil
  then show ?case by simp
next
  case (Cons x xs)
  obtain v vs where v: "split_on c xs = v # vs" by (cases "split_on c xs") auto
  then have "c \<notin> set v" using Cons.IH by simp
  with Cons v show ?case by (auto split: if_splits)
qed

lemma partition_at_absent: "c \<notin> set s \<Longrightarrow> partition_at c s = (s, False, [])"
proof -
  assume "c \<notin> set s"
  then have "dropWhile (\<lambda>x. x \<noteq> c) s = []" unfolding dropWhile_eq_Nil_conv by auto
  then show ?thesis by (simp only: partition_at_def list.case)
qed

lemma partition_at_append: "c \<notin> set h \<Longrightarrow> partition_at c (h @ c # t) = (h, True, t)"
proof -
  assume "c \<notin> set h"
  then have "dropWhile (\<lambda>x. x \<noteq> c) (h @ c # t) = c # t"
    and "takeWhile (\<lambda>x. x \<noteq> c) (h @ c # t) = h"
    by (induction h) auto
  then show ?thesis by (simp add: partition_at_def)
qed

end
