(* ===== verification/PlanBinding.thy ===== *)
theory PlanBinding
  imports PyString
begin

section \<open>Does a call fit a plan's signature? (\<open>inspect.signature(plan).bind\<close>)\<close>

text \<open>
  \<open>QueueService._check_parameters\<close> binds an item's arguments to the plan's signature with the
  standard library's \<open>inspect.Signature.bind\<close>. A plan is an object outside the repository: the
  model keeps its identity and what \<open>inspect.signature\<close> says of it (nothing, when it is not
  introspectable). \<open>bind_call\<close> is the two-phase loop of the library; \<open>fits\<close> says which calls
  Python accepts, and the two agree on every well-formed signature.
\<close>

datatype param_kind = POSITIONAL_ONLY | POSITIONAL_OR_KEYWORD | VAR_POSITIONAL | KEYWORD_ONLY | VAR_KEYWORD

fun kind_value :: "param_kind \<Rightarrow> nat" where
  "kind_value POSITIONAL_ONLY = 0"
| "kind_value POSITIONAL_OR_KEYWORD = 1"
| "kind_value VAR_POSITIONAL = 2"
| "kind_value KEYWORD_ONLY = 3"
| "kind_value VAR_KEYWORD = 4"

instantiation param_kind :: linorder
begin

definition less_eq_param_kind :: "param_kind \<Rightarrow> param_kind \<Rightarrow> bool" where
  "less_eq_param_kind a b \<longleftrightarrow> kind_value a \<le> kind_value b"

definition less_param_kind :: "param_kind \<Rightarrow> param_kind \<Rightarrow> bool" where
  "less_param_kind a b \<longleftrightarrow> kind_value a < kind_value b"

instance
proof
  fix a b :: param_kind
  assume "a \<le> b" "b \<le> a"
  then show "a = b" by (cases a; cases b) (simp_all add: less_eq_param_kind_def)
qed (auto simp: less_eq_param_kind_def less_param_kind_def)

end

record parameter =
  par_name :: string
  par_kind :: param_kind
  par_has_default :: bool

record plan_factory =
  pf_id :: nat
  pf_signature :: "parameter list option"

text \<open>The positional phase; what is left of the parameters for the keyword phase.\<close>

fun bind_positional :: "parameter list \<Rightarrow> 'v list \<Rightarrow> string list \<Rightarrow> fstring + parameter list" where
  "bind_positional [] [] kw = Inr []"
| "bind_positional [] (_ # _) kw = Inl [Txt ''too many positional arguments'']"
| "bind_positional (p # ps) [] kw =
     (if par_kind p = VAR_POSITIONAL then Inr ps
      else if par_kind p = POSITIONAL_ONLY then
        (if par_has_default p then bind_positional ps [] kw
         else Inl [Txt ''missing a required positional-only argument: '', Rep (PStr (par_name p))])
      else if par_name p \<in> set kw \<or> par_kind p = VAR_KEYWORD \<or> par_has_default p then Inr (p # ps)
      else Inl [Txt ''missing a required argument: '', Rep (PStr (par_name p))])"
| "bind_positional (p # ps) (a # as) kw =
     (if par_kind p \<in> {VAR_KEYWORD, KEYWORD_ONLY} then Inl [Txt ''too many positional arguments'']
      else if par_kind p = VAR_POSITIONAL then Inr ps
      else if par_name p \<in> set kw \<and> par_kind p \<noteq> POSITIONAL_ONLY
        then Inl [Txt ''multiple values for argument '', Rep (PStr (par_name p))]
      else bind_positional ps as kw)"

text \<open>The keyword phase: \<open>kw\<close> shrinks (\<open>kwargs.pop\<close>), \<open>vk\<close> remembers a \<open>**kwargs\<close>.\<close>

fun bind_keywords :: "parameter list \<Rightarrow> string list \<Rightarrow> bool \<Rightarrow> fstring option" where
  "bind_keywords [] [] vk = None"
| "bind_keywords [] (k # kw) vk =
     (if vk then None else Some [Txt ''got an unexpected keyword argument '', Rep (PStr k)])"
| "bind_keywords (p # ps) kw vk =
     (if par_kind p = VAR_KEYWORD then bind_keywords ps kw True
      else if par_kind p \<in> {VAR_POSITIONAL, POSITIONAL_ONLY} then bind_keywords ps kw vk
      else if par_name p \<in> set kw then bind_keywords ps (filter (\<lambda>k. k \<noteq> par_name p) kw) vk
      else if par_has_default p then bind_keywords ps kw vk
      else Some [Txt ''missing a required argument: '', Rep (PStr (par_name p))])"

text \<open>\<open>bind\<close>: the text of the \<open>TypeError\<close>, or \<open>None\<close> when the call binds.\<close>

definition bind_call :: "parameter list \<Rightarrow> 'v list \<Rightarrow> string list \<Rightarrow> fstring option" where
  "bind_call sig args kw =
     (case bind_positional sig args kw of Inl t \<Rightarrow> Some t | Inr ps \<Rightarrow> bind_keywords ps kw False)"

text \<open>\<open>f(**kwargs)\<close> accepts string keys only.\<close>

fun string_keys :: "pydict \<Rightarrow> string list option" where
  "string_keys [] = Some []"
| "string_keys ((k, _) # d) = (case k of PStr s \<Rightarrow> map_option (Cons s) (string_keys d) | _ \<Rightarrow> None)"

definition bind_item :: "parameter list \<Rightarrow> pyval list \<Rightarrow> pydict \<Rightarrow> fstring option" where
  "bind_item sig args kwargs =
     (case string_keys kwargs of
        None \<Rightarrow> Some [Txt ''keywords must be strings'']
      | Some kw \<Rightarrow> bind_call sig args kw)"

subsection \<open>Which calls Python accepts\<close>

definition wf_signature :: "parameter list \<Rightarrow> bool" where
  "wf_signature sig \<longleftrightarrow> distinct (map par_name sig) \<and> sorted (map par_kind sig)"

definition is_positional :: "parameter \<Rightarrow> bool" where
  "is_positional p \<longleftrightarrow> par_kind p \<le> POSITIONAL_OR_KEYWORD"

definition keywordable :: "parameter \<Rightarrow> bool" where
  "keywordable p \<longleftrightarrow> par_kind p \<in> {POSITIONAL_OR_KEYWORD, KEYWORD_ONLY}"

text \<open>
  The \<open>n\<close> first positional parameters take the positional arguments; there are enough of them
  or a \<open>*args\<close>; no keyword names one of those; every other parameter has a default or is named;
  every keyword names a parameter that may be named, or there is a \<open>**kwargs\<close>.
\<close>

definition fits :: "parameter list \<Rightarrow> nat \<Rightarrow> string list \<Rightarrow> bool" where
  "fits sig n kw \<longleftrightarrow>
     (let pos = filter is_positional sig;
          filled = take n pos;
          open_params = drop n pos @ filter (\<lambda>p. par_kind p = KEYWORD_ONLY) sig in
      (n \<le> length pos \<or> (\<exists>p \<in> set sig. par_kind p = VAR_POSITIONAL)) \<and>
      (\<forall>p \<in> set filled. par_kind p = POSITIONAL_ONLY \<or> par_name p \<notin> set kw) \<and>
      (\<forall>p \<in> set open_params. par_has_default p \<or> keywordable p \<and> par_name p \<in> set kw) \<and>
      ((\<exists>p \<in> set sig. par_kind p = VAR_KEYWORD) \<or>
       (\<forall>k \<in> set kw. \<exists>p \<in> set sig. keywordable p \<and> par_name p = k)))"

lemmas kind_order = less_eq_param_kind_def less_param_kind_def

lemma bind_keywords_iff:
  assumes "distinct (map par_name ps)"
  shows "bind_keywords ps kw vk = None \<longleftrightarrow>
    (\<forall>p \<in> set ps. keywordable p \<longrightarrow> par_has_default p \<or> par_name p \<in> set kw) \<and>
    (vk \<or> (\<exists>p \<in> set ps. par_kind p = VAR_KEYWORD) \<or>
     (\<forall>k \<in> set kw. \<exists>p \<in> set ps. keywordable p \<and> par_name p = k))"
  using assms
proof (induction ps kw vk rule: bind_keywords.induct)
  case (3 p ps kw vk)
  have d: "\<forall>q \<in> set ps. par_name q \<noteq> par_name p" "distinct (map par_name ps)"
    using "3.prems" by (auto dest: sym simp: image_iff)
  consider (vk) "par_kind p = VAR_KEYWORD" | (skip) "par_kind p \<in> {VAR_POSITIONAL, POSITIONAL_ONLY}"
    | (named) "keywordable p"
    by (cases "par_kind p") (auto simp: keywordable_def)
  then show ?case
  proof cases
    case vk
    with "3.IH"(1) d show ?thesis by (auto simp: keywordable_def)
  next
    case skip
    with "3.IH"(2) d show ?thesis by (auto simp: keywordable_def)
  next
    case named
    then have k: "par_kind p \<noteq> VAR_KEYWORD" "par_kind p \<notin> {VAR_POSITIONAL, POSITIONAL_ONLY}"
      by (auto simp: keywordable_def)
    show ?thesis
    proof (cases "par_name p \<in> set kw")
      case True
      have f: "par_name q \<in> set (filter (\<lambda>k. k \<noteq> par_name p) kw) \<longleftrightarrow> par_name q \<in> set kw"
        if "q \<in> set ps" for q using d(1) that by auto
      from True named k "3.IH"(3) d f show ?thesis by auto
    next
      case False
      with named k "3.IH"(4) d show ?thesis by auto
    qed
  qed
qed (auto)

lemma no_positional_after:
  assumes "sorted (map par_kind (p # ps))" "\<not> is_positional p"
  shows "filter is_positional ps = []" "filter is_positional (p # ps) = []"
proof -
  have "\<not> is_positional q" if "q \<in> set ps" for q
    using assms that by (fastforce simp: is_positional_def)
  then show "filter is_positional ps = []" by (simp add: filter_empty_conv)
  with assms(2) show "filter is_positional (p # ps) = []" by simp
qed

lemma fits_no_positional:
  assumes "filter is_positional sig = []"
  shows "fits sig n kw \<longleftrightarrow> (n = 0 \<or> (\<exists>p \<in> set sig. par_kind p = VAR_POSITIONAL)) \<and>
    (\<forall>p \<in> set sig. keywordable p \<longrightarrow> par_has_default p \<or> par_name p \<in> set kw) \<and>
    ((\<exists>p \<in> set sig. par_kind p = VAR_KEYWORD) \<or>
     (\<forall>k \<in> set kw. \<exists>p \<in> set sig. keywordable p \<and> par_name p = k))"
proof -
  have "keywordable p \<longleftrightarrow> par_kind p = KEYWORD_ONLY" if "p \<in> set sig" for p
    using assms that
    by (cases "par_kind p") (auto simp: filter_empty_conv is_positional_def keywordable_def kind_order)
  then show ?thesis unfolding fits_def assms Let_def by auto
qed

lemma fits_nullary:
  assumes "\<forall>p \<in> set sig. par_kind p \<noteq> POSITIONAL_ONLY"
  shows "fits sig 0 kw \<longleftrightarrow>
    (\<forall>p \<in> set sig. keywordable p \<longrightarrow> par_has_default p \<or> par_name p \<in> set kw) \<and>
    ((\<exists>p \<in> set sig. par_kind p = VAR_KEYWORD) \<or>
     (\<forall>k \<in> set kw. \<exists>p \<in> set sig. keywordable p \<and> par_name p = k))"
proof -
  have "is_positional p \<or> par_kind p = KEYWORD_ONLY \<longleftrightarrow> keywordable p" if "p \<in> set sig" for p
    using assms that
    by (cases "par_kind p") (auto simp: is_positional_def keywordable_def kind_order)
  then show ?thesis unfolding fits_def Let_def by auto
qed

lemma fits_filled:
  assumes "is_positional p" "par_kind p = POSITIONAL_ONLY \<or> par_name p \<notin> set kw"
  shows "fits (p # ps) (Suc n) kw \<longleftrightarrow> fits ps n kw"
proof -
  have k: "par_kind p \<noteq> VAR_POSITIONAL" "par_kind p \<noteq> KEYWORD_ONLY" "par_kind p \<noteq> VAR_KEYWORD"
    using assms(1) by (auto simp: is_positional_def kind_order)
  have "(\<exists>q \<in> set (p # ps). keywordable q \<and> par_name q = k) \<longleftrightarrow>
      (\<exists>q \<in> set ps. keywordable q \<and> par_name q = k)" if "k \<in> set kw" for k
    using assms(2) that by (auto simp: keywordable_def)
  then have "(\<forall>k \<in> set kw. \<exists>q \<in> set (p # ps). keywordable q \<and> par_name q = k) \<longleftrightarrow>
      (\<forall>k \<in> set kw. \<exists>q \<in> set ps. keywordable q \<and> par_name q = k)"
    by blast
  with assms k show ?thesis unfolding fits_def Let_def by simp
qed

lemma fits_defaulted:
  assumes "par_kind p = POSITIONAL_ONLY"
  shows "fits (p # ps) 0 kw \<longleftrightarrow> par_has_default p \<and> fits ps 0 kw"
  using assms unfolding fits_def Let_def by (auto simp: is_positional_def keywordable_def kind_order)

lemma bind_call_fits:
  "distinct (map par_name sig) \<Longrightarrow> sorted (map par_kind sig) \<Longrightarrow>
   bind_call sig args kw = None \<longleftrightarrow> fits sig (length args) kw"
proof (induction sig args kw rule: bind_positional.induct)
  case (1 kw)
  show ?case by (cases kw) (auto simp: bind_call_def fits_def)
next
  case (2 a as kw)
  show ?case by (simp add: bind_call_def fits_def)
next
  case (3 p ps kw)
  have d: "distinct (map par_name ps)" "sorted (map par_kind ps)" using "3.prems" by auto
  consider (vp) "par_kind p = VAR_POSITIONAL" | (po) "par_kind p = POSITIONAL_ONLY"
    | (other) "par_kind p > POSITIONAL_ONLY" "par_kind p \<noteq> VAR_POSITIONAL"
    by (cases "par_kind p") (auto simp: kind_order)
  then show ?case
  proof cases
    case vp
    then have "\<not> is_positional p" by (simp add: is_positional_def kind_order)
    note none = no_positional_after [OF "3.prems"(2) this]
    from vp show ?thesis
      by (auto simp: bind_call_def bind_keywords_iff [OF d(1)] fits_no_positional [OF none(2)] keywordable_def)
  next
    case po
    with "3.IH" d show ?thesis by (simp add: bind_call_def fits_defaulted)
  next
    case other
    then have "\<forall>q \<in> set (p # ps). par_kind q \<noteq> POSITIONAL_ONLY"
      using "3.prems"(2) by (auto simp: kind_order)
    note f = fits_nullary [OF this, of kw]
    have "bind_call (p # ps) ([] :: 'a list) kw = None \<longleftrightarrow>
        (par_name p \<in> set kw \<or> par_kind p = VAR_KEYWORD \<or> par_has_default p) \<and>
        bind_keywords (p # ps) kw False = None"
      using other by (cases "par_kind p") (simp_all add: bind_call_def kind_order del: bind_keywords.simps)
    also have "\<dots> \<longleftrightarrow> fits (p # ps) 0 kw"
      using other unfolding bind_keywords_iff [OF "3.prems"(1)] f
      by (cases "par_kind p") (auto simp: keywordable_def kind_order)
    finally show ?thesis by simp
  qed
next
  case (4 p ps a as kw)
  have d: "distinct (map par_name ps)" "sorted (map par_kind ps)" using "4.prems" by auto
  show ?case
  proof (cases "is_positional p")
    case False
    note none = no_positional_after [OF "4.prems"(2) False]
    have "\<forall>q \<in> set ps. par_kind p \<le> par_kind q" using "4.prems"(2) by simp
    with False show ?thesis
      by (cases "par_kind p") (auto simp: bind_call_def bind_keywords_iff [OF d(1)]
        fits_no_positional [OF none(2)] keywordable_def is_positional_def kind_order)
  next
    case True
    then have k: "par_kind p \<notin> {VAR_KEYWORD, KEYWORD_ONLY}" "par_kind p \<noteq> VAR_POSITIONAL"
      by (auto simp: is_positional_def kind_order)
    show ?thesis
    proof (cases "par_kind p = POSITIONAL_ONLY \<or> par_name p \<notin> set kw")
      case True
      with \<open>is_positional p\<close> k "4.IH" d show ?thesis by (auto simp: bind_call_def fits_filled)
    next
      case False
      with \<open>is_positional p\<close> k show ?thesis by (auto simp: bind_call_def fits_def Let_def)
    qed
  qed
qed

text \<open>
  \<open>QueueService._check_parameters\<close>: a plan that cannot be introspected passes. \<open>nm\<close> is the
  item's name, as the message quotes it.
\<close>

definition check_parameters :: "plan_factory \<Rightarrow> string \<Rightarrow> pyval list \<Rightarrow> pydict \<Rightarrow> exn + unit" where
  "check_parameters plan nm args kwargs =
     (case pf_signature plan of
        None \<Rightarrow> Inr ()
      | Some sig \<Rightarrow>
          (case bind_item sig args kwargs of
             None \<Rightarrow> Inr ()
           | Some t \<Rightarrow> Inl (Exn QueueError
               ([Txt ''Item does not fit plan '', Rep (PStr nm), Txt '': ''] @ t))))"

lemma string_keys_Some: "string_keys d = Some kw \<longleftrightarrow> map fst d = map PStr kw"
  by (induction d arbitrary: kw) (auto split: pyval.splits)

end
