(* ===== verification/Diagnostics.thy ===== *)
theory Diagnostics
  imports PyString
begin

section \<open>The root cause of an exception (\<open>diagnostics.py\<close>)\<close>

text \<open>
  Exceptions that reach the service from plans and devices form a graph: \<open>__cause__\<close>,
  \<open>__context__\<close>, and the status object inside a bluesky \<open>FailedStatus\<close>. The model keeps the
  exception objects of one report in a list; an index stands for \<open>id(exc)\<close>. What a
  \<open>FailedStatus\<close> says of its status is code of bluesky: \<open>xo_status\<close> is the exception it leads
  to, if any. \<open>root_cause\<close> follows the links with the set of objects already seen, so a cycle
  ends the loop. The dash in the messages, U+2014 in the source, is written as a hyphen.
\<close>

record stack_frame =
  fr_filename :: string
  fr_lineno :: nat
  fr_name :: string

record exn_object =
  xo_class :: string
  xo_text :: string
  xo_is_exception :: bool
  xo_status :: "nat option"
  xo_cause :: "nat option"
  xo_context :: "nat option"
  xo_suppress_context :: bool
  xo_frames :: "stack_frame list"

type_synonym exn_heap = "exn_object list"

text \<open>Every link leads to an object of the list.\<close>

definition heap_closed :: "exn_heap \<Rightarrow> bool" where
  "heap_closed h \<longleftrightarrow> (\<forall>x \<in> set h. \<forall>n \<in> set_option (xo_status x) \<union> set_option (xo_cause x) \<union>
     set_option (xo_context x). n < length h)"

text \<open>\<open>__cause__ or (None if __suppress_context__ else __context__)\<close>.\<close>

definition next_outer :: "exn_object \<Rightarrow> nat option" where
  "next_outer x = (case xo_cause x of Some n \<Rightarrow> Some n
     | None \<Rightarrow> (if xo_suppress_context x then None else xo_context x))"

text \<open>\<open>_status_exception\<close>: only a \<open>FailedStatus\<close> is opened.\<close>

definition status_exception :: "exn_object \<Rightarrow> nat option" where
  "status_exception x = (if xo_class x \<noteq> ''FailedStatus'' then None else xo_status x)"

definition next_cause :: "exn_heap \<Rightarrow> nat \<Rightarrow> nat option" where
  "next_cause h n =
     (case status_exception (h ! n) of
        Some m \<Rightarrow> if m \<noteq> n then Some m
          else (case next_outer (h ! n) of Some k \<Rightarrow> if k = n then None else Some k | None \<Rightarrow> None)
      | None \<Rightarrow> (case next_outer (h ! n) of Some k \<Rightarrow> if k = n then None else Some k | None \<Rightarrow> None))"

text \<open>The loop; an index outside the list stands for no object and is not followed.\<close>

function root_loop :: "exn_heap \<Rightarrow> nat list \<Rightarrow> nat \<Rightarrow> nat" where
  "root_loop h seen n =
     (if n \<in> set seen \<or> \<not> n < length h then n
      else (case next_cause h n of None \<Rightarrow> n | Some m \<Rightarrow> root_loop h (n # seen) m))"
  by auto
termination
proof (relation "measure (\<lambda>(h, seen, n). card ({..<length h} - set seen))", simp, goal_cases)
  case (1 h seen n m)
  then have "{..<length h} - set (n # seen) \<subset> {..<length h} - set seen" by auto
  then have "card ({..<length h} - set (n # seen)) < card ({..<length h} - set seen)"
    by (rule psubset_card_mono [rotated]) simp
  then show ?case by simp
qed

declare root_loop.simps [simp del]

definition root_cause :: "exn_heap \<Rightarrow> nat \<Rightarrow> nat" where
  "root_cause h exc = root_loop h [] exc"

text \<open>\<open>_chain\<close>: the root cause first, then outwards from the exception itself.\<close>

function outer_loop :: "exn_heap \<Rightarrow> nat list \<Rightarrow> nat \<Rightarrow> nat list" where
  "outer_loop h seen n =
     (if n \<in> set seen \<or> \<not> n < length h then []
      else n # (case next_outer (h ! n) of None \<Rightarrow> [] | Some m \<Rightarrow> outer_loop h (n # seen) m))"
  by auto
termination
proof (relation "measure (\<lambda>(h, seen, n). card ({..<length h} - set seen))", simp, goal_cases)
  case (1 h seen n m)
  then have "{..<length h} - set (n # seen) \<subset> {..<length h} - set seen" by auto
  then have "card ({..<length h} - set (n # seen)) < card ({..<length h} - set seen)"
    by (rule psubset_card_mono [rotated]) simp
  then show ?case by simp
qed

declare outer_loop.simps [simp del]

definition exn_chain :: "exn_heap \<Rightarrow> nat \<Rightarrow> nat list" where
  "exn_chain h exc = root_cause h exc # outer_loop h [root_cause h exc] exc"

subsection \<open>The frame to show\<close>

text \<open>\<open>any(f.startswith(d) for d in dirs) or "/site-packages/" in f\<close>; \<open>dirs\<close> are the installation's.\<close>

definition is_library :: "string list \<Rightarrow> string \<Rightarrow> bool" where
  "is_library dirs f \<longleftrightarrow> prefix ''<'' f \<or> (\<exists>d \<in> set dirs. prefix d f) \<or> sublist ''/site-packages/'' f"

text \<open>\<open>Path(f).name\<close>.\<close>

definition base_name :: "string \<Rightarrow> string" where
  "base_name f = last (split_on CHR ''/'' f)"

definition show_frame :: "stack_frame \<Rightarrow> string" where
  "show_frame fr = base_name (fr_filename fr) @ '':'' @ show_nat (fr_lineno fr) @ '' in '' @ fr_name fr"

fun user_frame_of :: "string list \<Rightarrow> exn_heap \<Rightarrow> nat list \<Rightarrow> string" where
  "user_frame_of dirs h [] = []"
| "user_frame_of dirs h (n # ns) =
     (case find (\<lambda>fr. \<not> is_library dirs (fr_filename fr)) (rev (xo_frames (h ! n))) of
        Some fr \<Rightarrow> show_frame fr
      | None \<Rightarrow> user_frame_of dirs h ns)"

definition user_frame :: "string list \<Rightarrow> exn_heap \<Rightarrow> nat \<Rightarrow> string" where
  "user_frame dirs h exc = user_frame_of dirs h (exn_chain h exc)"

subsection \<open>Summaries\<close>

record exception_summary =
  es_root :: string
  es_where :: string
  es_traceback :: string

definition rstrip_char :: "char \<Rightarrow> string \<Rightarrow> string" where
  "rstrip_char c s = rev (dropWhile (\<lambda>x. x = c) (rev s))"

text \<open>\<open>f"{type(exc).__name__}: {exc}"\<close>.\<close>

definition typed_exn :: "exn_object \<Rightarrow> string" where
  "typed_exn x = xo_class x @ '': '' @ xo_text x"

text \<open>\<open>format_exception\<close> of the standard library is the parameter \<open>format_tb\<close>.\<close>

definition summarize :: "string list \<Rightarrow> (exn_heap \<Rightarrow> nat \<Rightarrow> string) \<Rightarrow> exn_heap \<Rightarrow> nat \<Rightarrow> exception_summary" where
  "summarize dirs format_tb h exc =
     \<lparr>es_root = rstrip_char CHR '':'' (strip (typed_exn (h ! root_cause h exc))),
      es_where = user_frame dirs h exc,
      es_traceback = format_tb h exc\<rparr>"

definition headline :: "exception_summary \<Rightarrow> string" where
  "headline es = (if es_where es \<noteq> [] then es_root es @ '' (at '' @ es_where es @ '')'' else es_root es)"

subsection \<open>The logging filter\<close>

record log_record =
  lr_msg :: string
  lr_exc_info :: "(exn_heap \<times> nat option) option"
  lr_exc_text :: bool
  lr_stack_info :: bool

text \<open>\<open>TracebackPolicy.filter\<close>: the record that is printed; it is never dropped.\<close>

definition traceback_filter :: "string list \<Rightarrow> (exn_heap \<Rightarrow> nat \<Rightarrow> string) \<Rightarrow> bool \<Rightarrow> log_record \<Rightarrow> log_record" where
  "traceback_filter dirs format_tb keep_tracebacks rec =
     (if keep_tracebacks \<or> lr_exc_info rec = None then rec
      else (let rec' = rec\<lparr>lr_exc_info := None, lr_exc_text := False, lr_stack_info := False\<rparr> in
        case lr_exc_info rec of
          Some (h, Some exc) \<Rightarrow>
            rec'\<lparr>lr_msg := lr_msg rec @ '' - '' @ headline (summarize dirs format_tb h exc)\<rparr>
        | _ \<Rightarrow> rec'))"

subsection \<open>Lemmas\<close>

definition links :: "exn_heap \<Rightarrow> (nat \<times> nat) set" where
  "links h = {(n, m). n < length h \<and> next_cause h n = Some m}"

lemma next_cause_closed:
  assumes "heap_closed h" "n < length h" "next_cause h n = Some m"
  shows "m < length h" "m \<noteq> n"
proof -
  have x: "h ! n \<in> set h" using assms(2) by simp
  have "m \<in> set_option (xo_status (h ! n)) \<union> set_option (xo_cause (h ! n)) \<union> set_option (xo_context (h ! n))"
    using assms(3) by (auto simp: next_cause_def next_outer_def status_exception_def split: option.splits if_splits)
  with assms(1) x show "m < length h" unfolding heap_closed_def by blast
  show "m \<noteq> n" using assms(3) by (auto simp: next_cause_def split: option.splits if_splits)
qed

lemma root_loop_result:
  assumes "heap_closed h" "n < length h"
    and "\<And>s. s \<in> set seen \<Longrightarrow> (s, n) \<in> (links h)\<^sup>+"
  shows "root_loop h seen n < length h \<and> (n, root_loop h seen n) \<in> (links h)\<^sup>* \<and>
    (next_cause h (root_loop h seen n) = None \<or> (root_loop h seen n, root_loop h seen n) \<in> (links h)\<^sup>+)"
  using assms
proof (induction h seen n rule: root_loop.induct)
  case (1 h seen n)
  show ?case
  proof (cases "n \<in> set seen")
    case True
    then have "root_loop h seen n = n" by (simp add: root_loop.simps)
    with True "1.prems" show ?thesis by simp
  next
    case False
    show ?thesis
    proof (cases "next_cause h n")
      case None
      then have "root_loop h seen n = n" by (simp add: root_loop.simps)
      with None "1.prems" show ?thesis by simp
    next
      case (Some m)
      have link: "(n, m) \<in> links h" using Some "1.prems"(2) by (simp add: links_def)
      have eq: "root_loop h seen n = root_loop h (n # seen) m"
        using False "1.prems"(2) Some by (subst root_loop.simps) simp
      have seen: "(s, m) \<in> (links h)\<^sup>+" if "s \<in> set (n # seen)" for s
        using that link "1.prems"(3) by (auto intro: trancl_into_trancl)
      have "\<not> (n \<in> set seen \<or> \<not> n < length h)" using False "1.prems"(2) by simp
      from "1.IH" [OF this Some "1.prems"(1) next_cause_closed(1) [OF "1.prems"(1,2) Some] seen]
      show ?thesis using link unfolding eq by (auto intro: converse_rtrancl_into_rtrancl)
    qed
  qed
qed

text \<open>
  The loop for the root cause returns for every graph of exceptions, cyclic ones included.
  What it returns is reached from the exception through its causes, and nothing lies behind
  it, unless it is on a cycle of causes.
\<close>

theorem root_cause_innermost:
  assumes "heap_closed h" "exc < length h"
  shows "root_cause h exc < length h \<and> (exc, root_cause h exc) \<in> (links h)\<^sup>* \<and>
    (next_cause h (root_cause h exc) = None \<or> (root_cause h exc, root_cause h exc) \<in> (links h)\<^sup>+)"
  unfolding root_cause_def by (rule root_loop_result) (use assms in simp_all)

definition example_heap :: exn_heap where
  "example_heap =
    [\<lparr>xo_class = ''FailedStatus'', xo_text = [], xo_is_exception = True, xo_status = Some 1, xo_cause = None,
      xo_context = None, xo_suppress_context = False,
      xo_frames = [\<lparr>fr_filename = ''/home/x/85-fly.py'', fr_lineno = 133, fr_name = ''tomo''\<rparr>]\<rparr>,
     \<lparr>xo_class = ''TimeoutError'', xo_text = ''ca://X'', xo_is_exception = True, xo_status = None, xo_cause = None,
      xo_context = Some 0, xo_suppress_context = True, xo_frames = []\<rparr>]"

lemma example_heap_root: "root_cause example_heap 0 = 1"
  by (simp add: root_cause_def root_loop.simps next_cause_def status_exception_def next_outer_def example_heap_def)

theorem root_cause_innermost_witness:
  "(0, 1) \<in> (links example_heap)\<^sup>* \<and>
   (next_cause example_heap 1 = None \<or> (1, 1) \<in> (links example_heap)\<^sup>+)"
  using root_cause_innermost [of example_heap 0]
  by (simp add: heap_closed_def example_heap_root) (simp add: example_heap_def)

lemma outer_loop_distinct:
  "distinct (outer_loop h seen n) \<and> set (outer_loop h seen n) \<inter> set seen = {} \<and>
   set (outer_loop h seen n) \<subseteq> {..<length h}"
proof (induction h seen n rule: outer_loop.induct)
  case (1 h seen n)
  show ?case
    by (subst (1 2 3) outer_loop.simps) (use "1.IH" in \<open>auto split: option.split\<close>)
qed

text \<open>
  The chain of exceptions searched for a profile frame starts with the root cause, names no
  exception twice, and includes the exception itself.
\<close>

theorem chain_covers:
  assumes "exc < length h"
  shows "hd (exn_chain h exc) = root_cause h exc \<and> distinct (exn_chain h exc) \<and> exc \<in> set (exn_chain h exc)"
proof -
  have "exc = root_cause h exc \<or> exc \<in> set (outer_loop h [root_cause h exc] exc)"
    using assms by (subst outer_loop.simps) auto
  then show ?thesis
    using outer_loop_distinct [of h "[root_cause h exc]" exc] by (auto simp: exn_chain_def)
qed

theorem chain_covers_witness:
  "exn_chain example_heap 0 = [1, 0] \<and> 0 \<in> set (exn_chain example_heap 0)"
  using chain_covers [of 0 example_heap]
  by (simp add: exn_chain_def example_heap_root outer_loop.simps) (simp add: example_heap_def next_outer_def)

text \<open>
  Above debug level no log line carries a traceback, and one that reported an exception
  names its root cause instead; no record is suppressed or altered otherwise.
\<close>

theorem no_traceback_in_journal:
  "lr_exc_info (traceback_filter dirs format_tb keep rec) = (if keep then lr_exc_info rec else None) \<and>
   (\<exists>t. lr_msg (traceback_filter dirs format_tb keep rec) = lr_msg rec @ t \<and>
     (t = [] \<or> (\<exists>h exc. lr_exc_info rec = Some (h, Some exc) \<and> \<not> keep \<and>
        t = '' - '' @ headline (summarize dirs format_tb h exc))))"
  by (auto simp: traceback_filter_def Let_def split: option.split)

end
