(* ===== verification/EngineEvents.thy ===== *)
theory EngineEvents
  imports Diagnostics
begin

section \<open>Events of the engine (\<open>engine/events.py\<close>)\<close>

text \<open>
  The vocabulary of events, the outcome of a plan (\<open>host.PlanOutcome\<close>, which events carry), and
  the bus that delivers an event to its subscribers. Components that only emit keep the list of
  emitted events; the time stamp of an event is not modelled. A subscriber is code of the
  caller: the parameter \<open>deliver\<close> runs it, on a state of its own.
\<close>

datatype event_kind = STATE | RE_STATE | SOURCE_LOADED | PLAN_STARTED | PLAN_FINISHED
  | DEVICE_PROGRESS | QUEUE_STATE | ITEM_STARTED | ITEM_FINISHED | CONSOLE_OUTPUT

fun kind_str :: "event_kind \<Rightarrow> string" where
  "kind_str STATE = ''state''"
| "kind_str RE_STATE = ''re_state''"
| "kind_str SOURCE_LOADED = ''source_loaded''"
| "kind_str PLAN_STARTED = ''plan_started''"
| "kind_str PLAN_FINISHED = ''plan_finished''"
| "kind_str DEVICE_PROGRESS = ''device_progress''"
| "kind_str QUEUE_STATE = ''queue_state''"
| "kind_str ITEM_STARTED = ''item_started''"
| "kind_str ITEM_FINISHED = ''item_finished''"
| "kind_str CONSOLE_OUTPUT = ''console_output''"

definition STATUS_CHANGE_KINDS :: "event_kind list" where
  "STATUS_CHANGE_KINDS = [STATE, RE_STATE, QUEUE_STATE, PLAN_STARTED, PLAN_FINISHED, ITEM_STARTED, ITEM_FINISHED]"

subsection \<open>Outcomes\<close>

record plan_outcome =
  po_item_uid :: string
  po_exit_status :: string
  po_run_uids :: "string list"
  po_reason :: fstring
  po_exception :: fstring
  po_traceback :: fstring
  po_plan_result :: pyval
  po_extra :: pydict
  po_root_cause :: string
  po_where :: string

definition succeeded :: "plan_outcome \<Rightarrow> bool" where
  "succeeded oc \<longleftrightarrow> po_exit_status oc = ''success''"

text \<open>\<open>PlanOutcome(item_uid=..., exit_status=...)\<close> with every other field at its default.\<close>

definition new_outcome :: "string \<Rightarrow> string \<Rightarrow> plan_outcome" where
  "new_outcome uid status = \<lparr>po_item_uid = uid, po_exit_status = status, po_run_uids = [], po_reason = [],
     po_exception = [], po_traceback = [], po_plan_result = PNone, po_extra = [], po_root_cause = [],
     po_where = []\<rparr>"

subsection \<open>Events and the bus\<close>

datatype payload_value = PV pyval | PText fstring | POutcome plan_outcome

record event =
  ev_kind :: event_kind
  ev_payload :: "(string \<times> payload_value) list"

definition event_of :: "event_kind \<Rightarrow> (string \<times> payload_value) list \<Rightarrow> event" where
  "event_of k p = \<lparr>ev_kind = k, ev_payload = p\<rparr>"

record 'cb event_bus =
  eb_subscribers :: "(nat \<times> 'cb) list"
  eb_next_id :: nat

definition new_bus :: "'cb event_bus" where
  "new_bus = \<lparr>eb_subscribers = [], eb_next_id = 0\<rparr>"

text \<open>\<open>subscribe\<close> returns the token that the closure \<open>unsubscribe\<close> holds.\<close>

definition subscribe :: "'cb \<Rightarrow> 'cb event_bus \<Rightarrow> nat \<times> 'cb event_bus" where
  "subscribe cb bus =
     (eb_next_id bus,
      bus\<lparr>eb_subscribers := AList.update (eb_next_id bus) cb (eb_subscribers bus),
          eb_next_id := eb_next_id bus + 1\<rparr>)"

definition unsubscribe :: "nat \<Rightarrow> 'cb event_bus \<Rightarrow> 'cb event_bus" where
  "unsubscribe token bus = bus\<lparr>eb_subscribers := AList.delete token (eb_subscribers bus)\<rparr>"

text \<open>The delivery loop: \<open>except Exception\<close> swallows, anything else leaves the loop.\<close>

fun deliver_all :: "('cb \<Rightarrow> event \<Rightarrow> ('s, exn, unit) act) \<Rightarrow> 'cb list \<Rightarrow> event \<Rightarrow> ('s, exn, unit) act" where
  "deliver_all deliver [] ev = ret ()"
| "deliver_all deliver (cb # cbs) ev =
     chain (handle (deliver cb ev) (\<lambda>e. if is_exception (exn_class e) then ret () else throw e))
       (\<lambda>_. deliver_all deliver cbs ev)"

definition publish :: "('cb \<Rightarrow> event \<Rightarrow> ('s, exn, unit) act) \<Rightarrow> event \<Rightarrow> 'cb event_bus \<Rightarrow> ('s, exn, unit) act" where
  "publish deliver ev bus = deliver_all deliver (map snd (eb_subscribers bus)) ev"

subsection \<open>Lemmas\<close>

definition bus_ok :: "'cb event_bus \<Rightarrow> bool" where
  "bus_ok bus \<longleftrightarrow> distinct (map fst (eb_subscribers bus)) \<and> (\<forall>(t, cb) \<in> set (eb_subscribers bus). t < eb_next_id bus)"

lemma update_new_key: "k \<notin> fst ` set d \<Longrightarrow> AList.update k v d = d @ [(k, v)]"
  by (induction d) auto

lemma subscribe_appends:
  assumes "bus_ok bus"
  shows "eb_subscribers (snd (subscribe cb bus)) = eb_subscribers bus @ [(fst (subscribe cb bus), cb)]"
    and "bus_ok (snd (subscribe cb bus))"
proof -
  have "eb_next_id bus \<notin> fst ` set (eb_subscribers bus)" using assms by (auto simp: bus_ok_def)
  then show "eb_subscribers (snd (subscribe cb bus)) = eb_subscribers bus @ [(fst (subscribe cb bus), cb)]"
    by (simp add: subscribe_def update_new_key)
  then show "bus_ok (snd (subscribe cb bus))"
    using assms \<open>eb_next_id bus \<notin> fst ` set (eb_subscribers bus)\<close>
    by (auto simp: bus_ok_def subscribe_def)
qed

lemma bus_ok_unsubscribe: "bus_ok bus \<Longrightarrow> bus_ok (unsubscribe t bus)"
  by (auto simp: bus_ok_def unsubscribe_def AList.delete_eq intro: distinct_map_filter)

text \<open>
  Subscribing appends a subscriber under a token nobody else has, and its \<open>unsubscribe\<close>
  removes that one and no other, so the bus is as before.
\<close>

theorem subscribe_unsubscribe:
  assumes "bus_ok bus"
  shows "eb_subscribers (unsubscribe (fst (subscribe cb bus)) (snd (subscribe cb bus))) = eb_subscribers bus \<and>
    eb_subscribers (unsubscribe token (snd (subscribe cb bus))) =
      (if token = eb_next_id bus then eb_subscribers bus
       else AList.delete token (eb_subscribers bus) @ [(eb_next_id bus, cb)])"
proof -
  have absent: "\<forall>p \<in> set (eb_subscribers bus). eb_next_id bus \<noteq> fst p"
    using assms by (auto simp: bus_ok_def)
  then have "filter (\<lambda>(k, _). eb_next_id bus \<noteq> k) (eb_subscribers bus) = eb_subscribers bus"
    by (intro filter_True) auto
  then show ?thesis
    using subscribe_appends(1) [OF assms, of cb]
    by (auto simp: unsubscribe_def AList.delete_eq subscribe_def)
qed

theorem subscribe_unsubscribe_witness:
  "eb_subscribers (unsubscribe 0 (snd (subscribe ''b'' (snd (subscribe ''a'' new_bus))))) = [(1, ''b'')]"
  using subscribe_unsubscribe [of "snd (subscribe ''a'' new_bus)" "''b''" 0]
  by (simp add: bus_ok_def subscribe_def new_bus_def)

text \<open>
  A publisher is isolated from its subscribers. Whatever ordinary exceptions they raise,
  \<open>publish\<close> returns, and every subscriber has been called once, in the order of subscription,
  in the state the ones before it left.
\<close>

theorem publish_isolates:
  assumes "\<And>cb s e. fst (deliver cb ev s) = Inl e \<Longrightarrow> is_exception (exn_class e)"
  shows "publish deliver ev bus s =
    (Inr (), fold (\<lambda>cb s. snd (deliver cb ev s)) (map snd (eb_subscribers bus)) s)"
proof -
  have "deliver_all deliver cbs ev s = (Inr (), fold (\<lambda>cb s. snd (deliver cb ev s)) cbs s)" for cbs s
  proof (induction cbs arbitrary: s)
    case (Cons cb cbs)
    then show ?case using assms [of cb s] by (simp add: act_simps split: sum.split)
  qed (simp add: act_simps)
  then show ?thesis by (simp add: publish_def)
qed

theorem publish_isolates_witness:
  "publish (\<lambda>cb ev log. (if cb = ''bad'' then Inl (Exn ValueError []) else Inr (), log @ [cb])) (event_of STATE [])
     (snd (subscribe ''good'' (snd (subscribe ''bad'' new_bus)))) [] = (Inr (), [''bad'', ''good''])"
  by (subst publish_isolates) (auto simp: subscribe_def new_bus_def split: if_splits)

end
