(* ===== verification/RunEngine.thy ===== *)
theory RunEngine
  imports EngineEvents
begin

section \<open>What the service sees of bluesky's RunEngine\<close>

text \<open>
  bluesky is not part of the repository. The model keeps the attributes of a \<open>RunEngine\<close> that
  \<open>engine/host.py\<close> reads or sets, and the ways a call to it can end. What the
  engine does between a call and its end is an input of the definitions that make the call:
  the reply and the engine as it is afterwards. A mapping such as \<open>RE.md\<close> may be backed by a
  network service, so reading it returns a dictionary or raises.
\<close>

text \<open>A hook slot of the engine: empty, a profile's callable, or the service's, around the former.\<close>

datatype hook = NoHook | ProfileHook nat | ServiceHook hook

record run_bundler =
  rb_run_start_uid :: pyval
  rb_private_md :: pyval
  rb_md :: pyval
  rb_sequence_counters :: pydict

record run_engine =
  re_state :: string
  re_md :: "exn + pydict"
  re_exit_status :: pyval
  re_reason :: pyval
  re_run_start_uids :: "string list"
  re_run_bundlers :: "run_bundler list"
  re_call_returns_result :: bool
  re_context_managers :: "string list"
  re_state_hook :: hook
  re_waiting_hook :: hook
  re_loop_running :: bool

record run_result =
  rr_exit_status :: pyval
  rr_exception :: "(exn_heap \<times> nat) option"
  rr_run_start_uids :: "string list"
  rr_reason :: pyval
  rr_plan_result :: pyval
  rr_interrupted :: pyval

text \<open>
  The end of \<open>RE(plan)\<close>, \<open>RE.resume()\<close> and the others: a result, \<open>RunEngineInterrupted\<close>, or
  another exception.
\<close>

datatype engine_reply = Returned run_result | Interrupted | Raised exn_heap nat

end
