(* ===== verification/Registry.thy ===== *)
theory Registry
  imports PlanBinding RunEngine
begin

section \<open>The catalogue of plans and devices (\<open>registry/registry.py\<close>)\<close>

text \<open>
  \<open>Registry\<close> maps names to plan factories and to devices, under a lock: each method is one
  atomic action. Devices come from the profile (replaced as a whole by \<open>load_from\<close>) or from
  stored definitions. Attribute access on a device object (\<open>getattr\<close>) runs code outside the
  repository; it is the parameter \<open>attr\<close>, which returns the attribute or raises.
\<close>

datatype device_origin = Profile | Definition

record device_entry =
  de_name :: string
  de_device :: pyval
  de_origin :: device_origin

type_synonym 'a names = "(string \<times> 'a) list"

record registry =
  reg_plans :: "plan_factory names"
  reg_devices :: "device_entry names"

text \<open>What a profile load hands over (\<open>sources.LoadResult\<close>).\<close>

record load_result =
  lr_devices :: "pyval names"
  lr_plans :: "plan_factory names"
  lr_engine :: "run_engine option"
  lr_namespace :: "pyval names"
  lr_source_description :: string

type_synonym attribute_of = "pyval \<Rightarrow> string \<Rightarrow> exn + pyval"

definition empty_registry :: registry where
  "empty_registry = \<lparr>reg_plans = [], reg_devices = []\<rparr>"

subsection \<open>Operations\<close>

definition load_from :: "load_result \<Rightarrow> registry \<Rightarrow> registry" where
  "load_from result reg =
     (let kept = filter (\<lambda>(k, v). de_origin v \<noteq> Profile) (reg_devices reg);
          fresh = map (\<lambda>(name, dev). (name, \<lparr>de_name = name, de_device = dev, de_origin = Profile\<rparr>))
                    (lr_devices result)
      in \<lparr>reg_plans = lr_plans result, reg_devices = dict_update fresh kept\<rparr>)"

definition get_plan :: "string \<Rightarrow> registry \<Rightarrow> exn + plan_factory" where
  "get_plan name reg = (case map_of (reg_plans reg) name of
       Some p \<Rightarrow> Inr p
     | None \<Rightarrow> Inl (Exn RegistryError [Txt ''Unknown plan: '', Rep (PStr name)]))"

text \<open>The attribute walk of a dotted name.\<close>

fun walk_attributes :: "attribute_of \<Rightarrow> string \<Rightarrow> pyval \<Rightarrow> string list \<Rightarrow> exn + pyval" where
  "walk_attributes attr head obj [] = Inr obj"
| "walk_attributes attr head obj (a # as) =
     (case attr obj a of
        Inr obj' \<Rightarrow> walk_attributes attr head obj' as
      | Inl e \<Rightarrow> (if exn_class e = AttributeError
          then Inl (Exn RegistryError [Txt ''Device '', Rep (PStr head), Txt '' has no component '', Rep (PStr a)])
          else Inl e))"

definition get_device :: "attribute_of \<Rightarrow> string \<Rightarrow> registry \<Rightarrow> exn + pyval" where
  "get_device attr name reg =
     (let (head, _, rest) = partition_at CHR ''.'' name in
      case map_of (reg_devices reg) head of
        None \<Rightarrow> Inl (Exn RegistryError [Txt ''Unknown device: '', Rep (PStr head)])
      | Some entry \<Rightarrow>
          walk_attributes attr head (de_device entry)
            (filter (\<lambda>a. a \<noteq> []) (split_on CHR ''.'' rest)))"

text \<open>An error of a device's own property is not a \<open>RegistryError\<close> and gets through.\<close>

definition has_device :: "attribute_of \<Rightarrow> string \<Rightarrow> registry \<Rightarrow> exn + bool" where
  "has_device attr name reg = (case get_device attr name reg of
       Inr _ \<Rightarrow> Inr True
     | Inl e \<Rightarrow> (if exn_class e = RegistryError then Inr False else Inl e))"

definition add_device :: "string \<Rightarrow> pyval \<Rightarrow> (registry, exn, unit) act" where
  "add_device name dev = (\<lambda>reg.
     case map_of (reg_devices reg) name of
       Some existing \<Rightarrow>
         (if de_origin existing = Profile
          then (Inl (Exn RegistryError [Txt ''Device '', Rep (PStr name),
                 Txt '' is defined by the profile and cannot be replaced'']), reg)
          else (Inr (), reg\<lparr>reg_devices := AList.update name
                 \<lparr>de_name = name, de_device = dev, de_origin = Definition\<rparr> (reg_devices reg)\<rparr>))
     | None \<Rightarrow> (Inr (), reg\<lparr>reg_devices := AList.update name
                 \<lparr>de_name = name, de_device = dev, de_origin = Definition\<rparr> (reg_devices reg)\<rparr>))"

definition remove_device :: "string \<Rightarrow> (registry, exn, pyval) act" where
  "remove_device name = (\<lambda>reg.
     case map_of (reg_devices reg) name of
       None \<Rightarrow> (Inl (Exn RegistryError [Txt ''Unknown device: '', Rep (PStr name)]), reg)
     | Some existing \<Rightarrow>
         (if de_origin existing = Profile
          then (Inl (Exn RegistryError [Txt ''Device '', Rep (PStr name),
                 Txt '' is defined by the profile and cannot be removed'']), reg)
          else (Inr (de_device existing), reg\<lparr>reg_devices := AList.delete name (reg_devices reg)\<rparr>)))"

subsection \<open>Resolution of an item's arguments\<close>

definition substitute_name :: "attribute_of \<Rightarrow> registry \<Rightarrow> string \<Rightarrow> exn + pyval" where
  "substitute_name attr reg s = (case has_device attr s reg of
       Inl e \<Rightarrow> Inl e
     | Inr True \<Rightarrow> get_device attr s reg
     | Inr False \<Rightarrow> Inr (PStr s))"

fun substitute :: "attribute_of \<Rightarrow> registry \<Rightarrow> pyval \<Rightarrow> exn + pyval"
  and substitute_list :: "attribute_of \<Rightarrow> registry \<Rightarrow> pyval list \<Rightarrow> exn + pyval list"
  and substitute_dict :: "attribute_of \<Rightarrow> registry \<Rightarrow> pydict \<Rightarrow> exn + pydict"
where
  "substitute attr reg (PStr s) = substitute_name attr reg s"
| "substitute attr reg (PList xs) =
     (case substitute_list attr reg xs of Inl e \<Rightarrow> Inl e | Inr ys \<Rightarrow> Inr (PList ys))"
| "substitute attr reg (PTuple xs) =
     (case substitute_list attr reg xs of Inl e \<Rightarrow> Inl e | Inr ys \<Rightarrow> Inr (PTuple ys))"
| "substitute attr reg (PDict d) =
     (case substitute_dict attr reg d of Inl e \<Rightarrow> Inl e | Inr d' \<Rightarrow> Inr (PDict d'))"
| "substitute attr reg v = Inr v"
| "substitute_list attr reg [] = Inr []"
| "substitute_list attr reg (x # xs) =
     (case substitute attr reg x of Inl e \<Rightarrow> Inl e | Inr y \<Rightarrow>
      case substitute_list attr reg xs of Inl e \<Rightarrow> Inl e | Inr ys \<Rightarrow> Inr (y # ys))"
| "substitute_dict attr reg [] = Inr []"
| "substitute_dict attr reg ((k, v) # d) =
     (case substitute attr reg v of Inl e \<Rightarrow> Inl e | Inr w \<Rightarrow>
      case substitute_dict attr reg d of Inl e \<Rightarrow> Inl e | Inr d' \<Rightarrow> Inr ((k, w) # d'))"

text \<open>
  \<open>resolve\<close> returns a factory: a closure over the plan and its resolved arguments, which is
  those three values. \<open>kwargs or {}\<close> is the dictionary itself.
\<close>

record resolved_call =
  rc_plan :: plan_factory
  rc_args :: "pyval list"
  rc_kwargs :: pydict

definition resolve :: "attribute_of \<Rightarrow> string \<Rightarrow> pyval list \<Rightarrow> pydict \<Rightarrow> registry \<Rightarrow> exn + resolved_call" where
  "resolve attr plan_name args kwargs reg =
     (case get_plan plan_name reg of Inl e \<Rightarrow> Inl e | Inr plan \<Rightarrow>
      case substitute_list attr reg args of Inl e \<Rightarrow> Inl e | Inr args' \<Rightarrow>
      case substitute_dict attr reg kwargs of Inl e \<Rightarrow> Inl e | Inr kwargs' \<Rightarrow>
        Inr \<lparr>rc_plan = plan, rc_args = args', rc_kwargs = kwargs'\<rparr>)"

subsection \<open>Invariant\<close>

text \<open>Names are unique and an entry carries the name it is filed under.\<close>

definition registry_ok :: "registry \<Rightarrow> bool" where
  "registry_ok reg \<longleftrightarrow> distinct (map fst (reg_devices reg)) \<and>
     (\<forall>(name, entry) \<in> set (reg_devices reg). de_name entry = name)"

lemma registry_ok_lookup:
  "registry_ok reg \<Longrightarrow> map_of (reg_devices reg) name = Some entry \<Longrightarrow> de_name entry = name"
  by (auto simp: registry_ok_def dest: map_of_SomeD)

lemma set_alist_update: "set (AList.update k v d) \<subseteq> insert (k, v) (set d)"
  by (induction d) auto

lemma registry_ok_add: "keeps registry_ok (add_device name dev)"
proof (rule keepsI)
  fix reg assume ok: "registry_ok reg"
  then show "registry_ok (snd (add_device name dev reg))"
    using set_alist_update [of name "\<lparr>de_name = name, de_device = dev, de_origin = Definition\<rparr>" "reg_devices reg"]
    by (fastforce simp: add_device_def registry_ok_def distinct_update split: option.split)
qed

lemma registry_ok_remove: "keeps registry_ok (remove_device name)"
proof (rule keepsI)
  fix reg assume "registry_ok reg"
  then show "registry_ok (snd (remove_device name reg))"
    by (auto simp: remove_device_def registry_ok_def distinct_map_filter AList.delete_eq split: option.split)
qed

lemma lookup_fresh:
  "map_of (map (\<lambda>(name, dev). (name, \<lparr>de_name = name, de_device = dev, de_origin = og\<rparr>)) ds) n =
   map_option (\<lambda>dev. \<lparr>de_name = n, de_device = dev, de_origin = og\<rparr>) (map_of ds n)"
  by (induction ds) auto

lemma lookup_filter:
  "distinct (map fst d) \<Longrightarrow>
   map_of (filter (\<lambda>(k, v). P v) d) n =
     (case map_of d n of Some v \<Rightarrow> if P v then Some v else None | None \<Rightarrow> None)"
proof (induction d)
  case Nil
  then show ?case by simp
next
  case (Cons p d)
  have absent: "map_of d (fst p) = None"
    using Cons.prems by (simp add: map_of_eq_None_iff)
  from Cons show ?case by (cases p) (use absent in \<open>auto split: option.splits\<close>)
qed

text \<open>
  After a profile load every name the stored definitions own keeps its device, every other
  device is the profile's, and the plans are exactly the profile's.
\<close>

theorem load_from_lookup:
  assumes "registry_ok reg"
  shows "reg_plans (load_from result reg) = lr_plans result \<and>
    map_of (reg_devices (load_from result reg)) name =
      (case map_of (reg_devices reg) name of
         Some entry \<Rightarrow>
           if de_origin entry = Definition then Some entry
           else map_option (\<lambda>dev. \<lparr>de_name = name, de_device = dev, de_origin = Profile\<rparr>)
                  (map_of (lr_devices result) name)
       | None \<Rightarrow> map_option (\<lambda>dev. \<lparr>de_name = name, de_device = dev, de_origin = Profile\<rparr>)
                  (map_of (lr_devices result) name))"
proof -
  have d: "distinct (map fst (reg_devices reg))" using assms by (simp add: registry_ok_def)
  then have "distinct (map fst (filter (\<lambda>(k, v). de_origin v \<noteq> Profile) (reg_devices reg)))"
    by (simp add: distinct_map_filter)
  note upd = map_of_dict_update [OF this]
  have og: "de_origin e \<noteq> Profile \<longleftrightarrow> de_origin e = Definition" for e
    by (cases "de_origin e") simp_all
  show ?thesis
    unfolding load_from_def Let_def registry.simps upd map_add_def lookup_fresh lookup_filter [OF d]
    by (simp add: og split: option.split)
qed

theorem load_from_lookup_witness:
  "map_of (reg_devices (load_from \<lparr>lr_devices = [(''motor'', PObj 1), (''det'', PObj 2)], lr_plans = [],
       lr_engine = None, lr_namespace = [], lr_source_description = []\<rparr>
     \<lparr>reg_plans = [], reg_devices = [(''motor'', \<lparr>de_name = ''motor'', de_device = PObj 7, de_origin = Definition\<rparr>)]\<rparr>))
     ''motor'' = Some \<lparr>de_name = ''motor'', de_device = PObj 7, de_origin = Definition\<rparr>"
  using load_from_lookup [of "\<lparr>reg_plans = [], reg_devices =
      [(''motor'', \<lparr>de_name = ''motor'', de_device = PObj 7, de_origin = Definition\<rparr>)]\<rparr>"
    "\<lparr>lr_devices = [(''motor'', PObj 1), (''det'', PObj 2)], lr_plans = [],
       lr_engine = None, lr_namespace = [], lr_source_description = []\<rparr>" "''motor''"]
  by (simp add: registry_ok_def)

lemma registry_ok_load:
  assumes "distinct (map fst (lr_devices result))" "registry_ok reg"
  shows "registry_ok (load_from result reg)"
proof -
  define fresh where "fresh = map (\<lambda>(name, dev). (name, \<lparr>de_name = name, de_device = dev, de_origin = Profile\<rparr>))
                    (lr_devices result)"
  define kept where "kept = filter (\<lambda>(k, v). de_origin v \<noteq> Profile) (reg_devices reg)"
  have "map fst fresh = map fst (lr_devices result)" by (auto simp: fresh_def)
  then have d: "distinct (map fst (dict_update fresh kept))"
    using assms(1) by (simp add: distinct_dict_update)
  have sub: "set (dict_update d e) \<subseteq> set d \<union> set e" for d e :: "device_entry names"
    by (induction e arbitrary: d)
      (force simp: dict_update_def dest: subsetD [OF set_alist_update])+
  have "\<forall>(name, entry) \<in> set fresh \<union> set kept. de_name entry = name"
    using assms(2) by (auto simp: fresh_def kept_def registry_ok_def)
  with sub [of fresh kept] d show ?thesis
    unfolding registry_ok_def load_from_def Let_def registry.simps fresh_def [symmetric] kept_def [symmetric]
    by blast
qed

text \<open>
  The interface never changes a device that the profile defines: adding or removing under
  its name is refused, and no operation on another name touches it.
\<close>

theorem profile_devices_immutable:
  assumes "map_of (reg_devices reg) name = Some entry" "de_origin entry = Profile"
  shows "map_of (reg_devices (snd (add_device other dev reg))) name = Some entry \<and>
    map_of (reg_devices (snd (remove_device other reg))) name = Some entry \<and>
    (\<exists>t. fst (add_device name dev reg) = Inl (Exn RegistryError t)) \<and>
    (\<exists>t. fst (remove_device name reg) = Inl (Exn RegistryError t))"
  using assms
  by (auto simp: add_device_def remove_device_def update_conv' delete_conv' split: option.split)

theorem profile_devices_immutable_witness:
  "fst (remove_device ''motor'' \<lparr>reg_plans = [], reg_devices =
      [(''motor'', \<lparr>de_name = ''motor'', de_device = PObj 1, de_origin = Profile\<rparr>)]\<rparr>) \<noteq> Inr (PObj 1)"
  using profile_devices_immutable [of "\<lparr>reg_plans = [], reg_devices =
      [(''motor'', \<lparr>de_name = ''motor'', de_device = PObj 1, de_origin = Profile\<rparr>)]\<rparr>" "''motor''"
    "\<lparr>de_name = ''motor'', de_device = PObj 1, de_origin = Profile\<rparr>"]
  by auto

subsection \<open>What resolution does\<close>

text \<open>The strings of a value, at any depth of lists, tuples and dictionary values.\<close>

fun strings_in :: "pyval \<Rightarrow> string list"
  and strings_in_list :: "pyval list \<Rightarrow> string list"
  and strings_in_dict :: "pydict \<Rightarrow> string list"
where
  "strings_in (PStr s) = [s]"
| "strings_in (PList xs) = strings_in_list xs"
| "strings_in (PTuple xs) = strings_in_list xs"
| "strings_in (PDict d) = strings_in_dict d"
| "strings_in v = []"
| "strings_in_list [] = []"
| "strings_in_list (x # xs) = strings_in x @ strings_in_list xs"
| "strings_in_dict [] = []"
| "strings_in_dict ((k, v) # d) = strings_in v @ strings_in_dict d"

text \<open>Replacing every string of a value.\<close>

fun replace_strings :: "(string \<Rightarrow> pyval) \<Rightarrow> pyval \<Rightarrow> pyval"
  and replace_strings_list :: "(string \<Rightarrow> pyval) \<Rightarrow> pyval list \<Rightarrow> pyval list"
  and replace_strings_dict :: "(string \<Rightarrow> pyval) \<Rightarrow> pydict \<Rightarrow> pydict"
where
  "replace_strings f (PStr s) = f s"
| "replace_strings f (PList xs) = PList (replace_strings_list f xs)"
| "replace_strings f (PTuple xs) = PTuple (replace_strings_list f xs)"
| "replace_strings f (PDict d) = PDict (replace_strings_dict f d)"
| "replace_strings f v = v"
| "replace_strings_list f [] = []"
| "replace_strings_list f (x # xs) = replace_strings f x # replace_strings_list f xs"
| "replace_strings_dict f [] = []"
| "replace_strings_dict f ((k, v) # d) = (k, replace_strings f v) # replace_strings_dict f d"

definition device_or_string :: "attribute_of \<Rightarrow> registry \<Rightarrow> string \<Rightarrow> pyval" where
  "device_or_string attr reg s = (case get_device attr s reg of Inr d \<Rightarrow> d | Inl _ \<Rightarrow> PStr s)"

text \<open>The lookup of a string either finds a device or refuses the name.\<close>

definition decided :: "attribute_of \<Rightarrow> registry \<Rightarrow> string \<Rightarrow> bool" where
  "decided attr reg s \<longleftrightarrow>
     (case get_device attr s reg of Inr _ \<Rightarrow> True | Inl e \<Rightarrow> exn_class e = RegistryError)"

lemma substitute_name_decided:
  "decided attr reg s \<Longrightarrow> substitute_name attr reg s = Inr (device_or_string attr reg s)"
  by (auto simp: substitute_name_def has_device_def decided_def device_or_string_def split: sum.splits)

lemma substitute_replaces:
  "\<forall>s \<in> set (strings_in v). decided attr reg s \<Longrightarrow>
     substitute attr reg v = Inr (replace_strings (device_or_string attr reg) v)"
  "\<forall>s \<in> set (strings_in_list vs). decided attr reg s \<Longrightarrow>
     substitute_list attr reg vs = Inr (replace_strings_list (device_or_string attr reg) vs)"
  "\<forall>s \<in> set (strings_in_dict d). decided attr reg s \<Longrightarrow>
     substitute_dict attr reg d = Inr (replace_strings_dict (device_or_string attr reg) d)"
  by (induction v and vs and d rule: strings_in_strings_in_list_strings_in_dict.induct)
    (simp_all add: substitute_name_decided ball_Un)

text \<open>
  A queued plan is called with its arguments as queued, except that every string naming a
  registered device or a component of one, at any depth, is replaced by the device; as long as
  reading a device's attributes fails in no other way than for a missing attribute.
\<close>

theorem resolve_replaces_devices:
  assumes "map_of (reg_plans reg) plan_name = Some plan"
    and "\<forall>s \<in> set (strings_in_list args @ strings_in_dict kwargs). decided attr reg s"
  shows "resolve attr plan_name args kwargs reg =
    Inr \<lparr>rc_plan = plan,
         rc_args = replace_strings_list (device_or_string attr reg) args,
         rc_kwargs = replace_strings_dict (device_or_string attr reg) kwargs\<rparr>"
  using assms by (simp add: resolve_def get_plan_def substitute_replaces ball_Un)

theorem resolve_replaces_devices_witness:
  "resolve (\<lambda>obj a. if a = ''setpoint'' then Inr (PObj 9) else Inl (Exn AttributeError []))
     ''count'' [PList [PStr ''motor'', PStr ''motor.setpoint'', PStr ''motor.nope'', PInt 3]] [(PStr ''md'', PStr ''x'')]
     \<lparr>reg_plans = [(''count'', \<lparr>pf_id = 0, pf_signature = None\<rparr>)],
      reg_devices = [(''motor'', \<lparr>de_name = ''motor'', de_device = PObj 1, de_origin = Profile\<rparr>)]\<rparr> =
   Inr \<lparr>rc_plan = \<lparr>pf_id = 0, pf_signature = None\<rparr>,
        rc_args = [PList [PObj 1, PObj 9, PStr ''motor.nope'', PInt 3]],
        rc_kwargs = [(PStr ''md'', PStr ''x'')]\<rparr>"
  by (subst resolve_replaces_devices [where plan = "\<lparr>pf_id = 0, pf_signature = None\<rparr>"])
    (simp_all add: decided_def device_or_string_def get_device_def partition_at_def)

end
