(* ===== verification/EngineHost.thy ===== *)
theory EngineHost
  imports Registry
begin

section \<open>The Engine Host (\<open>engine/host.py\<close>)\<close>

text \<open>
  \<open>EngineHost\<close> owns the RunEngine and its thread. The record \<open>host\<close> has the attributes of the
  object; \<open>h_events\<close> and \<open>h_calls\<close> record, in order, the events it emitted and the calls it made
  to the engine. A function of the engine thread gets the engine's replies as an argument, and
  the directives that operators give while the plan is paused; it answers \<open>None\<close> as long as it
  waits for a directive. The interleaving of operators with the waiting thread, step by step,
  is in \<open>DirectiveProtocol\<close>.
\<close>

datatype engine_state = STARTING | NO_ENGINE | IDLE | ENGINE_RUNNING | PAUSED | CLOSED

fun engine_state_str :: "engine_state \<Rightarrow> string" where
  "engine_state_str STARTING = ''starting''"
| "engine_state_str NO_ENGINE = ''no_engine''"
| "engine_state_str IDLE = ''idle''"
| "engine_state_str ENGINE_RUNNING = ''running''"
| "engine_state_str PAUSED = ''paused''"
| "engine_state_str CLOSED = ''closed''"

text \<open>The calls into the engine; a plan is called as the registry resolved it.\<close>

datatype engine_call =
    CallPlan resolved_call pydict
  | CallResume
  | CallAbort string
  | CallStop
  | CallHalt
  | CallRequestPause bool

record host =
  h_started :: bool
  h_engine :: "run_engine option"
  h_engine_adopted :: bool
  h_load_result :: "load_result option"
  h_environ :: "(string \<times> string) list"
  h_progress_enabled :: bool
  h_state :: engine_state
  h_directive :: "string option"
  h_current_item_uid :: "string option"
  h_last_outcome :: "plan_outcome option"
  h_last_error :: "fstring option"
  h_abort_reason :: string
  h_events :: "event list"
  h_calls :: "engine_call list"

definition EngineHost_init :: "bool \<Rightarrow> host" where
  "EngineHost_init progress_enabled =
    \<lparr>h_started = False, h_engine = None, h_engine_adopted = False, h_load_result = None, h_environ = [],
     h_progress_enabled = progress_enabled, h_state = STARTING, h_directive = None,
     h_current_item_uid = None, h_last_outcome = None, h_last_error = None, h_abort_reason = [],
     h_events = [], h_calls = []\<rparr>"

text \<open>How the runtime prints things: \<open>str\<close> of objects, tracebacks, the library directories.\<close>

record texts =
  tx_fmt :: "pyval \<Rightarrow> string"
  tx_format_tb :: "exn_heap \<Rightarrow> nat \<Rightarrow> string"
  tx_format_exn :: "exn \<Rightarrow> string"
  tx_dirs :: "string list"

definition emit :: "event_kind \<Rightarrow> (string \<times> payload_value) list \<Rightarrow> host \<Rightarrow> host" where
  "emit k p h = h\<lparr>h_events := h_events h @ [event_of k p]\<rparr>"

definition engine_called :: "engine_call \<Rightarrow> host \<Rightarrow> host" where
  "engine_called c h = h\<lparr>h_calls := h_calls h @ [c]\<rparr>"

definition set_state :: "engine_state \<Rightarrow> host \<Rightarrow> host" where
  "set_state st h =
     (let previous = h_state h; h = h\<lparr>h_state := st\<rparr> in
      if previous \<noteq> st
      then emit STATE [(''state'', PV (PStr (engine_state_str st))),
                       (''previous'', PV (PStr (engine_state_str previous)))] h
      else h)"

definition host_error :: "fstring \<Rightarrow> exn" where
  "host_error t = Exn EngineHostError t"

definition no_engine_error :: exn where
  "no_engine_error = host_error [Txt ''No RunEngine: load a profile source first'']"

definition require_engine :: "host \<Rightarrow> exn + run_engine" where
  "require_engine h = (case h_engine h of None \<Rightarrow> Inl no_engine_error | Some e \<Rightarrow> Inr e)"

subsection \<open>Lifecycle\<close>

definition start_host :: "(host, exn, unit) act" where
  "start_host = (\<lambda>h.
     if h_started h then (Inl (host_error [Txt ''EngineHost already started'']), h)
     else (Inr (), set_state NO_ENGINE (h\<lparr>h_started := True\<rparr>)))"

definition shutdown :: "host \<Rightarrow> host" where
  "shutdown h = (if \<not> h_started h then h else set_state CLOSED h)"

text \<open>\<open>submit\<close>: whether a command is accepted; the engine thread then runs it.\<close>

definition submit :: "(host, exn, 'a) act \<Rightarrow> (host, exn, 'a) act" where
  "submit fn = (\<lambda>h.
     if \<not> h_started h \<or> h_state h = CLOSED
     then (Inl (host_error [Txt ''EngineHost is not running'']), h) else fn h)"

subsection \<open>Loading a profile, adopting the engine\<close>

definition install_engine :: "run_engine \<Rightarrow> bool \<Rightarrow> host \<Rightarrow> host" where
  "install_engine engine adopted h =
     (let engine = engine\<lparr>re_call_returns_result := True,
            re_context_managers := filter (\<lambda>cm. cm \<noteq> ''SigintHandler'') (re_context_managers engine),
            re_state_hook := ServiceHook (re_state_hook engine)\<rparr>;
          engine = (if h_progress_enabled h
            then engine\<lparr>re_waiting_hook := ServiceHook (re_waiting_hook engine)\<rparr> else engine)
      in set_state IDLE (h\<lparr>h_engine := Some engine, h_engine_adopted := adopted\<rparr>))"

text \<open>
  \<open>_load_source_on_thread\<close>; \<open>loaded\<close> is what \<open>source.load()\<close> does, \<open>new_engine\<close> what
  \<open>engine_factory()\<close> would do. \<open>h_environ\<close> are the variables that the host has put into the environment
  of the process, which a profile may ask for while it is loaded.
\<close>

definition RE_WORKER_ACTIVE_ENV :: string where
  "RE_WORKER_ACTIVE_ENV = ''_QSERVER_RE_WORKER_ACTIVE''"

definition RUNNING_IPYTHON_KERNEL_ENV :: string where
  "RUNNING_IPYTHON_KERNEL_ENV = ''_QSERVER_RUNNING_IPYTHON_KERNEL''"

definition mark_environment :: "host \<Rightarrow> host" where
  "mark_environment h = h\<lparr>h_environ :=
     AList.update RUNNING_IPYTHON_KERNEL_ENV ''0'' (AList.update RE_WORKER_ACTIVE_ENV ''1'' (h_environ h))\<rparr>"

definition adopt_loaded :: "string \<Rightarrow> load_result \<Rightarrow> run_engine \<Rightarrow> bool \<Rightarrow> host \<Rightarrow> host" where
  "adopt_loaded description result engine adopted h =
     emit SOURCE_LOADED
       [(''description'', PV (PStr (if lr_source_description result \<noteq> []
            then lr_source_description result else description))),
        (''n_devices'', PV (PInt (int (length (lr_devices result))))),
        (''n_plans'', PV (PInt (int (length (lr_plans result))))),
        (''engine_adopted'', PV (PBool adopted))]
       ((install_engine engine adopted h)\<lparr>h_load_result := Some result\<rparr>)"

definition load_source_on_thread ::
  "string \<Rightarrow> exn + load_result \<Rightarrow> exn + run_engine \<Rightarrow> (host, exn, load_result) act" where
  "load_source_on_thread description loaded new_engine = (\<lambda>h.
     let h = mark_environment h in
     case loaded of
       Inl e \<Rightarrow> (Inl e, h)
     | Inr result \<Rightarrow>
         (case lr_engine result of
            Some engine \<Rightarrow> (Inr result, adopt_loaded description result engine True h)
          | None \<Rightarrow>
              (case new_engine of
                 Inl e \<Rightarrow> (Inl e, h)
               | Inr engine \<Rightarrow> (Inr result, adopt_loaded description result engine False h))))"

definition load_source ::
  "string \<Rightarrow> exn + load_result \<Rightarrow> exn + run_engine \<Rightarrow> (host, exn, load_result) act" where
  "load_source description loaded new_engine = submit (load_source_on_thread description loaded new_engine)"

text \<open>
  The state hook installed on the engine: the profile's own hook first, its ordinary errors
  swallowed; \<open>profile_hook n new old\<close> says whether hook \<open>n\<close> raises.
\<close>

fun run_state_hook :: "(nat \<Rightarrow> string \<Rightarrow> string \<Rightarrow> exn option) \<Rightarrow> hook \<Rightarrow> string \<Rightarrow> string \<Rightarrow> (host, exn, unit) act" where
  "run_state_hook profile_hook NoHook new old = ret ()"
| "run_state_hook profile_hook (ProfileHook n) new old =
     (case profile_hook n new old of None \<Rightarrow> ret () | Some e \<Rightarrow> throw e)"
| "run_state_hook profile_hook (ServiceHook previous) new old =
     chain (handle (run_state_hook profile_hook previous new old)
        (\<lambda>e. if is_exception (exn_class e) then ret () else throw e))
     (\<lambda>_. modify (emit RE_STATE [(''state'', PV (PStr new)), (''previous'', PV (PStr old))]))"

subsection \<open>Outcomes\<close>

definition collect_run_uids :: "host \<Rightarrow> string list" where
  "collect_run_uids h = (case h_engine h of None \<Rightarrow> [] | Some e \<Rightarrow> re_run_start_uids e)"

text \<open>The outcome of a plan that raised: built in two places of the source.\<close>

definition failed_outcome :: "texts \<Rightarrow> string \<Rightarrow> exn_heap \<Rightarrow> nat \<Rightarrow> host \<Rightarrow> plan_outcome" where
  "failed_outcome tx uid hp exc h =
     (let summary = summarize (tx_dirs tx) (tx_format_tb tx) hp exc in
      (new_outcome uid ''fail'')
        \<lparr>po_reason := [Txt (xo_text (hp ! exc))],
         po_exception := [Txt (typed_exn (hp ! exc))],
         po_traceback := [Txt (tx_format_tb tx hp exc)],
         po_root_cause := es_root summary,
         po_where := es_where summary,
         po_run_uids := collect_run_uids h\<rparr>)"

definition outcome_from_result :: "texts \<Rightarrow> string \<Rightarrow> run_result \<Rightarrow> plan_outcome" where
  "outcome_from_result tx uid r =
     (let status = py_str (tx_fmt tx) (py_or (rr_exit_status r) (PStr ''success''));
          reason = py_str (tx_fmt tx) (py_or (rr_reason r) (PStr []))
      in (new_outcome uid status)
          \<lparr>po_run_uids := rr_run_start_uids r,
           po_reason := [Txt reason],
           po_exception := (case rr_exception r of None \<Rightarrow> [] | Some (hp, exc) \<Rightarrow> [Txt (typed_exn (hp ! exc))]),
           po_traceback := (case rr_exception r of None \<Rightarrow> []
             | Some (hp, exc) \<Rightarrow> [Txt (es_traceback (summarize (tx_dirs tx) (tx_format_tb tx) hp exc))]),
           po_root_cause := (case rr_exception r of None \<Rightarrow> []
             | Some (hp, exc) \<Rightarrow> es_root (summarize (tx_dirs tx) (tx_format_tb tx) hp exc)),
           po_where := (case rr_exception r of None \<Rightarrow> []
             | Some (hp, exc) \<Rightarrow> es_where (summarize (tx_dirs tx) (tx_format_tb tx) hp exc)),
           po_plan_result := rr_plan_result r,
           po_extra := [(PStr ''interrupted'', PBool (truthy (rr_interrupted r)))]\<rparr>)"

definition outcome_from_engine :: "texts \<Rightarrow> string \<Rightarrow> run_engine \<Rightarrow> host \<Rightarrow> plan_outcome" where
  "outcome_from_engine tx uid engine h =
     (new_outcome uid (py_str (tx_fmt tx) (py_or (re_exit_status engine) (PStr ''abort''))))
       \<lparr>po_reason := [Txt (py_str (tx_fmt tx) (py_or (re_reason engine) (PStr [])))],
        po_run_uids := collect_run_uids h\<rparr>"

subsection \<open>Running a plan\<close>

text \<open>The engine call that a directive leads to; anything but the first three halts.\<close>

definition directive_call :: "string \<Rightarrow> host \<Rightarrow> engine_call" where
  "directive_call d h =
     (if d = ''resume'' then CallResume
      else if d = ''abort'' then CallAbort (h_abort_reason h)
      else if d = ''stop'' then CallStop
      else CallHalt)"

text \<open>
  A plan ends with an outcome; or an exception that is no \<open>Exception\<close> escapes, which nothing here
  catches; or the call is refused because there is no engine.
\<close>

datatype plan_end = Ended plan_outcome | Escaped exn_heap nat | Refused exn

text \<open>
  One pause: the directive that arrives with what \<open>_abort_reason\<close> is when the thread acts on it, the
  reply to the call it causes, the engine then.
\<close>

type_synonym pause_round = "(string \<times> string) \<times> engine_reply \<times> run_engine"

fun handle_pause :: "texts \<Rightarrow> string \<Rightarrow> pause_round list \<Rightarrow> host \<Rightarrow> plan_end option \<times> host" where
  "handle_pause tx uid rounds h =
     (case h_engine h of
        None \<Rightarrow> (Some (Refused no_engine_error), h)
      | Some engine \<Rightarrow>
     if re_state engine \<noteq> ''paused'' then (Some (Ended (outcome_from_engine tx uid engine h)), h)
     else
       let h = set_state PAUSED h in
       (case rounds of
          [] \<Rightarrow> (None, h)
        | ((directive, reason), reply, engine') # rest \<Rightarrow>
            let h = set_state ENGINE_RUNNING (h\<lparr>h_directive := None, h_abort_reason := reason\<rparr>);
                h = (engine_called (directive_call directive h) h)\<lparr>h_engine := Some engine'\<rparr>
            in (case reply of
                  Returned r \<Rightarrow> (Some (Ended (outcome_from_result tx uid r)), h)
                | Interrupted \<Rightarrow> handle_pause tx uid rest h
                | Raised hp exc \<Rightarrow>
                    (if xo_is_exception (hp ! exc) then (Some (Ended (failed_outcome tx uid hp exc h)), h)
                     else (Some (Escaped hp exc), h)))))"

declare handle_pause.simps [simp del]

text \<open>The \<open>finally\<close> and what follows it once there is an outcome.\<close>

definition finish_plan :: "string \<Rightarrow> plan_outcome \<Rightarrow> host \<Rightarrow> host" where
  "finish_plan uid oc h =
     (let h = h\<lparr>h_current_item_uid := None, h_last_outcome := Some oc\<rparr>;
          h = (if succeeded oc then h
               else h\<lparr>h_last_error := Some (text_or (po_exception oc)
                       (text_or (po_reason oc) [Txt (po_exit_status oc)]))\<rparr>)
      in emit PLAN_FINISHED [(''item_uid'', PV (PStr uid)), (''outcome'', POutcome oc)] (set_state IDLE h))"

definition begin_plan :: "string \<Rightarrow> host \<Rightarrow> host" where
  "begin_plan uid h = emit PLAN_STARTED [(''item_uid'', PV (PStr uid))]
     (set_state ENGINE_RUNNING
       (h\<lparr>h_current_item_uid := Some uid, h_last_error := None, h_abort_reason := []\<rparr>))"

text \<open>
  \<open>_run_plan_on_thread\<close>. The first reply is that of \<open>engine(plan_factory(), **metadata)\<close>; an
  exception of the factory is among the ways it can end.
\<close>

definition run_plan_on_thread ::
  "texts \<Rightarrow> resolved_call \<Rightarrow> string \<Rightarrow> pydict \<Rightarrow> engine_reply \<times> run_engine \<Rightarrow> pause_round list \<Rightarrow> host \<Rightarrow>
   plan_end option \<times> host" where
  "run_plan_on_thread tx factory uid metadata first rounds h =
     (case require_engine h of
        Inl e \<Rightarrow> (Some (Refused e), h)
      | Inr _ \<Rightarrow>
     let h = begin_plan uid h;
         h = (engine_called (CallPlan factory metadata) h)\<lparr>h_engine := Some (snd first)\<rparr>;
         (result, h) = (case fst first of
            Returned r \<Rightarrow> (Some (Ended (outcome_from_result tx uid r)), h)
          | Interrupted \<Rightarrow> handle_pause tx uid rounds h
          | Raised hp exc \<Rightarrow>
              (if xo_is_exception (hp ! exc) then (Some (Ended (failed_outcome tx uid hp exc h)), h)
               else (Some (Escaped hp exc), h)))
     in (case result of
           None \<Rightarrow> (None, h)
         | Some (Ended oc) \<Rightarrow> (Some (Ended oc), finish_plan uid oc h)
         | Some other \<Rightarrow> (Some other, h\<lparr>h_current_item_uid := None\<rparr>)))"

text \<open>\<open>run_plan\<close>: the checks in the caller's thread; the command is then queued.\<close>

definition check_run_plan :: "host \<Rightarrow> exn + unit" where
  "check_run_plan h =
     (if h_engine h = None then Inl no_engine_error
      else if h_state h \<noteq> IDLE
      then Inl (host_error [Txt ''Engine is '', Txt (engine_state_str (h_state h)), Txt ''; cannot start a plan''])
      else if \<not> h_started h \<or> h_state h = CLOSED then Inl (host_error [Txt ''EngineHost is not running''])
      else Inr ())"

definition run_plan ::
  "texts \<Rightarrow> resolved_call \<Rightarrow> string \<Rightarrow> pydict \<Rightarrow> engine_reply \<times> run_engine \<Rightarrow> pause_round list \<Rightarrow> host \<Rightarrow>
   plan_end option \<times> host" where
  "run_plan tx factory uid metadata first rounds h =
     (case check_run_plan h of
        Inl e \<Rightarrow> (Some (Refused e), h)
      | Inr _ \<Rightarrow> run_plan_on_thread tx factory uid metadata first rounds h)"

subsection \<open>Interrupts, from the caller's thread\<close>

text \<open>A call into the engine that does not block; \<open>raises\<close> is how the engine refuses it, if it does.\<close>

definition call_engine :: "engine_call \<Rightarrow> exn option \<Rightarrow> (host, exn, unit) act" where
  "call_engine c raises = (\<lambda>h.
     (case raises of None \<Rightarrow> Inr () | Some e \<Rightarrow> Inl e, engine_called c h))"

definition request_pause :: "bool \<Rightarrow> exn option \<Rightarrow> (host, exn, unit) act" where
  "request_pause defer raises = (\<lambda>h. case require_engine h of
       Inl e \<Rightarrow> (Inl e, h) | Inr _ \<Rightarrow> call_engine (CallRequestPause defer) raises h)"

definition set_directive :: "string \<Rightarrow> (host, exn, unit) act" where
  "set_directive d = (\<lambda>h.
     if h_state h \<noteq> PAUSED
     then (Inl (host_error [Txt ''Engine is '', Txt (engine_state_str (h_state h)), Txt ''; can only '',
             Txt d, Txt '' when paused'']), h)
     else (Inr (), h\<lparr>h_directive := Some d\<rparr>))"

definition resume_plan :: "(host, exn, unit) act" where
  "resume_plan = (\<lambda>h. case require_engine h of Inl e \<Rightarrow> (Inl e, h) | Inr _ \<Rightarrow> set_directive ''resume'' h)"

definition interrupt :: "string \<Rightarrow> string \<Rightarrow> exn option \<Rightarrow> (host, exn, unit) act" where
  "interrupt kind reason raises = (\<lambda>h. case require_engine h of
       Inl e \<Rightarrow> (Inl e, h)
     | Inr _ \<Rightarrow>
         if h_state h = PAUSED then set_directive kind (h\<lparr>h_abort_reason := reason\<rparr>)
         else if h_state h = ENGINE_RUNNING then
           call_engine (if kind = ''abort'' then CallAbort reason
                        else if kind = ''stop'' then CallStop else CallHalt) raises h
         else (Inl (host_error [Txt ''Engine is '', Txt (engine_state_str (h_state h)), Txt ''; nothing to '', Txt kind]), h))"

definition abort :: "string \<Rightarrow> exn option \<Rightarrow> (host, exn, unit) act" where
  "abort reason raises = interrupt ''abort'' reason raises"

definition stop :: "exn option \<Rightarrow> (host, exn, unit) act" where
  "stop raises = interrupt ''stop'' [] raises"

definition halt :: "exn option \<Rightarrow> (host, exn, unit) act" where
  "halt raises = interrupt ''halt'' [] raises"

subsection \<open>Views of the engine\<close>

text \<open>\<open>_plain\<close>: plain JSON types. A dictionary comprehension keeps the last value of a key.\<close>

fun plain :: "texts \<Rightarrow> pyval \<Rightarrow> pyval"
  and plain_list :: "texts \<Rightarrow> pyval list \<Rightarrow> pyval list"
  and plain_dict :: "texts \<Rightarrow> pydict \<Rightarrow> pydict \<Rightarrow> pydict"
where
  "plain tx (PDict d) = PDict (plain_dict tx d [])"
| "plain tx (PList xs) = PList (plain_list tx xs)"
| "plain tx (PTuple xs) = PList (plain_list tx xs)"
| "plain tx (PSet xs) = PList (plain_list tx xs)"
| "plain tx (PObj n) = PStr (tx_fmt tx (PObj n))"
| "plain tx v = v"
| "plain_list tx [] = []"
| "plain_list tx (x # xs) = plain tx x # plain_list tx xs"
| "plain_dict tx [] acc = acc"
| "plain_dict tx ((k, v) # d) acc = plain_dict tx d (AList.update (PStr (py_str (tx_fmt tx) k)) (plain tx v) acc)"

definition EXPERIMENT_KEYS :: "string list" where
  "EXPERIMENT_KEYS = [''data_session'', ''cycle'', ''proposal'', ''username'', ''start_datetime'']"

definition metadata_error :: "(fstring \<Rightarrow> string) \<Rightarrow> exn \<Rightarrow> pydict" where
  "metadata_error txt e = [(PStr ''error'', PStr (txt (typed_text e)))]"

definition experiment_metadata :: "texts \<Rightarrow> (fstring \<Rightarrow> string) \<Rightarrow> host \<Rightarrow> exn + pydict" where
  "experiment_metadata tx txt h = (case h_engine h of
       None \<Rightarrow> Inr []
     | Some engine \<Rightarrow> (case re_md engine of
         Inl e \<Rightarrow> (if is_exception (exn_class e) then Inr (metadata_error txt e) else Inl e)
       | Inr md \<Rightarrow> Inr (map (\<lambda>key. (PStr key, plain tx (dget key md)))
                        (filter (\<lambda>key. dget key md \<noteq> PNone) EXPERIMENT_KEYS))))"

fun json_scalar :: "pyval \<Rightarrow> bool" where
  "json_scalar PNone = True"
| "json_scalar (PBool _) = True"
| "json_scalar (PInt _) = True"
| "json_scalar (PFloat _) = True"
| "json_scalar (PStr _) = True"
| "json_scalar _ = False"

definition engine_metadata :: "texts \<Rightarrow> (fstring \<Rightarrow> string) \<Rightarrow> host \<Rightarrow> exn + pydict" where
  "engine_metadata tx txt h = (case h_engine h of
       None \<Rightarrow> Inr []
     | Some engine \<Rightarrow> (case re_md engine of
         Inl e \<Rightarrow> (if is_exception (exn_class e) then Inr (metadata_error txt e) else Inl e)
       | Inr md \<Rightarrow> Inr (map (\<lambda>(k, v). (k, if json_scalar v then v else PStr (py_str (tx_fmt tx) v))) md)))"

text \<open>\<open>getattr(b, "_md", None) or getattr(b, "md", None) or {}\<close>, then its \<open>scan_id\<close>.\<close>

definition bundler_md :: "run_bundler \<Rightarrow> pyval" where
  "bundler_md b = py_or (rb_private_md b) (py_or (rb_md b) (PDict []))"

definition bundler_scan_id :: "run_bundler \<Rightarrow> pyval" where
  "bundler_scan_id b = (if is_dict (bundler_md b) then dget ''scan_id'' (as_dict (bundler_md b)) else PNone)"

definition open_runs :: "host \<Rightarrow> pydict list" where
  "open_runs h = (case h_engine h of
       None \<Rightarrow> []
     | Some engine \<Rightarrow> map (\<lambda>b. [(PStr ''uid'', rb_run_start_uid b), (PStr ''is_open'', PBool True),
                               (PStr ''scan_id'', bundler_scan_id b)]) (re_run_bundlers engine))"

text \<open>A stream's counter holds the number of its next event.\<close>

definition stream_counts :: "texts \<Rightarrow> pydict \<Rightarrow> (string \<times> int) list" where
  "stream_counts tx counters = fold (\<lambda>(name, nxt) acc.
     case as_int nxt of
       Some n \<Rightarrow> (if n \<ge> 1 then AList.update (py_str (tx_fmt tx) name) (n - 1) acc else acc)
     | None \<Rightarrow> acc) counters []"

record run_events =
  ru_uid :: pyval
  ru_scan_id :: pyval
  ru_streams :: "(string \<times> int) list"
  ru_total :: int

definition collected_events :: "texts \<Rightarrow> host \<Rightarrow> run_events list \<times> int" where
  "collected_events tx h = (case h_engine h of
       None \<Rightarrow> ([], 0)
     | Some engine \<Rightarrow>
         (let runs = map (\<lambda>b. let streams = stream_counts tx (rb_sequence_counters b) in
                \<lparr>ru_uid = rb_run_start_uid b, ru_scan_id = bundler_scan_id b, ru_streams = streams,
                 ru_total = sum_list (map snd streams)\<rparr>) (re_run_bundlers engine)
          in (runs, sum_list (map ru_total runs))))"

end
