(* ===== verification/QueueModels.thy ===== *)
theory QueueModels
  imports PyValue
begin

section \<open>Queue items and history entries (\<open>queue/models.py\<close>)\<close>

text \<open>
  The two frozen dataclasses of the queue and their dictionary forms, in
  \<open>bluesky-httpserver\<close>'s shape. A new uid (\<open>uuid4\<close>) and the clock are inputs: each function
  that draws one takes it as an argument. The annotation of \<open>args\<close> and \<open>kwargs\<close> (a list, a
  dictionary) is the type of the record's fields.
\<close>

datatype item_state = QUEUED | RUNNING | COMPLETED | FAILED | ABORTED | STOPPED | HALTED

fun state_str :: "item_state \<Rightarrow> string" where
  "state_str QUEUED = ''queued''"
| "state_str RUNNING = ''running''"
| "state_str COMPLETED = ''completed''"
| "state_str FAILED = ''failed''"
| "state_str ABORTED = ''aborted''"
| "state_str STOPPED = ''stopped''"
| "state_str HALTED = ''halted''"

text \<open>\<open>ItemState(s)\<close>: the member with that value, or \<open>ValueError\<close>.\<close>

definition item_state_of :: "string \<Rightarrow> exn + item_state" where
  "item_state_of s =
    (case filter (\<lambda>st. state_str st = s)
            [QUEUED, RUNNING, COMPLETED, FAILED, ABORTED, STOPPED, HALTED] of
       [] \<Rightarrow> Inl (Exn ValueError [Rep (PStr s), Txt '' is not a valid ItemState''])
     | st # _ \<Rightarrow> Inr st)"

record queue_item =
  item_name :: string
  item_type :: string
  item_args :: "pyval list"
  item_kwargs :: pydict
  item_meta :: pydict
  item_uid :: string
  item_user :: string
  item_user_group :: string
  item_created_at :: rat

definition item_to_dict :: "queue_item \<Rightarrow> pydict" where
  "item_to_dict it =
    [(PStr ''item_type'', PStr (item_type it)),
     (PStr ''name'', PStr (item_name it)),
     (PStr ''args'', PList (item_args it)),
     (PStr ''kwargs'', PDict (item_kwargs it)),
     (PStr ''meta'', PDict (item_meta it)),
     (PStr ''item_uid'', PStr (item_uid it)),
     (PStr ''user'', PStr (item_user it)),
     (PStr ''user_group'', PStr (item_user_group it))]"

text \<open>
  \<open>QueueItem.from_dict\<close>. Indexing a value that is not a dictionary by a string raises
  \<open>TypeError\<close>, a missing name \<open>KeyError\<close>; the conversions raise in the order of the keyword
  arguments.
\<close>

definition item_from_dict ::
  "(pyval \<Rightarrow> string) \<Rightarrow> string \<Rightarrow> rat \<Rightarrow> pyval \<Rightarrow> string \<Rightarrow> string \<Rightarrow> exn + queue_item" where
  "item_from_dict fmt fresh now v user ugroup = (case v of
     PDict d \<Rightarrow>
       (case map_of d (PStr ''name'') of
          None \<Rightarrow> Inl (Exn KeyError [Rep (PStr ''name'')])
        | Some nm \<Rightarrow>
       (case py_list (py_or (dget ''args'' d) (PList [])) of
          Inl e \<Rightarrow> Inl e
        | Inr args \<Rightarrow>
       (case py_dict (py_or (dget ''kwargs'' d) (PDict [])) of
          Inl e \<Rightarrow> Inl e
        | Inr kwargs \<Rightarrow>
       (case py_dict (py_or (dget ''meta'' d) (PDict [])) of
          Inl e \<Rightarrow> Inl e
        | Inr meta \<Rightarrow>
          Inr \<lparr>item_name = py_str fmt nm,
               item_type = py_str fmt (dget_or ''item_type'' (PStr ''plan'') d),
               item_args = args, item_kwargs = kwargs, item_meta = meta,
               item_uid = py_str fmt (py_or (dget ''item_uid'' d) (PStr fresh)),
               item_user = py_str fmt (py_or (dget ''user'' d) (PStr user)),
               item_user_group = py_str fmt (py_or (dget ''user_group'' d) (PStr ugroup)),
               item_created_at = now\<rparr>))))
   | _ \<Rightarrow> Inl (Exn TypeError [Txt ''object is not subscriptable by a string'']))"

text \<open>\<open>QueueItem.with_new_uid\<close>.\<close>

definition with_new_uid :: "string \<Rightarrow> rat \<Rightarrow> queue_item \<Rightarrow> queue_item" where
  "with_new_uid fresh now it = it\<lparr>item_uid := fresh, item_created_at := now\<rparr>"

record history_entry =
  he_item :: queue_item
  he_state :: item_state
  he_exit_status :: string
  he_run_uids :: "string list"
  he_time_start :: rat
  he_time_stop :: rat
  he_msg :: fstring
  he_traceback :: fstring

text \<open>
  \<open>HistoryEntry.to_dict\<close>; \<open>txt\<close> prints the message texts, which the model keeps as f-strings.
\<close>

definition history_to_dict :: "(fstring \<Rightarrow> string) \<Rightarrow> history_entry \<Rightarrow> pydict" where
  "history_to_dict txt h = AList.update (PStr ''result'') (PDict
    [(PStr ''exit_status'', PStr (he_exit_status h)),
     (PStr ''run_uids'', PList (map PStr (he_run_uids h))),
     (PStr ''scan_ids'', PList []),
     (PStr ''time_start'', PFloat (he_time_start h)),
     (PStr ''time_stop'', PFloat (he_time_stop h)),
     (PStr ''msg'', PStr (txt (he_msg h))),
     (PStr ''traceback'', PStr (txt (he_traceback h)))]) (item_to_dict (he_item h))"

subsection \<open>Lemmas\<close>

lemma state_str_inj: "state_str a = state_str b \<longleftrightarrow> a = b"
  by (cases a; cases b; simp)

lemma item_state_of_state_str [simp]: "item_state_of (state_str st) = Inr st"
  by (cases st) (simp_all add: item_state_of_def)

lemma dget_item_to_dict [simp]:
  "dget ''name'' (item_to_dict it) = PStr (item_name it)"
  "dget ''args'' (item_to_dict it) = PList (item_args it)"
  "dget ''kwargs'' (item_to_dict it) = PDict (item_kwargs it)"
  "dget ''meta'' (item_to_dict it) = PDict (item_meta it)"
  "dget ''item_uid'' (item_to_dict it) = PStr (item_uid it)"
  "dget ''user'' (item_to_dict it) = PStr (item_user it)"
  "dget ''user_group'' (item_to_dict it) = PStr (item_user_group it)"
  "dget_or ''item_type'' v (item_to_dict it) = PStr (item_type it)"
  "map_of (item_to_dict it) (PStr ''name'') = Some (PStr (item_name it))"
  by (simp_all add: dget_def dget_or_def item_to_dict_def)

lemma conv_or [simp]:
  "py_list (py_or (PList xs) (PList [])) = Inr xs"
  "py_dict (py_or (PDict d) (PDict [])) = Inr d"
  by (simp_all add: py_or_def)

lemma py_str_or_str [simp]: "py_str fmt (py_or (PStr s) (PStr t)) = (if s = [] then t else s)"
  by (simp add: py_or_def)

lemma with_new_uid_simps [simp]:
  "item_uid (with_new_uid u t it) = u" "item_created_at (with_new_uid u t it) = t"
  "item_name (with_new_uid u t it) = item_name it" "item_type (with_new_uid u t it) = item_type it"
  "item_args (with_new_uid u t it) = item_args it"
  "item_kwargs (with_new_uid u t it) = item_kwargs it"
  by (simp_all add: with_new_uid_def)

lemma item_from_dict_kwargs_distinct:
  assumes "item_from_dict fmt fresh now (PDict d) user ugroup = Inr it"
    and "\<And>k e. (k, PDict e) \<in> set d \<Longrightarrow> distinct (map fst e)"
  shows "distinct (map fst (item_kwargs it))"
proof -
  have py: "distinct (map fst e)" if "py_dict v = Inr e" "\<And>e'. v = PDict e' \<Longrightarrow> distinct (map fst e')"
    for v e
    using that by (cases v) (auto split: sum.splits intro: dict_of_pairs_distinct [of "[]"])
  obtain v where v: "v = py_or (dget ''kwargs'' d) (PDict [])" "py_dict v = Inr (item_kwargs it)"
    using assms(1) unfolding item_from_dict_def by (auto split: option.splits sum.splits)
  show ?thesis
  proof (rule py [OF v(2)])
    fix e' assume "v = PDict e'"
    with v(1) have "e' = [] \<or> dget ''kwargs'' d = PDict e'" by (auto simp: py_or_def split: if_splits)
    then show "distinct (map fst e')"
      using assms(2) by (auto simp: dget_def dest: map_of_SomeD split: option.splits)
  qed
qed

text \<open>
  The dictionary form of a queue item reads back as the same item. A missing uid, user or
  user group is filled in from the caller (\<open>str(data.get("user") or user)\<close>), and the creation
  time is the time of the read, because \<open>to_dict\<close> does not write it.
\<close>

theorem item_dict_roundtrip:
  "item_from_dict fmt fresh now (PDict (item_to_dict it)) user ugroup =
     Inr (it\<lparr>item_uid := (if item_uid it = [] then fresh else item_uid it),
             item_user := (if item_user it = [] then user else item_user it),
             item_user_group := (if item_user_group it = [] then ugroup else item_user_group it),
             item_created_at := now\<rparr>)"
  by (simp add: item_from_dict_def)

end
