(* ===== verification/QueueRepo.thy ===== *)
theory QueueRepo
  imports QueueModels
begin

section \<open>The queue repository interface (\<open>queue/repository.py\<close>)\<close>

text \<open>
  The protocol the queue service is written against: the record \<open>queue_repository\<close> has one
  field per method, each an action on the repository's state. What the methods promise is the
  abstract store below (a list of items, a list of history entries) and the locale
  \<open>repository\<close>: every operation either has the effect of the abstract one, or it raises
  because the store is unavailable and then changes nothing.
\<close>

record 'r queue_repository =
  rp_list_items :: "('r, exn, queue_item list) act"
  rp_get_item :: "string \<Rightarrow> ('r, exn, queue_item option) act"
  rp_insert :: "queue_item \<Rightarrow> int option \<Rightarrow> ('r, exn, unit) act"
  rp_replace :: "queue_item \<Rightarrow> ('r, exn, unit) act"
  rp_remove :: "string \<Rightarrow> ('r, exn, queue_item) act"
  rp_move :: "string \<Rightarrow> int \<Rightarrow> ('r, exn, unit) act"
  rp_clear :: "('r, exn, nat) act"
  rp_pop_front :: "('r, exn, queue_item option) act"
  rp_append_history :: "history_entry \<Rightarrow> ('r, exn, unit) act"
  rp_list_history :: "('r, exn, history_entry list) act"
  rp_clear_history :: "('r, exn, nat) act"

subsection \<open>The abstract store\<close>

record store =
  q_items :: "queue_item list"
  q_history :: "history_entry list"

abbreviation uids :: "queue_item list \<Rightarrow> string list" where
  "uids xs \<equiv> map item_uid xs"

definition find_item :: "string \<Rightarrow> queue_item list \<Rightarrow> queue_item option" where
  "find_item u xs = find (\<lambda>i. item_uid i = u) xs"

text \<open>\<open>None\<close> is the back; an index is clamped into the list.\<close>

definition target_index :: "int option \<Rightarrow> nat \<Rightarrow> nat" where
  "target_index idx n = (case idx of None \<Rightarrow> n | Some i \<Rightarrow> clamp i n)"

definition duplicate_uid :: "string \<Rightarrow> exn" where
  "duplicate_uid u = Exn ValueError [Txt ''Duplicate item uid '', Rep (PStr u)]"

definition no_such_uid :: "string \<Rightarrow> exn" where
  "no_such_uid u = Exn KeyError [Rep (PStr u)]"

definition spec_list_items :: "(store, exn, queue_item list) act" where
  "spec_list_items = get_state q_items"

definition spec_get_item :: "string \<Rightarrow> (store, exn, queue_item option) act" where
  "spec_get_item u = get_state (\<lambda>q. find_item u (q_items q))"

definition spec_insert :: "queue_item \<Rightarrow> int option \<Rightarrow> (store, exn, unit) act" where
  "spec_insert it idx = (\<lambda>q.
     if item_uid it \<in> set (uids (q_items q)) then (Inl (duplicate_uid (item_uid it)), q)
     else (Inr (), q\<lparr>q_items :=
            insert_at (target_index idx (length (q_items q))) it (q_items q)\<rparr>))"

text \<open>
  In-place replacement. \<open>keep old new\<close> is what is stored: the two repositories differ in
  whether the creation time of the old row survives.
\<close>

definition spec_replace ::
  "(queue_item \<Rightarrow> queue_item \<Rightarrow> queue_item) \<Rightarrow> queue_item \<Rightarrow> (store, exn, unit) act" where
  "spec_replace keep it = (\<lambda>q.
     if item_uid it \<in> set (uids (q_items q))
     then (Inr (), q\<lparr>q_items :=
            map (\<lambda>x. if item_uid x = item_uid it then keep x it else x) (q_items q)\<rparr>)
     else (Inl (no_such_uid (item_uid it)), q))"

definition without :: "string \<Rightarrow> queue_item list \<Rightarrow> queue_item list" where
  "without u xs = filter (\<lambda>x. item_uid x \<noteq> u) xs"

definition spec_remove :: "string \<Rightarrow> (store, exn, queue_item) act" where
  "spec_remove u = (\<lambda>q. case find_item u (q_items q) of
       None \<Rightarrow> (Inl (no_such_uid u), q)
     | Some it \<Rightarrow> (Inr it, q\<lparr>q_items := without u (q_items q)\<rparr>))"

definition spec_move :: "string \<Rightarrow> int \<Rightarrow> (store, exn, unit) act" where
  "spec_move u i = chain (spec_remove u) (\<lambda>it. spec_insert it (Some i))"

definition spec_clear :: "(store, exn, nat) act" where
  "spec_clear = (\<lambda>q. (Inr (length (q_items q)), q\<lparr>q_items := []\<rparr>))"

definition spec_pop_front :: "(store, exn, queue_item option) act" where
  "spec_pop_front = (\<lambda>q. case q_items q of
       [] \<Rightarrow> (Inr None, q) | x # xs \<Rightarrow> (Inr (Some x), q\<lparr>q_items := xs\<rparr>))"

definition spec_append_history :: "history_entry \<Rightarrow> (store, exn, unit) act" where
  "spec_append_history h = modify (\<lambda>q. q\<lparr>q_history := q_history q @ [h]\<rparr>)"

definition spec_list_history :: "(store, exn, history_entry list) act" where
  "spec_list_history = get_state q_history"

definition spec_clear_history :: "(store, exn, nat) act" where
  "spec_clear_history = (\<lambda>q. (Inr (length (q_history q)), q\<lparr>q_history := []\<rparr>))"

lemmas spec_defs = spec_list_items_def spec_get_item_def spec_insert_def spec_replace_def
  spec_remove_def spec_move_def spec_clear_def spec_pop_front_def spec_append_history_def
  spec_list_history_def spec_clear_history_def

lemma find_item_None: "find_item u xs = None \<longleftrightarrow> u \<notin> set (uids xs)"
  unfolding find_item_def find_None_iff by auto

lemma find_item_Some: "find_item u xs = Some it \<Longrightarrow> it \<in> set xs \<and> item_uid it = u"
  unfolding find_item_def find_Some_iff by auto

lemma find_item_mem: "distinct (uids xs) \<Longrightarrow> it \<in> set xs \<Longrightarrow> find_item (item_uid it) xs = Some it"
  by (induction xs) (auto simp: find_item_def)

lemma set_uids_without [simp]: "set (uids (without u xs)) = set (uids xs) - {u}"
  by (auto simp: without_def)

lemma distinct_without [simp]: "distinct (uids xs) \<Longrightarrow> distinct (uids (without u xs))"
  by (simp add: without_def distinct_map_filter)

lemma without_notin [simp]: "u \<notin> set (uids xs) \<Longrightarrow> without u xs = xs"
  unfolding without_def by (rule filter_True) auto

lemma without_simps [simp]:
  "without u [] = []"
  "without u (x # xs) = (if item_uid x = u then without u xs else x # without u xs)"
  by (simp_all add: without_def)

lemma length_without:
  "distinct (uids xs) \<Longrightarrow> u \<in> set (uids xs) \<Longrightarrow> Suc (length (without u xs)) = length xs"
proof (induction xs)
  case Nil
  then show ?case by simp
next
  case (Cons x xs)
  show ?case
  proof (cases "item_uid x = u")
    case True
    with Cons.prems(1) have "u \<notin> set (uids xs)" by simp
    with True show ?thesis by (simp del: set_map)
  next
    case False
    with Cons show ?thesis by auto
  qed
qed

lemma delete_at_without:
  "distinct (uids xs) \<Longrightarrow> find_pos (\<lambda>x. item_uid x = u) xs = Some i \<Longrightarrow>
   delete_at i xs = without u xs"
  unfolding without_def by (rule delete_at_key)

lemma insert_at_without:
  "find_pos (\<lambda>x. item_uid x = u) xs = Some k \<Longrightarrow> distinct (uids xs) \<Longrightarrow>
   insert_at k (xs ! k) (without u xs) = xs"
  using find_pos_Some [of _ xs k] by (simp add: insert_at_delete_at flip: delete_at_without)

subsection \<open>The contract\<close>

lemma implements_id:
  "(\<And>r. valid r \<Longrightarrow> valid (snd (m r))) \<Longrightarrow> (\<And>r. valid r \<Longrightarrow> m r = spec r) \<Longrightarrow>
   implements (\<lambda>r. r) valid (\<lambda>_. True) m spec"
  by (rule implementsI) simp_all

locale repository =
  fixes ops :: "'r queue_repository"
    and absq :: "'r \<Rightarrow> store"
    and valid :: "'r \<Rightarrow> bool"
    and up :: "'r \<Rightarrow> bool"
    and keep :: "queue_item \<Rightarrow> queue_item \<Rightarrow> queue_item"
  assumes uids_distinct: "valid r \<Longrightarrow> distinct (uids (q_items (absq r)))"
    and keep_uid: "item_uid (keep old new) = item_uid new"
    and keep_rest: "(keep old new)\<lparr>item_created_at := t\<rparr> = new\<lparr>item_created_at := t\<rparr>"
    and list_items_law: "implements absq valid up (rp_list_items ops) spec_list_items"
    and get_item_law: "implements absq valid up (rp_get_item ops u) (spec_get_item u)"
    and insert_law: "implements absq valid up (rp_insert ops it idx) (spec_insert it idx)"
    and replace_law: "implements absq valid up (rp_replace ops it) (spec_replace keep it)"
    and remove_law: "implements absq valid up (rp_remove ops u) (spec_remove u)"
    and clear_law: "implements absq valid up (rp_clear ops) spec_clear"
    and pop_front_law: "implements absq valid up (rp_pop_front ops) spec_pop_front"
    and append_history_law:
      "implements absq valid up (rp_append_history ops h) (spec_append_history h)"
    and list_history_law: "implements absq valid up (rp_list_history ops) spec_list_history"
    and clear_history_law: "implements absq valid up (rp_clear_history ops) spec_clear_history"
    and move_law: "valid r \<Longrightarrow> up r \<Longrightarrow>
      fst (rp_move ops u i r) = fst (spec_move u i (absq r)) \<and>
      absq (snd (rp_move ops u i r)) = snd (spec_move u i (absq r)) \<and>
      valid (snd (rp_move ops u i r)) \<and> up (snd (rp_move ops u i r))"
begin

text \<open>The laws as rewrite rules for an available repository.\<close>

abbreviation live :: "'r \<Rightarrow> bool" where
  "live r \<equiv> valid r \<and> up r"

lemma list_items_live: "live r \<Longrightarrow> fst (rp_list_items ops r) = Inr (q_items (absq r))"
    "live r \<Longrightarrow> absq (snd (rp_list_items ops r)) = absq r"
    "live r \<Longrightarrow> valid (snd (rp_list_items ops r))" "live r \<Longrightarrow> up (snd (rp_list_items ops r))"
  using implements_up [OF list_items_law, of r] by (simp_all add: spec_defs act_simps)

lemma get_item_live: "live r \<Longrightarrow> fst (rp_get_item ops u r) = Inr (find_item u (q_items (absq r)))"
    "live r \<Longrightarrow> absq (snd (rp_get_item ops u r)) = absq r"
    "live r \<Longrightarrow> valid (snd (rp_get_item ops u r))" "live r \<Longrightarrow> up (snd (rp_get_item ops u r))"
  using implements_up [OF get_item_law, of r u] by (simp_all add: spec_defs act_simps)

lemma insert_live: "live r \<Longrightarrow> fst (rp_insert ops it idx r) = fst (spec_insert it idx (absq r))"
    "live r \<Longrightarrow> absq (snd (rp_insert ops it idx r)) = snd (spec_insert it idx (absq r))"
    "live r \<Longrightarrow> valid (snd (rp_insert ops it idx r))" "live r \<Longrightarrow> up (snd (rp_insert ops it idx r))"
  using implements_up [OF insert_law, of r it idx] by simp_all

lemma replace_live: "live r \<Longrightarrow> fst (rp_replace ops it r) = fst (spec_replace keep it (absq r))"
    "live r \<Longrightarrow> absq (snd (rp_replace ops it r)) = snd (spec_replace keep it (absq r))"
    "live r \<Longrightarrow> valid (snd (rp_replace ops it r))" "live r \<Longrightarrow> up (snd (rp_replace ops it r))"
  using implements_up [OF replace_law, of r it] by simp_all

lemma remove_live: "live r \<Longrightarrow> fst (rp_remove ops u r) = fst (spec_remove u (absq r))"
    "live r \<Longrightarrow> absq (snd (rp_remove ops u r)) = snd (spec_remove u (absq r))"
    "live r \<Longrightarrow> valid (snd (rp_remove ops u r))" "live r \<Longrightarrow> up (snd (rp_remove ops u r))"
  using implements_up [OF remove_law, of r u] by simp_all

lemma pop_front_live: "live r \<Longrightarrow> fst (rp_pop_front ops r) = fst (spec_pop_front (absq r))"
    "live r \<Longrightarrow> absq (snd (rp_pop_front ops r)) = snd (spec_pop_front (absq r))"
    "live r \<Longrightarrow> valid (snd (rp_pop_front ops r))" "live r \<Longrightarrow> up (snd (rp_pop_front ops r))"
  using implements_up [OF pop_front_law, of r] by simp_all

lemma clear_live: "live r \<Longrightarrow> fst (rp_clear ops r) = Inr (length (q_items (absq r)))"
    "live r \<Longrightarrow> absq (snd (rp_clear ops r)) = (absq r)\<lparr>q_items := []\<rparr>"
    "live r \<Longrightarrow> valid (snd (rp_clear ops r))" "live r \<Longrightarrow> up (snd (rp_clear ops r))"
  using implements_up [OF clear_law, of r] by (simp_all add: spec_defs)

lemma append_history_live: "live r \<Longrightarrow> fst (rp_append_history ops h r) = Inr ()"
    "live r \<Longrightarrow> absq (snd (rp_append_history ops h r)) = (absq r)\<lparr>q_history := q_history (absq r) @ [h]\<rparr>"
    "live r \<Longrightarrow> valid (snd (rp_append_history ops h r))"
    "live r \<Longrightarrow> up (snd (rp_append_history ops h r))"
  using implements_up [OF append_history_law, of r h] by (simp_all add: spec_defs act_simps)

lemma list_history_live: "live r \<Longrightarrow> fst (rp_list_history ops r) = Inr (q_history (absq r))"
    "live r \<Longrightarrow> absq (snd (rp_list_history ops r)) = absq r"
    "live r \<Longrightarrow> valid (snd (rp_list_history ops r))" "live r \<Longrightarrow> up (snd (rp_list_history ops r))"
  using implements_up [OF list_history_law, of r] by (simp_all add: spec_defs act_simps)

lemma clear_history_live: "live r \<Longrightarrow> fst (rp_clear_history ops r) = Inr (length (q_history (absq r)))"
    "live r \<Longrightarrow> absq (snd (rp_clear_history ops r)) = (absq r)\<lparr>q_history := []\<rparr>"
    "live r \<Longrightarrow> valid (snd (rp_clear_history ops r))" "live r \<Longrightarrow> up (snd (rp_clear_history ops r))"
  using implements_up [OF clear_history_law, of r] by (simp_all add: spec_defs)

lemmas live_laws = list_items_live get_item_live insert_live replace_live remove_live
  pop_front_live clear_live append_history_live list_history_live clear_history_live

text \<open>Validity survives every operation, available or not.\<close>

lemma valid_ops:
  "valid r \<Longrightarrow> valid (snd (rp_list_items ops r))"
  "valid r \<Longrightarrow> valid (snd (rp_get_item ops u r))"
  "valid r \<Longrightarrow> valid (snd (rp_insert ops it idx r))"
  "valid r \<Longrightarrow> valid (snd (rp_replace ops it r))"
  "valid r \<Longrightarrow> valid (snd (rp_remove ops u r))"
  "valid r \<Longrightarrow> valid (snd (rp_clear ops r))"
  "valid r \<Longrightarrow> valid (snd (rp_pop_front ops r))"
  "valid r \<Longrightarrow> valid (snd (rp_append_history ops h r))"
  "valid r \<Longrightarrow> valid (snd (rp_list_history ops r))"
  "valid r \<Longrightarrow> valid (snd (rp_clear_history ops r))"
  using list_items_law get_item_law insert_law replace_law remove_law clear_law pop_front_law
    append_history_law list_history_law clear_history_law
  by (simp_all add: implements_def)

end

end
