(* ===== verification/QueueService.thy ===== *)
theory QueueService
  imports QueueRepo Registry
begin

section \<open>The queue service (\<open>queue/service.py\<close>)\<close>

text \<open>
  \<open>QueueService\<close>: a repository, given by its operations \<open>ops\<close> and its state, the catalogue \<open>reg\<close>
  that items are validated against, and the revision counter. Every method holds the service's
  lock, so it is one atomic action. A method that may draw a new uid takes the uid and the time
  as \<open>fresh\<close>; a batch takes one pair per item. Positions and neighbour uids come from request
  payloads as they are, so they are Python values.

  The lemmas of the last part are proved once, for any repository that keeps the contract of
  \<open>QueueRepo\<close>; the properties instantiate them for the two repositories of the program.
\<close>

record 'r queue_service =
  qs_repo :: 'r
  qs_revision :: nat

type_synonym ('r, 'a) service_act = "('r queue_service, exn, 'a) act"

definition repo :: "('r, exn, 'a) act \<Rightarrow> ('r, 'a) service_act" where
  "repo = on_part qs_repo (\<lambda>r s. s\<lparr>qs_repo := r\<rparr>)"

definition lift_result :: "exn + 'a \<Rightarrow> ('s, exn, 'a) act" where
  "lift_result r = (case r of Inl e \<Rightarrow> throw e | Inr x \<Rightarrow> ret x)"

definition bump :: "('r, unit) service_act" where
  "bump = modify (\<lambda>s. s\<lparr>qs_revision := qs_revision s + 1\<rparr>)"

definition not_in_queue :: "pyval \<Rightarrow> exn" where
  "not_in_queue u = Exn QueueError [Txt ''Item '', Rep u, Txt '' is not in the queue'']"

subsection \<open>Observation\<close>

definition items :: "'r queue_repository \<Rightarrow> ('r, queue_item list) service_act" where
  "items ops = repo (rp_list_items ops)"

definition get_queued :: "'r queue_repository \<Rightarrow> string \<Rightarrow> ('r, queue_item) service_act" where
  "get_queued ops u = chain (repo (rp_get_item ops u)) (\<lambda>found.
     case found of None \<Rightarrow> throw (not_in_queue (PStr u)) | Some it \<Rightarrow> ret it)"

definition history :: "'r queue_repository \<Rightarrow> ('r, history_entry list) service_act" where
  "history ops = repo (rp_list_history ops)"

definition queue_len :: "'r queue_repository \<Rightarrow> ('r, nat) service_act" where
  "queue_len ops = chain (repo (rp_list_items ops)) (\<lambda>xs. ret (length xs))"

subsection \<open>Validation\<close>

text \<open>
  The type test on \<open>args\<close> and \<open>kwargs\<close> always passes: the fields of an item have those types.
\<close>

definition validate :: "registry \<Rightarrow> queue_item \<Rightarrow> exn + unit" where
  "validate reg it =
     (if item_type it \<noteq> ''plan'' then Inl (Exn QueueError [Txt ''Unsupported item type '',
         Rep (PStr (item_type it)), Txt '': this service runs Bluesky plans only''])
      else (case get_plan (item_name it) reg of
          Inl e \<Rightarrow> Inl (Exn QueueError (exn_text e))
        | Inr plan \<Rightarrow> check_parameters plan (item_name it) (item_args it) (item_kwargs it)))"

subsection \<open>Positions\<close>

definition index_of :: "'r queue_repository \<Rightarrow> pyval \<Rightarrow> ('r, nat) service_act" where
  "index_of ops u = chain (repo (rp_list_items ops)) (\<lambda>xs.
     case find_pos (\<lambda>x. PStr (item_uid x) = u) xs of
       Some i \<Rightarrow> ret i | None \<Rightarrow> throw (not_in_queue u))"

definition resolve_index ::
  "'r queue_repository \<Rightarrow> pyval \<Rightarrow> pyval \<Rightarrow> pyval \<Rightarrow> bool \<Rightarrow> ('r, nat) service_act" where
  "resolve_index ops pos before_uid after_uid inserting = chain (repo (rp_list_items ops)) (\<lambda>xs.
     let n = length xs in
     if length (filter (\<lambda>x. x \<noteq> PNone) [pos, before_uid, after_uid]) > 1
     then throw (Exn QueueError [Txt ''Specify at most one of '', Rep (PStr ''pos''), Txt '', '',
            Rep (PStr ''before_uid''), Txt '', '', Rep (PStr ''after_uid'')])
     else if before_uid \<noteq> PNone then index_of ops before_uid
     else if after_uid \<noteq> PNone then chain (index_of ops after_uid) (\<lambda>i. ret (i + 1))
     else if pos = PNone \<or> pos = PStr ''back'' then ret n
     else if pos = PStr ''front'' then ret 0
     else (case as_int pos of
         Some p \<Rightarrow>
           let p = (if p < 0 then int n + p + (if inserting then 1 else 0) else p)
           in ret (nat (max 0 (min p (int n))))
       | None \<Rightarrow> throw (Exn QueueError [Txt ''Invalid position '', Rep pos,
                   Txt '': use 'front', 'back' or an integer''])))"

definition index_of_or_back :: "'r queue_repository \<Rightarrow> queue_item \<Rightarrow> ('r, nat) service_act" where
  "index_of_or_back ops it = chain (repo (rp_list_items ops)) (\<lambda>xs. ret (length xs))"

subsection \<open>Mutation\<close>

definition add ::
  "'r queue_repository \<Rightarrow> registry \<Rightarrow> string \<times> rat \<Rightarrow> queue_item \<Rightarrow> pyval \<Rightarrow> pyval \<Rightarrow> pyval \<Rightarrow>
   ('r, queue_item \<times> nat) service_act" where
  "add ops reg fresh it pos before_uid after_uid =
     chain (lift_result (validate reg it)) (\<lambda>_.
     chain (repo (rp_get_item ops (item_uid it))) (\<lambda>found.
     let it = (if found \<noteq> None then with_new_uid (fst fresh) (snd fresh) it else it) in
     chain (resolve_index ops pos before_uid after_uid True) (\<lambda>index.
     chain (repo (rp_insert ops it (Some (int index)))) (\<lambda>_.
     chain bump (\<lambda>_.
     chain (index_of ops (PStr (item_uid it))) (\<lambda>i. ret (it, i)))))))"

definition add_batch ::
  "'r queue_repository \<Rightarrow> registry \<Rightarrow> (nat \<Rightarrow> string \<times> rat) \<Rightarrow> queue_item list \<Rightarrow> pyval \<Rightarrow> pyval \<Rightarrow> pyval \<Rightarrow>
   ('r, (queue_item \<times> nat) list) service_act" where
  "add_batch ops reg fresh its pos before_uid after_uid =
     chain (for_each (\<lambda>it. lift_result (validate reg it)) its) (\<lambda>_.
     for_each (\<lambda>(i, it). add ops reg (fresh i) it pos before_uid after_uid) (enumerate 0 its))"

definition update ::
  "'r queue_repository \<Rightarrow> registry \<Rightarrow> string \<times> rat \<Rightarrow> queue_item \<Rightarrow> bool \<Rightarrow> ('r, queue_item) service_act" where
  "update ops reg fresh it replace_uid =
     chain (lift_result (validate reg it)) (\<lambda>_.
     chain (get_queued ops (item_uid it)) (\<lambda>existing.
     let new_item = (if replace_uid then with_new_uid (fst fresh) (snd fresh) it else it) in
     chain
       (if replace_uid then
          chain (index_of ops (PStr (item_uid existing))) (\<lambda>index.
          chain (repo (rp_remove ops (item_uid existing))) (\<lambda>_.
          repo (rp_insert ops new_item (Some (int index)))))
        else repo (rp_replace ops new_item)) (\<lambda>_.
     chain bump (\<lambda>_. ret new_item))))"

definition remove :: "'r queue_repository \<Rightarrow> string \<Rightarrow> ('r, queue_item) service_act" where
  "remove ops u =
     chain (handle (repo (rp_remove ops u))
        (\<lambda>e. if exn_class e = KeyError then throw (not_in_queue (PStr u)) else throw e)) (\<lambda>it.
     chain bump (\<lambda>_. ret it))"

fun remove_batch :: "'r queue_repository \<Rightarrow> string list \<Rightarrow> bool \<Rightarrow> ('r, queue_item list) service_act" where
  "remove_batch ops [] ignore_missing = ret []"
| "remove_batch ops (u # us) ignore_missing =
     chain (handle (chain (remove ops u) (\<lambda>it. ret [it]))
        (\<lambda>e. if exn_class e = QueueError \<and> ignore_missing then ret [] else throw e)) (\<lambda>first.
     chain (remove_batch ops us ignore_missing) (\<lambda>rest. ret (first @ rest)))"

definition move ::
  "'r queue_repository \<Rightarrow> string \<Rightarrow> pyval \<Rightarrow> pyval \<Rightarrow> pyval \<Rightarrow> ('r, nat) service_act" where
  "move ops u pos before_uid after_uid =
     chain (get_queued ops u) (\<lambda>it.
     if before_uid = PStr u \<or> after_uid = PStr u
     then throw (Exn QueueError [Txt ''An item cannot be moved relative to itself''])
     else
     chain (repo (rp_remove ops u)) (\<lambda>_.
     chain (handle (resolve_index ops pos before_uid after_uid True)
        (\<lambda>e. if exn_class e = QueueError
             then chain (index_of_or_back ops it) (\<lambda>i.
                  chain (repo (rp_insert ops it (Some (int i)))) (\<lambda>_. throw e))
             else throw e)) (\<lambda>index.
     chain (repo (rp_insert ops it (Some (int index)))) (\<lambda>_.
     chain bump (\<lambda>_. index_of ops (PStr u))))))"

definition clear :: "'r queue_repository \<Rightarrow> ('r, nat) service_act" where
  "clear ops = chain (repo (rp_clear ops)) (\<lambda>n. chain bump (\<lambda>_. ret n))"

definition pop_front :: "'r queue_repository \<Rightarrow> ('r, queue_item option) service_act" where
  "pop_front ops = chain (repo (rp_pop_front ops)) (\<lambda>it.
     if it \<noteq> None then chain bump (\<lambda>_. ret it) else ret it)"

definition push_front :: "'r queue_repository \<Rightarrow> queue_item \<Rightarrow> ('r, unit) service_act" where
  "push_front ops it = chain (repo (rp_insert ops it (Some 0))) (\<lambda>_. bump)"

definition record_history :: "'r queue_repository \<Rightarrow> history_entry \<Rightarrow> ('r, unit) service_act" where
  "record_history ops entry = chain (repo (rp_append_history ops entry)) (\<lambda>_. bump)"

definition clear_history :: "'r queue_repository \<Rightarrow> ('r, nat) service_act" where
  "clear_history ops = chain (repo (rp_clear_history ops)) (\<lambda>n. chain bump (\<lambda>_. ret n))"

definition QueueService_init :: "'r \<Rightarrow> 'r queue_service" where
  "QueueService_init r = \<lparr>qs_repo = r, qs_revision = 0\<rparr>"

lemma repo_eq [act_simps]:
  "repo m s = (fst (m (qs_repo s)), s\<lparr>qs_repo := snd (m (qs_repo s))\<rparr>)"
  by (simp add: repo_def act_simps)

lemma bump_eq [act_simps]: "bump s = (Inr (), s\<lparr>qs_revision := qs_revision s + 1\<rparr>)"
  by (simp add: bump_def act_simps)

lemma lift_result_eq [act_simps]: "lift_result r s = (r, s)"
  by (cases r) (simp_all add: lift_result_def act_simps)

lemma keeps_lift_result [intro, simp]: "keeps P (lift_result r)"
  by (simp add: keeps_def act_simps)

end
