(* ===== verification/Sequencer.thy ===== *)
theory Sequencer
  imports EngineHost QueueService
begin

section \<open>The queue loop (\<open>sequencer/sequencer.py\<close>)\<close>

text \<open>
  \<open>Sequencer\<close>: the attributes of the object, with the queue service and the Engine Host it works
  on. A control operation is an action on that state. One pass of the loop is three steps of
  the sequencer thread, between which other threads may act: \<open>should_run\<close> (under the lock),
  the pop with the start of an item, and, when the plan has ended, the bookkeeping. A database
  error in \<open>should_run\<close> or in the pop is not caught by the loop: the step raises and the thread is gone.
  \<open>sq_events\<close> are the events the sequencer emitted, in order. Fresh uids, the clock, and what
  the engine does come as arguments.
\<close>

fun exit_to_state :: "string \<Rightarrow> item_state" where
  "exit_to_state s =
     (if s = ''success'' then COMPLETED else if s = ''abort'' then ABORTED
      else if s = ''stop'' then STOPPED else if s = ''halt'' then HALTED else FAILED)"

record 'r sequencer =
  sq_queue :: "'r queue_service"
  sq_host :: host
  sq_require_synced :: bool
  sq_pending_history :: "history_entry list"
  sq_database_error :: "fstring option"
  sq_running :: bool
  sq_stop_pending :: bool
  sq_autostart :: bool
  sq_loop_mode :: bool
  sq_closing :: bool
  sq_thread_started :: bool
  sq_running_item :: "queue_item option"
  sq_last_error :: "fstring option"
  sq_events :: "event list"

type_synonym ('r, 'a) seq_act = "('r sequencer, exn, 'a) act"

definition Sequencer_init :: "'r queue_service \<Rightarrow> host \<Rightarrow> bool \<Rightarrow> 'r sequencer" where
  "Sequencer_init q h require_synced =
    \<lparr>sq_queue = q, sq_host = h, sq_require_synced = require_synced, sq_pending_history = [],
     sq_database_error = None, sq_running = False, sq_stop_pending = False, sq_autostart = False,
     sq_loop_mode = False, sq_closing = False, sq_thread_started = False, sq_running_item = None,
     sq_last_error = None, sq_events = []\<rparr>"

definition on_queue :: "('r, 'a) service_act \<Rightarrow> ('r, 'a) seq_act" where
  "on_queue = on_part sq_queue (\<lambda>q s. s\<lparr>sq_queue := q\<rparr>)"

definition announce :: "event_kind \<Rightarrow> (string \<times> payload_value) list \<Rightarrow> ('r, unit) seq_act" where
  "announce k p = modify (\<lambda>s. s\<lparr>sq_events := sq_events s @ [event_of k p]\<rparr>)"

definition queue_state_payload :: "bool \<Rightarrow> bool \<Rightarrow> bool \<Rightarrow> (string \<times> payload_value) list" where
  "queue_state_payload running stop_pending autostart =
     [(''running'', PV (PBool running)), (''stop_pending'', PV (PBool stop_pending)),
      (''autostart'', PV (PBool autostart))]"

definition sequencer_error :: "error_code \<Rightarrow> fstring \<Rightarrow> exn" where
  "sequencer_error code t = Exn (SequencerError code) t"

subsection \<open>Lifecycle\<close>

definition start_thread :: "('r, unit) seq_act" where
  "start_thread = (\<lambda>s.
     if sq_thread_started s
     then (Inl (sequencer_error QUEUE_REFUSED [Txt ''Sequencer thread already started'']), s)
     else (Inr (), s\<lparr>sq_thread_started := True\<rparr>))"

definition close :: "('r, unit) seq_act" where
  "close = modify (\<lambda>s. s\<lparr>sq_closing := True\<rparr>)"

subsection \<open>Control\<close>

definition check_experiment :: "texts \<Rightarrow> (fstring \<Rightarrow> string) \<Rightarrow> ('r, unit) seq_act" where
  "check_experiment tx txt = (\<lambda>s.
     if \<not> sq_require_synced s then (Inr (), s)
     else (case experiment_metadata tx txt (sq_host s) of
         Inl e \<Rightarrow> (Inl e, s)
       | Inr md \<Rightarrow>
           (if truthy (dget ''data_session'' md) then (Inr (), s)
            else (Inl (sequencer_error EXPERIMENT_UNSYNCED
              [Txt ''No experiment synced: RE.md has no 'data_session'. Run sync-experiment first.'']), s))))"

text \<open>\<open>flush_pending_history\<close>: the \<open>while\<close> loop over the held entries, oldest first.\<close>

fun flush_entries :: "'r queue_repository \<Rightarrow> history_entry list \<Rightarrow> ('r, bool) seq_act" where
  "flush_entries ops [] = chain (modify (\<lambda>s. s\<lparr>sq_database_error := None\<rparr>)) (\<lambda>_. ret True)"
| "flush_entries ops (entry # rest) = (\<lambda>s.
     case on_queue (record_history ops entry) s of
       (Inl e, s') \<Rightarrow>
         (if is_exception (exn_class e) then (Inr False, s'\<lparr>sq_database_error := Some (typed_text e)\<rparr>)
          else (Inl e, s'))
     | (Inr _, s') \<Rightarrow> flush_entries ops rest (s'\<lparr>sq_pending_history := rest\<rparr>))"

definition flush_pending_history :: "'r queue_repository \<Rightarrow> ('r, bool) seq_act" where
  "flush_pending_history ops = (\<lambda>s. flush_entries ops (sq_pending_history s) s)"

definition database_unavailable :: "'r sequencer \<Rightarrow> exn" where
  "database_unavailable s = sequencer_error DB_UNAVAILABLE
     ([Txt ''Database unavailable (''] @ (case sq_database_error s of None \<Rightarrow> [Fmt PNone] | Some t \<Rightarrow> t) @
      [Txt ''); '', Fmt (PInt (int (length (sq_pending_history s)))), Txt '' history '',
       Txt (if length (sq_pending_history s) = 1 then ''entry is'' else ''entries are''),
       Txt '' held in memory. Fix the database, then start the queue again.''])"

definition queue_start :: "'r queue_repository \<Rightarrow> texts \<Rightarrow> (fstring \<Rightarrow> string) \<Rightarrow> ('r, unit) seq_act" where
  "queue_start ops tx txt =
     chain (check_experiment tx txt) (\<lambda>_.
     chain (flush_pending_history ops) (\<lambda>flushed.
     if \<not> flushed then (\<lambda>s. (Inl (database_unavailable s), s))
     else
     chain (get_state (\<lambda>s. h_state (sq_host s))) (\<lambda>host_state.
     if host_state = NO_ENGINE
     then throw (sequencer_error QUEUE_REFUSED [Txt ''No profile loaded; the queue cannot start''])
     else
     chain (on_queue (queue_len ops)) (\<lambda>n.
     if n = 0 then throw (sequencer_error QUEUE_EMPTY [Txt ''Queue is empty.''])
     else
     chain (modify (\<lambda>s. s\<lparr>sq_running := True, sq_stop_pending := False\<rparr>)) (\<lambda>_.
     chain (on_queue (queue_len ops)) (\<lambda>n_items.
     chain (get_state sq_autostart) (\<lambda>autostart.
     announce QUEUE_STATE (queue_state_payload True False autostart))))))))"

definition queue_stop :: "('r, unit) seq_act" where
  "queue_stop = (\<lambda>s.
     if \<not> sq_running s then (Inl (sequencer_error QUEUE_REFUSED [Txt ''The queue is not running'']), s)
     else announce QUEUE_STATE (queue_state_payload True True (sq_autostart s)) (s\<lparr>sq_stop_pending := True\<rparr>))"

definition queue_stop_cancel :: "('r, unit) seq_act" where
  "queue_stop_cancel = (\<lambda>s.
     announce QUEUE_STATE (queue_state_payload (sq_running s) False (sq_autostart s)) (s\<lparr>sq_stop_pending := False\<rparr>))"

definition set_autostart :: "texts \<Rightarrow> (fstring \<Rightarrow> string) \<Rightarrow> bool \<Rightarrow> ('r, unit) seq_act" where
  "set_autostart tx txt enable =
     chain (if enable then check_experiment tx txt else ret ()) (\<lambda>_ s.
     announce QUEUE_STATE (queue_state_payload (sq_running s) (sq_stop_pending s) enable) (s\<lparr>sq_autostart := enable\<rparr>))"

definition set_loop_mode :: "bool \<Rightarrow> ('r, unit) seq_act" where
  "set_loop_mode enable = modify (\<lambda>s. s\<lparr>sq_loop_mode := enable\<rparr>)"

definition execute_now :: "'r queue_repository \<Rightarrow> texts \<Rightarrow> (fstring \<Rightarrow> string) \<Rightarrow> queue_item \<Rightarrow> ('r, unit) seq_act" where
  "execute_now ops tx txt it = chain (on_queue (push_front ops it)) (\<lambda>_. queue_start ops tx txt)"

subsection \<open>The loop\<close>

definition should_run :: "'r queue_repository \<Rightarrow> ('r, bool) seq_act" where
  "should_run ops = (\<lambda>s.
     if sq_closing s then (Inr False, s)
     else if sq_running s \<and> sq_stop_pending s then
       chain (announce QUEUE_STATE (queue_state_payload False False (sq_autostart s))) (\<lambda>_. ret False)
         (s\<lparr>sq_running := False, sq_stop_pending := False\<rparr>)
     else
       chain
         (if sq_autostart s \<and> \<not> sq_running s then
            chain (on_queue (queue_len ops)) (\<lambda>n.
            if n > 0 then
              chain (modify (\<lambda>s. s\<lparr>sq_running := True\<rparr>)) (\<lambda>_.
              chain (on_queue (queue_len ops)) (\<lambda>_.
              announce QUEUE_STATE (queue_state_payload True False True)))
            else ret ())
          else ret ())
         (\<lambda>_. get_state (\<lambda>s. sq_running s \<and> h_state (sq_host s) = IDLE)) s)"

text \<open>The pop: an empty queue goes idle; an item becomes the running item.\<close>

definition take_item :: "'r queue_repository \<Rightarrow> ('r, queue_item option) seq_act" where
  "take_item ops =
     chain (on_queue (pop_front ops)) (\<lambda>found.
     case found of
       None \<Rightarrow>
         chain (modify (\<lambda>s. s\<lparr>sq_running := False, sq_stop_pending := False\<rparr>)) (\<lambda>_ s.
         chain (announce QUEUE_STATE (queue_state_payload False False (sq_autostart s) @
            [(''reason'', PV (PStr ''queue empty''))])) (\<lambda>_. ret None) s)
     | Some it \<Rightarrow>
         chain (modify (\<lambda>s. s\<lparr>sq_running_item := Some it\<rparr>)) (\<lambda>_.
         chain (announce ITEM_STARTED [(''item_uid'', PV (PStr (item_uid it))), (''name'', PV (PStr (item_name it)))])
           (\<lambda>_. ret (Some it))))"

text \<open>The outcome of an item that could not be given to the engine.\<close>

definition refused_outcome :: "texts \<Rightarrow> queue_item \<Rightarrow> exn \<Rightarrow> plan_outcome" where
  "refused_outcome tx it e =
     (new_outcome (item_uid it) ''fail'')
       \<lparr>po_reason := exn_text e, po_exception := typed_text e, po_traceback := [Txt (tx_format_exn tx e)]\<rparr>"

text \<open>
  The \<open>try\<close> of \<open>_run_one\<close>: resolve the item, run it on the host and wait for its outcome.
  \<open>None\<close>: the plan is paused and waits for an operator. \<open>Escaped\<close>: an exception that no clause
  catches; it ends the sequencer thread.
\<close>

definition run_item ::
  "texts \<Rightarrow> attribute_of \<Rightarrow> registry \<Rightarrow> engine_reply \<times> run_engine \<Rightarrow> pause_round list \<Rightarrow> queue_item \<Rightarrow> host \<Rightarrow>
   plan_end option \<times> host" where
  "run_item tx attr reg first rounds it h =
     (case resolve attr (item_name it) (item_args it) (item_kwargs it) reg of
        Inl e \<Rightarrow> (Some (if is_exception (exn_class e) then Ended (refused_outcome tx it e) else Refused e), h)
      | Inr factory \<Rightarrow>
          (case run_plan tx factory (item_uid it) (item_meta it) first rounds h of
             (Some (Refused e), h') \<Rightarrow> (Some (Ended (refused_outcome tx it e)), h')
           | other \<Rightarrow> other))"

text \<open>\<open>f'{x:.nf}'\<close>: rounded to \<open>n\<close> places, halves to the even neighbour (\<open>round\<close> does the same).\<close>

definition round_half_even :: "rat \<Rightarrow> int" where
  "round_half_even x =
     (let q = \<lfloor>x\<rfloor>; rest = x - of_int q
      in if rest < 1 / 2 \<or> (rest = 1 / 2 \<and> even q) then q else q + 1)"

definition fixed_point :: "nat \<Rightarrow> rat \<Rightarrow> string" where
  "fixed_point n x =
     (let m = nat (round_half_even (\<bar>x\<bar> * 10 ^ n)); places = show_nat (m mod 10 ^ n)
      in (if x < 0 then ''-'' else []) @ show_nat (m div 10 ^ n) @
         (if n = 0 then [] else ''.'' @ replicate (n - length places) CHR ''0'' @ places))"

text \<open>No more than half a unit of the last place is lost.\<close>

lemma round_half_even_near: "\<bar>of_int (round_half_even x) - x\<bar> \<le> 1 / 2"
proof -
  have "of_int \<lfloor>x\<rfloor> \<le> x" "x < of_int \<lfloor>x\<rfloor> + 1" by linarith+
  then show ?thesis by (auto simp: round_half_even_def Let_def)
qed

text \<open>\<open>_log_outcome\<close>: the headline; empty for a success.\<close>

definition outcome_code :: "plan_outcome \<Rightarrow> error_code" where
  "outcome_code oc =
     (if text_starts_with ''RegistryError'' (po_exception oc) \<or> text_starts_with ''QueueError'' (po_exception oc)
      then ITEM_INVALID
      else if po_exit_status oc = ''abort'' then PLAN_ABORT
      else if po_exit_status oc = ''halt'' then PLAN_HALT
      else if po_exit_status oc = ''stop'' then PLAN_STOP
      else PLAN_FAIL)"

definition log_outcome :: "queue_item \<Rightarrow> plan_outcome \<Rightarrow> rat \<Rightarrow> fstring" where
  "log_outcome it oc elapsed =
     (if succeeded oc then []
      else
        (let cause = text_or [Txt (po_root_cause oc)]
               (text_or (po_exception oc) (text_or (po_reason oc) [Txt (po_exit_status oc)]))
         in [Txt ''['', Txt (code_str (outcome_code oc)), Txt ''] '', Txt (item_name it), Txt '' '',
             Txt (take 8 (item_uid it)), Txt '' '', Txt (po_exit_status oc), Txt '' after '',
             Txt (fixed_point 1 elapsed), Txt '' s: ''] @ cause @
            (if po_where oc \<noteq> [] then [Txt '' (at '', Txt (po_where oc), Txt '')''] else [])))"

definition history_of :: "queue_item \<Rightarrow> plan_outcome \<Rightarrow> rat \<Rightarrow> rat \<Rightarrow> history_entry" where
  "history_of it oc time_start now =
     \<lparr>he_item = it, he_state = exit_to_state (po_exit_status oc), he_exit_status = po_exit_status oc,
      he_run_uids = po_run_uids oc, he_time_start = time_start, he_time_stop = now,
      he_msg = text_or (po_exception oc) (po_reason oc), he_traceback = po_traceback oc\<rparr>"

definition record_outcome :: "'r queue_repository \<Rightarrow> queue_item \<Rightarrow> plan_outcome \<Rightarrow> rat \<Rightarrow> rat \<Rightarrow> ('r, unit) seq_act" where
  "record_outcome ops it oc time_start now =
     (let entry = history_of it oc time_start now in
      chain (flush_pending_history ops) (\<lambda>_.
      chain
        (handle
          (chain (on_queue (record_history ops entry)) (\<lambda>_. modify (\<lambda>s. s\<lparr>sq_database_error := None\<rparr>)))
          (\<lambda>e. if is_exception (exn_class e) then
             modify (\<lambda>s. s\<lparr>sq_pending_history := sq_pending_history s @ [entry],
                sq_database_error := Some (typed_text e),
                sq_last_error := Some ([Txt ''['', Txt (code_str DB_UNAVAILABLE), Txt ''] ''] @ typed_text e @
                  [Txt '': outcome of '', Txt (item_name it), Txt '' '', Txt (take 8 (item_uid it)), Txt '' ('',
                   Txt (po_exit_status oc), Txt '') held in memory; queue stopped'']),
                sq_running := False\<rparr>)
            else throw e))
        (\<lambda>_. announce ITEM_FINISHED [(''item_uid'', PV (PStr (item_uid it))), (''name'', PV (PStr (item_name it))),
              (''exit_status'', PV (PStr (po_exit_status oc)))])))"

text \<open>\<open>_safe\<close>: bookkeeping that may fail stops the queue.\<close>

definition safely :: "texts \<Rightarrow> ('r, 'a) seq_act \<Rightarrow> ('r, unit) seq_act" where
  "safely tx fn =
     handle (chain fn (\<lambda>_. ret ()))
       (\<lambda>e. if is_exception (exn_class e)
          then modify (\<lambda>s. s\<lparr>sq_running := False, sq_last_error := Some [Txt (tx_format_exn tx e)]\<rparr>)
          else throw e)"

text \<open>What \<open>_run_one\<close> does once the outcome is there. In loop mode a copy of the item is queued;
  \<open>fresh\<close> supplies the uid of the copy, and a second one should that be taken.\<close>

definition finish_item ::
  "'r queue_repository \<Rightarrow> texts \<Rightarrow> registry \<Rightarrow> (nat \<Rightarrow> string \<times> rat) \<Rightarrow> queue_item \<Rightarrow> plan_outcome \<Rightarrow> rat \<Rightarrow> rat \<Rightarrow> rat \<Rightarrow>
   ('r, unit) seq_act" where
  "finish_item ops tx reg fresh it oc time_start over now =
     (let headline = log_outcome it oc (over - time_start) in
      chain (record_outcome ops it oc time_start now) (\<lambda>_.
      chain
        (if succeeded oc then
           chain (get_state sq_loop_mode) (\<lambda>loop_mode.
           if loop_mode then
             safely tx (on_queue (add ops reg (fresh 1) (with_new_uid (fst (fresh 0)) (snd (fresh 0)) it) PNone PNone PNone))
           else ret ())
         else
           chain (modify (\<lambda>s. s\<lparr>sq_running := False, sq_stop_pending := False, sq_last_error := Some headline\<rparr>)) (\<lambda>_ s.
           announce QUEUE_STATE (queue_state_payload False False (sq_autostart s) @ [(''reason'', PText headline)]) s))
        (\<lambda>_. modify (\<lambda>s. s\<lparr>sq_running_item := None\<rparr>))))"

text \<open>
  \<open>_run_one\<close> as a whole: \<open>Inr None\<close> while the plan waits for a directive, \<open>Inr (Some oc)\<close> when the
  item is done, \<open>Inl\<close> when an exception ends the thread. The clock is read three times: at
  \<open>time_start\<close>, at \<open>over\<close> for the headline and at \<open>now\<close> for the history.
\<close>

datatype run_end = StillPaused | ItemDone plan_outcome | ThreadEscaped exn_heap nat

definition run_one ::
  "'r queue_repository \<Rightarrow> texts \<Rightarrow> attribute_of \<Rightarrow> registry \<Rightarrow> (nat \<Rightarrow> string \<times> rat) \<Rightarrow>
   engine_reply \<times> run_engine \<Rightarrow> pause_round list \<Rightarrow> rat \<Rightarrow> rat \<Rightarrow> rat \<Rightarrow> queue_item \<Rightarrow> ('r, run_end) seq_act" where
  "run_one ops tx attr reg fresh first rounds time_start over now it = (\<lambda>s.
     (let (r, h) = run_item tx attr reg first rounds it (sq_host s); s = s\<lparr>sq_host := h\<rparr> in
      case r of
        None \<Rightarrow> (Inr StillPaused, s)
      | Some (Ended oc) \<Rightarrow>
          chain (finish_item ops tx reg fresh it oc time_start over now) (\<lambda>_. ret (ItemDone oc)) s
      | Some (Escaped hp exc) \<Rightarrow> (Inr (ThreadEscaped hp exc), s\<lparr>sq_running_item := None\<rparr>)
      | Some (Refused e) \<Rightarrow> (Inl e, s\<lparr>sq_running_item := None\<rparr>)))"

text \<open>One pass of \<open>_loop\<close>.\<close>

datatype pass_end = Closing | NothingToRun | WentIdle | Passed run_end

definition loop_pass ::
  "'r queue_repository \<Rightarrow> texts \<Rightarrow> attribute_of \<Rightarrow> registry \<Rightarrow> (nat \<Rightarrow> string \<times> rat) \<Rightarrow>
   engine_reply \<times> run_engine \<Rightarrow> pause_round list \<Rightarrow> rat \<Rightarrow> rat \<Rightarrow> rat \<Rightarrow> ('r, pass_end) seq_act" where
  "loop_pass ops tx attr reg fresh first rounds time_start over now =
     chain (get_state sq_closing) (\<lambda>closing.
     if closing then ret Closing
     else chain (should_run ops) (\<lambda>go.
       if \<not> go then ret NothingToRun
       else chain (take_item ops) (\<lambda>found.
         case found of
           None \<Rightarrow> ret WentIdle
         | Some it \<Rightarrow> chain (run_one ops tx attr reg fresh first rounds time_start over now it) (\<lambda>r. ret (Passed r)))))"

end
