(* ===== verification/MemoryRepo.thy ===== *)
theory MemoryRepo
  imports QueueRepo
begin

section \<open>The in-memory repository (\<open>persistence/memory.py\<close>)\<close>

text \<open>
  \<open>InMemoryQueueRepository\<close>: two Python lists behind a re-entrant lock, so each method is one
  atomic action. The loops are written as the source has them (\<open>enumerate\<close> with an early
  return); the interpretation at the end shows that they are the abstract operations.
\<close>

record memory_repo =
  mem_items :: "queue_item list"
  mem_history :: "history_entry list"

definition mem_list_items :: "(memory_repo, exn, queue_item list) act" where
  "mem_list_items = get_state mem_items"

text \<open>\<open>next((i for i in self._items if i.item_uid == item_uid), None)\<close>.\<close>

fun first_with_uid :: "string \<Rightarrow> queue_item list \<Rightarrow> queue_item option" where
  "first_with_uid u [] = None"
| "first_with_uid u (x # xs) = (if item_uid x = u then Some x else first_with_uid u xs)"

definition mem_get_item :: "string \<Rightarrow> (memory_repo, exn, queue_item option) act" where
  "mem_get_item u = get_state (\<lambda>m. first_with_uid u (mem_items m))"

definition mem_insert :: "queue_item \<Rightarrow> int option \<Rightarrow> (memory_repo, exn, unit) act" where
  "mem_insert it idx = chain (mem_get_item (item_uid it)) (\<lambda>found.
     if found \<noteq> None then throw (duplicate_uid (item_uid it))
     else (case idx of
         None \<Rightarrow> modify (\<lambda>m. m\<lparr>mem_items := mem_items m @ [it]\<rparr>)
       | Some i \<Rightarrow> modify (\<lambda>m. m\<lparr>mem_items :=
            insert_at (nat (max 0 (min i (int (length (mem_items m)))))) it (mem_items m)\<rparr>)))"

text \<open>The \<open>enumerate\<close> loops of \<open>replace\<close> and \<open>remove\<close>: the index of the first match.\<close>

definition mem_replace :: "queue_item \<Rightarrow> (memory_repo, exn, unit) act" where
  "mem_replace it = (\<lambda>m. case find_pos (\<lambda>x. item_uid x = item_uid it) (mem_items m) of
       Some i \<Rightarrow> (Inr (), m\<lparr>mem_items := (mem_items m)[i := it]\<rparr>)
     | None \<Rightarrow> (Inl (no_such_uid (item_uid it)), m))"

definition mem_remove :: "string \<Rightarrow> (memory_repo, exn, queue_item) act" where
  "mem_remove u = (\<lambda>m. case find_pos (\<lambda>x. item_uid x = u) (mem_items m) of
       Some i \<Rightarrow> (Inr (mem_items m ! i), m\<lparr>mem_items := delete_at i (mem_items m)\<rparr>)
     | None \<Rightarrow> (Inl (no_such_uid u), m))"

definition mem_move :: "string \<Rightarrow> int \<Rightarrow> (memory_repo, exn, unit) act" where
  "mem_move u i = chain (mem_remove u) (\<lambda>it. mem_insert it (Some i))"

definition mem_clear :: "(memory_repo, exn, nat) act" where
  "mem_clear = (\<lambda>m. (Inr (length (mem_items m)), m\<lparr>mem_items := []\<rparr>))"

definition mem_pop_front :: "(memory_repo, exn, queue_item option) act" where
  "mem_pop_front = (\<lambda>m. if mem_items m \<noteq> []
     then (Inr (Some (hd (mem_items m))), m\<lparr>mem_items := tl (mem_items m)\<rparr>) else (Inr None, m))"

definition mem_append_history :: "history_entry \<Rightarrow> (memory_repo, exn, unit) act" where
  "mem_append_history h = modify (\<lambda>m. m\<lparr>mem_history := mem_history m @ [h]\<rparr>)"

definition mem_list_history :: "(memory_repo, exn, history_entry list) act" where
  "mem_list_history = get_state mem_history"

definition mem_clear_history :: "(memory_repo, exn, nat) act" where
  "mem_clear_history = (\<lambda>m. (Inr (length (mem_history m)), m\<lparr>mem_history := []\<rparr>))"

definition InMemoryQueueRepository :: "memory_repo queue_repository" where
  "InMemoryQueueRepository =
    \<lparr>rp_list_items = mem_list_items, rp_get_item = mem_get_item, rp_insert = mem_insert,
     rp_replace = mem_replace, rp_remove = mem_remove, rp_move = mem_move, rp_clear = mem_clear,
     rp_pop_front = mem_pop_front, rp_append_history = mem_append_history,
     rp_list_history = mem_list_history, rp_clear_history = mem_clear_history\<rparr>"

definition empty_memory_repo :: memory_repo where
  "empty_memory_repo = \<lparr>mem_items = [], mem_history = []\<rparr>"

subsection \<open>The contract holds\<close>

definition mem_abs :: "memory_repo \<Rightarrow> store" where
  "mem_abs m = \<lparr>q_items = mem_items m, q_history = mem_history m\<rparr>"

definition mem_valid :: "memory_repo \<Rightarrow> bool" where
  "mem_valid m \<longleftrightarrow> distinct (uids (mem_items m))"

lemma mem_abs_simps [simp]:
  "q_items (mem_abs m) = mem_items m" "q_history (mem_abs m) = mem_history m"
  "mem_abs (m\<lparr>mem_items := xs\<rparr>) = (mem_abs m)\<lparr>q_items := xs\<rparr>"
  "mem_abs (m\<lparr>mem_history := hs\<rparr>) = (mem_abs m)\<lparr>q_history := hs\<rparr>"
  by (simp_all add: mem_abs_def)

lemma first_with_uid_eq [simp]: "first_with_uid u xs = find_item u xs"
  by (induction xs) (simp_all add: find_item_def)

lemma find_pos_uid:
  "find_pos (\<lambda>x. item_uid x = u) xs = None \<longleftrightarrow> u \<notin> set (uids xs)"
  unfolding find_pos_None by auto

lemma find_pos_find_item:
  "find_pos (\<lambda>x. item_uid x = u) xs = Some i \<Longrightarrow> find_item u xs = Some (xs ! i)"
  by (induction xs arbitrary: i) (auto simp: find_item_def split: if_splits)

lemma list_update_uid:
  assumes "distinct (uids xs)" "find_pos (\<lambda>x. item_uid x = item_uid it) xs = Some i"
  shows "xs[i := it] = map (\<lambda>x. if item_uid x = item_uid it then it else x) xs"
proof (rule nth_equalityI)
  fix j assume j: "j < length (xs[i := it])"
  from find_pos_Some [OF assms(2)] have i: "i < length xs" "item_uid (xs ! i) = item_uid it" by auto
  have "item_uid (xs ! j) = item_uid it \<longleftrightarrow> j = i"
    using assms(1) i j nth_eq_iff_index_eq [of "uids xs" j i] by auto
  with i j show "xs[i := it] ! j = map (\<lambda>x. if item_uid x = item_uid it then it else x) xs ! j"
    by (simp add: nth_list_update)
qed simp

lemma mem_insert_eq:
  "fst (mem_insert it idx m) = fst (spec_insert it idx (mem_abs m)) \<and>
   mem_abs (snd (mem_insert it idx m)) = snd (spec_insert it idx (mem_abs m))"
  using find_item_None [of "item_uid it" "mem_items m"]
  by (cases idx)
    (auto simp: mem_insert_def mem_get_item_def spec_insert_def act_simps target_index_def clamp_def)

lemma mem_insert_valid: "mem_valid m \<Longrightarrow> mem_valid (snd (mem_insert it idx m))"
  using find_item_None [of "item_uid it" "mem_items m"]
  by (cases idx)
    (auto simp: mem_insert_def mem_get_item_def act_simps mem_valid_def map_insert_at)

lemma mem_remove_eq:
  "mem_valid m \<Longrightarrow> fst (mem_remove u m) = fst (spec_remove u (mem_abs m)) \<and>
   mem_abs (snd (mem_remove u m)) = snd (spec_remove u (mem_abs m)) \<and>
   mem_valid (snd (mem_remove u m))"
proof (cases "find_pos (\<lambda>x. item_uid x = u) (mem_items m)")
  case None
  then have "find_item u (mem_items m) = None" by (simp add: find_pos_uid find_item_None)
  moreover assume "mem_valid m"
  ultimately show ?thesis using None by (simp add: mem_remove_def spec_remove_def)
next
  case (Some i)
  assume "mem_valid m"
  with Some show ?thesis
    by (simp add: mem_remove_def spec_remove_def mem_valid_def find_pos_find_item delete_at_without)
qed

interpretation mem: repository InMemoryQueueRepository mem_abs mem_valid "\<lambda>_. True" "\<lambda>old new. new"
proof unfold_locales
  fix r :: memory_repo assume "mem_valid r"
  then show "distinct (uids (q_items (mem_abs r)))" by (simp add: mem_valid_def)
next
  fix it idx
  show "implements mem_abs mem_valid (\<lambda>_. True) (rp_insert InMemoryQueueRepository it idx) (spec_insert it idx)"
    by (rule implementsI)
      (simp_all add: InMemoryQueueRepository_def mem_insert_valid mem_insert_eq)
next
  fix it
  show "implements mem_abs mem_valid (\<lambda>_. True) (rp_replace InMemoryQueueRepository it)
          (spec_replace (\<lambda>old new. new) it)"
  proof (rule implementsI, goal_cases)
    case (1 r)
    then show ?case
      by (cases "find_pos (\<lambda>x. item_uid x = item_uid it) (mem_items r)")
        (auto simp: InMemoryQueueRepository_def mem_replace_def mem_valid_def list_update_uid
          comp_def if_distrib [of item_uid] cong: if_cong)
  next
    case (3 r)
    then show ?case
      by (cases "find_pos (\<lambda>x. item_uid x = item_uid it) (mem_items r)")
        (use find_pos_uid [of "item_uid it" "mem_items r"] in
          \<open>auto simp: InMemoryQueueRepository_def mem_replace_def spec_replace_def mem_valid_def
            list_update_uid\<close>)
  qed simp
next
  fix u
  show "implements mem_abs mem_valid (\<lambda>_. True) (rp_remove InMemoryQueueRepository u) (spec_remove u)"
    by (rule implementsI) (simp_all add: InMemoryQueueRepository_def mem_remove_eq)
next
  show "implements mem_abs mem_valid (\<lambda>_. True) (rp_pop_front InMemoryQueueRepository) spec_pop_front"
  proof (rule implementsI, goal_cases)
    case (1 r)
    then show ?case
      by (simp add: InMemoryQueueRepository_def mem_pop_front_def mem_valid_def map_tl distinct_tl)
  next
    case (3 r)
    then show ?case
      by (cases "mem_items r")
        (simp_all add: InMemoryQueueRepository_def mem_pop_front_def spec_pop_front_def)
  qed simp
next
  fix r u i assume v: "mem_valid r"
  show "fst (rp_move InMemoryQueueRepository u i r) = fst (spec_move u i (mem_abs r)) \<and>
      mem_abs (snd (rp_move InMemoryQueueRepository u i r)) = snd (spec_move u i (mem_abs r)) \<and>
      mem_valid (snd (rp_move InMemoryQueueRepository u i r)) \<and> True"
    using mem_remove_eq [OF v, of u]
    by (auto simp: InMemoryQueueRepository_def mem_move_def spec_move_def act_simps
      mem_insert_eq mem_insert_valid split: sum.split)
qed (auto simp: implements_def InMemoryQueueRepository_def mem_list_items_def mem_get_item_def
  mem_clear_def mem_append_history_def mem_list_history_def mem_clear_history_def spec_defs
  act_simps mem_valid_def)

end
