(* ===== verification/Database.thy ===== *)
theory Database
  imports QueueModels
begin

section \<open>Tables and sessions (\<open>persistence/database.py\<close>)\<close>

text \<open>
  The three tables as lists of rows, and \<open>Database.session\<close>: a transaction that commits when
  its body returns and rolls back when it raises. SQLAlchemy and the database server are not
  part of the repository; what is used of them is that a session sees the tables, that a
  commit installs the body's changes and a rollback drops them, and that a session may fail
  as a whole because the server cannot be reached. Such failures are an input:
  \<open>db_faults\<close> lists, for the sessions to come, whether each one fails and with what.
  A JSON column is taken to give back the value that was stored, which holds for the plain
  data (lists, string-keyed dictionaries, scalars) that arrives over HTTP.
\<close>

text \<open>The mixin of the columns that queue and history share.\<close>

record plan_item_columns =
  col_item_type :: string
  col_name :: string
  col_args :: "pyval list"
  col_kwargs :: pydict
  col_meta :: pydict
  col_user :: string
  col_user_group :: string
  col_created_at :: rat

record queue_item_row = plan_item_columns +
  qr_item_uid :: string
  qr_position :: int

record history_row = plan_item_columns +
  hr_id :: nat
  hr_item_uid :: string
  hr_state :: string
  hr_exit_status :: string
  hr_run_uids :: "string list"
  hr_time_start :: rat
  hr_time_stop :: rat
  hr_msg :: fstring
  hr_traceback :: fstring

record device_definition_row =
  dr_name :: string
  dr_class_path :: string
  dr_prefix :: string
  dr_kwargs :: pydict
  dr_enabled :: bool
  dr_created_at :: rat
  dr_updated_at :: rat

record tables =
  t_queue_items :: "queue_item_row list"
  t_queue_history :: "history_row list"
  t_device_definitions :: "device_definition_row list"

record database =
  db_tables :: tables
  db_faults :: "exn option list"

definition session :: "(tables, exn, 'a) act \<Rightarrow> (database, exn, 'a) act" where
  "session body = (\<lambda>db. case db_faults db of
       Some e # fs \<Rightarrow> (Inl e, db\<lparr>db_faults := fs\<rparr>)
     | fs \<Rightarrow> (case body (db_tables db) of
           (Inl e, _) \<Rightarrow> (Inl e, db\<lparr>db_faults := tl fs\<rparr>)
         | (Inr x, t) \<Rightarrow> (Inr x, \<lparr>db_tables = t, db_faults = tl fs\<rparr>)))"

text \<open>The server answers every session to come.\<close>

definition db_up :: "database \<Rightarrow> bool" where
  "db_up db \<longleftrightarrow> (\<forall>f \<in> set (db_faults db). f = None)"

subsection \<open>Lemmas\<close>

lemma session_up:
  assumes "db_up db"
  shows "fst (session body db) = fst (body (db_tables db))"
    and "db_tables (snd (session body db)) =
          (case body (db_tables db) of (Inl e, _) \<Rightarrow> db_tables db | (Inr x, t) \<Rightarrow> t)"
    and "db_up (snd (session body db))"
proof -
  have "db_faults db = [] \<or> (\<exists>fs. db_faults db = None # fs)"
    using assms by (cases "db_faults db") (auto simp: db_up_def)
  then show "fst (session body db) = fst (body (db_tables db))"
    and "db_tables (snd (session body db)) =
          (case body (db_tables db) of (Inl e, _) \<Rightarrow> db_tables db | (Inr x, t) \<Rightarrow> t)"
    by (auto simp: session_def split: prod.split sum.split)
  show "db_up (snd (session body db))"
    using assms by (auto simp: session_def db_up_def split: list.split option.split prod.split sum.split)
qed

text \<open>Whatever happens, a session either ran its body to a commit or left the tables alone.\<close>

lemma session_cases:
  obtains (commit) x where "fst (session body db) = Inr x" "fst (body (db_tables db)) = Inr x"
      "db_tables (snd (session body db)) = snd (body (db_tables db))"
    | (refused) e where "fst (session body db) = Inl e" "fst (body (db_tables db)) = Inl e"
      "db_tables (snd (session body db)) = db_tables db"
    | (fault) e where "\<not> db_up db" "fst (session body db) = Inl e"
      "db_tables (snd (session body db)) = db_tables db"
proof (cases "db_faults db")
  case Nil
  then show ?thesis
    by (cases "body (db_tables db)"; cases "fst (body (db_tables db))")
      (auto simp: session_def intro: commit refused)
next
  case (Cons f fs)
  show ?thesis
  proof (cases f)
    case (Some e)
    with Cons show ?thesis by (intro fault) (auto simp: session_def db_up_def)
  next
    case None
    with Cons show ?thesis
      by (cases "body (db_tables db)"; cases "fst (body (db_tables db))")
        (auto simp: session_def intro: commit refused)
  qed
qed

text \<open>
  A session implements an abstract operation when its body, run on the tables, gives the
  abstract result, keeps the table invariant \<open>tv\<close> and refuses without effect.
\<close>

lemma session_implements_on:
  assumes "\<And>t. tv t \<Longrightarrow> fst (body t) = fst (spec (ta t))"
    and "\<And>t x. tv t \<Longrightarrow> fst (body t) = Inr x \<Longrightarrow> tv (snd (body t)) \<and> ta (snd (body t)) = snd (spec (ta t))"
    and "\<And>q e. fst (spec q) = Inl e \<Longrightarrow> snd (spec q) = q"
  shows "implements (\<lambda>db. ta (db_tables db)) (\<lambda>db. tv (db_tables db)) db_up (session body) spec"
proof (rule implementsI)
  fix db :: database assume t: "tv (db_tables db)"
  note f = assms(1) [OF t] and ok = assms(2) [OF t] and err = assms(3)
  show "tv (db_tables (snd (session body db)))"
    by (cases rule: session_cases [of body db]) (use ok t in simp_all)
  show "fst (session body db) = fst (spec (ta (db_tables db))) \<and>
          ta (db_tables (snd (session body db))) = snd (spec (ta (db_tables db))) \<or>
        \<not> db_up db \<and> (\<exists>e. fst (session body db) = Inl e) \<and>
          ta (db_tables (snd (session body db))) = ta (db_tables db)"
    by (cases rule: session_cases [of body db]) (use f ok err [of "ta (db_tables db)"] in simp_all)
next
  fix db :: database assume "db_up db" then show "db_up (snd (session body db))" by (rule session_up(3))
qed

text \<open>
  A session is a transaction. When it raises, for whatever reason, the tables are those of
  before; when it returns, they are what the body made of them.
\<close>

theorem session_transactional:
  "case session body db of
     (Inl e, db') \<Rightarrow> db_tables db' = db_tables db
   | (Inr x, db') \<Rightarrow> body (db_tables db) = (Inr x, db_tables db')"
  by (cases rule: session_cases [of body db])
    (cases "session body db"; cases "body (db_tables db)"; simp)+

end
