(* ===== verification/SqlRepo.thy ===== *)
theory SqlRepo
  imports QueueRepo Database
begin

section \<open>The SQL repository (\<open>persistence/queue_repository.py\<close>)\<close>

text \<open>
  \<open>SqlQueueRepository\<close>: the queue as rows with a \<open>position\<close> column, renumbered on every change
  by \<open>UPDATE\<close> statements. Each method is the body of one session. The invariant says that the
  positions are exactly \<open>0, ..., n - 1\<close>, which is what makes \<open>ORDER BY position\<close> a
  deterministic list and the renumbering correct.
\<close>

subsection \<open>Rows and items\<close>

definition row_to_item :: "'a plan_item_columns_scheme \<Rightarrow> string \<Rightarrow> queue_item" where
  "row_to_item r uid =
    \<lparr>item_name = col_name r, item_type = col_item_type r, item_args = col_args r,
     item_kwargs = col_kwargs r, item_meta = col_meta r, item_uid = uid,
     item_user = col_user r, item_user_group = col_user_group r,
     item_created_at = col_created_at r\<rparr>"

definition queue_row_item :: "queue_item_row \<Rightarrow> queue_item" where
  "queue_row_item r = row_to_item r (qr_item_uid r)"

definition item_to_row :: "queue_item \<Rightarrow> int \<Rightarrow> queue_item_row" where
  "item_to_row it pos =
    \<lparr>col_item_type = item_type it, col_name = item_name it, col_args = item_args it,
     col_kwargs = item_kwargs it, col_meta = item_meta it, col_user = item_user it,
     col_user_group = item_user_group it, col_created_at = item_created_at it,
     qr_item_uid = item_uid it, qr_position = pos\<rparr>"

definition entry_to_row :: "history_entry \<Rightarrow> nat \<Rightarrow> history_row" where
  "entry_to_row h i =
    \<lparr>col_item_type = item_type (he_item h), col_name = item_name (he_item h),
     col_args = item_args (he_item h), col_kwargs = item_kwargs (he_item h),
     col_meta = item_meta (he_item h), col_user = item_user (he_item h),
     col_user_group = item_user_group (he_item h), col_created_at = item_created_at (he_item h),
     hr_id = i, hr_item_uid = item_uid (he_item h), hr_state = state_str (he_state h),
     hr_exit_status = he_exit_status h, hr_run_uids = he_run_uids h,
     hr_time_start = he_time_start h, hr_time_stop = he_time_stop h,
     hr_msg = he_msg h, hr_traceback = he_traceback h\<rparr>"

definition row_to_entry :: "history_row \<Rightarrow> exn + history_entry" where
  "row_to_entry r = (case item_state_of (hr_state r) of
     Inl e \<Rightarrow> Inl e
   | Inr st \<Rightarrow> Inr \<lparr>he_item = row_to_item r (hr_item_uid r), he_state = st,
       he_exit_status = hr_exit_status r, he_run_uids = hr_run_uids r,
       he_time_start = hr_time_start r, he_time_stop = hr_time_stop r,
       he_msg = hr_msg r, he_traceback = hr_traceback r\<rparr>)"

subsection \<open>Statements\<close>

text \<open>\<open>session.get(QueueItemRow, uid)\<close>: the row with that primary key.\<close>

definition get_row :: "string \<Rightarrow> queue_item_row list \<Rightarrow> queue_item_row option" where
  "get_row u rows = find (\<lambda>r. qr_item_uid r = u) rows"

text \<open>\<open>UPDATE queue_items SET position = position + d WHERE p(position)\<close>.\<close>

definition shift_where :: "(int \<Rightarrow> bool) \<Rightarrow> int \<Rightarrow> queue_item_row list \<Rightarrow> queue_item_row list" where
  "shift_where p d rows =
    map (\<lambda>r. if p (qr_position r) then r\<lparr>qr_position := qr_position r + d\<rparr> else r) rows"

text \<open>\<open>SELECT ... ORDER BY position\<close>.\<close>

definition ordered_rows :: "queue_item_row list \<Rightarrow> queue_item_row list" where
  "ordered_rows rows = sort_key qr_position rows"

definition delete_row :: "string \<Rightarrow> queue_item_row list \<Rightarrow> queue_item_row list" where
  "delete_row u rows = filter (\<lambda>r. qr_item_uid r \<noteq> u) rows"

text \<open>The autoincrement key of a new history row: above every key in the table.\<close>

definition next_history_id :: "history_row list \<Rightarrow> nat" where
  "next_history_id rows = Suc (fold max (map hr_id rows) 0)"

abbreviation set_rows :: "queue_item_row list \<Rightarrow> tables \<Rightarrow> tables" where
  "set_rows rows t \<equiv> t\<lparr>t_queue_items := rows\<rparr>"

subsection \<open>The methods\<close>

definition sql_list_items :: "(database, exn, queue_item list) act" where
  "sql_list_items = session (get_state (\<lambda>t. map queue_row_item (ordered_rows (t_queue_items t))))"

definition sql_get_item :: "string \<Rightarrow> (database, exn, queue_item option) act" where
  "sql_get_item u = session (get_state (\<lambda>t. map_option queue_row_item (get_row u (t_queue_items t))))"

definition sql_insert :: "queue_item \<Rightarrow> int option \<Rightarrow> (database, exn, unit) act" where
  "sql_insert it idx = session (\<lambda>t.
     let rows = t_queue_items t in
     if get_row (item_uid it) rows \<noteq> None then (Inl (duplicate_uid (item_uid it)), t)
     else
       let count = int (length rows);
           pos = (case idx of None \<Rightarrow> count | Some i \<Rightarrow> max 0 (min i count))
       in (Inr (), set_rows (shift_where (\<lambda>p. pos \<le> p) 1 rows @ [item_to_row it pos]) t))"

text \<open>\<open>replace\<close> writes seven columns; \<open>created_at\<close> and \<open>position\<close> stay.\<close>

definition overwrite_row :: "queue_item \<Rightarrow> queue_item_row \<Rightarrow> queue_item_row" where
  "overwrite_row it r = r\<lparr>col_item_type := item_type it, col_name := item_name it,
     col_args := item_args it, col_kwargs := item_kwargs it, col_meta := item_meta it,
     col_user := item_user it, col_user_group := item_user_group it\<rparr>"

definition sql_replace :: "queue_item \<Rightarrow> (database, exn, unit) act" where
  "sql_replace it = session (\<lambda>t.
     let rows = t_queue_items t in
     if get_row (item_uid it) rows = None then (Inl (no_such_uid (item_uid it)), t)
     else (Inr (), set_rows
            (map (\<lambda>r. if qr_item_uid r = item_uid it then overwrite_row it r else r) rows) t))"

definition sql_remove :: "string \<Rightarrow> (database, exn, queue_item) act" where
  "sql_remove u = session (\<lambda>t.
     let rows = t_queue_items t in
     case get_row u rows of
       None \<Rightarrow> (Inl (no_such_uid u), t)
     | Some row \<Rightarrow>
         (Inr (queue_row_item row),
          set_rows (shift_where (\<lambda>p. qr_position row < p) (- 1) (delete_row u rows)) t))"

text \<open>\<open>move\<close> is two sessions: the item is out of the table between them.\<close>

definition sql_move :: "string \<Rightarrow> int \<Rightarrow> (database, exn, unit) act" where
  "sql_move u i = chain (sql_remove u) (\<lambda>it. sql_insert it (Some i))"

definition sql_clear :: "(database, exn, nat) act" where
  "sql_clear = session (\<lambda>t. (Inr (length (t_queue_items t)), set_rows [] t))"

definition sql_pop_front :: "(database, exn, queue_item option) act" where
  "sql_pop_front = session (\<lambda>t.
     let rows = t_queue_items t in
     case ordered_rows rows of
       [] \<Rightarrow> (Inr None, t)
     | row # _ \<Rightarrow>
         (Inr (Some (queue_row_item row)),
          set_rows (shift_where (\<lambda>p. True) (- 1) (delete_row (qr_item_uid row) rows)) t))"

definition sql_append_history :: "history_entry \<Rightarrow> (database, exn, unit) act" where
  "sql_append_history h = session (modify (\<lambda>t. t\<lparr>t_queue_history :=
     t_queue_history t @ [entry_to_row h (next_history_id (t_queue_history t))]\<rparr>))"

text \<open>A list comprehension over fallible conversions: the first failure is raised.\<close>

fun map_fallible :: "('a \<Rightarrow> exn + 'b) \<Rightarrow> 'a list \<Rightarrow> exn + 'b list" where
  "map_fallible f [] = Inr []"
| "map_fallible f (x # xs) = (case f x of Inl e \<Rightarrow> Inl e | Inr y \<Rightarrow>
     (case map_fallible f xs of Inl e \<Rightarrow> Inl e | Inr ys \<Rightarrow> Inr (y # ys)))"

definition sql_list_history :: "(database, exn, history_entry list) act" where
  "sql_list_history = session (\<lambda>t.
     (map_fallible row_to_entry (sort_key hr_id (t_queue_history t)), t))"

definition sql_clear_history :: "(database, exn, nat) act" where
  "sql_clear_history = session (\<lambda>t.
     (Inr (length (t_queue_history t)), t\<lparr>t_queue_history := []\<rparr>))"

definition SqlQueueRepository :: "database queue_repository" where
  "SqlQueueRepository =
    \<lparr>rp_list_items = sql_list_items, rp_get_item = sql_get_item, rp_insert = sql_insert,
     rp_replace = sql_replace, rp_remove = sql_remove, rp_move = sql_move, rp_clear = sql_clear,
     rp_pop_front = sql_pop_front, rp_append_history = sql_append_history,
     rp_list_history = sql_list_history, rp_clear_history = sql_clear_history\<rparr>"

end
