(* ===== verification/SqlRefinement.thy ===== *)
theory SqlRefinement
  imports SqlRepo
begin

section \<open>The SQL repository implements the queue contract\<close>

text \<open>
  The abstraction reads the queue by \<open>ORDER BY position\<close> and the history by \<open>ORDER BY id\<close>. Under
  the invariant \<open>sql_valid\<close> (unique uids, positions exactly \<open>0 ... n - 1\<close>, increasing history
  keys, known state names) every method is the abstract operation, or it fails without effect.
\<close>

subsection \<open>Dense positions\<close>

definition dense :: "queue_item_row list \<Rightarrow> bool" where
  "dense rows \<longleftrightarrow> distinct (map qr_item_uid rows) \<and>
     mset (map qr_position rows) = mset (map int [0..<length rows])"

lemma sorted_map_int: "sorted (map int [0..<n])"
  by (rule sorted_map_mono) (simp_all add: mono_on_def)

lemma mset_ordered_rows [simp]: "mset (ordered_rows rows) = mset rows"
  by (simp add: ordered_rows_def)

lemma set_ordered_rows [simp]: "set (ordered_rows rows) = set rows"
  by (simp add: ordered_rows_def)

lemma length_ordered_rows [simp]: "length (ordered_rows rows) = length rows"
  by (simp add: ordered_rows_def)

lemma ordered_positions:
  assumes "dense rows"
  shows "map qr_position (ordered_rows rows) = map int [0..<length rows]"
proof -
  have "sort (map qr_position rows) = map int [0..<length rows]"
    using assms by (intro properties_for_sort) (simp_all add: dense_def sorted_map_int)
  moreover have "sort (map qr_position rows) = map qr_position (ordered_rows rows)"
    by (rule properties_for_sort) (simp_all add: ordered_rows_def)
  ultimately show ?thesis by simp
qed

text \<open>A list of the same rows whose positions count up is the ordered list.\<close>

lemma ordered_rows_unique:
  assumes "mset ys = mset rows" "map qr_position ys = map int [0..<length ys]"
  shows "ordered_rows rows = ys"
proof -
  have "distinct (map qr_position ys)" by (simp add: assms(2) distinct_map)
  then have inj: "inj_on qr_position (set rows)"
    using mset_eq_setD [OF assms(1)] by (simp add: distinct_map)
  show ?thesis
    unfolding ordered_rows_def
    by (rule sort_key_inj_key_eq) (use assms inj in \<open>simp_all add: sorted_map_int\<close>)
qed

lemma dense_candidate:
  assumes "mset ys = mset rows" "map qr_position ys = map int [0..<length ys]"
    and "distinct (map qr_item_uid ys)"
  shows "dense rows \<and> ordered_rows rows = ys"
proof -
  have "length rows = length ys" using assms(1) by (metis size_mset)
  moreover have "mset (map qr_position rows) = mset (map qr_position ys)"
    using assms(1) by simp
  moreover have "mset (map qr_item_uid ys) = mset (map qr_item_uid rows)"
    using assms(1) by simp
  then have "distinct (map qr_item_uid rows)"
    using assms(3) mset_eq_imp_distinct_iff by blast
  ultimately have "dense rows" by (simp add: dense_def assms(2))
  with ordered_rows_unique [OF assms(1,2)] show ?thesis by simp
qed

lemma position_nth:
  assumes "dense rows" "i < length rows"
  shows "qr_position (ordered_rows rows ! i) = int i"
proof -
  have "map qr_position (ordered_rows rows) ! i = int i"
    using assms by (simp add: ordered_positions)
  with assms(2) show ?thesis by simp
qed

lemma distinct_uid_ordered: "dense rows \<Longrightarrow> distinct (map qr_item_uid (ordered_rows rows))"
proof -
  assume "dense rows"
  moreover have "mset (map qr_item_uid (ordered_rows rows)) = mset (map qr_item_uid rows)" by simp
  ultimately show ?thesis unfolding dense_def using mset_eq_imp_distinct_iff by blast
qed

subsection \<open>Renumbering\<close>

lemma nth_insert_at_cases:
  "k \<le> length xs \<Longrightarrow> i \<le> length xs \<Longrightarrow>
   insert_at k x xs ! i = (if i < k then xs ! i else if i = k then x else xs ! (i - 1))"
proof -
  assume k: "k \<le> length xs" and i: "i \<le> length xs"
  consider "i < k" | "i = k" | j where "i = Suc (k + j)"
    using less_imp_Suc_add [of k i] by (metis linorder_neqE_nat)
  then show ?thesis
    by cases (use k i in \<open>auto simp: insert_at_def nth_append min_def\<close>)
qed

lemma insert_ordered:
  assumes d: "dense rows" and k: "k \<le> length rows" and u: "item_uid it \<notin> qr_item_uid ` set rows"
  shows "dense (shift_where (\<lambda>p. int k \<le> p) 1 rows @ [item_to_row it (int k)]) \<and>
    ordered_rows (shift_where (\<lambda>p. int k \<le> p) 1 rows @ [item_to_row it (int k)]) =
      insert_at k (item_to_row it (int k)) (shift_where (\<lambda>p. int k \<le> p) 1 (ordered_rows rows))"
    (is "dense ?rows \<and> ordered_rows ?rows = insert_at k ?new ?os")
proof (rule dense_candidate)
  show "mset (insert_at k ?new ?os) = mset ?rows"
    by (simp add: shift_where_def)
  show "map qr_position (insert_at k ?new ?os) = map int [0..<length (insert_at k ?new ?os)]"
  proof (rule nth_equalityI)
    fix i assume "i < length (map qr_position (insert_at k ?new ?os))"
    then have i: "i \<le> length rows" by (simp add: shift_where_def)
    then show "map qr_position (insert_at k ?new ?os) ! i = map int [0..<length (insert_at k ?new ?os)] ! i"
      using k by (auto simp: nth_insert_at_cases shift_where_def position_nth [OF d] item_to_row_def
        simp del: upt_Suc)
  qed (simp add: shift_where_def)
  have "map qr_item_uid ?os = map qr_item_uid (ordered_rows rows)"
    by (simp add: shift_where_def)
  moreover have "qr_item_uid ?new \<notin> set (map qr_item_uid (ordered_rows rows))"
    using u by (simp add: item_to_row_def)
  ultimately show "distinct (map qr_item_uid (insert_at k ?new ?os))"
    using distinct_uid_ordered [OF d] by (simp add: map_insert_at del: set_map)
qed

text \<open>Deleting the row at place \<open>k\<close> and closing the gap.\<close>

lemma remove_ordered:
  assumes d: "dense rows" and k: "k < length rows"
    and p: "\<And>q. 0 \<le> q \<Longrightarrow> q < int (length rows) \<Longrightarrow> q \<noteq> int k \<Longrightarrow> P q \<longleftrightarrow> int k < q"
  shows "dense (shift_where P (- 1) (delete_row (qr_item_uid (ordered_rows rows ! k)) rows)) \<and>
    ordered_rows (shift_where P (- 1) (delete_row (qr_item_uid (ordered_rows rows ! k)) rows)) =
      shift_where P (- 1) (delete_at k (ordered_rows rows))"
    (is "dense ?rows \<and> ordered_rows ?rows = ?ys")
proof (rule dense_candidate)
  let ?u = "qr_item_uid (ordered_rows rows ! k)"
  have "delete_at k (ordered_rows rows) = filter (\<lambda>r. qr_item_uid r \<noteq> ?u) (ordered_rows rows)"
    using distinct_uid_ordered [OF d] k by (intro delete_at_key find_pos_nth) simp_all
  then have del: "mset (delete_at k (ordered_rows rows)) = mset (delete_row ?u rows)"
    by (simp add: delete_row_def)
  show "mset ?ys = mset ?rows" by (simp add: shift_where_def del)
  show "map qr_position ?ys = map int [0..<length ?ys]"
  proof (rule nth_equalityI)
    fix i assume "i < length (map qr_position ?ys)"
    then have i: "Suc i < length rows" using k by (auto simp: shift_where_def delete_at_def)
    have "delete_at k (ordered_rows rows) ! i = ordered_rows rows ! (if i < k then i else Suc i)"
      using k i by (auto simp: delete_at_def nth_append min_def)
    moreover have "qr_position (ordered_rows rows ! (if i < k then i else Suc i))
        = int (if i < k then i else Suc i)"
      using i by (simp add: position_nth [OF d])
    moreover have "P (int (if i < k then i else Suc i)) \<longleftrightarrow> \<not> i < k"
      using p [of "int (if i < k then i else Suc i)"] i by auto
    moreover have "i < length (delete_at k (ordered_rows rows))"
      using i k by (simp add: delete_at_def)
    ultimately show "map qr_position ?ys ! i = map int [0..<length ?ys] ! i"
      by (auto simp: shift_where_def)
  qed (simp add: shift_where_def)
  have "map qr_item_uid ?ys = map qr_item_uid (delete_at k (ordered_rows rows))"
    by (simp add: shift_where_def)
  then show "distinct (map qr_item_uid ?ys)"
    using distinct_uid_ordered [OF d] by (simp add: map_delete_at distinct_delete_at)
qed

subsection \<open>The abstraction\<close>

definition entry_of_row :: "history_row \<Rightarrow> history_entry" where
  "entry_of_row r = projr (row_to_entry r)"

definition tables_abs :: "tables \<Rightarrow> store" where
  "tables_abs t =
    \<lparr>q_items = map queue_row_item (ordered_rows (t_queue_items t)),
     q_history = map entry_of_row (sort_key hr_id (t_queue_history t))\<rparr>"

definition tables_valid :: "tables \<Rightarrow> bool" where
  "tables_valid t \<longleftrightarrow>
     dense (t_queue_items t) \<and>
     sorted_wrt (<) (map hr_id (t_queue_history t)) \<and>
     (\<forall>r \<in> set (t_queue_history t). \<exists>h i. r = entry_to_row h i)"

definition sql_abs :: "database \<Rightarrow> store" where
  "sql_abs db = tables_abs (db_tables db)"

definition sql_valid :: "database \<Rightarrow> bool" where
  "sql_valid db \<longleftrightarrow> tables_valid (db_tables db)"

text \<open>What \<open>created_at\<close> becomes on a replacement: the old value stays.\<close>

definition sql_keep :: "queue_item \<Rightarrow> queue_item \<Rightarrow> queue_item" where
  "sql_keep old new = new\<lparr>item_created_at := item_created_at old\<rparr>"

text \<open>Round trips between rows and model objects.\<close>

lemma queue_row_item_to_row [simp]: "queue_row_item (item_to_row it pos) = it"
  by (simp add: queue_row_item_def row_to_item_def item_to_row_def)

lemma row_to_entry_to_row [simp]: "row_to_entry (entry_to_row h i) = Inr h"
  by (simp add: row_to_entry_def entry_to_row_def row_to_item_def)

lemma entry_of_row_to_row [simp]: "entry_of_row (entry_to_row h i) = h"
  by (simp add: entry_of_row_def)

lemma queue_row_item_uid [simp]: "item_uid (queue_row_item r) = qr_item_uid r"
  by (simp add: queue_row_item_def row_to_item_def)

lemma queue_row_item_position [simp]:
  "queue_row_item (r\<lparr>qr_position := p\<rparr>) = queue_row_item r"
  by (simp add: queue_row_item_def row_to_item_def)

lemma map_item_shift [simp]:
  "map queue_row_item (shift_where P d rows) = map queue_row_item rows"
  by (simp add: shift_where_def comp_def if_distrib cong: if_cong)

lemma uids_map_row: "uids (map queue_row_item rows) = map qr_item_uid rows"
  by simp

lemma get_row_None: "get_row u rows = None \<longleftrightarrow> u \<notin> qr_item_uid ` set rows"
  unfolding get_row_def find_None_iff by auto

lemma find_item_map_rows: "find_item u (map queue_row_item rows) = map_option queue_row_item (get_row u rows)"
  by (induction rows) (simp_all add: find_item_def get_row_def)

lemma get_row_Some_iff:
  assumes "distinct (map qr_item_uid rows)"
  shows "get_row u rows = Some r \<longleftrightarrow> r \<in> set rows \<and> qr_item_uid r = u"
  using assms by (induction rows) (auto simp: get_row_def)

lemma get_row_ordered:
  assumes "dense rows"
  shows "get_row u (ordered_rows rows) = get_row u rows"
proof -
  have d: "distinct (map qr_item_uid rows)" using assms by (simp add: dense_def)
  have "get_row u (ordered_rows rows) = Some r \<longleftrightarrow> get_row u rows = Some r" for r
    by (simp add: get_row_Some_iff [OF d] get_row_Some_iff [OF distinct_uid_ordered [OF assms]])
  then show ?thesis by (metis option.exhaust)
qed

text \<open>The row found for a uid stands at some place of the ordered list.\<close>

lemma get_row_place:
  assumes "dense rows" "get_row u rows = Some r"
  obtains k where "k < length rows" "ordered_rows rows ! k = r" "qr_position r = int k"
    "qr_item_uid r = u"
proof -
  have d: "distinct (map qr_item_uid rows)" using assms(1) by (simp add: dense_def)
  from assms(2) have r: "r \<in> set (ordered_rows rows)" "qr_item_uid r = u"
    by (simp_all add: get_row_Some_iff [OF d])
  from r(1) obtain k where "k < length rows" "ordered_rows rows ! k = r"
    by (metis in_set_conv_nth length_ordered_rows)
  with that r(2) position_nth [OF assms(1)] show ?thesis by metis
qed

lemma delete_at_ordered_items:
  assumes "dense rows" "k < length rows"
  shows "map queue_row_item (delete_at k (ordered_rows rows)) =
    without (qr_item_uid (ordered_rows rows ! k)) (map queue_row_item (ordered_rows rows))"
proof -
  let ?xs = "map queue_row_item (ordered_rows rows)"
  have du: "distinct (uids ?xs)" using distinct_uid_ordered [OF assms(1)] by (simp add: comp_def)
  have "delete_at k ?xs = without (item_uid (?xs ! k)) ?xs"
    using assms(2) by (intro delete_at_without du find_pos_nth) simp
  with assms(2) show ?thesis by (simp add: map_delete_at)
qed

subsection \<open>Each method\<close>

text \<open>
  The methods of the queue tables, by the session law with the invariant and the abstraction of
  those tables.
\<close>

lemma session_implements:
  assumes "\<And>t. tables_valid t \<Longrightarrow> fst (body t) = fst (spec (tables_abs t))"
    and "\<And>t x. tables_valid t \<Longrightarrow> fst (body t) = Inr x \<Longrightarrow>
      tables_valid (snd (body t)) \<and> tables_abs (snd (body t)) = snd (spec (tables_abs t))"
    and "\<And>q e. fst (spec q) = Inl e \<Longrightarrow> snd (spec q) = q"
  shows "implements sql_abs sql_valid db_up (session body) spec"
proof -
  have "sql_abs = (\<lambda>db. tables_abs (db_tables db))" "sql_valid = (\<lambda>db. tables_valid (db_tables db))"
    by (simp_all add: fun_eq_iff sql_abs_def sql_valid_def)
  then show ?thesis
    using session_implements_on [of tables_valid body spec tables_abs] assms by simp
qed

text \<open>The invariant and the abstraction, on tables.\<close>

lemma tables_valid_items [simp]:
  "tables_valid t \<Longrightarrow> dense (t_queue_items t)"
  by (simp add: tables_valid_def)

lemma tables_valid_set_rows: "tables_valid t \<Longrightarrow> dense rows \<Longrightarrow> tables_valid (set_rows rows t)"
  by (simp add: tables_valid_def)

lemma tables_abs_items [simp]:
  "q_items (tables_abs t) = map queue_row_item (ordered_rows (t_queue_items t))"
  by (simp add: tables_abs_def)

lemma tables_abs_set_rows:
  "tables_abs (set_rows rows t) = (tables_abs t)\<lparr>q_items := map queue_row_item (ordered_rows rows)\<rparr>"
  by (simp add: tables_abs_def)

lemma uids_tables: "set (uids (q_items (tables_abs t))) = qr_item_uid ` set (t_queue_items t)"
  by (simp add: image_image)

lemma find_item_tables:
  "tables_valid t \<Longrightarrow> find_item u (q_items (tables_abs t)) =
    map_option queue_row_item (get_row u (t_queue_items t))"
  by (simp add: find_item_map_rows get_row_ordered)

lemma history_sorted:
  "tables_valid t \<Longrightarrow> sort_key hr_id (t_queue_history t) = t_queue_history t"
proof -
  assume "tables_valid t"
  then have "sorted_wrt (<) (map hr_id (t_queue_history t))" by (simp add: tables_valid_def)
  then have "sorted (map hr_id (t_queue_history t))" by (simp add: strict_sorted_iff)
  then show ?thesis by (rule sort_key_id_if_sorted)
qed

lemma tables_abs_history:
  "tables_valid t \<Longrightarrow> q_history (tables_abs t) = map entry_of_row (t_queue_history t)"
  by (simp add: tables_abs_def history_sorted)

lemma insert_body:
  assumes t: "tables_valid t" and u: "item_uid it \<notin> qr_item_uid ` set (t_queue_items t)"
    and pos: "pos = int k" and k: "k \<le> length (t_queue_items t)"
  defines "rows \<equiv> shift_where (\<lambda>p. pos \<le> p) 1 (t_queue_items t) @ [item_to_row it pos]"
  shows "tables_valid (set_rows rows t)"
    and "tables_abs (set_rows rows t) =
      (tables_abs t)\<lparr>q_items := insert_at k it (q_items (tables_abs t))\<rparr>"
  using insert_ordered [OF tables_valid_items [OF t] k u] t
  by (simp_all add: rows_def pos tables_valid_set_rows tables_abs_set_rows map_insert_at)

lemma sql_insert_implements:
  "implements sql_abs sql_valid db_up (sql_insert it idx) (spec_insert it idx)"
  unfolding sql_insert_def
proof (rule session_implements, goal_cases)
  case (1 t)
  then show ?case
    by (auto simp: Let_def spec_insert_def get_row_None image_image)
next
  case (2 t x)
  let ?k = "target_index idx (length (t_queue_items t))"
  have k: "?k \<le> length (t_queue_items t)" by (simp add: target_index_def split: option.split)
  have pos: "(case idx of None \<Rightarrow> int (length (t_queue_items t))
      | Some i \<Rightarrow> max 0 (min i (int (length (t_queue_items t))))) = int ?k"
    by (simp add: target_index_def clamp_def split: option.split)
  from 2(2) have u: "get_row (item_uid it) (t_queue_items t) = None"
    by (auto simp: Let_def split: if_splits)
  then have u': "item_uid it \<notin> qr_item_uid ` set (t_queue_items t)" by (simp add: get_row_None)
  show ?case
    using insert_body [OF 2(1) u' refl k] u'
    by (simp add: Let_def u pos spec_insert_def image_image)
qed (auto simp: spec_insert_def split: if_splits)

lemma remove_body:
  assumes t: "tables_valid t" and r: "get_row u (t_queue_items t) = Some r"
    and p: "\<And>q. 0 \<le> q \<Longrightarrow> q < int (length (t_queue_items t)) \<Longrightarrow> q \<noteq> qr_position r \<Longrightarrow>
      P q \<longleftrightarrow> qr_position r < q"
  defines "rows \<equiv> shift_where P (- 1) (delete_row u (t_queue_items t))"
  shows "tables_valid (set_rows rows t)"
    and "tables_abs (set_rows rows t) =
      (tables_abs t)\<lparr>q_items := without u (q_items (tables_abs t))\<rparr>"
proof -
  have d: "dense (t_queue_items t)" using t by simp
  obtain k where k: "k < length (t_queue_items t)" "ordered_rows (t_queue_items t) ! k = r"
      "qr_position r = int k" "qr_item_uid r = u"
    using get_row_place [OF d r] .
  have rem: "dense rows \<and> ordered_rows rows = shift_where P (- 1) (delete_at k (ordered_rows (t_queue_items t)))"
    using remove_ordered [OF d k(1), of P] p k(2-4) by (simp add: rows_def)
  then show "tables_valid (set_rows rows t)" using t by (simp add: tables_valid_set_rows)
  from rem show "tables_abs (set_rows rows t) =
      (tables_abs t)\<lparr>q_items := without u (q_items (tables_abs t))\<rparr>"
    using delete_at_ordered_items [OF d k(1)] k(2,4) by (simp add: tables_abs_set_rows)
qed

lemma sql_remove_implements:
  "implements sql_abs sql_valid db_up (sql_remove u) (spec_remove u)"
  unfolding sql_remove_def
proof (rule session_implements, goal_cases)
  case (1 t)
  then show ?case
    by (simp add: Let_def spec_remove_def find_item_tables del: tables_abs_items split: option.split)
next
  case (2 t x)
  then obtain r where r: "get_row u (t_queue_items t) = Some r"
    by (auto simp: Let_def split: option.splits)
  show ?case
    using remove_body [OF 2(1) r, of "\<lambda>p. qr_position r < p"] 2(1)
    by (simp add: Let_def r spec_remove_def find_item_tables del: tables_abs_items)
qed (auto simp: spec_remove_def split: option.splits)

lemma sql_pop_front_implements:
  "implements sql_abs sql_valid db_up sql_pop_front spec_pop_front"
  unfolding sql_pop_front_def
proof (rule session_implements, goal_cases)
  case (1 t)
  then show ?case
    by (cases "ordered_rows (t_queue_items t)") (simp_all add: Let_def spec_pop_front_def)
next
  case (2 t x)
  show ?case
  proof (cases "ordered_rows (t_queue_items t)")
    case Nil
    with 2(1) show ?thesis by (simp add: Let_def spec_pop_front_def)
  next
    case (Cons r rs)
    have d: "dense (t_queue_items t)" using 2(1) by simp
    have len: "0 < length (t_queue_items t)"
      using Cons length_ordered_rows [of "t_queue_items t"] by (cases "t_queue_items t") auto
    have r: "get_row (qr_item_uid r) (t_queue_items t) = Some r" "qr_position r = 0"
      using Cons position_nth [OF d len] get_row_ordered [OF d, of "qr_item_uid r"]
      by (simp_all add: get_row_def)
    have "without (qr_item_uid r) (map queue_row_item rs) = map queue_row_item rs"
      using distinct_uid_ordered [OF d] Cons by (intro without_notin) (auto simp: image_image)
    with remove_body [OF 2(1) r(1), of "\<lambda>p. True"] r(2) show ?thesis
      by (simp add: Let_def Cons spec_pop_front_def)
  qed
qed (auto simp: spec_pop_front_def split: list.splits)

lemma overwrite_row_simps [simp]:
  "qr_item_uid (overwrite_row it r) = qr_item_uid r"
  "qr_position (overwrite_row it r) = qr_position r"
  by (simp_all add: overwrite_row_def)

lemma queue_row_item_overwrite:
  "qr_item_uid r = item_uid it \<Longrightarrow>
   queue_row_item (overwrite_row it r) = sql_keep (queue_row_item r) it"
  by (simp add: queue_row_item_def row_to_item_def overwrite_row_def sql_keep_def)

lemma replace_body:
  fixes it :: queue_item
  assumes t: "tables_valid t"
  defines "f \<equiv> \<lambda>r. if qr_item_uid r = item_uid it then overwrite_row it r else r"
  shows "tables_valid (set_rows (map f (t_queue_items t)) t)"
    and "tables_abs (set_rows (map f (t_queue_items t)) t) =
      (tables_abs t)\<lparr>q_items := map (\<lambda>x. if item_uid x = item_uid it then sql_keep x it else x)
        (q_items (tables_abs t))\<rparr>"
proof -
  have d: "dense (t_queue_items t)" using t by simp
  have f: "qr_item_uid (f r) = qr_item_uid r" "qr_position (f r) = qr_position r" for r
    by (simp_all add: f_def)
  have "dense (map f (t_queue_items t)) \<and>
      ordered_rows (map f (t_queue_items t)) = map f (ordered_rows (t_queue_items t))"
    by (rule dense_candidate)
      (use ordered_positions [OF d] distinct_uid_ordered [OF d] in \<open>simp_all add: f comp_def\<close>)
  with t show "tables_valid (set_rows (map f (t_queue_items t)) t)"
    and "tables_abs (set_rows (map f (t_queue_items t)) t) =
      (tables_abs t)\<lparr>q_items := map (\<lambda>x. if item_uid x = item_uid it then sql_keep x it else x)
        (q_items (tables_abs t))\<rparr>"
    by (auto simp: tables_valid_set_rows tables_abs_set_rows f_def queue_row_item_overwrite)
qed

lemma sql_replace_implements:
  "implements sql_abs sql_valid db_up (sql_replace it) (spec_replace sql_keep it)"
  unfolding sql_replace_def
proof (rule session_implements, goal_cases)
  case (1 t)
  then show ?case by (auto simp: Let_def spec_replace_def get_row_None image_image)
next
  case (2 t x)
  then obtain r where r: "get_row (item_uid it) (t_queue_items t) = Some r"
    by (cases "get_row (item_uid it) (t_queue_items t)") (auto simp: Let_def)
  then have m: "item_uid it \<in> set (uids (q_items (tables_abs t)))"
    using get_row_None [of "item_uid it" "t_queue_items t"] by (simp add: image_image)
  from r m show ?case
    by (simp only: Let_def spec_replace_def replace_body [OF 2(1)] option.distinct if_True if_False
      simp_thms prod.sel)
qed (auto simp: spec_replace_def split: if_splits)

lemma le_fold_max: "x \<in> set xs \<or> x \<le> a \<Longrightarrow> (x :: nat) \<le> fold max xs a"
proof (induction xs arbitrary: a)
  case Nil
  then show ?case by simp
next
  case (Cons y ys)
  from Cons.prems have "x \<in> set ys \<or> x \<le> max y a" by auto
  from Cons.IH [OF this] show ?case by simp
qed

lemma next_history_id_greater: "r \<in> set rows \<Longrightarrow> hr_id r < next_history_id rows"
  by (simp add: next_history_id_def less_Suc_eq_le le_fold_max)

lemma sql_append_history_implements:
  "implements sql_abs sql_valid db_up (sql_append_history h) (spec_append_history h)"
  unfolding sql_append_history_def
proof (rule session_implements, goal_cases)
  case (2 t x)
  let ?t = "t\<lparr>t_queue_history := t_queue_history t @
      [entry_to_row h (next_history_id (t_queue_history t))]\<rparr>"
  have id: "hr_id (entry_to_row h i) = i" for i by (simp add: entry_to_row_def)
  from 2(1) have v: "tables_valid ?t"
    by (auto simp: tables_valid_def sorted_wrt_append id next_history_id_greater)
  have "tables_abs ?t = (tables_abs t)\<lparr>q_history := q_history (tables_abs t) @ [h]\<rparr>"
    using history_sorted [OF v] history_sorted [OF 2(1)] by (simp add: tables_abs_def)
  with v show ?case by (simp add: act_simps spec_append_history_def)
qed (simp_all add: act_simps spec_append_history_def)

lemma map_fallible_entries:
  "\<forall>r \<in> set rows. \<exists>h i. r = entry_to_row h i \<Longrightarrow>
   map_fallible row_to_entry rows = Inr (map entry_of_row rows)"
  by (induction rows) auto

lemma sql_list_history_implements:
  "implements sql_abs sql_valid db_up sql_list_history spec_list_history"
  unfolding sql_list_history_def
proof (rule session_implements, goal_cases)
  case (1 t)
  then have "\<forall>r \<in> set (t_queue_history t). \<exists>h i. r = entry_to_row h i"
    by (simp add: tables_valid_def)
  with 1 show ?case
    by (simp add: spec_list_history_def act_simps history_sorted tables_abs_history map_fallible_entries)
qed (simp_all add: spec_list_history_def act_simps)

lemma sql_move_live:
  assumes "sql_valid db" "db_up db"
  shows "fst (sql_move u i db) = fst (spec_move u i (sql_abs db))"
    and "sql_abs (snd (sql_move u i db)) = snd (spec_move u i (sql_abs db))"
    and "sql_valid (snd (sql_move u i db))" "db_up (snd (sql_move u i db))"
proof -
  note rem = implements_up [OF sql_remove_implements assms]
  note ins = implements_up [OF sql_insert_implements rem(3,4)]
  show "fst (sql_move u i db) = fst (spec_move u i (sql_abs db))"
    and "sql_abs (snd (sql_move u i db)) = snd (spec_move u i (sql_abs db))"
    and "sql_valid (snd (sql_move u i db))" "db_up (snd (sql_move u i db))"
    by (simp_all add: sql_move_def spec_move_def act_simps rem ins split: sum.split)
qed

subsection \<open>The contract holds\<close>

interpretation sql: repository SqlQueueRepository sql_abs sql_valid db_up sql_keep
proof unfold_locales
  fix r assume "sql_valid r"
  then have "dense (t_queue_items (db_tables r))" by (simp add: sql_valid_def)
  then show "distinct (uids (q_items (sql_abs r)))"
    using distinct_uid_ordered by (simp add: sql_abs_def comp_def)
next
  show "implements sql_abs sql_valid db_up (rp_list_items SqlQueueRepository) spec_list_items"
    unfolding SqlQueueRepository_def queue_repository.simps sql_list_items_def
    by (rule session_implements) (simp_all add: spec_list_items_def act_simps)
next
  fix u
  show "implements sql_abs sql_valid db_up (rp_get_item SqlQueueRepository u) (spec_get_item u)"
    unfolding SqlQueueRepository_def queue_repository.simps sql_get_item_def
    by (rule session_implements)
      (simp_all add: spec_get_item_def act_simps find_item_tables del: tables_abs_items)
next
  show "implements sql_abs sql_valid db_up (rp_clear SqlQueueRepository) spec_clear"
    unfolding SqlQueueRepository_def queue_repository.simps sql_clear_def
    by (rule session_implements)
      (simp_all add: spec_clear_def tables_valid_set_rows tables_abs_set_rows dense_def
        ordered_rows_def)
next
  show "implements sql_abs sql_valid db_up (rp_clear_history SqlQueueRepository) spec_clear_history"
    unfolding SqlQueueRepository_def queue_repository.simps sql_clear_history_def
    by (rule session_implements)
      (simp_all add: spec_clear_history_def tables_valid_def tables_abs_def)
next
  fix r u i assume "sql_valid r" "db_up r"
  then show "fst (rp_move SqlQueueRepository u i r) = fst (spec_move u i (sql_abs r)) \<and>
      sql_abs (snd (rp_move SqlQueueRepository u i r)) = snd (spec_move u i (sql_abs r)) \<and>
      sql_valid (snd (rp_move SqlQueueRepository u i r)) \<and>
      db_up (snd (rp_move SqlQueueRepository u i r))"
    using sql_move_live by (simp add: SqlQueueRepository_def)
qed (simp_all add: SqlQueueRepository_def sql_insert_implements sql_replace_implements
  sql_remove_implements sql_pop_front_implements sql_append_history_implements
  sql_list_history_implements, simp_all add: sql_keep_def)

end
