(* ===== verification/QueueRefinement.thy ===== *)
theory QueueRefinement
  imports QueueService MemoryRepo SqlRefinement
begin

section \<open>The queue service over any repository is the service over a list\<close>

text \<open>
  \<open>SpecRepository\<close> runs the service on the abstract store. Inside the contract of \<open>QueueRepo\<close>,
  every method of the service over a repository simulates the same method over that list, as
  long as the repository is available; and it keeps the repository's invariant in any case.
  \<open>service_call\<close> reifies a call, so that a list of calls is an interleaving of API requests
  and sequencer steps (every method holds the service's lock).
\<close>

definition SpecRepository :: "(queue_item \<Rightarrow> queue_item \<Rightarrow> queue_item) \<Rightarrow> store queue_repository" where
  "SpecRepository keep =
    \<lparr>rp_list_items = spec_list_items, rp_get_item = spec_get_item, rp_insert = spec_insert,
     rp_replace = spec_replace keep, rp_remove = spec_remove, rp_move = spec_move,
     rp_clear = spec_clear, rp_pop_front = spec_pop_front,
     rp_append_history = spec_append_history, rp_list_history = spec_list_history,
     rp_clear_history = spec_clear_history\<rparr>"

subsection \<open>Calls\<close>

datatype service_call =
    CItems
  | CGet string
  | CHistory
  | CLen
  | CAdd registry "string \<times> rat" queue_item pyval pyval pyval
  | CAddBatch registry "nat \<Rightarrow> string \<times> rat" "queue_item list" pyval pyval pyval
  | CUpdate registry "string \<times> rat" queue_item bool
  | CRemove string
  | CRemoveBatch "string list" bool
  | CMove string pyval pyval pyval
  | CClear
  | CPopFront
  | CPushFront queue_item
  | CRecordHistory history_entry
  | CClearHistory

datatype service_reply =
    RItems "queue_item list"
  | RItem queue_item
  | RItemOption "queue_item option"
  | RHistory "history_entry list"
  | RNumber nat
  | RAdded "(queue_item \<times> nat) list"
  | RNothing

definition reply_with :: "('a \<Rightarrow> service_reply) \<Rightarrow> ('r, 'a) service_act \<Rightarrow> ('r, service_reply) service_act" where
  "reply_with f m = chain m (\<lambda>x. ret (f x))"

fun run_call :: "'r queue_repository \<Rightarrow> service_call \<Rightarrow> ('r, service_reply) service_act" where
  "run_call ops CItems = reply_with RItems (items ops)"
| "run_call ops (CGet u) = reply_with RItem (get_queued ops u)"
| "run_call ops CHistory = reply_with RHistory (history ops)"
| "run_call ops CLen = reply_with RNumber (queue_len ops)"
| "run_call ops (CAdd reg fresh it pos b a) = reply_with (\<lambda>x. RAdded [x]) (add ops reg fresh it pos b a)"
| "run_call ops (CAddBatch reg fresh its pos b a) = reply_with RAdded (add_batch ops reg fresh its pos b a)"
| "run_call ops (CUpdate reg fresh it r) = reply_with RItem (update ops reg fresh it r)"
| "run_call ops (CRemove u) = reply_with RItem (remove ops u)"
| "run_call ops (CRemoveBatch us ig) = reply_with RItems (remove_batch ops us ig)"
| "run_call ops (CMove u pos b a) = reply_with RNumber (move ops u pos b a)"
| "run_call ops CClear = reply_with RNumber (clear ops)"
| "run_call ops CPopFront = reply_with RItemOption (pop_front ops)"
| "run_call ops (CPushFront it) = reply_with (\<lambda>_. RNothing) (push_front ops it)"
| "run_call ops (CRecordHistory h) = reply_with (\<lambda>_. RNothing) (record_history ops h)"
| "run_call ops CClearHistory = reply_with RNumber (clear_history ops)"

text \<open>A client sees the answer of each call, exceptions included, and goes on.\<close>

fun run_calls :: "'r queue_repository \<Rightarrow> service_call list \<Rightarrow> 'r queue_service \<Rightarrow>
    (exn + service_reply) list \<times> 'r queue_service" where
  "run_calls ops [] s = ([], s)"
| "run_calls ops (c # cs) s =
     (let (r, s') = run_call ops c s; (rs, s'') = run_calls ops cs s' in (r # rs, s''))"

subsection \<open>Simulation\<close>

definition abs_service :: "('r \<Rightarrow> store) \<Rightarrow> 'r queue_service \<Rightarrow> store queue_service" where
  "abs_service absq s = \<lparr>qs_repo = absq (qs_repo s), qs_revision = qs_revision s\<rparr>"

lemma abs_service_simps [simp]:
  "qs_repo (abs_service absq s) = absq (qs_repo s)"
  "qs_revision (abs_service absq s) = qs_revision s"
  "abs_service absq (s\<lparr>qs_repo := r\<rparr>) = (abs_service absq s)\<lparr>qs_repo := absq r\<rparr>"
  "abs_service absq (s\<lparr>qs_revision := n\<rparr>) = (abs_service absq s)\<lparr>qs_revision := n\<rparr>"
  by (simp_all add: abs_service_def)

definition sim :: "('r \<Rightarrow> store) \<Rightarrow> ('r \<Rightarrow> bool) \<Rightarrow>
    ('r, 'a) service_act \<Rightarrow> (store, 'a) service_act \<Rightarrow> bool" where
  "sim absq ok m m' \<longleftrightarrow> (\<forall>s. ok (qs_repo s) \<longrightarrow>
     fst (m s) = fst (m' (abs_service absq s)) \<and>
     abs_service absq (snd (m s)) = snd (m' (abs_service absq s)) \<and> ok (qs_repo (snd (m s))))"

named_theorems sim_rules \<open>simulation, constructor by constructor\<close>

lemma simD:
  assumes "sim absq ok m m'" "ok (qs_repo s)"
  shows "fst (m s) = fst (m' (abs_service absq s))"
    "abs_service absq (snd (m s)) = snd (m' (abs_service absq s))"
    "ok (qs_repo (snd (m s)))"
  using assms by (auto simp: sim_def)

lemma sim_basic [sim_rules]:
  "sim absq ok (ret x) (ret x)" "sim absq ok (throw e) (throw e)"
  "sim absq ok (lift_result r) (lift_result r)" "sim absq ok bump bump"
  by (simp_all add: sim_def act_simps)

lemma sim_chain [sim_rules]:
  assumes m: "sim absq ok m m'" and f: "\<And>x. sim absq ok (f x) (f' x)"
  shows "sim absq ok (chain m f) (chain m' f')"
  unfolding sim_def
proof (intro allI impI, goal_cases)
  case (1 s)
  note first = simD [OF m 1]
  show ?case using first simD [OF f first(3)] by (simp add: act_simps split: sum.split)
qed

lemma sim_handle [sim_rules]:
  assumes m: "sim absq ok m m'" and f: "\<And>x. sim absq ok (f x) (f' x)"
  shows "sim absq ok (handle m f) (handle m' f')"
  unfolding sim_def
proof (intro allI impI, goal_cases)
  case (1 s)
  note first = simD [OF m 1]
  show ?case using first simD [OF f first(3)] by (simp add: act_simps split: sum.split)
qed

lemma sim_if [sim_rules]:
  "(b \<Longrightarrow> sim absq ok m m') \<Longrightarrow> (\<not> b \<Longrightarrow> sim absq ok n n') \<Longrightarrow>
   sim absq ok (if b then m else n) (if b then m' else n')"
  by simp

lemma sim_option [sim_rules]:
  "sim absq ok m m' \<Longrightarrow> (\<And>y. sim absq ok (f y) (f' y)) \<Longrightarrow>
   sim absq ok (case x of None \<Rightarrow> m | Some y \<Rightarrow> f y) (case x of None \<Rightarrow> m' | Some y \<Rightarrow> f' y)"
  by (cases x) simp_all

lemma sim_for_each [sim_rules]:
  "(\<And>x. sim absq ok (f x) (f' x)) \<Longrightarrow> sim absq ok (for_each f xs) (for_each f' xs)"
  by (induction xs) (auto intro!: sim_rules)

lemma sim_prod [sim_rules]:
  "(\<And>a b. sim absq ok (f a b) (f' a b)) \<Longrightarrow>
   sim absq ok (case p of (a, b) \<Rightarrow> f a b) (case p of (a, b) \<Rightarrow> f' a b)"
  by (cases p) simp

context repository
begin

abbreviation spec_ops :: "store queue_repository" where
  "spec_ops \<equiv> SpecRepository keep"

lemma sim_repo:
  "(\<And>r. live r \<Longrightarrow> fst (m r) = fst (m' (absq r)) \<and> absq (snd (m r)) = snd (m' (absq r)) \<and>
     live (snd (m r))) \<Longrightarrow> sim absq live (repo m) (repo m')"
  by (simp add: sim_def act_simps)

lemma sim_ops [sim_rules]:
  "sim absq live (repo (rp_list_items ops)) (repo (rp_list_items spec_ops))"
  "sim absq live (repo (rp_get_item ops u)) (repo (rp_get_item spec_ops u))"
  "sim absq live (repo (rp_insert ops it idx)) (repo (rp_insert spec_ops it idx))"
  "sim absq live (repo (rp_replace ops it)) (repo (rp_replace spec_ops it))"
  "sim absq live (repo (rp_remove ops u)) (repo (rp_remove spec_ops u))"
  "sim absq live (repo (rp_clear ops)) (repo (rp_clear spec_ops))"
  "sim absq live (repo (rp_pop_front ops)) (repo (rp_pop_front spec_ops))"
  "sim absq live (repo (rp_append_history ops h)) (repo (rp_append_history spec_ops h))"
  "sim absq live (repo (rp_list_history ops)) (repo (rp_list_history spec_ops))"
  "sim absq live (repo (rp_clear_history ops)) (repo (rp_clear_history spec_ops))"
  by (rule sim_repo; simp add: SpecRepository_def live_laws spec_defs act_simps)+

lemma sim_index_of [sim_rules]: "sim absq live (index_of ops u) (index_of spec_ops u)"
  unfolding index_of_def by (intro sim_rules)

lemma sim_resolve_index [sim_rules]:
  "sim absq live (resolve_index ops pos b a ins) (resolve_index spec_ops pos b a ins)"
  unfolding resolve_index_def Let_def by (intro sim_rules)

lemma sim_get [sim_rules]: "sim absq live (get_queued ops u) (get_queued spec_ops u)"
  unfolding get_queued_def by (intro sim_rules)

lemma sim_add [sim_rules]:
  "sim absq live (add ops reg fresh it pos b a) (add spec_ops reg fresh it pos b a)"
  unfolding add_def Let_def by (intro sim_rules)

lemma sim_remove [sim_rules]: "sim absq live (remove ops u) (remove spec_ops u)"
  unfolding remove_def by (intro sim_rules)

lemma sim_remove_batch [sim_rules]:
  "sim absq live (remove_batch ops us ig) (remove_batch spec_ops us ig)"
  by (induction us) (auto intro!: sim_rules)

lemma sim_move [sim_rules]: "sim absq live (move ops u pos b a) (move spec_ops u pos b a)"
  unfolding move_def index_of_or_back_def by (intro sim_rules)

lemma sim_update [sim_rules]:
  "sim absq live (update ops reg fresh it ru) (update spec_ops reg fresh it ru)"
  unfolding update_def Let_def by (intro sim_rules)

lemma sim_add_batch [sim_rules]:
  "sim absq live (add_batch ops reg fresh its pos b a) (add_batch spec_ops reg fresh its pos b a)"
  unfolding add_batch_def by (intro sim_rules)

lemma sim_call: "sim absq live (run_call ops c) (run_call spec_ops c)"
  by (cases c)
    (auto simp: reply_with_def items_def history_def queue_len_def
      clear_def pop_front_def push_front_def record_history_def clear_history_def intro!: sim_rules)

lemma calls_refine:
  "live (qs_repo s) \<Longrightarrow>
   fst (run_calls ops cs s) = fst (run_calls spec_ops cs (abs_service absq s)) \<and>
   abs_service absq (snd (run_calls ops cs s)) = snd (run_calls spec_ops cs (abs_service absq s)) \<and>
   live (qs_repo (snd (run_calls ops cs s)))"
proof (induction cs arbitrary: s)
  case Nil
  then show ?case by simp
next
  case (Cons c cs)
  note 1 = simD [OF sim_call Cons.prems, of c]
  from Cons.IH [OF 1(3)] 1 show ?case by (simp add: case_prod_beta)
qed

end

end
