(* ===== verification/QueueSpec.thy ===== *)
theory QueueSpec
  imports QueueRefinement
begin

section \<open>What each method of the service does to the list\<close>

text \<open>
  The service over \<open>SpecRepository\<close>, method by method, in closed form: which list results, at
  which position, and when the call is refused. The properties of the service carry these
  equations over to the repositories of the program.
\<close>

abbreviation queue_of :: "store queue_service \<Rightarrow> queue_item list" where
  "queue_of s \<equiv> q_items (qs_repo s)"

abbreviation with_queue :: "queue_item list \<Rightarrow> store queue_service \<Rightarrow> store queue_service" where
  "with_queue xs s \<equiv> s\<lparr>qs_repo := (qs_repo s)\<lparr>q_items := xs\<rparr>\<rparr>"

abbreviation bumped :: "'r queue_service \<Rightarrow> 'r queue_service" where
  "bumped s \<equiv> s\<lparr>qs_revision := qs_revision s + 1\<rparr>"

subsection \<open>Positions\<close>

definition position_of :: "pyval \<Rightarrow> queue_item list \<Rightarrow> exn + nat" where
  "position_of u xs = (case find_pos (\<lambda>x. PStr (item_uid x) = u) xs of
     Some i \<Rightarrow> Inr i | None \<Rightarrow> Inl (not_in_queue u))"

text \<open>A position is relative to the front, to the back (negative) or to a named item.\<close>

definition spec_position :: "queue_item list \<Rightarrow> pyval \<Rightarrow> pyval \<Rightarrow> pyval \<Rightarrow> exn + nat" where
  "spec_position xs pos before_uid after_uid =
     (if length (filter (\<lambda>x. x \<noteq> PNone) [pos, before_uid, after_uid]) > 1
      then Inl (Exn QueueError [Txt ''Specify at most one of '', Rep (PStr ''pos''), Txt '', '',
            Rep (PStr ''before_uid''), Txt '', '', Rep (PStr ''after_uid'')])
      else if before_uid \<noteq> PNone then position_of before_uid xs
      else if after_uid \<noteq> PNone then map_sum id Suc (position_of after_uid xs)
      else if pos = PNone \<or> pos = PStr ''back'' then Inr (length xs)
      else if pos = PStr ''front'' then Inr 0
      else (case as_int pos of
          Some p \<Rightarrow> Inr (clamp (if p < 0 then int (length xs) + p + 1 else p) (length xs))
        | None \<Rightarrow> Inl (Exn QueueError [Txt ''Invalid position '', Rep pos,
                   Txt '': use 'front', 'back' or an integer''])))"

lemma SpecRepository_sel [simp]:
  "rp_list_items (SpecRepository keep) = spec_list_items"
  "rp_get_item (SpecRepository keep) = spec_get_item"
  "rp_insert (SpecRepository keep) = spec_insert"
  "rp_replace (SpecRepository keep) = spec_replace keep"
  "rp_remove (SpecRepository keep) = spec_remove"
  "rp_clear (SpecRepository keep) = spec_clear"
  "rp_pop_front (SpecRepository keep) = spec_pop_front"
  "rp_append_history (SpecRepository keep) = spec_append_history"
  "rp_list_history (SpecRepository keep) = spec_list_history"
  "rp_clear_history (SpecRepository keep) = spec_clear_history"
  by (simp_all add: SpecRepository_def)

lemmas spec_ops_defs = spec_list_items_def spec_get_item_def spec_insert_def
  spec_replace_def spec_remove_def spec_clear_def spec_pop_front_def spec_append_history_def
  spec_list_history_def spec_clear_history_def

lemma index_of_spec: "index_of (SpecRepository keep) u s = (position_of u (queue_of s), s)"
  by (simp add: index_of_def spec_ops_defs act_simps position_of_def split: option.split)

lemma resolve_index_spec:
  "resolve_index (SpecRepository keep) pos b a True s = (spec_position (queue_of s) pos b a, s)"
  by (simp add: resolve_index_def spec_position_def index_of_spec Let_def act_simps clamp_def
      spec_ops_defs split: option.split sum.split)

lemma position_of_PStr:
  "position_of (PStr u) xs = (case find_pos (\<lambda>x. item_uid x = u) xs of
     Some i \<Rightarrow> Inr i | None \<Rightarrow> Inl (not_in_queue (PStr u)))"
  by (simp add: position_of_def)

lemma position_of_error: "position_of u xs = Inl e \<Longrightarrow> exn_class e = QueueError"
  by (auto simp: position_of_def not_in_queue_def split: option.splits)

lemma position_of_less: "position_of u xs = Inr i \<Longrightarrow> i < length xs \<and> PStr (item_uid (xs ! i)) = u"
  using find_pos_Some [of "\<lambda>x. PStr (item_uid x) = u" xs i]
  by (auto simp: position_of_def split: option.splits)

lemma spec_position_le: "spec_position xs pos b a = Inr i \<Longrightarrow> i \<le> length xs"
  by (auto simp: spec_position_def dest: position_of_less split: if_splits option.splits sum.splits)
    (auto simp: map_sum_def dest: position_of_less split: sum.splits)

lemma spec_position_error: "spec_position xs pos b a = Inl e \<Longrightarrow> exn_class e = QueueError"
  by (auto simp: spec_position_def map_sum_def dest: position_of_error
      split: if_splits option.splits sum.splits)

lemma position_of_insert_at:
  "i \<le> length xs \<Longrightarrow> item_uid it \<notin> set (uids xs) \<Longrightarrow>
   position_of (PStr (item_uid it)) (insert_at i it xs) = Inr i"
proof -
  assume "i \<le> length xs" "item_uid it \<notin> set (uids xs)"
  then have "find_pos (\<lambda>x. item_uid x = item_uid it) (insert_at i it xs) = Some i"
    by (intro find_pos_insert_at) (auto simp: image_iff)
  then show ?thesis by (simp add: position_of_PStr)
qed

subsection \<open>Methods\<close>

definition added_item :: "string \<times> rat \<Rightarrow> queue_item \<Rightarrow> queue_item list \<Rightarrow> queue_item" where
  "added_item fresh it xs =
     (if item_uid it \<in> set (uids xs) then with_new_uid (fst fresh) (snd fresh) it else it)"

lemma added_item_uid:
  "(item_uid it \<in> set (uids xs) \<Longrightarrow> fst fresh \<notin> set (uids xs)) \<Longrightarrow>
   item_uid (added_item fresh it xs) \<notin> set (uids xs)"
  by (simp add: added_item_def)

lemma add_spec:
  assumes "item_uid it \<in> set (uids (queue_of s)) \<Longrightarrow> fst fresh \<notin> set (uids (queue_of s))"
  shows "add (SpecRepository keep) reg fresh it pos b a s =
    (case validate reg it of Inl e \<Rightarrow> (Inl e, s) | Inr _ \<Rightarrow>
     case spec_position (queue_of s) pos b a of Inl e \<Rightarrow> (Inl e, s) | Inr i \<Rightarrow>
       (let it' = added_item fresh it (queue_of s) in
        (Inr (it', i), bumped (with_queue (insert_at i it' (queue_of s)) s))))"
proof -
  let ?xs = "queue_of s"
  define it' where "it' = added_item fresh it ?xs"
  have new: "item_uid it' \<notin> set (uids ?xs)" using added_item_uid [OF assms] by (simp add: it'_def)
  have step: "chain (resolve_index (SpecRepository keep) pos b a True) (\<lambda>index.
     chain (repo (rp_insert (SpecRepository keep) it' (Some (int index)))) (\<lambda>_.
     chain bump (\<lambda>_.
     chain (index_of (SpecRepository keep) (PStr (item_uid it'))) (\<lambda>i. ret (it', i))))) s =
    (case spec_position ?xs pos b a of Inl e \<Rightarrow> (Inl e, s) | Inr i \<Rightarrow>
       (Inr (it', i), bumped (with_queue (insert_at i it' ?xs) s)))"
  proof (cases "spec_position ?xs pos b a")
    case (Inr i)
    note le = spec_position_le [OF Inr]
    with position_of_insert_at [OF le new] Inr new show ?thesis
      by (simp add: act_simps spec_insert_def resolve_index_spec target_index_def index_of_spec)
  qed (simp add: act_simps resolve_index_spec)
  show ?thesis
  proof (cases "find_item (item_uid it) ?xs")
    case None
    then have "it' = it" using find_item_None [of "item_uid it" ?xs]
      by (simp add: it'_def added_item_def)
    with step None show ?thesis unfolding it'_def [symmetric] Let_def
      by (cases "validate reg it") (simp_all add: add_def act_simps spec_get_item_def Let_def)
  next
    case (Some old)
    then have "item_uid it \<in> set (uids ?xs)"
      using find_item_None [of "item_uid it" ?xs] by (auto simp del: set_map)
    then have "it' = with_new_uid (fst fresh) (snd fresh) it" by (simp add: it'_def added_item_def)
    with step Some show ?thesis unfolding it'_def [symmetric] Let_def
      by (cases "validate reg it") (simp_all add: add_def act_simps spec_get_item_def Let_def)
  qed
qed

lemma get_spec:
  "get_queued (SpecRepository keep) u s =
     (case find_item u (queue_of s) of None \<Rightarrow> Inl (not_in_queue (PStr u)) | Some it \<Rightarrow> Inr it, s)"
  by (simp add: get_queued_def spec_ops_defs act_simps split: option.split)

lemma remove_spec:
  "remove (SpecRepository keep) u s = (case find_item u (queue_of s) of
     None \<Rightarrow> (Inl (not_in_queue (PStr u)), s)
   | Some it \<Rightarrow> (Inr it, bumped (with_queue (without u (queue_of s)) s)))"
  by (simp add: remove_def spec_ops_defs act_simps no_such_uid_def split: option.split)

lemma pop_front_spec:
  "pop_front (SpecRepository keep) s = (case queue_of s of
     [] \<Rightarrow> (Inr None, s) | x # xs \<Rightarrow> (Inr (Some x), bumped (with_queue xs s)))"
  by (simp add: pop_front_def spec_ops_defs act_simps split: list.split)

lemma push_front_spec:
  "push_front (SpecRepository keep) it s =
     (if item_uid it \<in> set (uids (queue_of s)) then (Inl (duplicate_uid (item_uid it)), s)
      else (Inr (), bumped (with_queue (it # queue_of s) s)))"
  by (simp add: push_front_def spec_ops_defs act_simps target_index_def)

lemma move_spec:
  assumes "distinct (uids (queue_of s))"
  shows "move (SpecRepository keep) u pos b a s =
    (case find_item u (queue_of s) of None \<Rightarrow> (Inl (not_in_queue (PStr u)), s) | Some it \<Rightarrow>
     if b = PStr u \<or> a = PStr u
     then (Inl (Exn QueueError [Txt ''An item cannot be moved relative to itself'']), s)
     else (case spec_position (without u (queue_of s)) pos b a of
        Inl e \<Rightarrow> (Inl e, with_queue (without u (queue_of s) @ [it]) s)
      | Inr i \<Rightarrow> (Inr i, bumped (with_queue (insert_at i it (without u (queue_of s))) s))))"
proof (cases "find_item u (queue_of s)")
  case None
  then show ?thesis by (simp add: move_def act_simps get_spec)
next
  case (Some it)
  let ?ys = "without u (queue_of s)"
  have u: "item_uid it = u" using find_item_Some [OF Some] by simp
  have gone: "u \<notin> set (uids ?ys)" by (simp del: set_map)
  show ?thesis
  proof (cases "b = PStr u \<or> a = PStr u")
    case True
    with Some show ?thesis by (auto simp: move_def act_simps get_spec)
  next
    case False
    show ?thesis
    proof (cases "spec_position ?ys pos b a")
      case (Inl e)
      note q = spec_position_error [OF Inl]
      from False Some Inl q u gone show ?thesis
        by (simp add: move_def act_simps get_spec resolve_index_spec index_of_or_back_def
            spec_ops_defs(1,3) target_index_def spec_remove_def)
    next
      case (Inr i)
      note le = spec_position_le [OF Inr]
      have "position_of (PStr u) (insert_at i it ?ys) = Inr i"
        using position_of_insert_at [OF le, of it] gone u by simp
      with False Some Inr u gone le show ?thesis
        by (simp add: move_def act_simps get_spec resolve_index_spec index_of_spec
            spec_insert_def spec_remove_def target_index_def)
    qed
  qed
qed

definition replaced :: "string \<Rightarrow> (queue_item \<Rightarrow> queue_item) \<Rightarrow> queue_item list \<Rightarrow> queue_item list" where
  "replaced u f xs = map (\<lambda>x. if item_uid x = u then f x else x) xs"

lemma insert_at_without_replaced:
  "find_pos (\<lambda>x. item_uid x = u) xs = Some i \<Longrightarrow> distinct (uids xs) \<Longrightarrow>
   insert_at i new (without u xs) = replaced u (\<lambda>_. new) xs"
proof (induction xs arbitrary: i)
  case Nil
  then show ?case by simp
next
  case (Cons x xs)
  show ?case
  proof (cases "item_uid x = u")
    case True
    with Cons.prems have u: "u \<notin> set (uids xs)" by auto
    then have "replaced u (\<lambda>_. new) xs = xs" unfolding replaced_def by (intro map_idI) auto
    moreover from u have "without u xs = xs" by (rule without_notin)
    ultimately show ?thesis using True Cons.prems by (simp add: replaced_def)
  next
    case False
    with Cons.prems obtain k where k: "find_pos (\<lambda>x. item_uid x = u) xs = Some k" "i = Suc k" by auto
    from Cons.IH [OF k(1)] Cons.prems(2) False k(2) show ?thesis
      by (simp add: replaced_def insert_at_def)
  qed
qed

lemma update_spec:
  assumes "distinct (uids (queue_of s))" "fst fresh \<notin> set (uids (queue_of s))"
  shows "update (SpecRepository keep) reg fresh it replace_uid s =
    (case validate reg it of Inl e \<Rightarrow> (Inl e, s) | Inr _ \<Rightarrow>
     if item_uid it \<notin> set (uids (queue_of s)) then (Inl (not_in_queue (PStr (item_uid it))), s)
     else let new = (if replace_uid then with_new_uid (fst fresh) (snd fresh) it else it) in
       (Inr new, bumped (with_queue (replaced (item_uid it)
           (\<lambda>old. if replace_uid then new else keep old it) (queue_of s)) s)))"
proof (cases "validate reg it")
  case (Inl e)
  then show ?thesis by (simp add: update_def act_simps)
next
  case v: (Inr x)
  let ?xs = "queue_of s" and ?u = "item_uid it"
  show ?thesis
  proof (cases "find_item ?u ?xs")
    case None
    then have "?u \<notin> set (uids ?xs)" unfolding find_item_None .
    with v None show ?thesis by (simp add: update_def act_simps get_spec del: set_map)
  next
    case (Some old)
    then have old: "item_uid old = ?u" by (simp add: find_item_Some)
    have "find_item ?u ?xs \<noteq> None" using Some by simp
    then have u: "?u \<in> set (uids ?xs)" unfolding find_item_None by blast
    then obtain i where i: "find_pos (\<lambda>x. item_uid x = ?u) ?xs = Some i"
      using find_pos_None [of "\<lambda>x. item_uid x = ?u" ?xs] by fastforce
    have le: "i \<le> length (without ?u ?xs)"
      using find_pos_Some [OF i] length_without [OF assms(1) u] by simp
    have new: "fst fresh \<notin> set (uids (without ?u ?xs))" using assms(2) by (simp del: set_map)
    show ?thesis
    proof (cases replace_uid)
      case True
      with assms(2) v Some u old i new le insert_at_without_replaced [OF i assms(1)] show ?thesis
        by (simp add: update_def Let_def act_simps get_spec index_of_spec position_of_PStr spec_insert_def
            spec_remove_def target_index_def del: set_map)
    next
      case False
      with v Some u show ?thesis
        by (simp add: update_def Let_def act_simps get_spec spec_replace_def replaced_def del: set_map)
    qed
  qed
qed

lemma mset_without:
  "distinct (uids xs) \<Longrightarrow> find_item u xs = Some it \<Longrightarrow> mset xs = add_mset it (mset (without u xs))"
proof (induction xs)
  case Nil
  then show ?case by (simp add: find_item_def)
next
  case (Cons x xs)
  show ?case
  proof (cases "item_uid x = u")
    case True
    with Cons.prems have "u \<notin> set (uids xs)" "x = it" by (auto simp: find_item_def)
    with True without_notin [OF this(1)] show ?thesis by simp
  next
    case False
    with Cons show ?thesis by (simp add: find_item_def)
  qed
qed

lemma remove_batch_spec:
  assumes "distinct (uids (queue_of s))"
  shows "\<exists>removed. remove_batch (SpecRepository keep) us True s =
      (Inr removed, s\<lparr>qs_repo := (qs_repo s)\<lparr>q_items := filter (\<lambda>x. item_uid x \<notin> set us) (queue_of s)\<rparr>,
                      qs_revision := qs_revision s + length removed\<rparr>) \<and>
    mset removed = filter_mset (\<lambda>x. item_uid x \<in> set us) (mset (queue_of s))"
  using assms
proof (induction us arbitrary: s)
  case Nil
  then show ?case by (simp add: act_simps)
next
  case (Cons u us)
  let ?xs = "queue_of s"
  show ?case
  proof (cases "find_item u ?xs")
    case None
    from None have "u \<notin> set (uids ?xs)" unfolding find_item_None .
    then have u: "item_uid x \<noteq> u" if "x \<in> set ?xs" for x using that by auto
    from Cons.IH [OF Cons.prems] obtain removed where r:
      "remove_batch (SpecRepository keep) us True s =
        (Inr removed, s\<lparr>qs_repo := (qs_repo s)\<lparr>q_items := filter (\<lambda>x. item_uid x \<notin> set us) ?xs\<rparr>,
                        qs_revision := qs_revision s + length removed\<rparr>)"
      "mset removed = filter_mset (\<lambda>x. item_uid x \<in> set us) (mset ?xs)" by blast
    have f: "filter (\<lambda>x. item_uid x \<notin> set (u # us)) ?xs = filter (\<lambda>x. item_uid x \<notin> set us) ?xs"
      "filter_mset (\<lambda>x. item_uid x \<in> set (u # us)) (mset ?xs) = filter_mset (\<lambda>x. item_uid x \<in> set us) (mset ?xs)"
      by (auto intro!: filter_cong filter_mset_cong dest: u)
    show ?thesis unfolding f using None r
      by (simp add: act_simps remove_spec not_in_queue_def)
  next
    case (Some it)
    let ?s = "bumped (with_queue (without u ?xs) s)"
    have it: "it \<in> set ?xs" "item_uid it = u" using find_item_Some [OF Some] by auto
    have "distinct (uids (queue_of ?s))" using Cons.prems by simp
    from Cons.IH [OF this] obtain removed where r:
      "remove_batch (SpecRepository keep) us True ?s =
        (Inr removed, ?s\<lparr>qs_repo := (qs_repo ?s)\<lparr>q_items := filter (\<lambda>x. item_uid x \<notin> set us) (without u ?xs)\<rparr>,
                        qs_revision := qs_revision ?s + length removed\<rparr>)"
      "mset removed = filter_mset (\<lambda>x. item_uid x \<in> set us) (mset (without u ?xs))" by auto
    note split = mset_without [OF Cons.prems Some]
    have f: "filter (\<lambda>x. item_uid x \<noteq> u \<and> item_uid x \<notin> set us) ?xs = filter (\<lambda>x. item_uid x \<notin> set us) (without u ?xs)"
      unfolding without_def filter_filter by (rule filter_cong) auto
    have g: "filter_mset (\<lambda>x. item_uid x = u \<or> item_uid x \<in> set us) (mset (without u ?xs)) =
        filter_mset (\<lambda>x. item_uid x \<in> set us) (mset (without u ?xs))"
      by (rule filter_mset_cong) (auto simp: without_def)
    show ?thesis
      by (rule exI [of _ "it # removed"])
        (use Some r it in \<open>simp add: act_simps remove_spec f g split\<close>)
  qed
qed

subsection \<open>Adding a batch\<close>

lemma validate_all:
  "for_each (\<lambda>it. lift_result (validate reg it)) its s =
     (case find (\<lambda>it. validate reg it \<noteq> Inr ()) its of
        None \<Rightarrow> (Inr (map (\<lambda>_. ()) its), s)
      | Some bad \<Rightarrow> (Inl (projl (validate reg bad)), s))"
proof (induction its)
  case Nil
  then show ?case by (simp add: act_simps)
next
  case (Cons it its)
  then show ?case
    by (cases "validate reg it") (auto simp: act_simps split: option.split)
qed

lemma add_all_back:
  assumes "\<forall>it \<in> set its. validate reg it = Inr ()" "distinct (uids its)"
    and "set (uids its) \<inter> set (uids (queue_of s)) = {}" "pos = PNone \<or> pos = PStr ''back''"
  shows "for_each (\<lambda>(i, it). add (SpecRepository keep) reg (fresh i) it pos PNone PNone) (enumerate n its) s =
    (Inr (zip its [length (queue_of s)..<length (queue_of s) + length its]),
     s\<lparr>qs_repo := (qs_repo s)\<lparr>q_items := queue_of s @ its\<rparr>, qs_revision := qs_revision s + length its\<rparr>)"
  using assms
proof (induction its arbitrary: s n)
  case Nil
  then show ?case by (simp add: act_simps)
next
  case (Cons it its)
  let ?xs = "queue_of s"
  let ?s = "bumped (with_queue (?xs @ [it]) s)"
  have new: "item_uid it \<notin> set (uids ?xs)" using Cons.prems(3) by auto
  have add: "add (SpecRepository keep) reg (fresh n) it pos PNone PNone s = (Inr (it, length ?xs), ?s)"
    using Cons.prems(1,4) new add_spec [of it s "fresh n" keep reg pos PNone PNone]
    by (auto simp: spec_position_def added_item_def)
  have "for_each (\<lambda>(i, it). add (SpecRepository keep) reg (fresh i) it pos PNone PNone) (enumerate (Suc n) its) ?s =
    (Inr (zip its [length (queue_of ?s)..<length (queue_of ?s) + length its]),
     ?s\<lparr>qs_repo := (qs_repo ?s)\<lparr>q_items := queue_of ?s @ its\<rparr>, qs_revision := qs_revision ?s + length its\<rparr>)"
    using Cons.prems by (intro Cons.IH) auto
  with add show ?case by (simp add: act_simps upt_conv_Cons del: upt_Suc)
qed

lemma add_all_front:
  assumes "\<forall>it \<in> set its. validate reg it = Inr ()" "distinct (uids its)"
    and "set (uids its) \<inter> set (uids (queue_of s)) = {}"
  shows "for_each (\<lambda>(i, it). add (SpecRepository keep) reg (fresh i) it (PStr ''front'') PNone PNone) (enumerate n its) s =
    (Inr (map (\<lambda>it. (it, 0)) its),
     s\<lparr>qs_repo := (qs_repo s)\<lparr>q_items := rev its @ queue_of s\<rparr>, qs_revision := qs_revision s + length its\<rparr>)"
  using assms
proof (induction its arbitrary: s n)
  case Nil
  then show ?case by (simp add: act_simps)
next
  case (Cons it its)
  let ?xs = "queue_of s"
  let ?s = "bumped (with_queue (it # ?xs) s)"
  have new: "item_uid it \<notin> set (uids ?xs)" using Cons.prems(3) by auto
  have add: "add (SpecRepository keep) reg (fresh n) it (PStr ''front'') PNone PNone s = (Inr (it, 0), ?s)"
    using Cons.prems(1) new add_spec [of it s "fresh n" keep reg "PStr ''front''" PNone PNone]
    by (simp add: spec_position_def added_item_def)
  have "for_each (\<lambda>(i, it). add (SpecRepository keep) reg (fresh i) it (PStr ''front'') PNone PNone) (enumerate (Suc n) its) ?s =
    (Inr (map (\<lambda>it. (it, 0)) its),
     ?s\<lparr>qs_repo := (qs_repo ?s)\<lparr>q_items := rev its @ queue_of ?s\<rparr>, qs_revision := qs_revision ?s + length its\<rparr>)"
    using Cons.prems by (intro Cons.IH) auto
  with add show ?case by (simp add: act_simps)
qed

end
