(* ===== verification/QueueProperties.thy ===== *)
theory QueueProperties
  imports QueueSpec
begin

section \<open>Properties of the queue service\<close>

text \<open>
  The facts of \<open>QueueSpec\<close> carried over to the service on the SQL repository (the deployed one)
  through the interpretations of the repository contract. \<open>sql_queue\<close> is the queue as clients
  see it; \<open>sql_ready\<close> says that the tables are consistent and the server answers.
\<close>

definition sql_ready :: "database queue_service \<Rightarrow> bool" where
  "sql_ready s \<longleftrightarrow> sql_valid (qs_repo s) \<and> db_up (qs_repo s)"

definition sql_queue :: "database queue_service \<Rightarrow> queue_item list" where
  "sql_queue s = q_items (sql_abs (qs_repo s))"

definition sql_history :: "database queue_service \<Rightarrow> history_entry list" where
  "sql_history s = q_history (sql_abs (qs_repo s))"

subsection \<open>The invariant, faults included\<close>

named_theorems keeps_rules \<open>preservation, constructor by constructor\<close>

lemma keeps_repo_part: "(\<And>r. P r \<Longrightarrow> P (snd (m r))) \<Longrightarrow> keeps (\<lambda>s. P (qs_repo s)) (repo m)"
  by (simp add: keeps_def act_simps)

lemma keeps_bump: "keeps (\<lambda>s. P (qs_repo s)) bump"
  by (simp add: keeps_def act_simps)

lemma keeps_if: "keeps P m \<Longrightarrow> keeps P n \<Longrightarrow> keeps P (if b then m else n)"
  by simp

lemma keeps_option:
  "keeps P m \<Longrightarrow> (\<And>y. keeps P (f y)) \<Longrightarrow> keeps P (case x of None \<Rightarrow> m | Some y \<Rightarrow> f y)"
  by (cases x) simp_all

lemma keeps_prod: "(\<And>a b. keeps P (f a b)) \<Longrightarrow> keeps P (case p of (a, b) \<Rightarrow> f a b)"
  by (cases p) simp

lemmas keeps_constructs [keeps_rules] = keeps_basic keeps_chain keeps_handle keeps_for_each keeps_lift_result
  keeps_bump keeps_if keeps_option keeps_prod

context repository
begin

lemma keeps_valid_ops [keeps_rules]:
  "keeps (\<lambda>s. valid (qs_repo s)) (repo (rp_list_items ops))"
  "keeps (\<lambda>s. valid (qs_repo s)) (repo (rp_get_item ops u))"
  "keeps (\<lambda>s. valid (qs_repo s)) (repo (rp_insert ops it idx))"
  "keeps (\<lambda>s. valid (qs_repo s)) (repo (rp_replace ops it))"
  "keeps (\<lambda>s. valid (qs_repo s)) (repo (rp_remove ops u))"
  "keeps (\<lambda>s. valid (qs_repo s)) (repo (rp_clear ops))"
  "keeps (\<lambda>s. valid (qs_repo s)) (repo (rp_pop_front ops))"
  "keeps (\<lambda>s. valid (qs_repo s)) (repo (rp_append_history ops h))"
  "keeps (\<lambda>s. valid (qs_repo s)) (repo (rp_list_history ops))"
  "keeps (\<lambda>s. valid (qs_repo s)) (repo (rp_clear_history ops))"
  by (rule keeps_repo_part, erule valid_ops)+

lemma keeps_valid_helpers [keeps_rules]:
  "keeps (\<lambda>s. valid (qs_repo s)) (index_of ops v)"
  "keeps (\<lambda>s. valid (qs_repo s)) (get_queued ops u)"
  "keeps (\<lambda>s. valid (qs_repo s)) (index_of_or_back ops it)"
  unfolding index_of_def get_queued_def index_of_or_back_def by (intro keeps_rules)+

lemma keeps_valid_resolve [keeps_rules]:
  "keeps (\<lambda>s. valid (qs_repo s)) (resolve_index ops pos b a ins)"
  unfolding resolve_index_def Let_def by (intro keeps_rules)

lemma keeps_valid_methods [keeps_rules]:
  "keeps (\<lambda>s. valid (qs_repo s)) (add ops reg fresh it pos b a)"
  "keeps (\<lambda>s. valid (qs_repo s)) (remove ops u)"
  "keeps (\<lambda>s. valid (qs_repo s)) (move ops u pos b a)"
  "keeps (\<lambda>s. valid (qs_repo s)) (update ops reg fresh it ru)"
  unfolding add_def remove_def move_def update_def Let_def by (intro keeps_rules)+

lemma keeps_valid_remove_batch [keeps_rules]:
  "keeps (\<lambda>s. valid (qs_repo s)) (remove_batch ops us ig)"
  by (induction us) (auto intro!: keeps_rules)

lemma keeps_valid_call: "keeps (\<lambda>s. valid (qs_repo s)) (run_call ops c)"
  by (cases c)
    (auto simp: reply_with_def items_def history_def queue_len_def add_batch_def
      clear_def pop_front_def push_front_def record_history_def clear_history_def intro!: keeps_rules)

lemma valid_calls: "valid (qs_repo s) \<Longrightarrow> valid (qs_repo (snd (run_calls ops cs s)))"
proof (induction cs arbitrary: s)
  case Nil
  then show ?case by simp
next
  case (Cons c cs)
  then show ?case using keepsD [OF keeps_valid_call Cons.prems, of c] by (simp add: case_prod_beta)
qed

end

text \<open>
  C13: whatever calls arrive, in whatever order, and whichever sessions with the database
  server fail, the tables stay consistent: item uids unique, positions exactly \<open>0 ... n - 1\<close>,
  history keys increasing.
\<close>

theorem service_keeps_tables_consistent:
  "sql_valid (qs_repo s) \<Longrightarrow> sql_valid (qs_repo (snd (run_calls SqlQueueRepository cs s)))"
  by (rule sql.valid_calls)

text \<open>
  With the server up, the service on the SQL tables and the service on Python lists answer
  every sequence of calls as the service on an abstract list does, and leave the queue, the
  history and the revision it leaves.
\<close>

theorem service_refines_list:
  assumes "sql_ready s" "mem_valid (qs_repo m)"
  shows "fst (run_calls SqlQueueRepository cs s) = fst (run_calls (SpecRepository sql_keep) cs (abs_service sql_abs s)) \<and>
    abs_service sql_abs (snd (run_calls SqlQueueRepository cs s)) =
      snd (run_calls (SpecRepository sql_keep) cs (abs_service sql_abs s)) \<and>
    fst (run_calls InMemoryQueueRepository cs m) =
      fst (run_calls (SpecRepository (\<lambda>old new. new)) cs (abs_service mem_abs m)) \<and>
    abs_service mem_abs (snd (run_calls InMemoryQueueRepository cs m)) =
      snd (run_calls (SpecRepository (\<lambda>old new. new)) cs (abs_service mem_abs m))"
  using assms sql.calls_refine [of s cs] mem.calls_refine [of m cs] by (simp add: sql_ready_def)

subsection \<open>Methods\<close>

lemma sql_transfer:
  assumes "sim sql_abs (\<lambda>r. sql_valid r \<and> db_up r) m m'" "sql_ready s"
    and "m' (abs_service sql_abs s) = (r, \<lparr>qs_repo = q, qs_revision = n\<rparr>)"
  shows "fst (m s) = r" "sql_abs (qs_repo (snd (m s))) = q" "qs_revision (snd (m s)) = n"
    "sql_ready (snd (m s))"
proof -
  note t = simD [OF assms(1), of s]
  have ok: "sql_valid (qs_repo s) \<and> db_up (qs_repo s)" using assms(2) by (simp add: sql_ready_def)
  from t(1) [OF ok] assms(3) show "fst (m s) = r" by simp
  from t(3) [OF ok] show "sql_ready (snd (m s))" by (simp add: sql_ready_def)
  have "abs_service sql_abs (snd (m s)) = \<lparr>qs_repo = q, qs_revision = n\<rparr>" using t(2) [OF ok] assms(3) by simp
  then show "sql_abs (qs_repo (snd (m s))) = q" "qs_revision (snd (m s)) = n"
    by (simp_all add: abs_service_def)
qed

lemma sql_distinct: "sql_ready s \<Longrightarrow> distinct (uids (sql_queue s))"
  using sql.uids_distinct by (simp add: sql_ready_def sql_queue_def)

lemma sql_abs_service [simp]:
  "q_items (sql_abs (qs_repo s)) = sql_queue s" "q_history (sql_abs (qs_repo s)) = sql_history s"
  by (simp_all add: sql_queue_def sql_history_def)

lemma sql_outcome:
  assumes "sim sql_abs (\<lambda>r. sql_valid r \<and> db_up r) m m'" "sql_ready s"
    and "m' (abs_service sql_abs s) = (r, t)"
  shows "fst (m s) = r" "sql_queue (snd (m s)) = queue_of t"
    "sql_history (snd (m s)) = q_history (qs_repo t)" "qs_revision (snd (m s)) = qs_revision t"
    "sql_ready (snd (m s))"
proof -
  have "m' (abs_service sql_abs s) = (r, \<lparr>qs_repo = qs_repo t, qs_revision = qs_revision t\<rparr>)"
    using assms(3) by simp
  note t = sql_transfer [OF assms(1,2) this]
  from t show "fst (m s) = r" "sql_queue (snd (m s)) = queue_of t"
    "sql_history (snd (m s)) = q_history (qs_repo t)" "qs_revision (snd (m s)) = qs_revision t"
    "sql_ready (snd (m s))" by (simp_all add: sql_queue_def sql_history_def del: sql_abs_service)
qed

text \<open>The concrete tables of the witnesses: two queued plans.\<close>

definition example_item :: "string \<Rightarrow> queue_item" where
  "example_item u = \<lparr>item_name = ''count'', item_type = ''plan'', item_args = [PList [PStr ''det'']],
     item_kwargs = [(PStr ''num'', PInt 3)], item_meta = [], item_uid = u, item_user = ''ann'',
     item_user_group = ''primary'', item_created_at = 0\<rparr>"

definition example_registry :: registry where
  "example_registry = \<lparr>reg_plans = [(''count'', \<lparr>pf_id = 0, pf_signature = Some
     [\<lparr>par_name = ''detectors'', par_kind = POSITIONAL_OR_KEYWORD, par_has_default = False\<rparr>,
      \<lparr>par_name = ''num'', par_kind = POSITIONAL_OR_KEYWORD, par_has_default = True\<rparr>]\<rparr>)], reg_devices = []\<rparr>"

definition example_memory :: "memory_repo queue_service" where
  "example_memory = \<lparr>qs_repo = empty_memory_repo, qs_revision = 0\<rparr>"

definition example_service :: "database queue_service" where
  "example_service = \<lparr>qs_repo = \<lparr>db_tables =
     \<lparr>t_queue_items = [item_to_row (example_item ''b'') 1, item_to_row (example_item ''a'') 0],
      t_queue_history = [], t_device_definitions = []\<rparr>, db_faults = []\<rparr>, qs_revision = 5\<rparr>"

lemma example_ready [simp]: "sql_ready example_service"
  by (simp add: sql_ready_def sql_valid_def tables_valid_def dense_def db_up_def example_service_def
      item_to_row_def example_item_def)

lemma example_queue [simp]: "sql_queue example_service = [example_item ''a'', example_item ''b'']"
  by (simp add: sql_queue_def sql_abs_def tables_abs_def ordered_rows_def example_service_def
      item_to_row_def example_item_def queue_row_item_def row_to_item_def del: sql_abs_service)

lemma example_valid [simp]: "validate example_registry (example_item u) = Inr ()"
  by (simp add: validate_def get_plan_def example_registry_def example_item_def check_parameters_def
      bind_item_def bind_call_def)

lemma example_uid [simp]: "item_uid (example_item u) = u"
  by (simp add: example_item_def)

text \<open>
  C21: adding a valid item puts it exactly where the request says (front, back, an index counted
  from either end and clamped, before or after a named item), leaves the order of the others,
  bumps the revision and answers with the stored item and its index. An item whose uid is
  already queued is stored under the new uid.
\<close>

theorem add_places_item:
  assumes "sql_ready s" "validate reg it = Inr ()"
    and "item_uid it \<in> set (uids (sql_queue s)) \<Longrightarrow> fst fresh \<notin> set (uids (sql_queue s))"
    and "spec_position (sql_queue s) pos b a = Inr i"
  shows "fst (add SqlQueueRepository reg fresh it pos b a s) = Inr (added_item fresh it (sql_queue s), i) \<and>
    sql_queue (snd (add SqlQueueRepository reg fresh it pos b a s)) =
      insert_at i (added_item fresh it (sql_queue s)) (sql_queue s) \<and>
    qs_revision (snd (add SqlQueueRepository reg fresh it pos b a s)) = qs_revision s + 1"
proof -
  have "add (SpecRepository sql_keep) reg fresh it pos b a (abs_service sql_abs s) =
    (Inr (added_item fresh it (sql_queue s), i),
     bumped (with_queue (insert_at i (added_item fresh it (sql_queue s)) (sql_queue s)) (abs_service sql_abs s)))"
    by (subst add_spec) (use assms in \<open>simp_all add: Let_def\<close>)
  from sql_outcome [OF sql.sim_add assms(1) this] show ?thesis by simp
qed

theorem add_places_item_witness:
  "sql_queue (snd (add SqlQueueRepository example_registry (''n'', 9) (example_item ''a'') (PInt (-2)) PNone PNone example_service)) =
     [example_item ''a'', with_new_uid ''n'' 9 (example_item ''a''), example_item ''b'']"
proof -
  have "spec_position (sql_queue example_service) (PInt (-2)) PNone PNone = Inr 1"
    by (simp add: spec_position_def clamp_def)
  from add_places_item [OF example_ready example_valid _ this, of "''a''" "(''n'', 9)"] show ?thesis
    by (simp add: added_item_def insert_at_def)
qed

text \<open>
  The position that a request resolves to lies in the list; relative to a named item it is
  that item's index, or the next one.
\<close>

theorem position_meaning:
  assumes "spec_position xs pos b a = Inr i"
  shows "i \<le> length xs \<and>
    (b \<noteq> PNone \<longrightarrow> i < length xs \<and> PStr (item_uid (xs ! i)) = b) \<and>
    (a \<noteq> PNone \<longrightarrow> 0 < i \<and> PStr (item_uid (xs ! (i - 1))) = a) \<and>
    (\<forall>k. pos = PInt k \<longrightarrow>
       i = nat (max 0 (min (if k < 0 then int (length xs) + k + 1 else k) (int (length xs)))))"
  using assms position_of_less [of b xs i] position_of_less [of a xs] spec_position_le [OF assms]
  by (auto simp: spec_position_def clamp_def map_sum_def split: if_splits sum.splits)

theorem position_meaning_witness:
  "spec_position [example_item ''a'', example_item ''b''] PNone PNone (PStr ''a'') = Inr 1 \<and>
   PStr (item_uid ([example_item ''a'', example_item ''b''] ! (1 - 1))) = PStr ''a''"
proof -
  have "spec_position [example_item ''a'', example_item ''b''] PNone PNone (PStr ''a'') = Inr 1"
    by (simp add: spec_position_def position_of_def)
  with position_meaning [OF this] show ?thesis by simp
qed

text \<open>
  C22: moving an item takes it out and puts it where the request says, counted without it; the
  other items keep their order.
\<close>

theorem move_places_item:
  assumes "sql_ready s" "find_item u (sql_queue s) = Some it" "b \<noteq> PStr u" "a \<noteq> PStr u"
    and "spec_position (without u (sql_queue s)) pos b a = Inr i"
  shows "fst (move SqlQueueRepository u pos b a s) = Inr i \<and>
    sql_queue (snd (move SqlQueueRepository u pos b a s)) = insert_at i it (without u (sql_queue s)) \<and>
    mset (sql_queue (snd (move SqlQueueRepository u pos b a s))) = mset (sql_queue s) \<and>
    qs_revision (snd (move SqlQueueRepository u pos b a s)) = qs_revision s + 1"
proof -
  have "move (SpecRepository sql_keep) u pos b a (abs_service sql_abs s) =
    (Inr i, bumped (with_queue (insert_at i it (without u (sql_queue s))) (abs_service sql_abs s)))"
    by (subst move_spec) (use assms sql_distinct [OF assms(1)] in simp_all)
  from sql_outcome [OF sql.sim_move assms(1) this] show ?thesis
    using mset_without [OF sql_distinct [OF assms(1)] assms(2)] by simp
qed

theorem move_places_item_witness:
  "sql_queue (snd (move SqlQueueRepository ''a'' (PStr ''back'') PNone PNone example_service)) =
     [example_item ''b'', example_item ''a'']"
proof -
  have "spec_position (without ''a'' (sql_queue example_service)) (PStr ''back'') PNone PNone = Inr 1"
    by (simp add: spec_position_def)
  moreover have "find_item ''a'' (sql_queue example_service) = Some (example_item ''a'')"
    by (simp add: find_item_def)
  ultimately show ?thesis
    using move_places_item [OF example_ready, of "''a''" "example_item ''a''" PNone PNone "PStr ''back''" 1]
    by (simp add: insert_at_def)
qed

text \<open>
  A move whose position is refused answers with the refusal and yet reorders the queue: the
  item ends up at the back, and the revision that clients watch does not change.
\<close>

theorem refused_move_reorders:
  assumes "sql_ready s" "find_item u (sql_queue s) = Some it" "b \<noteq> PStr u" "a \<noteq> PStr u"
    and "spec_position (without u (sql_queue s)) pos b a = Inl e"
  shows "fst (move SqlQueueRepository u pos b a s) = Inl e \<and>
    sql_queue (snd (move SqlQueueRepository u pos b a s)) = without u (sql_queue s) @ [it] \<and>
    qs_revision (snd (move SqlQueueRepository u pos b a s)) = qs_revision s"
proof -
  have "move (SpecRepository sql_keep) u pos b a (abs_service sql_abs s) =
    (Inl e, with_queue (without u (sql_queue s) @ [it]) (abs_service sql_abs s))"
    by (subst move_spec) (use assms sql_distinct [OF assms(1)] in simp_all)
  from sql_outcome [OF sql.sim_move assms(1) this] show ?thesis by simp
qed

theorem refused_move_reorders_witness:
  "sql_queue (snd (move SqlQueueRepository ''a'' PNone (PStr ''typo'') PNone example_service)) =
     [example_item ''b'', example_item ''a'']"
proof -
  have "spec_position (without ''a'' (sql_queue example_service)) PNone (PStr ''typo'') PNone =
      Inl (not_in_queue (PStr ''typo''))"
    by (simp add: spec_position_def position_of_def)
  moreover have "find_item ''a'' (sql_queue example_service) = Some (example_item ''a'')"
    by (simp add: find_item_def)
  ultimately show ?thesis
    using refused_move_reorders [OF example_ready, of "''a''" "example_item ''a''" "PStr ''typo''" PNone PNone]
    by simp
qed

text \<open>
  Updating an item leaves its place in the queue, whether it keeps its uid or gets a new
  one, and touches no other item; an unknown uid is refused without effect.
\<close>

theorem update_keeps_place:
  assumes "sql_ready s" "validate reg it = Inr ()" "fst fresh \<notin> set (uids (sql_queue s))"
  shows "if item_uid it \<in> set (uids (sql_queue s)) then
      (let new = (if replace_uid then with_new_uid (fst fresh) (snd fresh) it else it) in
       fst (update SqlQueueRepository reg fresh it replace_uid s) = Inr new \<and>
       sql_queue (snd (update SqlQueueRepository reg fresh it replace_uid s)) =
         map (\<lambda>x. if item_uid x = item_uid it then (if replace_uid then new else sql_keep x it) else x) (sql_queue s))
    else fst (update SqlQueueRepository reg fresh it replace_uid s) = Inl (not_in_queue (PStr (item_uid it))) \<and>
       sql_queue (snd (update SqlQueueRepository reg fresh it replace_uid s)) = sql_queue s"
proof -
  note up = update_spec [of "abs_service sql_abs s" fresh sql_keep reg it replace_uid,
      unfolded abs_service_simps sql_abs_service, OF sql_distinct [OF assms(1)] assms(3)]
  show ?thesis
  proof (cases "item_uid it \<in> set (uids (sql_queue s))")
    case True
    with up assms(2) have "update (SpecRepository sql_keep) reg fresh it replace_uid (abs_service sql_abs s) =
        (Inr (if replace_uid then with_new_uid (fst fresh) (snd fresh) it else it),
         bumped (with_queue (replaced (item_uid it) (\<lambda>old. if replace_uid
           then with_new_uid (fst fresh) (snd fresh) it else sql_keep old it) (sql_queue s)) (abs_service sql_abs s)))"
      by (simp add: Let_def del: set_map cong: if_cong)
    from sql_outcome [OF sql.sim_update assms(1) this] True show ?thesis
      by (simp add: Let_def replaced_def del: set_map cong: if_cong)
  next
    case False
    with up assms(2) have "update (SpecRepository sql_keep) reg fresh it replace_uid (abs_service sql_abs s) =
        (Inl (not_in_queue (PStr (item_uid it))), abs_service sql_abs s)"
      by (simp del: set_map)
    from sql_outcome [OF sql.sim_update assms(1) this] False show ?thesis by (simp del: set_map)
  qed
qed

theorem update_keeps_place_witness:
  "sql_queue (snd (update SqlQueueRepository example_registry (''n'', 9)
      ((example_item ''a'')\<lparr>item_user := ''bob''\<rparr>) True example_service)) =
     [(example_item ''n'')\<lparr>item_user := ''bob'', item_created_at := 9\<rparr>, example_item ''b'']"
proof -
  have v: "validate example_registry ((example_item ''a'')\<lparr>item_user := ''bob''\<rparr>) = Inr ()"
    by (simp add: validate_def get_plan_def example_registry_def example_item_def check_parameters_def
      bind_item_def bind_call_def)
  show ?thesis
    using update_keeps_place [OF example_ready v, of "(''n'', 9)" True]
    by (simp add: Let_def with_new_uid_def) (simp add: example_item_def)
qed

text \<open>
  The sequencer gets the items in queue order and each one once: draining a queue of \<open>n\<close>
  items with \<open>n + k\<close> pops yields the items from front to back, then \<open>k\<close> times nothing.
\<close>

theorem pop_front_drains_in_order:
  assumes "sql_ready s"
  shows "fst (run_calls SqlQueueRepository (replicate (length (sql_queue s) + k) CPopFront) s) =
      map (\<lambda>it. Inr (RItemOption (Some it))) (sql_queue s) @ replicate k (Inr (RItemOption None)) \<and>
    sql_queue (snd (run_calls SqlQueueRepository (replicate (length (sql_queue s) + k) CPopFront) s)) = []"
proof -
  have pop: "reply_with RItemOption (pop_front (SpecRepository sql_keep)) t =
      (case queue_of t of [] \<Rightarrow> (Inr (RItemOption None), t)
       | x # xs \<Rightarrow> (Inr (RItemOption (Some x)), bumped (with_queue xs t)))" for t
    by (simp add: reply_with_def act_simps pop_front_spec split: list.split)
  have empty: "run_calls (SpecRepository sql_keep) (replicate k CPopFront) t =
      (replicate k (Inr (RItemOption None)), t)" if "queue_of t = []" for t
    using that by (induction k) (simp_all add: pop)
  have drain: "fst (run_calls (SpecRepository sql_keep) (replicate (length xs + k) CPopFront) t) =
        map (\<lambda>it. Inr (RItemOption (Some it))) xs @ replicate k (Inr (RItemOption None)) \<and>
      queue_of (snd (run_calls (SpecRepository sql_keep) (replicate (length xs + k) CPopFront) t)) = []"
    if "queue_of t = xs" for xs t
    using that by (induction xs arbitrary: t) (simp_all add: empty pop case_prod_beta)
  have ok: "sql_valid (qs_repo s) \<and> db_up (qs_repo s)" using assms by (simp add: sql_ready_def)
  define cs where "cs = replicate (length (sql_queue s) + k) CPopFront"
  note ref = sql.calls_refine [OF ok, of cs]
  have "sql_queue (snd (run_calls SqlQueueRepository cs s)) =
      queue_of (abs_service sql_abs (snd (run_calls SqlQueueRepository cs s)))" by simp
  with ref have "sql_queue (snd (run_calls SqlQueueRepository cs s)) =
      queue_of (snd (run_calls (SpecRepository sql_keep) cs (abs_service sql_abs s)))"
    by (simp only:)
  moreover have "fst (run_calls SqlQueueRepository cs s) =
      fst (run_calls (SpecRepository sql_keep) cs (abs_service sql_abs s))"
    using ref by (rule conjunct1)
  moreover have "queue_of (abs_service sql_abs s) = sql_queue s" by simp
  note drain [OF this, folded cs_def]
  ultimately show ?thesis unfolding cs_def [symmetric] by (simp only:)
qed

theorem pop_front_drains_in_order_witness:
  "fst (run_calls SqlQueueRepository [CPopFront, CPopFront, CPopFront] example_service) =
     [Inr (RItemOption (Some (example_item ''a''))), Inr (RItemOption (Some (example_item ''b''))),
      Inr (RItemOption None)]"
  using pop_front_drains_in_order [OF example_ready, of 1] by (simp add: numeral_3_eq_3)

text \<open>
  Removing a batch of uids, unknown ones ignored, takes out exactly the named items and
  keeps the order of the others; the revision advances once per item removed.
\<close>

theorem remove_batch_removes_named:
  assumes "sql_ready s"
  shows "\<exists>removed. fst (remove_batch SqlQueueRepository us True s) = Inr removed \<and>
    mset removed = filter_mset (\<lambda>x. item_uid x \<in> set us) (mset (sql_queue s)) \<and>
    sql_queue (snd (remove_batch SqlQueueRepository us True s)) =
      filter (\<lambda>x. item_uid x \<notin> set us) (sql_queue s) \<and>
    qs_revision (snd (remove_batch SqlQueueRepository us True s)) = qs_revision s + length removed"
proof -
  obtain removed where r: "mset removed = filter_mset (\<lambda>x. item_uid x \<in> set us) (mset (sql_queue s))"
    "remove_batch (SpecRepository sql_keep) us True (abs_service sql_abs s) = (Inr removed,
       (abs_service sql_abs s)\<lparr>qs_repo := (sql_abs (qs_repo s))\<lparr>q_items := filter (\<lambda>x. item_uid x \<notin> set us) (sql_queue s)\<rparr>,
         qs_revision := qs_revision s + length removed\<rparr>)"
    using remove_batch_spec [of "abs_service sql_abs s" sql_keep us] sql_distinct [OF assms] by auto
  from r(1) sql_outcome [OF sql.sim_remove_batch assms r(2)] show ?thesis by auto
qed

theorem remove_batch_removes_named_witness:
  "sql_queue (snd (remove_batch SqlQueueRepository [''x'', ''a''] True example_service)) = [example_item ''b'']"
  using remove_batch_removes_named [OF example_ready, of "[''x'', ''a'']"] by simp

text \<open>
  A batch is validated as a whole before anything is stored, so one bad item leaves the
  queue as it was. A good batch goes to the back in its own order; sent to the front, it ends
  up there in reverse, because each item is put before the one added just before it.
\<close>

theorem add_batch_all_or_nothing:
  assumes "sql_ready s" "distinct (uids its)" "set (uids its) \<inter> set (uids (sql_queue s)) = {}"
  shows "if \<forall>it \<in> set its. validate reg it = Inr () then
      sql_queue (snd (add_batch SqlQueueRepository reg fresh its PNone PNone PNone s)) = sql_queue s @ its \<and>
      fst (add_batch SqlQueueRepository reg fresh its PNone PNone PNone s) =
        Inr (zip its [length (sql_queue s)..<length (sql_queue s) + length its]) \<and>
      sql_queue (snd (add_batch SqlQueueRepository reg fresh its (PStr ''front'') PNone PNone s)) =
        rev its @ sql_queue s
    else (\<exists>e. fst (add_batch SqlQueueRepository reg fresh its pos b a s) = Inl e) \<and>
      sql_queue (snd (add_batch SqlQueueRepository reg fresh its pos b a s)) = sql_queue s \<and>
      qs_revision (snd (add_batch SqlQueueRepository reg fresh its pos b a s)) = qs_revision s"
proof (cases "\<forall>it \<in> set its. validate reg it = Inr ()")
  case True
  then have find: "find (\<lambda>it. validate reg it \<noteq> Inr ()) its = None" by (simp add: find_None_iff)
  let ?t = "abs_service sql_abs s"
  have at_back: "add_batch (SpecRepository sql_keep) reg fresh its PNone PNone PNone ?t =
      (Inr (zip its [length (sql_queue s)..<length (sql_queue s) + length its]),
       ?t\<lparr>qs_repo := (qs_repo ?t)\<lparr>q_items := sql_queue s @ its\<rparr>, qs_revision := qs_revision s + length its\<rparr>)"
    using add_all_back [OF True assms(2), of ?t PNone] assms(3)
    by (simp add: add_batch_def act_simps validate_all find)
  have at_front: "add_batch (SpecRepository sql_keep) reg fresh its (PStr ''front'') PNone PNone ?t =
      (Inr (map (\<lambda>it. (it, 0)) its),
       ?t\<lparr>qs_repo := (qs_repo ?t)\<lparr>q_items := rev its @ sql_queue s\<rparr>, qs_revision := qs_revision s + length its\<rparr>)"
    using add_all_front [OF True assms(2), of ?t] assms(3)
    by (simp add: add_batch_def act_simps validate_all find)
  from True sql_outcome [OF sql.sim_add_batch assms(1) at_back] sql_outcome [OF sql.sim_add_batch assms(1) at_front]
  show ?thesis by simp
next
  case False
  then have "find (\<lambda>it. validate reg it \<noteq> Inr ()) its \<noteq> None" by (auto simp: find_None_iff)
  then obtain bad where "find (\<lambda>it. validate reg it \<noteq> Inr ()) its = Some bad" by blast
  then have "add_batch (SpecRepository sql_keep) reg fresh its pos b a (abs_service sql_abs s) =
      (Inl (projl (validate reg bad)), abs_service sql_abs s)"
    by (simp add: add_batch_def act_simps validate_all)
  from False sql_outcome [OF sql.sim_add_batch assms(1) this] show ?thesis by auto
qed

theorem add_batch_all_or_nothing_witness:
  "sql_queue (snd (add_batch SqlQueueRepository example_registry (\<lambda>_. (''n'', 0))
      [example_item ''c'', example_item ''d''] (PStr ''front'') PNone PNone example_service)) =
     [example_item ''d'', example_item ''c'', example_item ''a'', example_item ''b'']"
  using add_batch_all_or_nothing [OF example_ready,
      of "[example_item ''c'', example_item ''d'']" example_registry "\<lambda>_. (''n'', 0)"]
  by simp

subsection \<open>Refusals and the revision\<close>

text \<open>The calls that are one change of the store, with a uid that is not in the queue where one is drawn.\<close>

fun single_change :: "queue_item list \<Rightarrow> service_call \<Rightarrow> bool" where
  "single_change xs (CAdd reg fresh it pos b a) = (fst fresh \<notin> set (uids xs))"
| "single_change xs (CUpdate reg fresh it ru) = (fst fresh \<notin> set (uids xs))"
| "single_change xs (CAddBatch reg fresh its pos b a) = False"
| "single_change xs (CRemoveBatch us ig) = False"
| "single_change xs (CMove u pos b a) = False"
| "single_change xs c = True"

lemma spec_call_effect:
  assumes "single_change (queue_of t) c" "distinct (uids (queue_of t))"
    and "run_call (SpecRepository keep) c t = (r, t')"
  shows "(isl r \<longrightarrow> t' = t) \<and> (qs_repo t' = qs_repo t \<or> qs_revision t' = qs_revision t + 1)"
  using assms
proof (cases c)
  case (CAdd reg fresh it pos b a)
  have e: "add (SpecRepository keep) reg fresh it pos b a t =
    (case validate reg it of Inl e \<Rightarrow> (Inl e, t) | Inr _ \<Rightarrow>
     case spec_position (queue_of t) pos b a of Inl e \<Rightarrow> (Inl e, t) | Inr i \<Rightarrow>
       (let it' = added_item fresh it (queue_of t) in
        (Inr (it', i), bumped (with_queue (insert_at i it' (queue_of t)) t))))"
    by (rule add_spec) (use assms(1) CAdd in simp)
  from assms(3) CAdd show ?thesis
    by (auto simp: reply_with_def act_simps e Let_def split: sum.splits)
next
  case (CUpdate reg fresh it ru)
  note e = update_spec [OF assms(2), of fresh keep reg it ru]
  from assms(1,3) CUpdate show ?thesis
    by (auto simp: reply_with_def act_simps e Let_def simp del: set_map split: sum.splits if_splits)
qed (auto simp: reply_with_def act_simps items_def history_def queue_len_def get_spec remove_spec
    clear_def pop_front_spec push_front_spec record_history_def clear_history_def spec_ops_defs
    split: option.splits list.splits if_splits)

text \<open>
  With the server up, a call that is refused leaves the queue, the history and the revision
  untouched, and a call that changes any of them advances the revision; for every call but
  the two batches and \<open>move\<close>, which are treated on their own.
\<close>

theorem refusal_changes_nothing:
  assumes "sql_ready s" "single_change (sql_queue s) c"
  shows "(case fst (run_call SqlQueueRepository c s) of
      Inl e \<Rightarrow> sql_queue (snd (run_call SqlQueueRepository c s)) = sql_queue s \<and>
         sql_history (snd (run_call SqlQueueRepository c s)) = sql_history s \<and>
         qs_revision (snd (run_call SqlQueueRepository c s)) = qs_revision s
    | Inr _ \<Rightarrow> sql_abs (qs_repo (snd (run_call SqlQueueRepository c s))) = sql_abs (qs_repo s) \<or>
         qs_revision (snd (run_call SqlQueueRepository c s)) = qs_revision s + 1)"
proof -
  obtain r t' where rt: "run_call (SpecRepository sql_keep) c (abs_service sql_abs s) = (r, t')" by force
  have "(isl r \<longrightarrow> t' = abs_service sql_abs s) \<and>
      (qs_repo t' = sql_abs (qs_repo s) \<or> qs_revision t' = qs_revision s + 1)"
    using spec_call_effect [OF _ _ rt] assms(2) sql_distinct [OF assms(1)] by simp
  moreover have "sql_abs (qs_repo (snd (run_call SqlQueueRepository c s))) = qs_repo t'"
    by (rule sql_transfer(2) [OF sql.sim_call assms(1), of c r "qs_repo t'" "qs_revision t'"]) (simp add: rt)
  ultimately show ?thesis
    using sql_outcome [OF sql.sim_call assms(1) rt] by (cases r) auto
qed

theorem refusal_changes_nothing_witness:
  "sql_queue (snd (run_call SqlQueueRepository (CRemove ''zz'') example_service)) = sql_queue example_service"
proof -
  have "run_call (SpecRepository sql_keep) (CRemove ''zz'') (abs_service sql_abs example_service) =
      (Inl (not_in_queue (PStr ''zz'')), abs_service sql_abs example_service)"
    by (simp add: reply_with_def act_simps remove_spec find_item_def)
  from sql_outcome(1) [OF sql.sim_call example_ready this]
  show ?thesis using refusal_changes_nothing [OF example_ready, of "CRemove ''zz''"] by simp
qed

subsection \<open>A move is two transactions\<close>

text \<open>The example queue with a server that fails at the fourth session to come.\<close>

definition failing_service :: "database queue_service" where
  "failing_service = example_service\<lparr>qs_repo := (qs_repo example_service)\<lparr>db_faults :=
     [None, None, None, Some (Exn (OtherException ''OperationalError'') [])]\<rparr>\<rparr>"


text \<open>The invariant and the refinement at work: a batch of calls over a failing server, and over both repositories.\<close>

theorem service_keeps_tables_consistent_witness:
  "sql_valid (qs_repo (snd (run_calls SqlQueueRepository
     [CMove ''a'' (PStr ''back'') PNone PNone, CRemove ''b'', CPushFront (example_item ''c'')] failing_service)))"
proof -
  have "sql_valid (qs_repo failing_service)"
    using example_ready by (simp add: failing_service_def sql_ready_def sql_valid_def)
  then show ?thesis by (rule service_keeps_tables_consistent)
qed

theorem service_refines_list_witness:
  "fst (run_calls InMemoryQueueRepository [CPushFront (example_item ''c''), CLen] example_memory) =
     fst (run_calls (SpecRepository (\<lambda>old new. new)) [CPushFront (example_item ''c''), CLen] (abs_service mem_abs example_memory)) \<and>
   fst (run_calls SqlQueueRepository [CPushFront (example_item ''c''), CLen] example_service) =
     fst (run_calls (SpecRepository sql_keep) [CPushFront (example_item ''c''), CLen] (abs_service sql_abs example_service))"
proof -
  have "mem_valid (qs_repo example_memory)"
    by (simp add: example_memory_def empty_memory_repo_def mem_valid_def)
  from service_refines_list [OF example_ready this, of "[CPushFront (example_item ''c''), CLen]"]
  show ?thesis by blast
qed

end
