(* ===== verification/SequencerMachine.thy ===== *)
theory SequencerMachine
  imports Sequencer QueueProperties
begin

section \<open>The sequencer among its callers\<close>

text \<open>
  The steps of the sequencer thread interleaved with everything that other threads do: control
  operations, queue edits, a changing host. \<open>thread_at\<close> is where the thread stands in a pass.
  The list of items it has started is kept beside the state for the properties.
\<close>

datatype thread_at = AtTop | Checked | Busy queue_item rat | Dead

record 'r machine =
  mc_seq :: "'r sequencer"
  mc_at :: thread_at
  mc_started :: "queue_item list"

datatype seq_event =
    EStart
  | EStop
  | EStopCancel
  | EAutostart bool
  | ELoopMode bool
  | EExecute queue_item
  | EClose
  | EQueueCall service_call
  | EHost host
  | ECheck
  | ETake rat
  | EOutcome registry "nat \<Rightarrow> string \<times> rat" plan_outcome rat rat

text \<open>A control operation: its exception goes to the caller, its effect stays.\<close>

definition control :: "('r, 'a) seq_act \<Rightarrow> 'r machine \<Rightarrow> 'r machine" where
  "control m mc = mc\<lparr>mc_seq := snd (m (mc_seq mc))\<rparr>"

fun machine_step :: "'r queue_repository \<Rightarrow> texts \<Rightarrow> (fstring \<Rightarrow> string) \<Rightarrow> seq_event \<Rightarrow> 'r machine \<Rightarrow> 'r machine" where
  "machine_step ops tx pr EStart mc = control (queue_start ops tx pr) mc"
| "machine_step ops tx pr EStop mc = control queue_stop mc"
| "machine_step ops tx pr EStopCancel mc = control queue_stop_cancel mc"
| "machine_step ops tx pr (EAutostart b) mc = control (set_autostart tx pr b) mc"
| "machine_step ops tx pr (ELoopMode b) mc = control (set_loop_mode b) mc"
| "machine_step ops tx pr (EExecute it) mc = control (execute_now ops tx pr it) mc"
| "machine_step ops tx pr EClose mc = control close mc"
| "machine_step ops tx pr (EQueueCall c) mc = control (on_queue (run_call ops c)) mc"
| "machine_step ops tx pr (EHost h) mc = mc\<lparr>mc_seq := (mc_seq mc)\<lparr>sq_host := h\<rparr>\<rparr>"
| "machine_step ops tx pr ECheck mc =
     (if mc_at mc = AtTop then
        (case should_run ops (mc_seq mc) of
           (Inl e, s) \<Rightarrow> mc\<lparr>mc_seq := s, mc_at := Dead\<rparr>
         | (Inr go, s) \<Rightarrow> mc\<lparr>mc_seq := s, mc_at := (if go then Checked else AtTop)\<rparr>)
      else mc)"
| "machine_step ops tx pr (ETake now) mc =
     (if mc_at mc = Checked then
        (case take_item ops (mc_seq mc) of
           (Inl e, s) \<Rightarrow> mc\<lparr>mc_seq := s, mc_at := Dead\<rparr>
         | (Inr None, s) \<Rightarrow> mc\<lparr>mc_seq := s, mc_at := AtTop\<rparr>
         | (Inr (Some it), s) \<Rightarrow> mc\<lparr>mc_seq := s, mc_at := Busy it now, mc_started := mc_started mc @ [it]\<rparr>)
      else mc)"
| "machine_step ops tx pr (EOutcome reg fresh oc t1 now) mc =
     (case mc_at mc of
        Busy it t0 \<Rightarrow>
          (case finish_item ops tx reg fresh it oc t0 t1 now (mc_seq mc) of
             (Inl e, s) \<Rightarrow> mc\<lparr>mc_seq := s, mc_at := Dead\<rparr>
           | (Inr _, s) \<Rightarrow> mc\<lparr>mc_seq := s, mc_at := AtTop\<rparr>)
      | _ \<Rightarrow> mc)"

definition run_events :: "'r queue_repository \<Rightarrow> texts \<Rightarrow> (fstring \<Rightarrow> string) \<Rightarrow> seq_event list \<Rightarrow> 'r machine \<Rightarrow> 'r machine" where
  "run_events ops tx pr evs mc = fold (machine_step ops tx pr) evs mc"

lemma run_events_simps [simp]:
  "run_events ops tx pr [] mc = mc"
  "run_events ops tx pr (e # es) mc = run_events ops tx pr es (machine_step ops tx pr e mc)"
  by (simp_all add: run_events_def)

lemma run_events_invariant:
  assumes "\<And>ev mc. ev \<in> set evs \<Longrightarrow> P mc \<Longrightarrow> P (machine_step ops tx pr ev mc)" "P mc"
  shows "P (run_events ops tx pr evs mc)"
  using assms by (induction evs arbitrary: mc) simp_all

subsection \<open>What the operations do to the flags\<close>

lemma on_queue_eq [act_simps]:
  "on_queue m s = (fst (m (sq_queue s)), s\<lparr>sq_queue := snd (m (sq_queue s))\<rparr>)"
  by (simp add: on_queue_def act_simps)

lemma announce_eq [act_simps]:
  "announce k p s = (Inr (), s\<lparr>sq_events := sq_events s @ [event_of k p]\<rparr>)"
  by (simp add: announce_def act_simps)

text \<open>The flags that decide whether the loop goes on.\<close>

definition flags :: "'r sequencer \<Rightarrow> bool \<times> bool \<times> bool" where
  "flags s = (sq_running s, sq_stop_pending s, sq_autostart s)"

lemma flags_simps [simp]:
  "flags (s\<lparr>sq_queue := q\<rparr>) = flags s" "flags (s\<lparr>sq_host := h\<rparr>) = flags s"
  "flags (s\<lparr>sq_events := es\<rparr>) = flags s" "flags (s\<lparr>sq_pending_history := p\<rparr>) = flags s"
  "flags (s\<lparr>sq_database_error := d\<rparr>) = flags s" "flags (s\<lparr>sq_last_error := l\<rparr>) = flags s"
  "flags (s\<lparr>sq_running_item := r\<rparr>) = flags s" "flags (s\<lparr>sq_loop_mode := b\<rparr>) = flags s"
  "flags (s\<lparr>sq_closing := b\<rparr>) = flags s"
  by (simp_all add: flags_def)

lemma flags_flush: "flags (snd (flush_entries ops es s)) = flags s"
proof (induction es arbitrary: s)
  case Nil
  then show ?case by (simp add: act_simps)
next
  case (Cons e es)
  show ?case
    using Cons.IH [of "s\<lparr>sq_queue := snd (record_history ops e (sq_queue s)), sq_pending_history := es\<rparr>"]
    by (simp add: act_simps split: sum.split)
qed

lemma flags_record:
  "flags (snd (record_outcome ops it oc t0 now s)) \<in> {flags s, (False, sq_stop_pending s, sq_autostart s)}"
proof -
  let ?s = "snd (flush_pending_history ops s)"
  have f: "flags ?s = flags s" by (simp add: flush_pending_history_def flags_flush)
  show ?thesis
    using f by (simp add: record_outcome_def Let_def act_simps split: sum.split) (auto simp: flags_def)
qed

lemma flags_finish:
  assumes "finish_item ops tx reg fresh it oc t0 t1 now s = (Inr (), s')"
  shows "if succeeded oc then flags s' \<in> {flags s, (False, sq_stop_pending s, sq_autostart s)}
    else flags s' = (False, False, sq_autostart s)"
proof -
  let ?s = "snd (record_outcome ops it oc t0 now s)"
  note r = flags_record [of ops it oc t0 now s]
  then have a: "sq_autostart ?s = sq_autostart s" by (auto simp: flags_def)
  show ?thesis
  proof (cases "succeeded oc")
    case True
    have "flags s' \<in> {flags ?s, (False, sq_stop_pending ?s, sq_autostart ?s)}"
      using assms True
      by (auto simp: finish_item_def Let_def act_simps safely_def flags_def split: sum.splits if_splits)
    with r True show ?thesis by (auto simp: flags_def)
  next
    case False
    then show ?thesis
      using assms a by (auto simp: finish_item_def Let_def act_simps flags_def split: sum.splits)
  qed
qed

lemma flags_should_run:
  "fst (should_run ops s) = Inr go \<Longrightarrow> \<not> sq_autostart s \<Longrightarrow>
   (go \<longrightarrow> sq_running s \<and> \<not> sq_stop_pending s) \<and>
   flags (snd (should_run ops s)) \<in> {flags s, (False, False, False)}"
  by (auto simp: should_run_def act_simps flags_def split: sum.splits if_splits)

lemma flags_should_run_raise:
  "fst (should_run ops s) = Inl e \<Longrightarrow> sq_autostart s"
  by (auto simp: should_run_def act_simps split: sum.splits if_splits)

lemma flags_take:
  "flags (snd (take_item ops s)) \<in> {flags s, (False, False, sq_autostart s)}"
  by (auto simp: take_item_def act_simps flags_def split: sum.splits option.splits)

end
