(* ===== verification/HostProperties.thy ===== *)
theory HostProperties
  imports EngineHost
begin

section \<open>Properties of the Engine Host\<close>

text \<open>
  What a submitted plan leaves behind, how a paused plan goes on, that faults of a plan stay
  outcomes, and that the state the host announces is the state it has. \<open>host_simps\<close> unfolds the
  setters.
\<close>

named_theorems host_simps \<open>the setters of the host\<close>

lemma set_state_fields [host_simps]:
  "h_state (set_state st h) = st" "h_engine (set_state st h) = h_engine h"
  "h_directive (set_state st h) = h_directive h" "h_current_item_uid (set_state st h) = h_current_item_uid h"
  "h_last_outcome (set_state st h) = h_last_outcome h" "h_last_error (set_state st h) = h_last_error h"
  "h_abort_reason (set_state st h) = h_abort_reason h" "h_calls (set_state st h) = h_calls h"
  "h_started (set_state st h) = h_started h" "h_load_result (set_state st h) = h_load_result h"
  "h_engine_adopted (set_state st h) = h_engine_adopted h"
  by (simp_all add: set_state_def emit_def Let_def)

lemma emit_fields [host_simps]:
  "h_state (emit k p h) = h_state h" "h_engine (emit k p h) = h_engine h"
  "h_directive (emit k p h) = h_directive h" "h_current_item_uid (emit k p h) = h_current_item_uid h"
  "h_last_outcome (emit k p h) = h_last_outcome h" "h_last_error (emit k p h) = h_last_error h"
  "h_abort_reason (emit k p h) = h_abort_reason h" "h_calls (emit k p h) = h_calls h"
  "h_started (emit k p h) = h_started h" "h_events (emit k p h) = h_events h @ [event_of k p]"
  by (simp_all add: emit_def)

lemma engine_called_fields [host_simps]:
  "h_state (engine_called c h) = h_state h" "h_engine (engine_called c h) = h_engine h"
  "h_directive (engine_called c h) = h_directive h"
  "h_current_item_uid (engine_called c h) = h_current_item_uid h"
  "h_last_error (engine_called c h) = h_last_error h" "h_events (engine_called c h) = h_events h"
  "h_abort_reason (engine_called c h) = h_abort_reason h" "h_calls (engine_called c h) = h_calls h @ [c]"
  "h_started (engine_called c h) = h_started h" "h_last_outcome (engine_called c h) = h_last_outcome h"
  by (simp_all add: engine_called_def)

subsection \<open>The announced state\<close>

definition state_event :: "engine_state \<Rightarrow> engine_state \<Rightarrow> event" where
  "state_event previous st = event_of STATE [(''state'', PV (PStr (engine_state_str st))),
     (''previous'', PV (PStr (engine_state_str previous)))]"

lemma set_state_events [host_simps]:
  "h_events (set_state st h) = h_events h @ (if h_state h = st then [] else [state_event (h_state h) st])"
  by (simp add: set_state_def emit_def state_event_def Let_def)

text \<open>The \<open>STATE\<close> events, read in order from \<open>st\<close>, each name the state before and lead to the next.\<close>

fun announces :: "engine_state \<Rightarrow> event list \<Rightarrow> engine_state \<Rightarrow> bool" where
  "announces st [] st' = (st = st')"
| "announces st (e # es) st' =
     (if ev_kind e = STATE
      then (\<exists>next. next \<noteq> st \<and> e = state_event st next \<and> announces next es st')
      else announces st es st')"

lemma announces_append: "announces a es b \<Longrightarrow> announces b fs c \<Longrightarrow> announces a (es @ fs) c"
  by (induction a es b rule: announces.induct) (auto split: if_splits)

definition announced :: "host \<Rightarrow> bool" where
  "announced h \<longleftrightarrow> announces STARTING (h_events h) (h_state h)"

lemma announced_set_state: "announced h \<Longrightarrow> announced (set_state st h)"
proof -
  assume "announced h"
  moreover have "announces (h_state h) (if h_state h = st then [] else [state_event (h_state h) st]) st"
    by (simp add: state_event_def event_of_def)
  ultimately show ?thesis by (auto simp: announced_def host_simps intro: announces_append)
qed

lemma announced_emit: "k \<noteq> STATE \<Longrightarrow> announced h \<Longrightarrow> announced (emit k p h)"
  unfolding announced_def host_simps by (erule announces_append) (simp add: event_of_def)

lemma announced_update:
  "announced h \<Longrightarrow> h_events h' = h_events h \<Longrightarrow> h_state h' = h_state h \<Longrightarrow> announced h'"
  by (simp add: announced_def)

text \<open>One round of the pause loop: the host in which the engine's reply is looked at.\<close>

definition resumed :: "string \<times> string \<Rightarrow> run_engine \<Rightarrow> host \<Rightarrow> host" where
  "resumed d engine' h =
     (let h = set_state ENGINE_RUNNING ((set_state PAUSED h)\<lparr>h_directive := None, h_abort_reason := snd d\<rparr>)
      in (engine_called (directive_call (fst d) h) h)\<lparr>h_engine := Some engine'\<rparr>)"

text \<open>The call that a directive leads to, with the reason given.\<close>

definition call_for :: "string \<times> string \<Rightarrow> engine_call" where
  "call_for = (\<lambda>(d, reason). if d = ''resume'' then CallResume else if d = ''abort'' then CallAbort reason
     else if d = ''stop'' then CallStop else CallHalt)"

lemma directive_call_for: "directive_call d h = call_for (d, h_abort_reason h)"
  by (simp add: directive_call_def call_for_def)

lemma handle_pause_cases:
  "handle_pause tx uid rounds h =
     (case h_engine h of
        None \<Rightarrow> (Some (Refused no_engine_error), h)
      | Some engine \<Rightarrow>
     if re_state engine \<noteq> ''paused'' then (Some (Ended (outcome_from_engine tx uid engine h)), h)
     else (case rounds of
          [] \<Rightarrow> (None, set_state PAUSED h)
        | (d, reply, engine') # rest \<Rightarrow>
           (case reply of
              Returned r \<Rightarrow> (Some (Ended (outcome_from_result tx uid r)), resumed d engine' h)
            | Interrupted \<Rightarrow> handle_pause tx uid rest (resumed d engine' h)
            | Raised hp exc \<Rightarrow>
                (if xo_is_exception (hp ! exc)
                 then (Some (Ended (failed_outcome tx uid hp exc (resumed d engine' h))), resumed d engine' h)
                 else (Some (Escaped hp exc), resumed d engine' h)))))"
  by (subst handle_pause.simps) (simp only: resumed_def Let_def case_prod_beta)

lemma resumed_fields [host_simps]:
  "h_state (resumed d e h) = ENGINE_RUNNING" "h_engine (resumed d e h) = Some e"
  "h_directive (resumed d e h) = None" "h_current_item_uid (resumed d e h) = h_current_item_uid h"
  "h_last_outcome (resumed d e h) = h_last_outcome h" "h_last_error (resumed d e h) = h_last_error h"
  "h_abort_reason (resumed d e h) = snd d" "h_started (resumed d e h) = h_started h"
  "h_calls (resumed d e h) = h_calls h @ [call_for d]"
  "h_events (resumed d e h) = h_events h @ (if h_state h = PAUSED then [] else [state_event (h_state h) PAUSED]) @
      [state_event PAUSED ENGINE_RUNNING]"
  by (simp_all add: resumed_def Let_def host_simps directive_call_for)

lemma announced_resumed: "announced h \<Longrightarrow> announced (resumed d e h)"
proof -
  assume "announced h"
  then have "announced (set_state PAUSED h)" by (rule announced_set_state)
  then have "announced ((set_state PAUSED h)\<lparr>h_directive := None, h_abort_reason := snd d\<rparr>)" by (rule announced_update) simp_all
  then have "announced (set_state ENGINE_RUNNING ((set_state PAUSED h)\<lparr>h_directive := None, h_abort_reason := snd d\<rparr>))"
    by (rule announced_set_state)
  then show ?thesis by (rule announced_update) (simp_all add: resumed_def Let_def host_simps)
qed

text \<open>Induction over the pauses of one plan.\<close>

lemma handle_pause_induct:
  assumes refused: "\<And>h rounds. h_engine h = None \<Longrightarrow> P rounds h (Some (Refused no_engine_error)) h"
    and over: "\<And>h e rounds. h_engine h = Some e \<Longrightarrow> re_state e \<noteq> ''paused'' \<Longrightarrow>
      P rounds h (Some (Ended (outcome_from_engine tx uid e h))) h"
    and wait: "\<And>h e. h_engine h = Some e \<Longrightarrow> re_state e = ''paused'' \<Longrightarrow> P [] h None (set_state PAUSED h)"
    and returned: "\<And>h e d r e' rest. h_engine h = Some e \<Longrightarrow> re_state e = ''paused'' \<Longrightarrow>
      P ((d, Returned r, e') # rest) h (Some (Ended (outcome_from_result tx uid r))) (resumed d e' h)"
    and raised: "\<And>h e d hp exc e' rest. h_engine h = Some e \<Longrightarrow> re_state e = ''paused'' \<Longrightarrow> xo_is_exception (hp ! exc) \<Longrightarrow>
      P ((d, Raised hp exc, e') # rest) h (Some (Ended (failed_outcome tx uid hp exc (resumed d e' h)))) (resumed d e' h)"
    and escaped: "\<And>h e d hp exc e' rest. h_engine h = Some e \<Longrightarrow> re_state e = ''paused'' \<Longrightarrow> \<not> xo_is_exception (hp ! exc) \<Longrightarrow>
      P ((d, Raised hp exc, e') # rest) h (Some (Escaped hp exc)) (resumed d e' h)"
    and again: "\<And>h e d e' rest. h_engine h = Some e \<Longrightarrow> re_state e = ''paused'' \<Longrightarrow>
      P rest (resumed d e' h) (fst (handle_pause tx uid rest (resumed d e' h))) (snd (handle_pause tx uid rest (resumed d e' h))) \<Longrightarrow>
      P ((d, Interrupted, e') # rest) h (fst (handle_pause tx uid rest (resumed d e' h))) (snd (handle_pause tx uid rest (resumed d e' h)))"
  shows "P rounds h (fst (handle_pause tx uid rounds h)) (snd (handle_pause tx uid rounds h))"
proof (induction rounds arbitrary: h)
  case Nil
  show ?case
    by (cases "h_engine h") (auto simp: handle_pause_cases [of tx uid "[]"] intro: refused over wait)
next
  case (Cons rd rest)
  obtain d reply e' where rd: "rd = (d, reply, e')" by (cases rd)
  show ?case
  proof (cases "h_engine h")
    case None
    then show ?thesis by (simp add: handle_pause_cases [of tx uid "rd # rest"] refused)
  next
    case (Some e)
    show ?thesis
    proof (cases "re_state e = ''paused''")
      case False
      with Some show ?thesis by (simp add: handle_pause_cases [of tx uid "rd # rest"] over)
    next
      case True
      note again' = again [OF Some True Cons.IH]
      from Some True show ?thesis unfolding rd
        by (cases reply)
          (simp_all add: handle_pause_cases [of tx uid "(d, _, e') # rest"] returned raised escaped again')
    qed
  qed
qed

lemma announced_handle_pause: "announced h \<Longrightarrow> announced (snd (handle_pause tx uid rounds h))"
proof -
  have "announced h \<longrightarrow> announced (snd (handle_pause tx uid rounds h))"
    by (rule handle_pause_induct [where P = "\<lambda>_ h _ h'. announced h \<longrightarrow> announced h'"])
      (auto intro: announced_set_state announced_resumed)
  then show "announced h \<Longrightarrow> announced (snd (handle_pause tx uid rounds h))" by blast
qed

datatype host_call =
    HStart
  | HShutdown
  | HLoad string "exn + load_result" "exn + run_engine"
  | HRunPlan resolved_call string pydict "engine_reply \<times> run_engine" "pause_round list"
  | HRequestPause bool "exn option"
  | HResume
  | HAbort string "exn option"
  | HStop "exn option"
  | HHalt "exn option"
  | HStateChange "nat \<Rightarrow> string \<Rightarrow> string \<Rightarrow> exn option" hook string string

fun host_effect :: "texts \<Rightarrow> host_call \<Rightarrow> host \<Rightarrow> host" where
  "host_effect tx HStart h = snd (start_host h)"
| "host_effect tx HShutdown h = shutdown h"
| "host_effect tx (HLoad d l f) h = snd (load_source d l f h)"
| "host_effect tx (HRunPlan factory uid md first rounds) h = snd (run_plan tx factory uid md first rounds h)"
| "host_effect tx (HRequestPause b r) h = snd (request_pause b r h)"
| "host_effect tx HResume h = snd (resume_plan h)"
| "host_effect tx (HAbort reason r) h = snd (abort reason r h)"
| "host_effect tx (HStop r) h = snd (stop r h)"
| "host_effect tx (HHalt r) h = snd (halt r h)"
| "host_effect tx (HStateChange ph hk new old) h = snd (run_state_hook ph hk new old h)"

lemma announced_load: "announced h \<Longrightarrow> announced (snd (load_source d l f h))"
proof -
  assume h: "announced h"
  then have m: "announced (mark_environment h)" unfolding mark_environment_def by (rule announced_update) simp_all
  have "announced (install_engine e ad (mark_environment h))" for e ad
    unfolding install_engine_def Let_def
    by (rule announced_set_state, rule announced_update [OF m]) simp_all
  then have "announced ((install_engine e ad (mark_environment h))\<lparr>h_load_result := x\<rparr>)" for e ad x
    by (rule announced_update) simp_all
  then have "announced (adopt_loaded d result e ad (mark_environment h))" for result e ad
    by (auto simp: adopt_loaded_def intro!: announced_emit)
  then show ?thesis using h m
    by (auto simp: load_source_def submit_def load_source_on_thread_def Let_def split: sum.split option.split)
qed

lemma announced_begin: "announced h \<Longrightarrow> announced (begin_plan uid h)"
  unfolding begin_plan_def
  by (intro announced_emit announced_set_state, simp, rule announced_update) simp_all

lemma announced_finish: "announced h \<Longrightarrow> announced (finish_plan uid oc h)"
proof -
  assume "announced h"
  then have 1: "announced (h\<lparr>h_current_item_uid := None, h_last_outcome := Some oc\<rparr>)"
    by (rule announced_update) simp_all
  then have "announced (h\<lparr>h_current_item_uid := None, h_last_outcome := Some oc, h_last_error := x\<rparr>)" for x
    by (rule announced_update) simp_all
  with 1 show ?thesis unfolding finish_plan_def Let_def
    by (auto intro!: announced_emit announced_set_state)
qed

lemma announced_run_plan: "announced h \<Longrightarrow> announced (snd (run_plan tx factory uid md first rounds h))"
proof -
  assume h: "announced h"
  have b: "announced ((engine_called c (begin_plan uid h))\<lparr>h_engine := e\<rparr>)" for c e
    by (rule announced_update [OF announced_begin [OF h, of uid]]) (simp_all add: host_simps)
  have cur: "announced (x\<lparr>h_current_item_uid := None\<rparr>)" if "announced x" for x
    by (rule announced_update [OF that]) simp_all
  show ?thesis
    using h b announced_handle_pause [OF b, of tx uid rounds]
    unfolding run_plan_def run_plan_on_thread_def Let_def
    by (auto split: sum.split option.split plan_end.split engine_reply.split prod.split
        intro!: announced_finish cur simp: prod_eq_iff)
qed

lemma announced_hook: "announced h \<Longrightarrow> announced (snd (run_state_hook ph hk new old h))"
  by (induction hk arbitrary: h)
    (auto simp: act_simps split: option.split sum.split intro!: announced_emit)

lemma announced_effect: "announced h \<Longrightarrow> announced (host_effect tx c h)"
proof -
  assume h: "announced h"
  have dir: "announced (snd (set_directive d h))" if "announced h" for d h
    using that by (auto simp: set_directive_def intro: announced_update)
  have call: "announced (snd (call_engine c r h))" for c r
    by (rule announced_update [OF h]) (simp_all add: call_engine_def host_simps)
  have reason: "announced (h\<lparr>h_abort_reason := r\<rparr>)" for r by (rule announced_update [OF h]) simp_all
  have int: "announced (snd (interrupt k r ra h))" for k r ra
    using h dir [OF reason] call by (auto simp: interrupt_def split: sum.split)
  have started: "announced (h\<lparr>h_started := True\<rparr>)" by (rule announced_update [OF h]) simp_all
  show ?thesis
    using h dir [OF h] call int announced_load [OF h] announced_run_plan [OF h] announced_hook [OF h]
      announced_set_state [OF h] announced_set_state [OF started]
    by (cases c) (auto simp: start_host_def shutdown_def request_pause_def resume_plan_def abort_def
      stop_def halt_def split: sum.split)
qed

text \<open>
  Whatever is asked of the host, the \<open>state\<close> events it emits tell its state exactly: read
  from the start each one names the state left and the state entered, these differ, and the
  last one is the state the host is in.
\<close>

theorem state_events_tell_state:
  "announces STARTING (h_events (fold (host_effect tx) cs (EngineHost_init p)))
     (h_state (fold (host_effect tx) cs (EngineHost_init p)))"
proof -
  have "announced h \<Longrightarrow> announced (fold (host_effect tx) cs h)" for h
    by (induction cs arbitrary: h) (simp_all add: announced_effect)
  from this [of "EngineHost_init p"] show ?thesis
    by (simp add: announced_def EngineHost_init_def)
qed

subsection \<open>A plan from submission to outcome\<close>

lemma handle_pause_events:
  "\<exists>es. h_events (snd (handle_pause tx uid rounds h)) = h_events h @ es \<and> (\<forall>e \<in> set es. ev_kind e = STATE)"
proof (rule handle_pause_induct [where P = "\<lambda>_ h _ h'. \<exists>es. h_events h' = h_events h @ es \<and> (\<forall>e \<in> set es. ev_kind e = STATE)"],
    goal_cases)
  case (7 h e d e' rest)
  then obtain es where "h_events (snd (handle_pause tx uid rest (resumed d e' h))) = h_events (resumed d e' h) @ es"
    "\<forall>e \<in> set es. ev_kind e = STATE" by blast
  then show ?case by (auto simp: host_simps state_event_def event_of_def)
qed (auto simp: host_simps state_event_def event_of_def)

lemma handle_pause_uid:
  "fst (handle_pause tx uid rounds h) = Some (Ended oc) \<Longrightarrow> po_item_uid oc = uid"
proof -
  have "\<forall>oc. fst (handle_pause tx uid rounds h) = Some (Ended oc) \<longrightarrow> po_item_uid oc = uid"
    by (rule handle_pause_induct [where P = "\<lambda>_ _ r _. \<forall>oc. r = Some (Ended oc) \<longrightarrow> po_item_uid oc = uid"])
      (auto simp: outcome_from_engine_def outcome_from_result_def failed_outcome_def new_outcome_def Let_def)
  then show "fst (handle_pause tx uid rounds h) = Some (Ended oc) \<Longrightarrow> po_item_uid oc = uid" by blast
qed

lemma outcome_uid [simp]:
  "po_item_uid (outcome_from_result tx uid r) = uid" "po_item_uid (failed_outcome tx uid hp exc h) = uid"
  by (simp_all add: outcome_from_result_def failed_outcome_def new_outcome_def Let_def)

text \<open>What the engine thread does between \<open>begin_plan\<close> and the outcome.\<close>

definition plan_body ::
  "texts \<Rightarrow> resolved_call \<Rightarrow> string \<Rightarrow> pydict \<Rightarrow> engine_reply \<times> run_engine \<Rightarrow> pause_round list \<Rightarrow> host \<Rightarrow> plan_end option \<times> host" where
  "plan_body tx factory uid md first rounds h =
     (let h = (engine_called (CallPlan factory md) (begin_plan uid h))\<lparr>h_engine := Some (snd first)\<rparr> in
      case fst first of
            Returned r \<Rightarrow> (Some (Ended (outcome_from_result tx uid r)), h)
          | Interrupted \<Rightarrow> handle_pause tx uid rounds h
          | Raised hp exc \<Rightarrow>
              (if xo_is_exception (hp ! exc) then (Some (Ended (failed_outcome tx uid hp exc h)), h)
               else (Some (Escaped hp exc), h)))"

lemma run_plan_eq:
  assumes "check_run_plan h = Inr ()"
  shows "run_plan tx factory uid md first rounds h =
    (case plan_body tx factory uid md first rounds h of
       (None, h') \<Rightarrow> (None, h')
     | (Some (Ended oc), h') \<Rightarrow> (Some (Ended oc), finish_plan uid oc h')
     | (Some other, h') \<Rightarrow> (Some other, h'\<lparr>h_current_item_uid := None\<rparr>))"
proof -
  obtain e where "h_engine h = Some e"
    using assms by (cases "h_engine h") (auto simp: check_run_plan_def)
  with assms show ?thesis
    by (simp add: run_plan_def run_plan_on_thread_def require_engine_def plan_body_def Let_def
      split: engine_reply.split prod.split option.split plan_end.split)
qed

lemma plan_body_events:
  "\<exists>es es'. h_events (snd (plan_body tx factory uid md first rounds h)) =
     h_events h @ es @ [event_of PLAN_STARTED [(''item_uid'', PV (PStr uid))]] @ es' \<and>
     (\<forall>e \<in> set es \<union> set es'. ev_kind e = STATE)"
proof -
  let ?h = "(engine_called (CallPlan factory md) (begin_plan uid h))\<lparr>h_engine := Some (snd first)\<rparr>"
  have b: "h_events ?h = h_events h @ (if h_state h = ENGINE_RUNNING then [] else [state_event (h_state h) ENGINE_RUNNING]) @
      [event_of PLAN_STARTED [(''item_uid'', PV (PStr uid))]]"
    by (simp add: begin_plan_def host_simps)
  have s: "ev_kind (state_event a b) = STATE" for a b by (simp add: state_event_def event_of_def)
  obtain es where es: "h_events (snd (handle_pause tx uid rounds ?h)) = h_events ?h @ es" "\<forall>e \<in> set es. ev_kind e = STATE"
    using handle_pause_events by blast
  have "\<exists>es'. h_events (snd (plan_body tx factory uid md first rounds h)) = h_events ?h @ es' \<and> (\<forall>e \<in> set es'. ev_kind e = STATE)"
    by (cases "fst first") (use handle_pause_events [of tx uid rounds ?h] in \<open>auto simp: plan_body_def Let_def\<close>)
  then obtain es' where "h_events (snd (plan_body tx factory uid md first rounds h)) = h_events ?h @ es'"
    "\<forall>e \<in> set es'. ev_kind e = STATE" by blast
  with b s show ?thesis
    by (intro exI [of _ "if h_state h = ENGINE_RUNNING then [] else [state_event (h_state h) ENGINE_RUNNING]"] exI [of _ es']) auto
qed


text \<open>The concrete host of the witnesses: an idle engine, and an engine that pauses.\<close>

definition example_texts :: texts where
  "example_texts = \<lparr>tx_fmt = (\<lambda>v. ''<object>''), tx_format_tb = (\<lambda>h n. ''Traceback''),
     tx_format_exn = (\<lambda>e. ''Traceback''), tx_dirs = [''/usr/lib'']\<rparr>"

definition example_call :: resolved_call where
  "example_call = \<lparr>rc_plan = \<lparr>pf_id = 0, pf_signature = None\<rparr>, rc_args = [], rc_kwargs = []\<rparr>"

definition example_engine :: run_engine where
  "example_engine = \<lparr>re_state = ''idle'', re_md = Inr [(PStr ''data_session'', PStr ''pass-1'')], re_exit_status = PNone,
     re_reason = PNone, re_run_start_uids = [], re_run_bundlers = [], re_call_returns_result = True,
     re_context_managers = [], re_state_hook = NoHook, re_waiting_hook = NoHook, re_loop_running = True\<rparr>"

definition paused_engine :: run_engine where
  "paused_engine = example_engine\<lparr>re_state := ''paused''\<rparr>"

definition example_result :: run_result where
  "example_result = \<lparr>rr_exit_status = PStr ''success'', rr_exception = None, rr_run_start_uids = [''r1''],
     rr_reason = PStr [], rr_plan_result = PNone, rr_interrupted = PBool False\<rparr>"

definition example_host :: host where
  "example_host = (EngineHost_init False)\<lparr>h_started := True, h_engine := Some example_engine, h_state := IDLE\<rparr>"


text \<open>
  A paused plan goes on exactly as long as it keeps being paused: the pause loop still
  waits after the given directives if and only if the engine was paused and every call they
  led to was interrupted by a new pause; then the host is paused. Otherwise it has returned.
\<close>

theorem pause_loop_waits_iff:
  assumes "h_engine h = Some engine"
  shows "(fst (handle_pause tx uid rounds h) = None \<longleftrightarrow>
      re_state engine = ''paused'' \<and>
      (\<forall>(d, reply, engine') \<in> set rounds. reply = Interrupted \<and> re_state engine' = ''paused'')) \<and>
    (fst (handle_pause tx uid rounds h) = None \<longrightarrow> h_state (snd (handle_pause tx uid rounds h)) = PAUSED)"
proof -
  let ?P = "\<lambda>rounds h r h'. (r = None \<longleftrightarrow>
      (\<exists>e. h_engine h = Some e \<and> re_state e = ''paused'') \<and>
      (\<forall>rd \<in> set rounds. fst (snd rd) = Interrupted \<and> re_state (snd (snd rd)) = ''paused'')) \<and>
      (r = None \<longrightarrow> h_state h' = PAUSED)"
  have "?P rounds h (fst (handle_pause tx uid rounds h)) (snd (handle_pause tx uid rounds h))"
  proof (rule handle_pause_induct [where P = ?P], goal_cases)
    case (7 h e d e' rest)
    have "h_engine (resumed d e' h) = Some e'" by (simp add: host_simps)
    with 7 show ?case by simp
  qed (simp_all add: host_simps)
  with assms show ?thesis by (auto simp: case_prod_beta)
qed

theorem pause_loop_waits_iff_witness:
  "fst (handle_pause example_texts ''u1'' [((''resume'', []), Interrupted, paused_engine)]
     (example_host\<lparr>h_engine := Some paused_engine\<rparr>)) = None"
  using pause_loop_waits_iff [of "example_host\<lparr>h_engine := Some paused_engine\<rparr>" paused_engine
    example_texts "''u1''" "[((''resume'', []), Interrupted, paused_engine)]"]
  by (simp add: paused_engine_def)

text \<open>What an operator's request during a pause leaves for the engine thread: the directive and its reason.\<close>

lemma paused_abort:
  "h_state h = PAUSED \<Longrightarrow> h_engine h \<noteq> None \<Longrightarrow>
   abort reason r h = (Inr (), h\<lparr>h_abort_reason := reason, h_directive := Some ''abort''\<rparr>)"
  by (auto simp: abort_def interrupt_def set_directive_def require_engine_def)

text \<open>
  The engine receives exactly the calls the operators gave directives for, in their order;
  an abort carries the reason given with it.
\<close>

theorem pause_loop_calls:
  "\<exists>n \<le> length rounds. h_calls (snd (handle_pause tx uid rounds h)) =
     h_calls h @ map (call_for \<circ> fst) (take n rounds) \<and>
     (fst (handle_pause tx uid rounds h) = None \<longrightarrow> n = length rounds)"
proof (rule handle_pause_induct [where P = "\<lambda>rounds h r h'. \<exists>n \<le> length rounds. h_calls h' =
     h_calls h @ map (call_for \<circ> fst) (take n rounds) \<and> (r = None \<longrightarrow> n = length rounds)"], goal_cases)
  case (7 h e d e' rest)
  from 7(3) obtain n where "n \<le> length rest" "h_calls (snd (handle_pause tx uid rest (resumed d e' h))) =
     h_calls (resumed d e' h) @ map (call_for \<circ> fst) (take n rest)"
    "fst (handle_pause tx uid rest (resumed d e' h)) = None \<longrightarrow> n = length rest"
    by (elim exE conjE) (rule that)
  then show ?case by (intro exI [of _ "Suc n"]) (simp add: host_simps)
next
  case (1 h rounds)
  show ?case by (rule exI [of _ 0]) simp
next
  case (2 h e rounds)
  show ?case by (rule exI [of _ 0]) simp
next
  case (3 h e)
  show ?case by (simp add: host_simps)
next
  case (4 h e d r e' rest)
  show ?case by (rule exI [of _ 1]) (simp add: host_simps)
next
  case (5 h e d hp exc e' rest)
  show ?case by (rule exI [of _ 1]) (simp add: host_simps)
next
  case (6 h e d hp exc e' rest)
  show ?case by (rule exI [of _ 1]) (simp add: host_simps)
qed

subsection \<open>Faults of a plan\<close>

text \<open>
  An ordinary exception of a plan, raised at its start or after a pause, becomes a failed
  outcome that carries the exception, its traceback and its root cause, and the host is idle,
  ready for the next plan.
\<close>

theorem plan_fault_is_outcome:
  assumes "check_run_plan h = Inr ()" "xo_is_exception (hp ! exc)"
    and "first = (Raised hp exc, engine) \<or>
      first = (Interrupted, engine0) \<and> re_state engine0 = ''paused'' \<and> rounds = (d, Raised hp exc, engine) # rest"
  shows "\<exists>oc h'. run_plan tx factory uid md first rounds h = (Some (Ended oc), h') \<and>
    po_exit_status oc = ''fail'' \<and> po_reason oc = [Txt (xo_text (hp ! exc))] \<and>
    po_exception oc = [Txt (typed_exn (hp ! exc))] \<and>
    po_root_cause oc = es_root (summarize (tx_dirs tx) (tx_format_tb tx) hp exc) \<and>
    check_run_plan h' = Inr ()"
proof -
  let ?h = "(engine_called (CallPlan factory md) (begin_plan uid h))\<lparr>h_engine := Some (snd first)\<rparr>"
  have "\<exists>h1. plan_body tx factory uid md first rounds h = (Some (Ended (failed_outcome tx uid hp exc h1)), h1) \<and>
      h_engine h1 = Some engine \<and> h_started h1"
  proof -
    from assms(1) have st: "h_started h" by (simp add: check_run_plan_def split: if_splits)
    from assms(3) show ?thesis
    proof
      assume "first = (Raised hp exc, engine)"
      with assms(2) st show ?thesis by (simp add: plan_body_def Let_def host_simps begin_plan_def)
    next
      assume "first = (Interrupted, engine0) \<and> re_state engine0 = ''paused'' \<and> rounds = (d, Raised hp exc, engine) # rest"
      with assms(2) st show ?thesis
        by (simp add: plan_body_def Let_def handle_pause_cases [of tx uid "(d, Raised hp exc, engine) # rest"]
          host_simps begin_plan_def)
    qed
  qed
  then obtain h1 where h1: "plan_body tx factory uid md first rounds h = (Some (Ended (failed_outcome tx uid hp exc h1)), h1)"
    "h_engine h1 = Some engine" "h_started h1" by blast
  let ?oc = "failed_outcome tx uid hp exc h1"
  have "run_plan tx factory uid md first rounds h = (Some (Ended ?oc), finish_plan uid ?oc h1)"
    using run_plan_eq [OF assms(1), of tx factory uid md first rounds] h1(1) by simp
  moreover have "check_run_plan (finish_plan uid ?oc h1) = Inr ()"
    using h1(2,3) by (simp add: check_run_plan_def finish_plan_def Let_def host_simps)
  ultimately show ?thesis
    by (intro exI [of _ ?oc] exI [of _ "finish_plan uid ?oc h1"])
      (simp add: failed_outcome_def new_outcome_def Let_def)
qed

theorem plan_fault_is_outcome_witness:
  "\<exists>oc h'. run_plan example_texts example_call ''u1'' [] (Raised example_heap 0, example_engine) [] example_host =
     (Some (Ended oc), h') \<and> po_root_cause oc = ''TimeoutError: ca://X'' \<and> check_run_plan h' = Inr ()"
proof -
  have c: "check_run_plan example_host = Inr ()"
    by (simp add: check_run_plan_def example_host_def EngineHost_init_def)
  have e: "xo_is_exception (example_heap ! 0)" by (simp add: example_heap_def)
  have root: "es_root (summarize (tx_dirs example_texts) (tx_format_tb example_texts) example_heap 0) = ''TimeoutError: ca://X''"
    by (simp add: summarize_def example_heap_root) (simp add: example_heap_def typed_exn_def strip_def is_space_def rstrip_char_def)
  show ?thesis
    using plan_fault_is_outcome [OF c e, of "(Raised example_heap 0, example_engine)" example_engine
        undefined "[]" undefined "[]" example_texts example_call "''u1''" "[]"] unfolding root by blast
qed

text \<open>
  C39: an exception that is not an \<open>Exception\<close> (\<open>SystemExit\<close>, \<open>KeyboardInterrupt\<close>, a cancelled
  task) escapes the plan without an outcome, and the host keeps saying \<open>running\<close> with no
  current item: every later plan is refused.
\<close>

theorem escaped_exception_blocks_host:
  assumes "check_run_plan h = Inr ()" "\<not> xo_is_exception (hp ! exc)"
  shows "\<exists>h'. run_plan tx factory uid md (Raised hp exc, engine) rounds h = (Some (Escaped hp exc), h') \<and>
    h_state h' = ENGINE_RUNNING \<and> h_current_item_uid h' = None \<and>
    (\<forall>factory2 uid2 md2 first2 rounds2. \<exists>t. run_plan tx factory2 uid2 md2 first2 rounds2 h' =
       (Some (Refused (Exn EngineHostError t)), h'))"
proof -
  let ?h = "(engine_called (CallPlan factory md) (begin_plan uid h))\<lparr>h_engine := Some engine\<rparr>"
  let ?h' = "?h\<lparr>h_current_item_uid := None\<rparr>"
  have "run_plan tx factory uid md (Raised hp exc, engine) rounds h = (Some (Escaped hp exc), ?h')"
    using run_plan_eq [OF assms(1)] assms(2) by (simp add: plan_body_def Let_def)
  moreover have st: "h_state ?h' = ENGINE_RUNNING" by (simp add: host_simps begin_plan_def)
  moreover have "\<exists>t. run_plan tx factory2 uid2 md2 first2 rounds2 ?h' = (Some (Refused (Exn EngineHostError t)), ?h')"
    for factory2 uid2 md2 first2 rounds2
    using st by (simp add: run_plan_def check_run_plan_def host_error_def)
  ultimately show ?thesis by auto
qed

theorem escaped_exception_blocks_host_witness:
  "\<exists>h'. run_plan example_texts example_call ''u1'' [] (Raised [(example_heap ! 0)\<lparr>xo_is_exception := False\<rparr>] 0, example_engine) [] example_host =
     (Some (Escaped [(example_heap ! 0)\<lparr>xo_is_exception := False\<rparr>] 0), h') \<and> h_state h' = ENGINE_RUNNING"
proof -
  have c: "check_run_plan example_host = Inr ()"
    by (simp add: check_run_plan_def example_host_def EngineHost_init_def)
  have e: "\<not> xo_is_exception ([(example_heap ! 0)\<lparr>xo_is_exception := False\<rparr>] ! 0)" by simp
  show ?thesis using escaped_exception_blocks_host [OF c e, of example_texts example_call "''u1''" "[]" example_engine "[]"] by blast
qed

subsection \<open>What status requests read\<close>

text \<open>A value made of JSON types only, with string keys.\<close>

fun json_value :: "pyval \<Rightarrow> bool"
  and json_values :: "pyval list \<Rightarrow> bool"
  and json_entries :: "pydict \<Rightarrow> bool"
where
  "json_value (PList xs) = json_values xs"
| "json_value (PDict d) = json_entries d"
| "json_value (PTuple _) = False"
| "json_value (PSet _) = False"
| "json_value (PObj _) = False"
| "json_value v = True"
| "json_values [] = True"
| "json_values (x # xs) = (json_value x \<and> json_values xs)"
| "json_entries [] = True"
| "json_entries ((k, v) # d) = ((\<exists>s. k = PStr s) \<and> json_value v \<and> json_entries d)"

lemma json_entries_update: "json_entries d \<Longrightarrow> json_value v \<Longrightarrow> json_entries (AList.update (PStr s) v d)"
  by (induction d) auto

lemma plain_json:
  "json_value (plain tx v)" "json_values (plain_list tx vs)" "json_entries acc \<Longrightarrow> json_entries (plain_dict tx d acc)"
  by (induction v and vs and d acc rule: plain_plain_list_plain_dict.induct) (simp_all add: json_entries_update)

text \<open>
  Whatever the shared metadata mapping holds or however it fails, reading the experiment
  for a status answer gives a dictionary of plain JSON values: the experiment keys that are
  set, in their fixed order, or one \<open>error\<close> entry. Only an exception that is no \<open>Exception\<close>
  gets through.
\<close>

theorem experiment_metadata_is_json:
  "case experiment_metadata tx txt h of
     Inl e \<Rightarrow> \<not> is_exception (exn_class e)
   | Inr d \<Rightarrow> json_entries d \<and>
       (map fst d = [PStr ''error''] \<or> subseq (map fst d) (map PStr EXPERIMENT_KEYS))"
proof -
  have ent: "json_entries (map (\<lambda>key. (PStr key, plain tx (dget key md))) ks)" for md ks
    by (induction ks) (simp_all add: plain_json)
  have "subseq (map PStr (filter P EXPERIMENT_KEYS)) (map PStr EXPERIMENT_KEYS)" for P
    by (intro subseq_map subseq_filter_left)
  with ent show ?thesis
    by (auto simp: experiment_metadata_def metadata_error_def comp_def split: option.split sum.split)
qed

text \<open>
  The number of events reported for a run is the sum over its streams of one less than the
  stream's counter, which holds the next number; the grand total is the sum over the runs.
\<close>

theorem collected_events_counts:
  assumes "h_engine h = Some engine"
    and "\<And>b. b \<in> set (re_run_bundlers engine) \<Longrightarrow> distinct (map fst (rb_sequence_counters b)) \<and>
      (\<forall>(k, v) \<in> set (rb_sequence_counters b). \<exists>s n. k = PStr s \<and> v = PInt n \<and> 1 \<le> n)"
  shows "map ru_total (fst (collected_events tx h)) =
      map (\<lambda>b. \<Sum>kv \<leftarrow> rb_sequence_counters b. the (as_int (snd kv)) - 1) (re_run_bundlers engine) \<and>
    snd (collected_events tx h) = sum_list (map ru_total (fst (collected_events tx h)))"
proof -
  have counts: "fold (\<lambda>(name, nxt) acc. case as_int nxt of
       Some n \<Rightarrow> (if n \<ge> 1 then AList.update (py_str (tx_fmt tx) name) (n - 1) acc else acc)
     | None \<Rightarrow> acc) cs acc = acc @ map (\<lambda>(k, v). (py_str (tx_fmt tx) k, the (as_int v) - 1)) cs"
    if "distinct (map fst cs)" "\<forall>(k, v) \<in> set cs. \<exists>s n. k = PStr s \<and> v = PInt n \<and> 1 \<le> n"
      "\<forall>(k, v) \<in> set cs. py_str (tx_fmt tx) k \<notin> fst ` set acc" for cs acc
    using that
  proof (induction cs arbitrary: acc)
    case (Cons c cs)
    obtain s n where c: "c = (PStr s, PInt n)" "1 \<le> n" using Cons.prems(2) by (cases c) auto
    have new: "s \<notin> fst ` set acc" using Cons.prems(3) c by auto
    have fresh: "\<forall>(k, v) \<in> set cs. py_str (tx_fmt tx) k \<notin> fst ` set (acc @ [(s, n - 1)])"
    proof
      fix x assume x: "x \<in> set cs"
      with Cons.prems(2) obtain s' n' where x': "x = (PStr s', PInt n')" by (cases x) auto
      have "PStr s \<notin> fst ` set cs" using Cons.prems(1) c(1) by simp
      with x x' have "s' \<noteq> s" by force
      moreover have "s' \<notin> fst ` set acc" using bspec [OF Cons.prems(3), of x] x x' by simp
      ultimately show "case x of (k, v) \<Rightarrow> py_str (tx_fmt tx) k \<notin> fst ` set (acc @ [(s, n - 1)])"
        using x' by simp
    qed
    have rest: "distinct (map fst cs)" "\<forall>(k, v) \<in> set cs. \<exists>s n. k = PStr s \<and> v = PInt n \<and> 1 \<le> n"
      using Cons.prems(1,2) by simp_all
    from Cons.IH [OF rest fresh] c show ?case by (simp add: update_new_key [OF new])
  qed simp
  have "sum_list (map snd (stream_counts tx (rb_sequence_counters b))) =
      (\<Sum>kv \<leftarrow> rb_sequence_counters b. the (as_int (snd kv)) - 1)" if "b \<in> set (re_run_bundlers engine)" for b
    using counts [of "rb_sequence_counters b" "[]"] assms(2) [OF that]
    by (simp add: stream_counts_def case_prod_beta comp_def)
  then show ?thesis
    using assms(1) by (simp add: collected_events_def Let_def comp_def)
qed

theorem collected_events_counts_witness:
  "snd (collected_events example_texts (example_host\<lparr>h_engine := Some (example_engine\<lparr>re_run_bundlers :=
     [\<lparr>rb_run_start_uid = PNone, rb_private_md = PNone, rb_md = PNone,
       rb_sequence_counters = [(PStr ''primary'', PInt 4), (PStr ''baseline'', PInt 2)]\<rparr>]\<rparr>)\<rparr>)) = 4"
  using collected_events_counts [of "example_host\<lparr>h_engine := Some (example_engine\<lparr>re_run_bundlers :=
     [\<lparr>rb_run_start_uid = PNone, rb_private_md = PNone, rb_md = PNone,
       rb_sequence_counters = [(PStr ''primary'', PInt 4), (PStr ''baseline'', PInt 2)]\<rparr>]\<rparr>)\<rparr>"
    "example_engine\<lparr>re_run_bundlers :=
     [\<lparr>rb_run_start_uid = PNone, rb_private_md = PNone, rb_md = PNone,
       rb_sequence_counters = [(PStr ''primary'', PInt 4), (PStr ''baseline'', PInt 2)]\<rparr>]\<rparr>" example_texts]
  by simp

end
