(* ===== verification/SequencerProperties.thy ===== *)
theory SequencerProperties
  imports SequencerMachine HostProperties
begin

section \<open>Properties of the queue loop\<close>

text \<open>
  When the loop takes the next item, when it must not, and what becomes of the outcomes: over
  all interleavings of the thread's steps with control operations and queue edits, on the SQL
  repository where the database matters, with failures of the server as they come.
\<close>

fun restarts :: "seq_event \<Rightarrow> bool" where
  "restarts EStart = True"
| "restarts (EExecute it) = True"
| "restarts (EAutostart b) = b"
| "restarts ev = False"

text \<open>The state of the witnesses: two queued plans, a loaded profile, the queue started.\<close>

definition example_machine :: "database machine" where
  "example_machine = \<lparr>mc_seq = (Sequencer_init example_service example_host False)\<lparr>sq_running := True\<rparr>,
     mc_at = AtTop, mc_started = []\<rparr>"

subsection \<open>Stopping\<close>

text \<open>Operations that do not restart leave the flags, up to switching some off.\<close>

lemma control_flags:
  assumes "\<not> restarts ev" "ev \<noteq> ECheck" "\<And>n. ev \<noteq> ETake n" "\<And>reg fresh oc t1 n. ev \<noteq> EOutcome reg fresh oc t1 n"
  shows "mc_at (machine_step ops tx pr ev mc) = mc_at mc"
    and "mc_started (machine_step ops tx pr ev mc) = mc_started mc"
    and "sq_running (mc_seq (machine_step ops tx pr ev mc)) = sq_running (mc_seq mc)"
    and "sq_autostart (mc_seq (machine_step ops tx pr ev mc)) \<longrightarrow> sq_autostart (mc_seq mc)"
    and "ev \<noteq> EStopCancel \<Longrightarrow> sq_stop_pending (mc_seq mc) \<longrightarrow> sq_stop_pending (mc_seq (machine_step ops tx pr ev mc))"
  using assms
  by (cases ev; simp add: control_def queue_stop_def queue_stop_cancel_def set_autostart_def set_loop_mode_def
      close_def act_simps)+

definition stopped :: "nat \<Rightarrow> 'r machine \<Rightarrow> bool" where
  "stopped n mc \<longleftrightarrow> length (mc_started mc) + (if mc_at mc = Checked then 1 else 0) \<le> n \<and>
     (mc_at mc = Dead \<or> \<not> sq_autostart (mc_seq mc) \<and> (sq_running (mc_seq mc) \<longrightarrow> sq_stop_pending (mc_seq mc)))"

lemma stopped_step:
  assumes "\<not> restarts ev" "ev \<noteq> EStopCancel" "stopped n mc"
  shows "stopped n (machine_step ops tx pr ev mc)"
proof -
  consider (check) "ev = ECheck" | (take) now where "ev = ETake now"
    | (outcome) reg fresh oc t1 now where "ev = EOutcome reg fresh oc t1 now"
    | (other) "ev \<noteq> ECheck" "\<And>n. ev \<noteq> ETake n" "\<And>reg fresh oc t1 n. ev \<noteq> EOutcome reg fresh oc t1 n"
    by blast
  then show ?thesis
  proof cases
    case check
    show ?thesis
    proof (cases "mc_at mc = AtTop")
      case True
      then have fl: "\<not> sq_autostart (mc_seq mc)" "sq_running (mc_seq mc) \<longrightarrow> sq_stop_pending (mc_seq mc)"
        and len: "length (mc_started mc) \<le> n"
        using assms(3) by (auto simp: stopped_def)
      obtain r s where r: "should_run ops (mc_seq mc) = (r, s)" by force
      show ?thesis
      proof (cases r)
        case (Inl e)
        with r flags_should_run_raise [of ops "mc_seq mc" e] fl show ?thesis by simp
      next
        case (Inr go)
        with r flags_should_run [of ops "mc_seq mc" go] fl
        have "\<not> go" "flags s \<in> {flags (mc_seq mc), (False, False, False)}" by auto
        with r Inr True fl len show ?thesis by (auto simp: check stopped_def flags_def)
      qed
    next
      case False
      with assms(3) show ?thesis by (simp add: check)
    qed
  next
    case take
    show ?thesis
    proof (cases "mc_at mc = Checked")
      case True
      then have fl: "\<not> sq_autostart (mc_seq mc)" "sq_running (mc_seq mc) \<longrightarrow> sq_stop_pending (mc_seq mc)"
        and len: "Suc (length (mc_started mc)) \<le> n"
        using assms(3) by (auto simp: stopped_def)
      obtain r s where r: "take_item ops (mc_seq mc) = (r, s)" by force
      have "flags s \<in> {flags (mc_seq mc), (False, False, sq_autostart (mc_seq mc))}"
        using flags_take [of ops "mc_seq mc"] r by simp
      with True r fl len show ?thesis
        by (auto simp: take stopped_def flags_def split: sum.split option.split)
    next
      case False
      with assms(3) show ?thesis by (simp add: take)
    qed
  next
    case outcome
    show ?thesis
    proof (cases "mc_at mc")
      case (Busy it t0)
      then have fl: "\<not> sq_autostart (mc_seq mc)" "sq_running (mc_seq mc) \<longrightarrow> sq_stop_pending (mc_seq mc)"
        and len: "length (mc_started mc) \<le> n"
        using assms(3) by (auto simp: stopped_def)
      obtain r s where r: "finish_item ops tx reg fresh it oc t0 t1 now (mc_seq mc) = (r, s)" by force
      show ?thesis
      proof (cases r)
        case (Inl e)
        with Busy r len show ?thesis by (simp add: outcome stopped_def)
      next
        case (Inr u)
        with r flags_finish [of ops tx reg fresh it oc t0 t1 now "mc_seq mc" s]
        have "flags s \<in> {flags (mc_seq mc), (False, sq_stop_pending (mc_seq mc), sq_autostart (mc_seq mc)),
            (False, False, sq_autostart (mc_seq mc))}" by (auto split: if_splits)
        with Busy r Inr fl len show ?thesis by (auto simp: outcome stopped_def flags_def)
      qed
    qed (use assms(3) in \<open>simp_all add: outcome\<close>)
  next
    case other
    note c = control_flags [OF assms(1) other, where ops = ops and tx = tx and pr = pr and mc = mc]
    show ?thesis
      unfolding stopped_def c(1-3) using assms(3) c(4) c(5) [OF assms(2)] unfolding stopped_def by blast
  qed
qed

lemma stopped_run:
  assumes "\<forall>ev \<in> set evs. \<not> restarts ev \<and> ev \<noteq> EStopCancel" "stopped n mc"
  shows "length (mc_started (run_events ops tx pr evs mc)) \<le> n"
proof -
  have "stopped n (run_events ops tx pr evs mc)"
    by (rule run_events_invariant) (use assms in \<open>auto intro: stopped_step\<close>)
  then show ?thesis by (simp add: stopped_def)
qed

text \<open>
  After a stop request the current item finishes and, whatever outcomes, queue edits and
  database errors follow, no other item starts until somebody starts the queue, withdraws
  the request or switches autostart on; except one if the loop had already decided to take
  it when the request arrived.
\<close>

theorem queue_stop_finishes_current_item:
  assumes "sq_running (mc_seq mc)" "\<not> sq_autostart (mc_seq mc)"
    and "\<forall>ev \<in> set evs. \<not> restarts ev \<and> ev \<noteq> EStopCancel"
  shows "length (mc_started (run_events ops tx pr (EStop # evs) mc)) \<le>
    length (mc_started mc) + (if mc_at mc = Checked then 1 else 0)"
proof -
  have "stopped (length (mc_started mc) + (if mc_at mc = Checked then 1 else 0)) (machine_step ops tx pr EStop mc)"
    using assms(1,2) by (simp add: stopped_def control_def queue_stop_def act_simps)
  from stopped_run [OF assms(3) this] show ?thesis by simp
qed

theorem queue_stop_finishes_current_item_witness:
  "mc_started (run_events SqlQueueRepository example_texts (\<lambda>t. ''text'') [EStop, ECheck, ETake 0, ECheck, ETake 1]
     example_machine) = []"
proof -
  have "\<forall>ev \<in> set [ECheck, ETake 0, ECheck, ETake 1]. \<not> restarts ev \<and> ev \<noteq> EStopCancel" by simp
  from queue_stop_finishes_current_item [OF _ _ this, of example_machine SqlQueueRepository example_texts "\<lambda>t. ''text''"]
  show ?thesis unfolding example_machine_def by (simp add: Sequencer_init_def del: machine_step.simps)
qed

text \<open>The invariant after a failure: the queue is not running and nothing will start it.\<close>

definition waiting :: "queue_item list \<Rightarrow> 'r machine \<Rightarrow> bool" where
  "waiting its mc \<longleftrightarrow> mc_started mc = its \<and>
     (mc_at mc = Dead \<or> mc_at mc = AtTop \<and> \<not> sq_autostart (mc_seq mc) \<and> \<not> sq_running (mc_seq mc))"

lemma waiting_step:
  assumes "\<not> restarts ev" "waiting its mc"
  shows "waiting its (machine_step ops tx pr ev mc)"
proof -
  consider (check) "ev = ECheck" | (take) now where "ev = ETake now"
    | (outcome) reg fresh oc t1 now where "ev = EOutcome reg fresh oc t1 now"
    | (other) "ev \<noteq> ECheck" "\<And>n. ev \<noteq> ETake n" "\<And>reg fresh oc t1 n. ev \<noteq> EOutcome reg fresh oc t1 n"
    by blast
  then show ?thesis
  proof cases
    case check
    with assms(2) show ?thesis
      by (auto simp: waiting_def should_run_def act_simps)
  next
    case take
    with assms(2) show ?thesis by (auto simp: waiting_def)
  next
    case outcome
    with assms(2) show ?thesis by (auto simp: waiting_def)
  next
    case other
    note c = control_flags [OF assms(1) other, where ops = ops and tx = tx and pr = pr and mc = mc]
    show ?thesis unfolding waiting_def c(1-3) using assms(2) c(4) unfolding waiting_def by blast
  qed
qed

lemma outcome_waits:
  assumes "mc_at mc = Busy it t0" "\<not> sq_autostart (mc_seq mc)" "\<not> succeeded oc"
  shows "waiting (mc_started mc) (machine_step ops tx pr (EOutcome reg fresh oc t1 now) mc)"
proof -
  obtain r s where r: "finish_item ops tx reg fresh it oc t0 t1 now (mc_seq mc) = (r, s)" by force
  show ?thesis
  proof (cases r)
    case (Inl e)
    with assms(1) r show ?thesis by (simp add: waiting_def)
  next
    case (Inr u)
    with r flags_finish [of ops tx reg fresh it oc t0 t1 now "mc_seq mc" s] assms(2,3)
    have "flags s = (False, False, False)" by simp
    with assms(1) r Inr show ?thesis by (simp add: waiting_def flags_def)
  qed
qed

text \<open>
  Stop and wait. When an item fails, is aborted, stopped or halted and autostart is off, no
  further item starts until somebody starts the queue, executes an item or switches
  autostart on, whatever else happens in between.
\<close>

theorem failure_stops_queue:
  assumes "mc_at mc = Busy it t0" "\<not> sq_autostart (mc_seq mc)" "\<not> succeeded oc"
    and "\<forall>ev \<in> set evs. \<not> restarts ev"
  shows "mc_started (run_events ops tx pr (EOutcome reg fresh oc t1 now # evs) mc) = mc_started mc"
proof -
  have "waiting (mc_started mc) (machine_step ops tx pr (EOutcome reg fresh oc t1 now) mc)"
    by (rule outcome_waits [OF assms(1-3)])
  then have "waiting (mc_started mc) (run_events ops tx pr evs (machine_step ops tx pr (EOutcome reg fresh oc t1 now) mc))"
    by (rule run_events_invariant [rotated]) (use assms(4) in \<open>auto intro: waiting_step\<close>)
  then show ?thesis by (simp add: waiting_def)
qed

theorem failure_stops_queue_witness:
  "mc_started (run_events SqlQueueRepository example_texts (\<lambda>t. ''text'')
     [EOutcome example_registry (\<lambda>_. (''n'', 0)) (new_outcome ''z'' ''fail'') 1 1, ECheck, ETake 2]
     (example_machine\<lparr>mc_at := Busy (example_item ''z'') 0, mc_started := [example_item ''z'']\<rparr>)) = [example_item ''z'']"
proof -
  let ?mc = "example_machine\<lparr>mc_at := Busy (example_item ''z'') 0, mc_started := [example_item ''z'']\<rparr>"
  have m: "mc_at ?mc = Busy (example_item ''z'') 0" "\<not> sq_autostart (mc_seq ?mc)" "mc_started ?mc = [example_item ''z'']"
    by (simp_all add: example_machine_def Sequencer_init_def)
  have e: "\<not> succeeded (new_outcome ''z'' ''fail'')" "\<forall>ev \<in> set [ECheck, ETake 2]. \<not> restarts ev"
    by (simp_all add: succeeded_def new_outcome_def)
  from failure_stops_queue [OF m(1,2) e, of SqlQueueRepository example_texts "\<lambda>t. ''text''" example_registry
      "\<lambda>_. (''n'', 0)" 1] m(3)
  show ?thesis by (simp only: m(3))
qed

end
