(* ===== verification/OutcomeRecords.thy ===== *)
theory OutcomeRecords
  imports SequencerProperties
begin

section \<open>No outcome is lost\<close>

text \<open>
  The history of a run: what is in the database followed by what the sequencer holds in memory
  because the database could not be reached. Failures of the server are ordinary exceptions
  (\<open>ordinary_faults\<close>), as those of the database driver are.
\<close>

definition ordinary_faults :: "database \<Rightarrow> bool" where
  "ordinary_faults db \<longleftrightarrow> (\<forall>e. Some e \<in> set (db_faults db) \<longrightarrow> is_exception (exn_class e))"

definition recorded :: "database sequencer \<Rightarrow> history_entry list" where
  "recorded s = sql_history (sq_queue s) @ sq_pending_history s"

definition seq_ok :: "database sequencer \<Rightarrow> bool" where
  "seq_ok s \<longleftrightarrow> sql_valid (qs_repo (sq_queue s)) \<and> ordinary_faults (qs_repo (sq_queue s))"

subsection \<open>Exceptions of the repository are ordinary\<close>

lemma session_faults: "set (db_faults (snd (session body db))) \<subseteq> set (db_faults db)"
proof (cases "db_faults db")
  case Nil
  then show ?thesis by (auto simp: session_def split: prod.split sum.split)
next
  case (Cons f fs)
  then show ?thesis by (cases f) (auto simp: session_def split: prod.split sum.split)
qed

lemma ordinary_session:
  assumes "ordinary_faults db" "\<And>t e. fst (body t) = Inl e \<Longrightarrow> is_exception (exn_class e)"
  shows "ordinary_faults (snd (session body db))"
    and "fst (session body db) = Inl e \<Longrightarrow> is_exception (exn_class e)"
proof -
  show "ordinary_faults (snd (session body db))"
    using assms(1) session_faults [of body db] by (auto simp: ordinary_faults_def)
  assume e: "fst (session body db) = Inl e"
  show "is_exception (exn_class e)"
  proof (cases "db_faults db")
    case Nil
    with e assms(2) [of "db_tables db"] show ?thesis
      by (auto simp: session_def prod_eq_iff split: prod.splits sum.splits)
  next
    case (Cons f fs)
    with e assms(1) assms(2) [of "db_tables db"] show ?thesis
      by (cases f) (auto simp: session_def ordinary_faults_def prod_eq_iff split: prod.splits sum.splits)
  qed
qed

definition ordinary :: "(database, 'a) service_act \<Rightarrow> bool" where
  "ordinary m \<longleftrightarrow> (\<forall>q. ordinary_faults (qs_repo q) \<longrightarrow>
     (\<forall>e. fst (m q) = Inl e \<longrightarrow> is_exception (exn_class e)) \<and> ordinary_faults (qs_repo (snd (m q))))"

named_theorems ordinary_rules \<open>exceptions of actions, constructor by constructor\<close>

lemma ordinary_basic [ordinary_rules]:
  "ordinary (ret x)" "ordinary bump" "is_exception (exn_class e) \<Longrightarrow> ordinary (throw e)"
  by (simp_all add: ordinary_def act_simps)

lemma ordinary_chain [ordinary_rules]:
  assumes "ordinary m" "\<And>x. ordinary (f x)"
  shows "ordinary (chain m f)"
  unfolding ordinary_def
proof (intro allI impI, goal_cases)
  case (1 q)
  then have m: "\<forall>e. fst (m q) = Inl e \<longrightarrow> is_exception (exn_class e)" "ordinary_faults (qs_repo (snd (m q)))"
    using assms(1) by (simp_all add: ordinary_def)
  then show ?case using assms(2) by (auto simp: ordinary_def act_simps split: sum.split)
qed

lemma ordinary_handle [ordinary_rules]:
  assumes "ordinary m" "\<And>e. is_exception (exn_class e) \<Longrightarrow> ordinary (f e)"
  shows "ordinary (handle m f)"
  unfolding ordinary_def
proof (intro allI impI, goal_cases)
  case (1 q)
  then have m: "\<forall>e. fst (m q) = Inl e \<longrightarrow> is_exception (exn_class e)" "ordinary_faults (qs_repo (snd (m q)))"
    using assms(1) by (simp_all add: ordinary_def)
  then show ?case using assms(2) by (auto simp: ordinary_def act_simps split: sum.split)
qed

lemma ordinary_if [ordinary_rules]: "ordinary m \<Longrightarrow> ordinary n \<Longrightarrow> ordinary (if b then m else n)"
  by simp

lemma ordinary_option [ordinary_rules]:
  "ordinary m \<Longrightarrow> (\<And>y. ordinary (f y)) \<Longrightarrow> ordinary (case x of None \<Rightarrow> m | Some y \<Rightarrow> f y)"
  by (cases x) simp_all

lemma ordinary_repo_session:
  assumes "\<And>t e. fst (body t) = Inl e \<Longrightarrow> is_exception (exn_class e)"
  shows "ordinary (repo (session body))"
  unfolding ordinary_def
proof (intro allI impI, goal_cases)
  case (1 q)
  note o = ordinary_session [where body = body, OF 1 assms]
  show ?case using o(1) o(2) by (simp add: act_simps)
qed

lemma ordinary_sql_ops [ordinary_rules]:
  "ordinary (repo (rp_list_items SqlQueueRepository))"
  "ordinary (repo (rp_get_item SqlQueueRepository u))"
  "ordinary (repo (rp_insert SqlQueueRepository it idx))"
  "ordinary (repo (rp_append_history SqlQueueRepository h))"
  "ordinary (repo (rp_pop_front SqlQueueRepository))"
  unfolding SqlQueueRepository_def queue_repository.simps sql_list_items_def sql_get_item_def
    sql_insert_def sql_append_history_def sql_pop_front_def
  by (rule ordinary_repo_session; auto simp: act_simps Let_def duplicate_uid_def split: if_splits list.splits)+

lemma ordinary_validate [ordinary_rules]: "ordinary (lift_result (validate reg it))"
  by (auto simp: ordinary_def act_simps validate_def check_parameters_def
    split: if_splits sum.splits option.splits)

lemma ordinary_index_of [ordinary_rules]: "ordinary (index_of SqlQueueRepository v)"
  unfolding index_of_def not_in_queue_def by (intro ordinary_rules) simp

lemma ordinary_resolve [ordinary_rules]: "ordinary (resolve_index SqlQueueRepository pos b a ins)"
  unfolding resolve_index_def Let_def by (intro ordinary_rules) simp_all

lemma ordinary_add: "ordinary (add SqlQueueRepository reg fresh it pos b a)"
  unfolding add_def Let_def by (intro ordinary_rules)

lemma ordinary_record: "ordinary (record_history SqlQueueRepository h)"
  unfolding record_history_def by (intro ordinary_rules)

subsection \<open>Recording\<close>

lemma record_history_cases:
  assumes "sql_valid (qs_repo q)"
  shows "fst (record_history SqlQueueRepository h q) = Inr () \<and>
      sql_history (snd (record_history SqlQueueRepository h q)) = sql_history q @ [h] \<or>
    (\<exists>e. fst (record_history SqlQueueRepository h q) = Inl e) \<and>
      sql_history (snd (record_history SqlQueueRepository h q)) = sql_history q"
    and "sql_queue (snd (record_history SqlQueueRepository h q)) = sql_queue q"
    and "sql_valid (qs_repo (snd (record_history SqlQueueRepository h q)))"
proof -
  from assms show "fst (record_history SqlQueueRepository h q) = Inr () \<and>
      sql_history (snd (record_history SqlQueueRepository h q)) = sql_history q @ [h] \<or>
    (\<exists>e. fst (record_history SqlQueueRepository h q) = Inl e) \<and>
      sql_history (snd (record_history SqlQueueRepository h q)) = sql_history q"
    by (rule implements_cases [OF sql.append_history_law [of h]])
      (simp_all add: record_history_def act_simps sql_history_def spec_append_history_def del: sql_abs_service)
  from assms show "sql_queue (snd (record_history SqlQueueRepository h q)) = sql_queue q"
    by (rule implements_cases [OF sql.append_history_law [of h]])
      (simp_all add: record_history_def act_simps sql_queue_def spec_append_history_def del: sql_abs_service)
  from assms show "sql_valid (qs_repo (snd (record_history SqlQueueRepository h q)))"
    by (rule implements_cases [OF sql.append_history_law [of h]])
      (simp_all add: record_history_def act_simps split: sum.split)
qed

text \<open>Flushing moves entries, oldest first, from memory to the database and loses none.\<close>

lemma flush_moves:
  assumes "seq_ok s" "sq_pending_history s = es"
  shows "\<exists>b s'. flush_entries SqlQueueRepository es s = (Inr b, s') \<and> seq_ok s' \<and> recorded s' = recorded s \<and>
    (b \<longleftrightarrow> sq_pending_history s' = []) \<and> sql_queue (sq_queue s') = sql_queue (sq_queue s) \<and>
    (\<exists>k. sq_pending_history s' = drop k es) \<and> sq_running_item s' = sq_running_item s \<and>
    sq_loop_mode s' = sq_loop_mode s"
  using assms
proof (induction es arbitrary: s)
  case Nil
  then show ?case by (intro exI [of _ True]) (simp add: act_simps recorded_def seq_ok_def)
next
  case (Cons e es)
  let ?q = "sq_queue s" and ?q' = "snd (record_history SqlQueueRepository e (sq_queue s))"
  from Cons.prems have v: "sql_valid (qs_repo ?q)" "ordinary_faults (qs_repo ?q)" by (simp_all add: seq_ok_def)
  note rec = record_history_cases [OF v(1), of e]
  have ord: "ordinary_faults (qs_repo ?q')"
    "\<And>x. fst (record_history SqlQueueRepository e ?q) = Inl x \<Longrightarrow> is_exception (exn_class x)"
    using ordinary_record [of e] v(2) by (simp_all add: ordinary_def)
  show ?case
  proof (cases "fst (record_history SqlQueueRepository e ?q)")
    case (Inl x)
    with rec(1) have "sql_history ?q' = sql_history ?q" by auto
    with Inl ord rec(2,3) Cons.prems(2) show ?thesis
      by (auto simp: act_simps recorded_def seq_ok_def intro: exI [of _ 0])
  next
    case (Inr u)
    with rec(1) have r: "fst (record_history SqlQueueRepository e ?q) = Inr ()" "sql_history ?q' = sql_history ?q @ [e]" by auto
    let ?s = "s\<lparr>sq_queue := ?q', sq_pending_history := es\<rparr>"
    have "seq_ok ?s" "sq_pending_history ?s = es" using rec(3) ord(1) by (simp_all add: seq_ok_def)
    from Cons.IH [OF this] obtain b s' k where "flush_entries SqlQueueRepository es ?s = (Inr b, s')" "seq_ok s'"
      "recorded s' = recorded ?s" "b \<longleftrightarrow> sq_pending_history s' = []"
      "sql_queue (sq_queue s') = sql_queue (sq_queue ?s)" "sq_pending_history s' = drop k es"
      "sq_running_item s' = sq_running_item ?s" "sq_loop_mode s' = sq_loop_mode ?s" by blast
    moreover have "recorded ?s = recorded s" using r(2) Cons.prems(2) by (simp add: recorded_def)
    moreover have "sql_queue (sq_queue ?s) = sql_queue ?q" using rec(2) by simp
    moreover have "flush_entries SqlQueueRepository (e # es) s = flush_entries SqlQueueRepository es ?s"
      using r(1) by (simp add: act_simps)
    ultimately show ?thesis by (intro exI [of _ b] exI [of _ s']) (auto intro: exI [of _ "Suc k"])
  qed
qed

lemma record_moves:
  assumes "seq_ok s"
  shows "\<exists>s'. record_outcome SqlQueueRepository it oc t0 now s = (Inr (), s') \<and> seq_ok s' \<and>
    mset (recorded s') = add_mset (history_of it oc t0 now) (mset (recorded s)) \<and>
    sql_queue (sq_queue s') = sql_queue (sq_queue s)"
proof -
  let ?h = "history_of it oc t0 now"
  obtain b s1 where f: "flush_pending_history SqlQueueRepository s = (Inr b, s1)" "seq_ok s1"
    "recorded s1 = recorded s" "sql_queue (sq_queue s1) = sql_queue (sq_queue s)"
    using flush_moves [OF assms refl] unfolding flush_pending_history_def by blast
  have m: "mset (sql_history (sq_queue s1)) + mset (sq_pending_history s1) =
      mset (sql_history (sq_queue s)) + mset (sq_pending_history s)"
    using arg_cong [OF f(3), of mset] by (simp add: recorded_def)
  let ?q' = "snd (record_history SqlQueueRepository ?h (sq_queue s1))"
  from f(2) have v: "sql_valid (qs_repo (sq_queue s1))" "ordinary_faults (qs_repo (sq_queue s1))"
    by (simp_all add: seq_ok_def)
  note rec = record_history_cases [OF v(1), of ?h]
  have ord: "ordinary_faults (qs_repo ?q')"
    "\<And>x. fst (record_history SqlQueueRepository ?h (sq_queue s1)) = Inl x \<Longrightarrow> is_exception (exn_class x)"
    using ordinary_record [of ?h] v(2) by (simp_all add: ordinary_def)
  show ?thesis
  proof (cases "fst (record_history SqlQueueRepository ?h (sq_queue s1))")
    case (Inl x)
    with rec(1) have "sql_history ?q' = sql_history (sq_queue s1)" by auto
    with Inl ord(2) [OF Inl] ord(1) rec(2,3) f m show ?thesis
      by (simp add: record_outcome_def Let_def act_simps seq_ok_def recorded_def)
  next
    case (Inr u)
    with rec(1) have "sql_history ?q' = sql_history (sq_queue s1) @ [?h]" by auto
    with Inr ord(1) rec(2,3) f m show ?thesis
      by (simp add: record_outcome_def Let_def act_simps seq_ok_def recorded_def)
  qed
qed

text \<open>Calls that do not touch the history, failures included.\<close>

definition history_is :: "history_entry list \<Rightarrow> database queue_service \<Rightarrow> bool" where
  "history_is hs q \<longleftrightarrow> sql_valid (qs_repo q) \<and> ordinary_faults (qs_repo q) \<and> sql_history q = hs"

lemma history_law:
  assumes "implements sql_abs sql_valid db_up m spec" "\<And>st. q_history (snd (spec st)) = q_history st"
    and "\<And>db. set (db_faults (snd (m db))) \<subseteq> set (db_faults db)"
  shows "keeps (history_is hs) (repo m)"
proof (rule keepsI)
  fix q assume q: "history_is hs q"
  then have v: "sql_valid (qs_repo q)" by (simp add: history_is_def)
  have o: "ordinary_faults (snd (m (qs_repo q)))"
    using q assms(3) [of "qs_repo q"] by (auto simp: history_is_def ordinary_faults_def)
  from assms(1) v show "history_is hs (snd (repo m q))"
    by (rule implements_cases)
      (use q o assms(2) in \<open>simp_all add: history_is_def act_simps sql_history_def del: sql_abs_service\<close>)
qed

lemma sql_op_faults:
  "set (db_faults (snd (rp_list_items SqlQueueRepository db))) \<subseteq> set (db_faults db)"
  "set (db_faults (snd (rp_get_item SqlQueueRepository u db))) \<subseteq> set (db_faults db)"
  "set (db_faults (snd (rp_insert SqlQueueRepository it idx db))) \<subseteq> set (db_faults db)"
  "set (db_faults (snd (rp_replace SqlQueueRepository it db))) \<subseteq> set (db_faults db)"
  "set (db_faults (snd (rp_remove SqlQueueRepository u db))) \<subseteq> set (db_faults db)"
  "set (db_faults (snd (rp_clear SqlQueueRepository db))) \<subseteq> set (db_faults db)"
  "set (db_faults (snd (rp_pop_front SqlQueueRepository db))) \<subseteq> set (db_faults db)"
  "set (db_faults (snd (rp_list_history SqlQueueRepository db))) \<subseteq> set (db_faults db)"
  unfolding SqlQueueRepository_def queue_repository.simps sql_list_items_def sql_get_item_def sql_insert_def
    sql_replace_def sql_remove_def sql_clear_def sql_pop_front_def sql_list_history_def
  by (rule session_faults)+

lemma history_is_ops [keeps_rules]:
  "keeps (history_is hs) (repo (rp_list_items SqlQueueRepository))"
  "keeps (history_is hs) (repo (rp_get_item SqlQueueRepository u))"
  "keeps (history_is hs) (repo (rp_insert SqlQueueRepository it idx))"
  "keeps (history_is hs) (repo (rp_replace SqlQueueRepository it))"
  "keeps (history_is hs) (repo (rp_remove SqlQueueRepository u))"
  "keeps (history_is hs) (repo (rp_clear SqlQueueRepository))"
  "keeps (history_is hs) (repo (rp_pop_front SqlQueueRepository))"
  "keeps (history_is hs) (repo (rp_list_history SqlQueueRepository))"
  by (rule history_law,
      rule sql.list_items_law sql.get_item_law sql.insert_law sql.replace_law sql.remove_law sql.clear_law
        sql.pop_front_law sql.list_history_law,
      simp add: spec_defs act_simps split: option.split list.split, rule sql_op_faults)+

lemma history_is_bump [keeps_rules]: "keeps (history_is hs) bump"
  by (simp add: keeps_def act_simps history_is_def sql_history_def del: sql_abs_service)

lemma history_is_helpers [keeps_rules]:
  "keeps (history_is hs) (index_of SqlQueueRepository v)"
  "keeps (history_is hs) (get_queued SqlQueueRepository u)"
  "keeps (history_is hs) (index_of_or_back SqlQueueRepository it)"
  unfolding index_of_def get_queued_def index_of_or_back_def by (intro keeps_rules)+

lemma history_is_resolve [keeps_rules]:
  "keeps (history_is hs) (resolve_index SqlQueueRepository pos b a ins)"
  unfolding resolve_index_def Let_def by (intro keeps_rules)

lemma history_is_methods [keeps_rules]:
  "keeps (history_is hs) (add SqlQueueRepository reg fresh it pos b a)"
  "keeps (history_is hs) (remove SqlQueueRepository u)"
  "keeps (history_is hs) (move SqlQueueRepository u pos b a)"
  "keeps (history_is hs) (update SqlQueueRepository reg fresh it ru)"
  unfolding add_def remove_def move_def update_def Let_def by (intro keeps_rules)+

lemma history_is_remove_batch [keeps_rules]:
  "keeps (history_is hs) (remove_batch SqlQueueRepository us ig)"
  by (induction us) (auto intro!: keeps_rules)

fun touches_history :: "service_call \<Rightarrow> bool" where
  "touches_history (CRecordHistory h) = True"
| "touches_history CClearHistory = True"
| "touches_history c = False"

lemma history_is_call: "\<not> touches_history c \<Longrightarrow> keeps (history_is hs) (run_call SqlQueueRepository c)"
  by (cases c)
    (auto simp: reply_with_def items_def history_def queue_len_def add_batch_def
      clear_def pop_front_def push_front_def intro!: keeps_rules)

lemma finish_records_step:
  assumes "seq_ok s"
  shows "\<exists>s'. finish_item SqlQueueRepository tx reg fresh it oc t0 t1 now s = (Inr (), s') \<and> seq_ok s' \<and>
    mset (recorded s') = add_mset (history_of it oc t0 now) (mset (recorded s)) \<and>
    sq_running_item s' = None \<and> (\<not> succeeded oc \<longrightarrow> \<not> sq_running s' \<and> sql_queue (sq_queue s') = sql_queue (sq_queue s))"
proof -
  obtain s1 where r: "record_outcome SqlQueueRepository it oc t0 now s = (Inr (), s1)" "seq_ok s1"
    "mset (recorded s1) = add_mset (history_of it oc t0 now) (mset (recorded s))"
    "sql_queue (sq_queue s1) = sql_queue (sq_queue s)"
    using record_moves [OF assms] by blast
  show ?thesis
  proof (cases "succeeded oc \<and> sq_loop_mode s1")
    case False
    with r show ?thesis
      by (auto simp: finish_item_def Let_def act_simps seq_ok_def recorded_def)
  next
    case True
    let ?m = "add SqlQueueRepository reg (fresh 1) (with_new_uid (fst (fresh 0)) (snd (fresh 0)) it) PNone PNone PNone"
    let ?q = "snd (?m (sq_queue s1))"
    have v: "sql_valid (qs_repo (sq_queue s1))" "ordinary_faults (qs_repo (sq_queue s1))"
      using r(2) by (simp_all add: seq_ok_def)
    have keep: "history_is (sql_history (sq_queue s1)) ?q"
      by (rule keepsD [OF history_is_methods(1)]) (simp add: history_is_def v)
    have ord: "\<And>e. fst (?m (sq_queue s1)) = Inl e \<Longrightarrow> is_exception (exn_class e)"
      using ordinary_add v(2) unfolding ordinary_def by blast
    from True r keep ord show ?thesis
      by (cases "fst (?m (sq_queue s1))")
        (simp_all add: finish_item_def Let_def act_simps safely_def seq_ok_def recorded_def history_is_def)
  qed
qed

text \<open>
  C14: no outcome is lost. Whatever sessions with the database fail while an item is being
  finished, the sequencer comes back to its loop with no running item, and the history in
  the database together with the entries held in memory is what it was plus one entry for
  this item; a failed item has stopped the queue.
\<close>

theorem finish_records_outcome:
  assumes "seq_ok s"
  shows "\<exists>s'. finish_item SqlQueueRepository tx reg fresh it oc t0 t1 now s = (Inr (), s') \<and> seq_ok s' \<and>
    mset (recorded s') = add_mset (history_of it oc t0 now) (mset (recorded s)) \<and>
    sq_running_item s' = None \<and> (\<not> succeeded oc \<longrightarrow> \<not> sq_running s' \<and> sql_queue (sq_queue s') = sql_queue (sq_queue s))"
  by (rule finish_records_step [OF assms])

theorem finish_records_outcome_witness:
  "\<exists>s'. finish_item SqlQueueRepository example_texts example_registry (\<lambda>_. (''n'', 0)) (example_item ''z'')
      (new_outcome ''z'' ''abort'') 0 1 1 (Sequencer_init failing_service example_host False) = (Inr (), s') \<and>
    mset (recorded s') = {# history_of (example_item ''z'') (new_outcome ''z'' ''abort'') 0 1 #}"
proof -
  have "seq_ok (Sequencer_init failing_service example_host False)"
    using example_ready
    by (simp add: seq_ok_def Sequencer_init_def failing_service_def ordinary_faults_def sql_ready_def sql_valid_def)
  moreover have "recorded (Sequencer_init failing_service example_host False) = []"
    by (simp add: recorded_def Sequencer_init_def failing_service_def example_service_def sql_history_def sql_abs_def
      tables_abs_def del: sql_abs_service)
  ultimately show ?thesis
    using finish_records_outcome [of "Sequencer_init failing_service example_host False" example_texts
      example_registry "\<lambda>_. (''n'', 0)" "example_item ''z''" "new_outcome ''z'' ''abort''" 0 1 1] by auto
qed

subsection \<open>Over a whole run\<close>

definition recorded_is :: "history_entry multiset \<Rightarrow> database sequencer \<Rightarrow> bool" where
  "recorded_is R s \<longleftrightarrow> seq_ok s \<and> mset (recorded s) = R"

lemma recorded_is_update:
  "recorded_is R s \<Longrightarrow> sq_queue s' = sq_queue s \<Longrightarrow> sq_pending_history s' = sq_pending_history s \<Longrightarrow> recorded_is R s'"
  by (simp add: recorded_is_def seq_ok_def recorded_def)

lemma recorded_is_modify [keeps_rules]:
  "(\<And>s. sq_queue (f s) = sq_queue s \<and> sq_pending_history (f s) = sq_pending_history s) \<Longrightarrow>
   keeps (recorded_is R) (modify f)"
  by (auto simp: keeps_def act_simps intro: recorded_is_update)

lemma recorded_is_queue [keeps_rules]:
  assumes "\<And>hs. keeps (history_is hs) m"
  shows "keeps (recorded_is R) (on_queue m)"
proof (rule keepsI)
  fix s assume s: "recorded_is R s"
  then have "history_is (sql_history (sq_queue s)) (sq_queue s)"
    by (simp add: recorded_is_def seq_ok_def history_is_def)
  from keepsD [OF assms this] s show "recorded_is R (snd (on_queue m s))"
    by (simp add: act_simps recorded_is_def seq_ok_def history_is_def recorded_def)
qed

lemma recorded_is_announce [keeps_rules]: "keeps (recorded_is R) (announce k p)"
  unfolding announce_def by (rule recorded_is_modify) simp

lemma recorded_is_flush [keeps_rules]: "keeps (recorded_is R) (flush_pending_history SqlQueueRepository)"
proof (rule keepsI)
  fix s assume "recorded_is R s"
  then show "recorded_is R (snd (flush_pending_history SqlQueueRepository s))"
    using flush_moves [OF _ refl, of s] unfolding flush_pending_history_def recorded_is_def by force
qed

lemma recorded_is_experiment [keeps_rules]: "keeps (recorded_is R) (check_experiment tx pr)"
  by (simp add: keeps_def check_experiment_def split: sum.split)

lemma history_is_len: "keeps (history_is hs) (queue_len SqlQueueRepository)"
  unfolding queue_len_def by (intro keeps_rules)

lemma history_is_pop: "keeps (history_is hs) (pop_front SqlQueueRepository)"
  unfolding pop_front_def by (intro keeps_rules)

lemma history_is_push: "keeps (history_is hs) (push_front SqlQueueRepository it)"
  unfolding push_front_def by (intro keeps_rules)

lemma recorded_is_start [keeps_rules]: "keeps (recorded_is R) (queue_start SqlQueueRepository tx pr)"
proof -
  have u: "keeps (recorded_is R) (\<lambda>s. (Inl (f s), s))" for f by (simp add: keeps_def)
  show ?thesis unfolding queue_start_def
    by (intro keeps_rules history_is_len u) simp_all
qed

lemma recorded_is_controls:
  "keeps (recorded_is R) queue_stop" "keeps (recorded_is R) queue_stop_cancel"
  "keeps (recorded_is R) (set_autostart tx pr b)" "keeps (recorded_is R) (set_loop_mode b)"
  "keeps (recorded_is R) (execute_now SqlQueueRepository tx pr it)" "keeps (recorded_is R) close"
proof -
  have upd: "recorded_is R (s\<lparr>sq_stop_pending := x, sq_events := es\<rparr>)" "recorded_is R (s\<lparr>sq_autostart := x, sq_events := es\<rparr>)"
    if "recorded_is R s" for x es and s :: "database sequencer"
    by (rule recorded_is_update [OF that]; simp)+
  show "keeps (recorded_is R) queue_stop" "keeps (recorded_is R) queue_stop_cancel"
    using upd by (auto simp: keeps_def queue_stop_def queue_stop_cancel_def act_simps)
  show "keeps (recorded_is R) (set_autostart tx pr b)"
    unfolding set_autostart_def
    by (intro keeps_rules) (use upd in \<open>auto simp: keeps_def act_simps\<close>)
  show "keeps (recorded_is R) (set_loop_mode b)" "keeps (recorded_is R) close"
    unfolding set_loop_mode_def close_def by (rule recorded_is_modify; simp)+
  show "keeps (recorded_is R) (execute_now SqlQueueRepository tx pr it)"
    unfolding execute_now_def by (intro keeps_rules history_is_push)
qed

lemma recorded_is_should_run: "keeps (recorded_is R) (should_run SqlQueueRepository)"
proof (rule keepsI)
  fix s assume s: "recorded_is R s"
  have stop: "recorded_is R (s\<lparr>sq_running := False, sq_stop_pending := False, sq_events := es\<rparr>)" for es
    by (rule recorded_is_update [OF s]) simp_all
  have auto: "keeps (recorded_is R) (chain
         (if b then
            chain (on_queue (queue_len SqlQueueRepository)) (\<lambda>n.
            if n > 0 then
              chain (modify (\<lambda>s. s\<lparr>sq_running := True\<rparr>)) (\<lambda>_.
              chain (on_queue (queue_len SqlQueueRepository)) (\<lambda>_.
              announce QUEUE_STATE p))
            else ret ())
          else ret ())
         (\<lambda>_. get_state f))" for b p and f :: "database sequencer \<Rightarrow> bool"
    by (intro keeps_rules history_is_len) simp_all
  show "recorded_is R (snd (should_run SqlQueueRepository s))"
    using s stop keepsD [OF auto s] by (simp add: should_run_def act_simps)
qed

lemma recorded_is_take: "keeps (recorded_is R) (take_item SqlQueueRepository)"
proof -
  have "keeps (recorded_is R) (\<lambda>s. chain (announce k (p s)) (\<lambda>_. ret x) s)" for k p and x :: "queue_item option"
    by (auto simp: keeps_def act_simps intro: recorded_is_update)
  then show ?thesis
    unfolding take_item_def by (intro keeps_rules history_is_pop) simp_all
qed

text \<open>The item in the hands of the thread.\<close>

fun busy_items :: "thread_at \<Rightarrow> queue_item multiset" where
  "busy_items (Busy it t0) = {#it#}"
| "busy_items _ = {#}"

fun quiet_about_history :: "seq_event \<Rightarrow> bool" where
  "quiet_about_history (EQueueCall c) \<longleftrightarrow> \<not> touches_history c"
| "quiet_about_history ev \<longleftrightarrow> True"

definition accounted :: "queue_item multiset \<Rightarrow> database machine \<Rightarrow> bool" where
  "accounted R mc \<longleftrightarrow> seq_ok (mc_seq mc) \<and>
     image_mset he_item (mset (recorded (mc_seq mc))) + busy_items (mc_at mc) = R + mset (mc_started mc)"

lemma accounted_keeps:
  assumes "\<And>R. keeps (recorded_is R) m" "accounted R mc"
    and "mc_seq mc' = snd (m (mc_seq mc))" "busy_items (mc_at mc') = busy_items (mc_at mc)" "mc_started mc' = mc_started mc"
  shows "accounted R mc'"
proof -
  have "recorded_is (mset (recorded (mc_seq mc))) (mc_seq mc)"
    using assms(2) by (simp add: recorded_is_def accounted_def)
  from keepsD [OF assms(1) this] show ?thesis
    using assms(2-5) by (simp add: recorded_is_def accounted_def)
qed

lemma accounted_step:
  assumes "quiet_about_history ev" "accounted R mc"
  shows "accounted R (machine_step SqlQueueRepository tx pr ev mc)"
proof (cases ev)
  case (EQueueCall c)
  with assms(1) have "keeps (recorded_is R) (on_queue (run_call SqlQueueRepository c))" for R
    by (intro recorded_is_queue history_is_call) simp
  from accounted_keeps [OF this assms(2)] EQueueCall show ?thesis by (simp add: control_def)
next
  case (EHost h)
  have "keeps (recorded_is R) (modify (\<lambda>s. s\<lparr>sq_host := h\<rparr>))" for R by (rule recorded_is_modify) simp
  from accounted_keeps [OF this assms(2)] EHost show ?thesis by (simp add: act_simps)
next
  case ECheck
  show ?thesis
  proof (cases "mc_at mc = AtTop")
    case True
    show ?thesis
      by (rule accounted_keeps [OF recorded_is_should_run assms(2)])
        (use True ECheck in \<open>auto split: prod.split sum.split\<close>)
  next
    case False
    with assms(2) ECheck show ?thesis by simp
  qed
next
  case (ETake now)
  show ?thesis
  proof (cases "mc_at mc = Checked")
    case True
    obtain r s where r: "take_item SqlQueueRepository (mc_seq mc) = (r, s)" by force
    have "accounted R (mc\<lparr>mc_seq := s\<rparr>)"
      by (rule accounted_keeps [OF recorded_is_take assms(2)]) (use r in simp_all)
    with True ETake r show ?thesis
      by (auto simp: accounted_def split: sum.split option.split)
  next
    case False
    with assms(2) ETake show ?thesis by simp
  qed
next
  case (EOutcome reg fresh oc t1 now)
  show ?thesis
  proof (cases "mc_at mc")
    case (Busy it t0)
    have "seq_ok (mc_seq mc)" using assms(2) by (simp add: accounted_def)
    then obtain s' where s': "finish_item SqlQueueRepository tx reg fresh it oc t0 t1 now (mc_seq mc) = (Inr (), s')"
      "seq_ok s'" "mset (recorded s') = add_mset (history_of it oc t0 now) (mset (recorded (mc_seq mc)))"
      using finish_records_step by blast
    have "he_item (history_of it oc t0 now) = it" by (simp add: history_of_def)
    with Busy EOutcome s' assms(2) show ?thesis by (simp add: accounted_def)
  qed (use assms(2) EOutcome in simp_all)
qed (use assms(2) in \<open>simp_all add: control_def\<close>, (rule accounted_keeps, (rule recorded_is_start recorded_is_controls),
    assumption, simp_all)+)

text \<open>
  Every item the loop has started is accounted for. However API calls, loop steps and
  database failures interleave, as long as nobody rewrites the history: the items in the
  history (in the database or held in memory) are those of before plus the started ones,
  each exactly once, except for the one whose plan is running.
\<close>

theorem started_items_accounted:
  assumes "seq_ok (mc_seq mc)" "mc_started mc = []" "busy_items (mc_at mc) = {#}"
    and "\<forall>ev \<in> set evs. quiet_about_history ev"
  shows "image_mset he_item (mset (recorded (mc_seq (run_events SqlQueueRepository tx pr evs mc)))) +
      busy_items (mc_at (run_events SqlQueueRepository tx pr evs mc)) =
    image_mset he_item (mset (recorded (mc_seq mc))) + mset (mc_started (run_events SqlQueueRepository tx pr evs mc))"
proof -
  let ?R = "image_mset he_item (mset (recorded (mc_seq mc)))"
  have "accounted ?R (run_events SqlQueueRepository tx pr evs mc)"
    by (rule run_events_invariant)
      (use assms in \<open>auto intro: accounted_step simp: accounted_def [of ?R mc]\<close>)
  then show ?thesis by (simp add: accounted_def)
qed

theorem started_items_accounted_witness:
  "(let mc = run_events SqlQueueRepository example_texts (\<lambda>t. ''text'') [ECheck, ETake 0, EStop,
      EOutcome example_registry (\<lambda>_. (''n'', 0)) (new_outcome ''a'' ''success'') 1 1]
      (example_machine\<lparr>mc_seq := (mc_seq example_machine)\<lparr>sq_queue := failing_service\<rparr>\<rparr>)
    in image_mset he_item (mset (recorded (mc_seq mc))) + busy_items (mc_at mc) = mset (mc_started mc))"
proof -
  let ?mc = "example_machine\<lparr>mc_seq := (mc_seq example_machine)\<lparr>sq_queue := failing_service\<rparr>\<rparr>"
  have "seq_ok (mc_seq ?mc)"
    using example_ready
    by (simp add: seq_ok_def example_machine_def Sequencer_init_def failing_service_def ordinary_faults_def sql_ready_def
      sql_valid_def)
  moreover have "recorded (mc_seq ?mc) = []"
    by (simp add: recorded_def example_machine_def Sequencer_init_def failing_service_def example_service_def
      sql_history_def sql_abs_def tables_abs_def del: sql_abs_service)
  moreover have "mc_started ?mc = []" "busy_items (mc_at ?mc) = {#}" by (simp_all add: example_machine_def)
  moreover have "\<forall>ev \<in> set [ECheck, ETake 0, EStop,
      EOutcome example_registry (\<lambda>_. (''n'', 0)) (new_outcome ''a'' ''success'') 1 1]. quiet_about_history ev" by simp
  ultimately show ?thesis
    using started_items_accounted [of ?mc "[ECheck, ETake 0, EStop,
      EOutcome example_registry (\<lambda>_. (''n'', 0)) (new_outcome ''a'' ''success'') 1 1]" example_texts "\<lambda>t. ''text''"]
    unfolding Let_def by (metis (no_types) add_0 image_mset_empty mset.simps(1))
qed

end
