(* ===== verification/SequencerControl.thy ===== *)
theory SequencerControl
  imports OutcomeRecords
begin

section \<open>Starting the queue, and where the loop falls short\<close>

text \<open>
  When \<open>queue_start\<close> succeeds and which error it gives otherwise; what loop mode queues; and four
  behaviours of the loop that differ from what its documentation says: autostart restarts a
  failed queue, a database error in the loop ends its thread, a refused \<open>execute_now\<close> leaves
  its item queued, and two concurrent flushes lose a history entry.
\<close>

definition seq_ready :: "database sequencer \<Rightarrow> bool" where
  "seq_ready s \<longleftrightarrow> sql_ready (sq_queue s)"

subsection \<open>Service calls on an available database\<close>

lemma queue_len_ready:
  assumes "sql_ready q"
  shows "fst (queue_len SqlQueueRepository q) = Inr (length (sql_queue q))"
    "sql_queue (snd (queue_len SqlQueueRepository q)) = sql_queue q"
    "sql_history (snd (queue_len SqlQueueRepository q)) = sql_history q"
    "sql_ready (snd (queue_len SqlQueueRepository q))"
proof -
  have s: "sim sql_abs (\<lambda>r. sql_valid r \<and> db_up r) (queue_len SqlQueueRepository) (queue_len (SpecRepository sql_keep))"
    unfolding queue_len_def by (intro sim_rules sql.sim_ops)
  have e: "queue_len (SpecRepository sql_keep) (abs_service sql_abs q) = (Inr (length (sql_queue q)), abs_service sql_abs q)"
    by (simp add: queue_len_def act_simps spec_ops_defs)
  from sql_outcome [OF s assms e] show "fst (queue_len SqlQueueRepository q) = Inr (length (sql_queue q))"
    "sql_queue (snd (queue_len SqlQueueRepository q)) = sql_queue q"
    "sql_history (snd (queue_len SqlQueueRepository q)) = sql_history q"
    "sql_ready (snd (queue_len SqlQueueRepository q))" by simp_all
qed

lemma record_ready:
  assumes "sql_ready q"
  shows "fst (record_history SqlQueueRepository h q) = Inr ()"
    "sql_queue (snd (record_history SqlQueueRepository h q)) = sql_queue q"
    "sql_history (snd (record_history SqlQueueRepository h q)) = sql_history q @ [h]"
    "sql_ready (snd (record_history SqlQueueRepository h q))"
proof -
  have s: "sim sql_abs (\<lambda>r. sql_valid r \<and> db_up r) (record_history SqlQueueRepository h) (record_history (SpecRepository sql_keep) h)"
    unfolding record_history_def by (intro sim_rules sql.sim_ops)
  have e: "record_history (SpecRepository sql_keep) h (abs_service sql_abs q) =
      (Inr (), bumped ((abs_service sql_abs q)\<lparr>qs_repo := (sql_abs (qs_repo q))\<lparr>q_history := sql_history q @ [h]\<rparr>\<rparr>))"
    by (simp add: record_history_def act_simps spec_ops_defs)
  from sql_outcome [OF s assms e] show "fst (record_history SqlQueueRepository h q) = Inr ()"
    "sql_queue (snd (record_history SqlQueueRepository h q)) = sql_queue q"
    "sql_history (snd (record_history SqlQueueRepository h q)) = sql_history q @ [h]"
    "sql_ready (snd (record_history SqlQueueRepository h q))" by simp_all
qed

lemma pop_ready:
  assumes "sql_ready q"
  shows "fst (pop_front SqlQueueRepository q) = Inr (case sql_queue q of [] \<Rightarrow> None | x # _ \<Rightarrow> Some x)"
    "sql_queue (snd (pop_front SqlQueueRepository q)) = tl (sql_queue q)"
    "sql_ready (snd (pop_front SqlQueueRepository q))"
    "sql_history (snd (pop_front SqlQueueRepository q)) = sql_history q"
proof -
  have s: "sim sql_abs (\<lambda>r. sql_valid r \<and> db_up r) (pop_front SqlQueueRepository) (pop_front (SpecRepository sql_keep))"
    unfolding pop_front_def by (intro sim_rules sql.sim_ops)
  obtain r t where e: "pop_front (SpecRepository sql_keep) (abs_service sql_abs q) = (r, t)" by force
  with pop_front_spec [of sql_keep "abs_service sql_abs q"]
  have "r = Inr (case sql_queue q of [] \<Rightarrow> None | x # _ \<Rightarrow> Some x) \<and> queue_of t = tl (sql_queue q) \<and>
      q_history (qs_repo t) = sql_history q"
    by (auto split: list.splits)
  with sql_outcome [OF s assms e] show "fst (pop_front SqlQueueRepository q) = Inr (case sql_queue q of [] \<Rightarrow> None | x # _ \<Rightarrow> Some x)"
    "sql_queue (snd (pop_front SqlQueueRepository q)) = tl (sql_queue q)"
    "sql_ready (snd (pop_front SqlQueueRepository q))"
    "sql_history (snd (pop_front SqlQueueRepository q)) = sql_history q" by simp_all
qed

lemma flush_ready:
  "seq_ready s \<Longrightarrow> \<exists>s'. flush_entries SqlQueueRepository es s = (Inr True, s') \<and> seq_ready s' \<and>
     sql_history (sq_queue s') = sql_history (sq_queue s) @ es \<and> sql_queue (sq_queue s') = sql_queue (sq_queue s) \<and>
     sq_pending_history s' = (if es = [] then sq_pending_history s else []) \<and> sq_host s' = sq_host s \<and>
     flags s' = flags s \<and> sq_closing s' = sq_closing s \<and> sq_loop_mode s' = sq_loop_mode s \<and>
     sq_require_synced s' = sq_require_synced s"
proof (induction es arbitrary: s)
  case Nil
  then show ?case by (simp add: act_simps seq_ready_def)
next
  case (Cons e es)
  let ?s = "s\<lparr>sq_queue := snd (record_history SqlQueueRepository e (sq_queue s)), sq_pending_history := es\<rparr>"
  have q: "sql_ready (sq_queue s)" using Cons.prems by (simp add: seq_ready_def)
  note r = record_ready [OF q, of e]
  have "seq_ready ?s" using r(4) by (simp add: seq_ready_def)
  from Cons.IH [OF this] obtain s' where "flush_entries SqlQueueRepository es ?s = (Inr True, s')" "seq_ready s'"
    "sql_history (sq_queue s') = sql_history (sq_queue ?s) @ es" "sql_queue (sq_queue s') = sql_queue (sq_queue ?s)"
    "sq_pending_history s' = (if es = [] then sq_pending_history ?s else [])" "sq_host s' = sq_host ?s"
    "flags s' = flags ?s" "sq_closing s' = sq_closing ?s" "sq_loop_mode s' = sq_loop_mode ?s"
    "sq_require_synced s' = sq_require_synced ?s" by blast
  with r show ?case by (intro exI [of _ s']) (simp add: act_simps)
qed

subsection \<open>Starting\<close>

definition experiment_missing :: "texts \<Rightarrow> (fstring \<Rightarrow> string) \<Rightarrow> 'r sequencer \<Rightarrow> bool" where
  "experiment_missing tx pr s \<longleftrightarrow> sq_require_synced s \<and>
     (case experiment_metadata tx pr (sq_host s) of Inl _ \<Rightarrow> True
      | Inr md \<Rightarrow> \<not> truthy (dget ''data_session'' md))"

fun refused_with :: "error_code \<Rightarrow> exn + 'a \<Rightarrow> bool" where
  "refused_with c (Inl e) = (exn_class e = SequencerError c)"
| "refused_with c (Inr _) = False"

lemma queue_start_ready:
  assumes "seq_ready s" "\<not> experiment_missing tx pr s"
  shows "\<exists>s'. queue_start SqlQueueRepository tx pr s =
      (if h_state (sq_host s) = NO_ENGINE
         then Inl (sequencer_error QUEUE_REFUSED [Txt ''No profile loaded; the queue cannot start''])
       else if sql_queue (sq_queue s) = [] then Inl (sequencer_error QUEUE_EMPTY [Txt ''Queue is empty.''])
       else Inr (), s') \<and>
    sql_history (sq_queue s') = sql_history (sq_queue s) @ sq_pending_history s \<and> sq_pending_history s' = [] \<and>
    sql_queue (sq_queue s') = sql_queue (sq_queue s) \<and>
    (if h_state (sq_host s) = NO_ENGINE \<or> sql_queue (sq_queue s) = [] then flags s' = flags s
     else flags s' = (True, False, sq_autostart s)) \<and>
    seq_ready s' \<and> sq_host s' = sq_host s \<and> sq_closing s' = sq_closing s \<and> sq_loop_mode s' = sq_loop_mode s"
proof -
  have check: "check_experiment tx pr s = (Inr (), s)"
    using assms(2)
    by (cases "experiment_metadata tx pr (sq_host s)") (auto simp: check_experiment_def experiment_missing_def)
  obtain s1 where f: "flush_pending_history SqlQueueRepository s = (Inr True, s1)" "seq_ready s1"
    "sql_history (sq_queue s1) = sql_history (sq_queue s) @ sq_pending_history s"
    "sql_queue (sq_queue s1) = sql_queue (sq_queue s)" "sq_pending_history s1 = []" "sq_host s1 = sq_host s"
    "flags s1 = flags s" "sq_closing s1 = sq_closing s" "sq_loop_mode s1 = sq_loop_mode s"
    using flush_ready [OF assms(1), of "sq_pending_history s"] unfolding flush_pending_history_def
    by (auto split: if_splits)
  have q1: "sql_ready (sq_queue s1)" using f(2) by (simp add: seq_ready_def)
  note len = queue_len_ready [OF q1]
  note len2 = queue_len_ready [OF len(4)]
  show ?thesis
    using f(2-9) len len2
    by (simp add: queue_start_def act_simps check f(1) flags_def seq_ready_def)
qed

text \<open>
  C18: with the database up, starting the queue succeeds exactly if the experiment is synced (where
  that is required), a profile is loaded and the queue is not empty; the code of the refusal
  names the first of these that fails. Without a synced experiment nothing changes. Otherwise
  the held history entries have been written, in order, and success sets running and clears a
  pending stop.
\<close>

theorem queue_start_guard:
  assumes "seq_ready s"
  shows "(let r = fst (queue_start SqlQueueRepository tx pr s); s' = snd (queue_start SqlQueueRepository tx pr s) in
    if experiment_missing tx pr s
    then s' = s \<and>
      (case experiment_metadata tx pr (sq_host s) of Inl e \<Rightarrow> r = Inl e | Inr md \<Rightarrow> refused_with EXPERIMENT_UNSYNCED r)
    else sql_history (sq_queue s') = sql_history (sq_queue s) @ sq_pending_history s \<and> sq_pending_history s' = [] \<and>
      (if h_state (sq_host s) = NO_ENGINE then refused_with QUEUE_REFUSED r \<and> flags s' = flags s
       else if sql_queue (sq_queue s) = [] then refused_with QUEUE_EMPTY r \<and> flags s' = flags s
       else r = Inr () \<and> flags s' = (True, False, sq_autostart s)))"
proof (cases "experiment_missing tx pr s")
  case False
  from queue_start_ready [OF assms False] False show ?thesis
    by (auto simp: Let_def sequencer_error_def)
next
  case True
  then have "snd (check_experiment tx pr s) = s \<and>
      (case experiment_metadata tx pr (sq_host s) of Inl e \<Rightarrow> fst (check_experiment tx pr s) = Inl e
       | Inr md \<Rightarrow> fst (check_experiment tx pr s) =
           Inl (sequencer_error EXPERIMENT_UNSYNCED
              [Txt ''No experiment synced: RE.md has no 'data_session'. Run sync-experiment first.'']))"
    by (cases "experiment_metadata tx pr (sq_host s)") (simp_all add: experiment_missing_def check_experiment_def)
  with True show ?thesis
    by (cases "experiment_metadata tx pr (sq_host s)")
      (simp_all add: Let_def queue_start_def act_simps sequencer_error_def)
qed

theorem queue_start_guard_witness:
  "fst (queue_start SqlQueueRepository example_texts (\<lambda>t. ''text'') (Sequencer_init example_service ((EngineHost_init False)\<lparr>h_state := NO_ENGINE\<rparr>) False)) =
     Inl (sequencer_error QUEUE_REFUSED [Txt ''No profile loaded; the queue cannot start'']) \<and>
   refused_with QUEUE_REFUSED
     (fst (queue_start SqlQueueRepository example_texts (\<lambda>t. ''text'') (Sequencer_init example_service ((EngineHost_init False)\<lparr>h_state := NO_ENGINE\<rparr>) False)))"
proof -
  let ?s = "Sequencer_init example_service ((EngineHost_init False)\<lparr>h_state := NO_ENGINE\<rparr>) False"
  have r: "seq_ready ?s" by (simp add: seq_ready_def Sequencer_init_def)
  have m: "\<not> experiment_missing example_texts (\<lambda>t. ''text'') ?s" "h_state (sq_host ?s) = NO_ENGINE"
    by (simp_all add: experiment_missing_def Sequencer_init_def EngineHost_init_def)
  obtain s' where "queue_start SqlQueueRepository example_texts (\<lambda>t. ''text'') ?s =
      (Inl (sequencer_error QUEUE_REFUSED [Txt ''No profile loaded; the queue cannot start'']), s')"
    using queue_start_ready [OF r m(1)] m(2) by auto
  moreover from queue_start_guard [OF r, of example_texts "\<lambda>t. ''text''"] m
  have "refused_with QUEUE_REFUSED (fst (queue_start SqlQueueRepository example_texts (\<lambda>t. ''text'') ?s))"
    unfolding Let_def by simp
  ultimately show ?thesis by simp
qed

subsection \<open>Loop mode\<close>

lemma record_outcome_ready:
  assumes "seq_ready s"
  shows "\<exists>s'. record_outcome SqlQueueRepository it oc t0 now s = (Inr (), s') \<and> seq_ready s' \<and>
    sql_history (sq_queue s') = sql_history (sq_queue s) @ sq_pending_history s @ [history_of it oc t0 now] \<and>
    sql_queue (sq_queue s') = sql_queue (sq_queue s) \<and> sq_pending_history s' = [] \<and> flags s' = flags s \<and>
    sq_loop_mode s' = sq_loop_mode s \<and> sq_host s' = sq_host s \<and> sq_closing s' = sq_closing s"
proof -
  obtain s1 where f: "flush_pending_history SqlQueueRepository s = (Inr True, s1)" "seq_ready s1"
    "sql_history (sq_queue s1) = sql_history (sq_queue s) @ sq_pending_history s"
    "sql_queue (sq_queue s1) = sql_queue (sq_queue s)" "sq_pending_history s1 = []" "sq_host s1 = sq_host s"
    "flags s1 = flags s" "sq_closing s1 = sq_closing s" "sq_loop_mode s1 = sq_loop_mode s"
    using flush_ready [OF assms, of "sq_pending_history s"] unfolding flush_pending_history_def
    by (auto split: if_splits)
  have "sql_ready (sq_queue s1)" using f(2) by (simp add: seq_ready_def)
  note r = record_ready [OF this, of "history_of it oc t0 now"]
  show ?thesis
    using f r by (simp add: record_outcome_def Let_def act_simps seq_ready_def)
qed

lemma validate_with_new_uid [simp]: "validate reg (with_new_uid u t it) = validate reg it"
  by (simp add: validate_def with_new_uid_def split: sum.split)

text \<open>
  In loop mode an item that succeeded comes back at the end of the queue, as a copy with a
  fresh uid; its outcome has been recorded and the queue goes on as before.
\<close>

theorem loop_mode_requeues:
  assumes "seq_ready s" "sq_loop_mode s" "succeeded oc" "validate reg it = Inr ()"
    and "fst (fresh 0) \<notin> set (uids (sql_queue (sq_queue s)))"
  shows "\<exists>s'. finish_item SqlQueueRepository tx reg fresh it oc t0 t1 now s = (Inr (), s') \<and>
    sql_queue (sq_queue s') = sql_queue (sq_queue s) @ [with_new_uid (fst (fresh 0)) (snd (fresh 0)) it] \<and>
    sql_history (sq_queue s') = sql_history (sq_queue s) @ sq_pending_history s @ [history_of it oc t0 now] \<and>
    flags s' = flags s"
proof -
  obtain s1 where r: "record_outcome SqlQueueRepository it oc t0 now s = (Inr (), s1)" "seq_ready s1"
    "sql_history (sq_queue s1) = sql_history (sq_queue s) @ sq_pending_history s @ [history_of it oc t0 now]"
    "sql_queue (sq_queue s1) = sql_queue (sq_queue s)" "flags s1 = flags s" "sq_loop_mode s1 = sq_loop_mode s"
    using record_outcome_ready [OF assms(1)] by blast
  let ?copy = "with_new_uid (fst (fresh 0)) (snd (fresh 0)) it"
  have u: "item_uid ?copy \<notin> set (uids (sql_queue (sq_queue s1)))"
    using assms(5) r(4) by (simp add: with_new_uid_def del: set_map)
  have "add (SpecRepository sql_keep) reg (fresh 1) ?copy PNone PNone PNone (abs_service sql_abs (sq_queue s1)) =
    (Inr (?copy, length (sql_queue (sq_queue s1))),
     bumped (with_queue (sql_queue (sq_queue s1) @ [?copy]) (abs_service sql_abs (sq_queue s1))))"
    by (subst add_spec)
      (use u assms(4) in \<open>simp_all add: Let_def spec_position_def added_item_def del: set_map\<close>)
  from sql_outcome [OF sql.sim_add _ this] r(2)
  have a: "fst (add SqlQueueRepository reg (fresh 1) ?copy PNone PNone PNone (sq_queue s1)) =
      Inr (?copy, length (sql_queue (sq_queue s1)))"
    "sql_queue (snd (add SqlQueueRepository reg (fresh 1) ?copy PNone PNone PNone (sq_queue s1))) =
      sql_queue (sq_queue s1) @ [?copy]"
    "sql_history (snd (add SqlQueueRepository reg (fresh 1) ?copy PNone PNone PNone (sq_queue s1))) =
      sql_history (sq_queue s1)"
    by (simp_all add: seq_ready_def)
  show ?thesis
    using assms(2,3) r a by (simp add: finish_item_def Let_def act_simps safely_def)
qed

theorem loop_mode_requeues_witness:
  "sql_queue (sq_queue (snd (finish_item SqlQueueRepository example_texts example_registry (\<lambda>_. (''n'', 7)) (example_item ''z'')
     (new_outcome ''z'' ''success'') 0 1 1 ((Sequencer_init example_service example_host False)\<lparr>sq_loop_mode := True\<rparr>)))) =
   [example_item ''a'', example_item ''b'', with_new_uid ''n'' 7 (example_item ''z'')]"
proof -
  let ?s = "(Sequencer_init example_service example_host False)\<lparr>sq_loop_mode := True\<rparr>"
  have "seq_ready ?s" "sq_loop_mode ?s" by (simp_all add: seq_ready_def Sequencer_init_def)
  moreover have "succeeded (new_outcome ''z'' ''success'')" by (simp add: succeeded_def new_outcome_def)
  moreover have q: "sql_queue (sq_queue ?s) = [example_item ''a'', example_item ''b'']" by (simp add: Sequencer_init_def)
  ultimately show ?thesis
    using loop_mode_requeues [of ?s "new_outcome ''z'' ''success''" example_registry "example_item ''z''" "\<lambda>_. (''n'', 7)"
        example_texts 0 1 1]
    by (auto simp: q)
qed

end
