(* ===== verification/LoopFaults.thy ===== *)
theory LoopFaults
  imports SequencerControl
begin

section \<open>Where the loop falls short of its description\<close>

text \<open>
  Behaviours of the loop that the module documentation rules out: autostart restarts a failed
  queue, a database error in the loop ends its thread while the queue goes on reporting that it
  runs, a refused \<open>execute_now\<close> leaves its item at the front, and two flushes at once write one
  history entry twice and drop another.
\<close>

subsection \<open>Autostart and stop-and-wait\<close>

text \<open>
  The module promises that after a failure nothing runs until a human starts the queue
  again. With autostart on, the very next pass of the loop switches the queue back on and takes
  the next item.
\<close>

theorem autostart_overrides_stop_and_wait:
  assumes "seq_ready s" "sq_autostart s" "\<not> sq_closing s" "h_state (sq_host s) = IDLE"
    and "sql_queue (sq_queue s) = it' # rest" "\<not> succeeded oc"
  shows "\<exists>s1 s2 s3. finish_item SqlQueueRepository tx reg fresh it oc t0 t1 now s = (Inr (), s1) \<and>
    \<not> sq_running s1 \<and> should_run SqlQueueRepository s1 = (Inr True, s2) \<and>
    take_item SqlQueueRepository s2 = (Inr (Some it'), s3)"
proof -
  obtain s1 where r: "record_outcome SqlQueueRepository it oc t0 now s = (Inr (), s1)" "seq_ready s1"
    "sql_queue (sq_queue s1) = it' # rest" "flags s1 = flags s" "sq_host s1 = sq_host s" "sq_closing s1 = sq_closing s"
    using record_outcome_ready [OF assms(1)] assms(5) by metis
  obtain s2 where f: "finish_item SqlQueueRepository tx reg fresh it oc t0 t1 now s = (Inr (), s2)"
    "flags s2 = (False, False, True)" "sq_queue s2 = sq_queue s1" "sq_host s2 = sq_host s" "\<not> sq_closing s2"
    using assms(2,3,6) r by (simp add: finish_item_def Let_def act_simps flags_def)
  have q: "sql_ready (sq_queue s2)" using r(2) f(3) by (simp add: seq_ready_def)
  note l = queue_len_ready [OF q]
  note l' = queue_len_ready [OF l(4)]
  obtain s3 where g: "should_run SqlQueueRepository s2 = (Inr True, s3)" "sql_ready (sq_queue s3)"
    "sql_queue (sq_queue s3) = it' # rest"
    using f r(3) l l' assms(4) by (simp add: should_run_def act_simps flags_def)
  note p = pop_ready [OF g(2)]
  have "\<exists>s4. take_item SqlQueueRepository s3 = (Inr (Some it'), s4)"
    using p(1) g(3) by (simp add: take_item_def act_simps)
  with f g show ?thesis by (auto simp: flags_def)
qed

theorem autostart_overrides_stop_and_wait_witness:
  "\<exists>s1 s2 s3. finish_item SqlQueueRepository example_texts example_registry (\<lambda>_. (''n'', 0)) (example_item ''z'')
      (new_outcome ''z'' ''fail'') 0 1 1 ((Sequencer_init example_service example_host False)\<lparr>sq_autostart := True\<rparr>) = (Inr (), s1) \<and>
    \<not> sq_running s1 \<and> should_run SqlQueueRepository s1 = (Inr True, s2) \<and>
    take_item SqlQueueRepository s2 = (Inr (Some (example_item ''a'')), s3)"
  by (rule autostart_overrides_stop_and_wait)
    (simp_all add: seq_ready_def Sequencer_init_def example_host_def EngineHost_init_def succeeded_def new_outcome_def)

subsection \<open>A database error in the loop\<close>

lemma dead_step: "mc_at mc = Dead \<and> mc_started mc = its \<Longrightarrow>
   mc_at (machine_step ops tx pr ev mc) = Dead \<and> mc_started (machine_step ops tx pr ev mc) = its"
  by (cases ev) (simp_all add: control_def)

lemma pop_fault:
  assumes "db_faults (qs_repo q) = Some e # fs"
  shows "fst (pop_front SqlQueueRepository q) = Inl e" "sql_queue (snd (pop_front SqlQueueRepository q)) = sql_queue q"
  using assms
  by (simp_all add: pop_front_def act_simps SqlQueueRepository_def sql_pop_front_def session_def sql_queue_def
      sql_abs_def del: sql_abs_service)

text \<open>
  C38: the module promises that a database error stops the queue and is reported. When the error
  hits the pop of the loop itself, the thread ends: the queue keeps claiming to run, no error is
  set and no event sent; and whatever is called afterwards (stop, start, autostart included), no
  item is ever taken again.
\<close>

theorem loop_fault_ends_thread:
  assumes "mc_at mc = Checked" "sq_running (mc_seq mc)" "db_faults (qs_repo (sq_queue (mc_seq mc))) = Some e # fs"
  shows "(let mc' = machine_step SqlQueueRepository tx pr (ETake now) mc in
      sq_running (mc_seq mc') \<and> sq_last_error (mc_seq mc') = sq_last_error (mc_seq mc) \<and>
      sq_database_error (mc_seq mc') = sq_database_error (mc_seq mc) \<and>
      sq_events (mc_seq mc') = sq_events (mc_seq mc) \<and> sql_queue (sq_queue (mc_seq mc')) = sql_queue (sq_queue (mc_seq mc))) \<and>
    mc_at (run_events SqlQueueRepository tx pr (ETake now # evs) mc) = Dead \<and>
    mc_started (run_events SqlQueueRepository tx pr (ETake now # evs) mc) = mc_started mc"
proof -
  let ?mc = "machine_step SqlQueueRepository tx pr (ETake now) mc"
  have t: "take_item SqlQueueRepository (mc_seq mc) =
      (Inl e, (mc_seq mc)\<lparr>sq_queue := snd (pop_front SqlQueueRepository (sq_queue (mc_seq mc)))\<rparr>)"
    using pop_fault(1) [OF assms(3)] by (simp add: take_item_def act_simps)
  have now: "mc_at ?mc = Dead \<and> mc_started ?mc = mc_started mc"
    using assms(1) t by simp
  have "mc_at (run_events SqlQueueRepository tx pr evs ?mc) = Dead \<and>
      mc_started (run_events SqlQueueRepository tx pr evs ?mc) = mc_started mc"
    by (rule run_events_invariant [where P = "\<lambda>m. mc_at m = Dead \<and> mc_started m = mc_started mc"])
      (use dead_step now in blast)+
  with assms(1,2) t pop_fault(2) [OF assms(3)] show ?thesis by (simp add: Let_def)
qed

definition outage :: exn where
  "outage = Exn (OtherException ''OperationalError'') []"

definition faulty_machine :: "database machine" where
  "faulty_machine = example_machine\<lparr>mc_at := Checked, mc_seq := (mc_seq example_machine)\<lparr>sq_queue :=
     example_service\<lparr>qs_repo := (qs_repo example_service)\<lparr>db_faults := [Some outage]\<rparr>\<rparr>\<rparr>\<rparr>"

theorem loop_fault_ends_thread_witness:
  "sq_running (mc_seq (machine_step SqlQueueRepository example_texts (\<lambda>t. ''text'') (ETake 0) faulty_machine)) \<and>
   mc_started (run_events SqlQueueRepository example_texts (\<lambda>t. ''text'') [ETake 0, EStart, ECheck, ETake 1] faulty_machine) = []"
proof -
  have "mc_at faulty_machine = Checked" "sq_running (mc_seq faulty_machine)"
    "db_faults (qs_repo (sq_queue (mc_seq faulty_machine))) = Some outage # []" "mc_started faulty_machine = []"
    by (simp_all add: faulty_machine_def example_machine_def)
  then show ?thesis
    using loop_fault_ends_thread [of faulty_machine outage "[]" example_texts "\<lambda>t. ''text''" 0 "[EStart, ECheck, ETake 1]"]
    unfolding Let_def by (metis (no_types))
qed

subsection \<open>Execute\<close>

lemma push_ready:
  assumes "sql_ready q" "item_uid it \<notin> set (uids (sql_queue q))"
  shows "fst (push_front SqlQueueRepository it q) = Inr ()"
    "sql_queue (snd (push_front SqlQueueRepository it q)) = it # sql_queue q"
    "sql_ready (snd (push_front SqlQueueRepository it q))"
proof -
  have s: "sim sql_abs (\<lambda>r. sql_valid r \<and> db_up r) (push_front SqlQueueRepository it) (push_front (SpecRepository sql_keep) it)"
    unfolding push_front_def by (intro sim_rules sql.sim_ops)
  have e: "push_front (SpecRepository sql_keep) it (abs_service sql_abs q) =
      (Inr (), bumped (with_queue (it # sql_queue q) (abs_service sql_abs q)))"
    using assms(2) by (simp add: push_front_spec del: set_map)
  from sql_outcome [OF s assms(1) e] show "fst (push_front SqlQueueRepository it q) = Inr ()"
    "sql_queue (snd (push_front SqlQueueRepository it q)) = it # sql_queue q"
    "sql_ready (snd (push_front SqlQueueRepository it q))" by simp_all
qed

text \<open>
  Executing an item at once puts it at the front and starts the queue. When the start is
  refused (no profile) the call fails, but the item stays at the front of the queue: it runs
  when the queue is started next.
\<close>

theorem refused_execute_leaves_item:
  assumes "seq_ready s" "item_uid it \<notin> set (uids (sql_queue (sq_queue s)))" "\<not> sq_require_synced s"
  shows "(let r = fst (execute_now SqlQueueRepository tx pr it s); s' = snd (execute_now SqlQueueRepository tx pr it s) in
    sql_queue (sq_queue s') = it # sql_queue (sq_queue s) \<and>
    (if h_state (sq_host s) = NO_ENGINE then refused_with QUEUE_REFUSED r \<and> flags s' = flags s
     else r = Inr () \<and> flags s' = (True, False, sq_autostart s)))"
proof -
  let ?q = "sq_queue s"
  let ?s = "s\<lparr>sq_queue := snd (push_front SqlQueueRepository it ?q)\<rparr>"
  have "sql_ready ?q" using assms(1) by (simp add: seq_ready_def)
  note p = push_ready [OF this assms(2)]
  have r: "seq_ready ?s" "\<not> experiment_missing tx pr ?s"
    using p(3) assms(3) by (simp_all add: seq_ready_def experiment_missing_def)
  from queue_start_ready [OF r] p(1,2) show ?thesis
    by (auto simp: Let_def execute_now_def act_simps sequencer_error_def flags_def)
qed

theorem refused_execute_leaves_item_witness:
  "sql_queue (sq_queue (snd (execute_now SqlQueueRepository example_texts (\<lambda>t. ''text'') (example_item ''z'')
     (Sequencer_init example_service ((EngineHost_init False)\<lparr>h_state := NO_ENGINE\<rparr>) False)))) =
   [example_item ''z'', example_item ''a'', example_item ''b'']"
proof -
  let ?s = "Sequencer_init example_service ((EngineHost_init False)\<lparr>h_state := NO_ENGINE\<rparr>) False"
  have "seq_ready ?s" "item_uid (example_item ''z'') \<notin> set (uids (sql_queue (sq_queue ?s)))" "\<not> sq_require_synced ?s"
    by (simp_all add: seq_ready_def Sequencer_init_def)
  moreover have "sql_queue (sq_queue ?s) = [example_item ''a'', example_item ''b'']" by (simp add: Sequencer_init_def)
  ultimately show ?thesis
    using refused_execute_leaves_item [of ?s "example_item ''z''" example_texts "\<lambda>t. ''text''"]
    unfolding Let_def by metis
qed

end
