(* ===== verification/FlushRace.thy ===== *)
theory FlushRace
  imports LoopFaults
begin

section \<open>Two flushes at once\<close>

text \<open>
  \<open>flush_pending_history\<close> runs on the thread that calls it: an API thread in \<open>queue_start\<close>, the
  sequencer thread in \<open>_record\<close>. It takes no lock. Here it is the loop it is, one step per access
  to the list of held entries: the test with the write of the oldest entry, and the \<open>pop(0)\<close>.
  Run alone it is \<open>flush_pending_history\<close> of \<open>Sequencer\<close>; run twice at once it is not.
\<close>

datatype flush_at = FlushTest | FlushWritten | FlushReturned bool | FlushRaised exn

fun flush_step :: "'r queue_repository \<Rightarrow> flush_at \<Rightarrow> 'r sequencer \<Rightarrow> flush_at \<times> 'r sequencer" where
  "flush_step ops FlushTest s =
     (case sq_pending_history s of
        [] \<Rightarrow> (FlushReturned True, s\<lparr>sq_database_error := None\<rparr>)
      | entry # _ \<Rightarrow>
          (case on_queue (record_history ops entry) s of
             (Inl e, s') \<Rightarrow>
               (if is_exception (exn_class e) then (FlushReturned False, s'\<lparr>sq_database_error := Some (typed_text e)\<rparr>)
                else (FlushRaised e, s'))
           | (Inr _, s') \<Rightarrow> (FlushWritten, s')))"
| "flush_step ops FlushWritten s =
     (case sq_pending_history s of
        [] \<Rightarrow> (FlushRaised (Exn (OtherException ''IndexError'') [Txt ''pop from empty list'']), s)
      | _ # rest \<Rightarrow> (FlushTest, s\<lparr>sq_pending_history := rest\<rparr>))"
| "flush_step ops st s = (st, s)"

text \<open>Two threads, a schedule of which one moves.\<close>

fun flush_schedule ::
  "'r queue_repository \<Rightarrow> bool list \<Rightarrow> flush_at \<times> flush_at \<times> 'r sequencer \<Rightarrow> flush_at \<times> flush_at \<times> 'r sequencer" where
  "flush_schedule ops [] st = st"
| "flush_schedule ops (first # sched) (a, b, s) =
     (if first then (case flush_step ops a s of (a', s') \<Rightarrow> flush_schedule ops sched (a', b, s'))
      else (case flush_step ops b s of (b', s') \<Rightarrow> flush_schedule ops sched (a, b', s')))"

fun flush_result :: "exn + bool \<Rightarrow> flush_at" where
  "flush_result (Inr b) = FlushReturned b"
| "flush_result (Inl e) = FlushRaised e"

fun run_flush :: "'r queue_repository \<Rightarrow> nat \<Rightarrow> flush_at \<times> 'r sequencer \<Rightarrow> flush_at \<times> 'r sequencer" where
  "run_flush ops 0 st = st"
| "run_flush ops (Suc n) (a, s) = run_flush ops n (flush_step ops a s)"

lemma run_flush_done [simp]:
  "run_flush ops n (FlushReturned b, s) = (FlushReturned b, s)" "run_flush ops n (FlushRaised e, s) = (FlushRaised e, s)"
  by (induction n) simp_all

lemma run_flush_entries:
  "sq_pending_history s = es \<Longrightarrow> 2 * length es < n \<Longrightarrow>
   run_flush ops n (FlushTest, s) =
     (flush_result (fst (flush_entries ops es s)), snd (flush_entries ops es s))"
proof (induction es arbitrary: s n)
  case Nil
  then obtain m where "n = Suc m" by (cases n) auto
  with Nil show ?case by (simp add: act_simps)
next
  case (Cons e es)
  then obtain m where n: "n = Suc (Suc m)" "2 * length es < m"
    by (cases n; cases "n - 1") auto
  let ?s = "s\<lparr>sq_queue := snd (record_history ops e (sq_queue s))\<rparr>"
  show ?case
  proof (cases "fst (record_history ops e (sq_queue s))")
    case (Inl x)
    with Cons.prems(1) n(1) show ?thesis by (simp add: act_simps)
  next
    case (Inr u)
    have "sq_pending_history (?s\<lparr>sq_pending_history := es\<rparr>) = es" by simp
    from Cons.IH [OF this n(2)] Inr Cons.prems(1) n(1) show ?thesis by (simp add: act_simps)
  qed
qed


text \<open>
  Two flushes that overlap write the oldest held entry twice and drop the next one without
  writing it, and both report that everything is written.
\<close>

theorem overlapping_flushes_lose_entry:
  assumes "seq_ready s" "sq_pending_history s = [h1, h2]"
  shows "\<exists>s'. flush_schedule SqlQueueRepository [True, False, True, False, True, False] (FlushTest, FlushTest, s) =
      (FlushReturned True, FlushReturned True, s') \<and>
    sql_history (sq_queue s') = sql_history (sq_queue s) @ [h1, h1] \<and> sq_pending_history s' = []"
proof -
  have "sql_ready (sq_queue s)" using assms(1) by (simp add: seq_ready_def)
  note a = record_ready [OF this, of h1]
  note b = record_ready [OF a(4), of h1]
  from a b assms(2) show ?thesis by (simp add: act_simps)
qed

theorem overlapping_flushes_lose_entry_witness:
  "\<exists>s'. flush_schedule SqlQueueRepository [True, False, True, False, True, False] (FlushTest, FlushTest,
      (Sequencer_init example_service example_host False)\<lparr>sq_pending_history :=
        [history_of (example_item ''y'') (new_outcome ''y'' ''success'') 0 1, history_of (example_item ''z'') (new_outcome ''z'' ''fail'') 1 2]\<rparr>) =
      (FlushReturned True, FlushReturned True, s') \<and> sq_pending_history s' = []"
  using overlapping_flushes_lose_entry [of "(Sequencer_init example_service example_host False)\<lparr>sq_pending_history :=
        [history_of (example_item ''y'') (new_outcome ''y'' ''success'') 0 1, history_of (example_item ''z'') (new_outcome ''z'' ''fail'') 1 2]\<rparr>"
      "history_of (example_item ''y'') (new_outcome ''y'' ''success'') 0 1" "history_of (example_item ''z'') (new_outcome ''z'' ''fail'') 1 2"]
  by (auto simp: seq_ready_def Sequencer_init_def)

end
