(* ===== verification/DirectiveProtocol.thy ===== *)
theory DirectiveProtocol
  imports EngineHost
begin

section \<open>The directive handshake, step by step\<close>

text \<open>
  While a plan is paused the engine thread waits in \<open>_wait_directive\<close>; the threads that serve
  operators run \<open>_set_directive\<close>, which first tests the state and then, as a step of its own,
  stores the directive. The relation interleaves these steps:
  \<^item> the engine thread: \<open>In_engine\<close> inside a call to the engine, \<open>Waiting\<close> in the condition
    variable (the state is \<open>PAUSED\<close>), \<open>Taken d\<close> between taking the directive and setting the
    state back to running, \<open>Between\<close> plans;
  \<^item> an operator's request that has passed the test is in \<open>hs_passed\<close> until it is stored.
  Plans are numbered; a directive carries the number of the plan that was paused when it
  passed the test, and the log says which plan took it. Only the parts of the host that the
  handshake uses are in the state.
\<close>

datatype thread_position = Between | In_engine | Waiting | Taken string

record handshake =
  hs_state :: engine_state
  hs_position :: thread_position
  hs_plan :: nat
  hs_directive :: "(nat \<times> string) option"
  hs_passed :: "(nat \<times> string) list"
  hs_log :: "(nat \<times> nat \<times> string) list"

definition handshake_init :: handshake where
  "handshake_init = \<lparr>hs_state = IDLE, hs_position = Between, hs_plan = 0, hs_directive = None,
     hs_passed = [], hs_log = []\<rparr>"

inductive handshake_step :: "handshake \<Rightarrow> handshake \<Rightarrow> bool" where
  plan_begins: "hs_position s = Between \<Longrightarrow>
    handshake_step s (s\<lparr>hs_state := ENGINE_RUNNING, hs_position := In_engine, hs_plan := hs_plan s + 1\<rparr>)"
| plan_ends: "hs_position s = In_engine \<Longrightarrow>
    handshake_step s (s\<lparr>hs_state := IDLE, hs_position := Between\<rparr>)"
| engine_pauses: "hs_position s = In_engine \<Longrightarrow>
    handshake_step s (s\<lparr>hs_state := PAUSED, hs_position := Waiting\<rparr>)"
| directive_taken: "hs_position s = Waiting \<Longrightarrow> hs_directive s = Some (n, d) \<Longrightarrow>
    handshake_step s (s\<lparr>hs_directive := None, hs_position := Taken d, hs_log := hs_log s @ [(hs_plan s, n, d)]\<rparr>)"
| engine_called: "hs_position s = Taken d \<Longrightarrow>
    handshake_step s (s\<lparr>hs_state := ENGINE_RUNNING, hs_position := In_engine\<rparr>)"
| request_passes: "hs_state s = PAUSED \<Longrightarrow>
    handshake_step s (s\<lparr>hs_passed := (hs_plan s, d) # hs_passed s\<rparr>)"
| request_stored: "r \<in> set (hs_passed s) \<Longrightarrow>
    handshake_step s (s\<lparr>hs_directive := Some r, hs_passed := remove1 r (hs_passed s)\<rparr>)"

inductive_cases handshake_stepE: "handshake_step s t"

inductive handshake_reachable :: "handshake \<Rightarrow> bool" where
  start: "handshake_reachable handshake_init"
| step: "handshake_reachable s \<Longrightarrow> handshake_step s t \<Longrightarrow> handshake_reachable t"

text \<open>
  An operator who waits for the effect: a new request passes the test only while the thread
  waits and no other request is on its way.
\<close>

definition patient_step :: "handshake \<Rightarrow> handshake \<Rightarrow> bool" where
  "patient_step s t \<longleftrightarrow> handshake_step s t \<and>
     (length (hs_passed s) < length (hs_passed t) \<longrightarrow>
        hs_position s = Waiting \<and> hs_directive s = None \<and> hs_passed s = [])"

inductive patiently_reachable :: "handshake \<Rightarrow> bool" where
  start: "patiently_reachable handshake_init"
| step: "patiently_reachable s \<Longrightarrow> patient_step s t \<Longrightarrow> patiently_reachable t"

subsection \<open>Invariants\<close>

fun position_state :: "thread_position \<Rightarrow> engine_state" where
  "position_state Between = IDLE"
| "position_state In_engine = ENGINE_RUNNING"
| "position_state Waiting = PAUSED"
| "position_state (Taken d) = PAUSED"

definition handshake_ok :: "handshake \<Rightarrow> bool" where
  "handshake_ok s \<longleftrightarrow> hs_state s = position_state (hs_position s) \<and>
     (\<forall>r \<in> set_option (hs_directive s) \<union> set (hs_passed s). fst r \<le> hs_plan s) \<and>
     (\<forall>(p, n, d) \<in> set (hs_log s). n \<le> p \<and> p \<le> hs_plan s)"

lemma handshake_ok_step: "handshake_step s t \<Longrightarrow> handshake_ok s \<Longrightarrow> handshake_ok t"
proof (induction rule: handshake_step.induct)
  case (plan_begins s)
  then show ?case by (auto simp: handshake_ok_def intro: le_SucI)
next
  case (directive_taken s n d)
  then show ?case by (auto simp: handshake_ok_def)
next
  case (request_stored r s)
  have "set (remove1 r (hs_passed s)) \<subseteq> set (hs_passed s)" by (rule set_remove1_subset)
  with request_stored show ?case by (auto simp: handshake_ok_def)
qed (auto simp: handshake_ok_def)


text \<open>A run in which a pause is answered twice, one request after the other; the plan after it is paused, too.\<close>

definition stale_run :: "handshake list" where
  "stale_run =
    (let st = (\<lambda>x p n d q l. \<lparr>hs_state = x, hs_position = p, hs_plan = n, hs_directive = d, hs_passed = q, hs_log = l\<rparr>) in
     [st IDLE Between 0 None [] [],
      st ENGINE_RUNNING In_engine 1 None [] [],
      st PAUSED Waiting 1 None [] [],
      st PAUSED Waiting 1 None [(1, ''resume'')] [],
      st PAUSED Waiting 1 (Some (1, ''resume'')) [] [],
      st PAUSED (Taken ''resume'') 1 None [] [(1, 1, ''resume'')],
      st PAUSED (Taken ''resume'') 1 None [(1, ''abort'')] [(1, 1, ''resume'')],
      st PAUSED (Taken ''resume'') 1 (Some (1, ''abort'')) [] [(1, 1, ''resume'')],
      st ENGINE_RUNNING In_engine 1 (Some (1, ''abort'')) [] [(1, 1, ''resume'')],
      st IDLE Between 1 (Some (1, ''abort'')) [] [(1, 1, ''resume'')],
      st ENGINE_RUNNING In_engine 2 (Some (1, ''abort'')) [] [(1, 1, ''resume'')],
      st PAUSED Waiting 2 (Some (1, ''abort'')) [] [(1, 1, ''resume'')],
      st PAUSED (Taken ''abort'') 2 None [] [(1, 1, ''resume''), (2, 1, ''abort'')]])"

inductive_simps handshake_step_iff: "handshake_step s t"

fun is_run :: "handshake list \<Rightarrow> bool" where
  "is_run (s # t # r) \<longleftrightarrow> handshake_step s t \<and> is_run (t # r)"
| "is_run r \<longleftrightarrow> True"

lemma run_reachable: "is_run (s # r) \<Longrightarrow> handshake_reachable s \<Longrightarrow> handshake_reachable (last (s # r))"
proof (induction r arbitrary: s)
  case (Cons t r)
  then have "handshake_reachable t" by (auto intro: handshake_reachable.step)
  with Cons show ?case by simp
qed simp

lemma stale_run_reachable: "handshake_reachable (last stale_run)"
proof -
  obtain r where r: "stale_run = handshake_init # r" by (simp add: stale_run_def handshake_init_def)
  have "is_run stale_run" by (simp add: stale_run_def handshake_step_iff)
  with r show ?thesis using run_reachable [of handshake_init r] handshake_reachable.start by simp
qed

text \<open>
  A second directive for the same pause can outlive it: the pause of the first plan is
  answered with resume and then with abort; the abort passes the test and is stored while the thread
  is about to act on the resume, nothing clears it, and the pause of the next plan takes it at once.
  The second plan is aborted although nobody asked for that.
\<close>

theorem directive_can_hit_next_plan:
  "\<exists>s. handshake_reachable s \<and> (2, 1, ''abort'') \<in> set (hs_log s)"
proof
  show "handshake_reachable (last stale_run) \<and> (2, 1, ''abort'') \<in> set (hs_log (last stale_run))"
    using stale_run_reachable by (simp add: stale_run_def)
qed

subsection \<open>Operators who wait for the effect\<close>

definition patient_ok :: "handshake \<Rightarrow> bool" where
  "patient_ok s \<longleftrightarrow>
     (hs_directive s = None \<and> hs_passed s = [] \<or>
      hs_position s = Waiting \<and>
        ((\<exists>d. hs_directive s = Some (hs_plan s, d)) \<and> hs_passed s = [] \<or>
         hs_directive s = None \<and> (\<exists>d. hs_passed s = [(hs_plan s, d)]))) \<and>
     (\<forall>(p, n, d) \<in> set (hs_log s). n = p)"

lemma patient_ok_step:
  assumes "patient_step s t" "patient_ok s" "handshake_ok s"
  shows "patient_ok t"
proof -
  have "handshake_step s t" using assms(1) by (simp add: patient_step_def)
  then show ?thesis
  proof cases
    case (request_passes d)
    then have "hs_position s = Waiting \<and> hs_directive s = None \<and> hs_passed s = []"
      using assms(1) by (simp add: patient_step_def)
    with request_passes assms(2) show ?thesis by (simp add: patient_ok_def)
  qed (use assms(2,3) in \<open>auto simp: patient_ok_def handshake_ok_def\<close>)
qed

text \<open>
  C29: as long as operators wait for the effect of a directive before giving the next one, every
  directive acts on the plan it was given for.
\<close>

theorem patient_directives_hit_their_plan:
  assumes "patiently_reachable s"
  shows "\<forall>(p, n, d) \<in> set (hs_log s). n = p"
proof -
  from assms have "handshake_ok s \<and> patient_ok s"
  proof (induction rule: patiently_reachable.induct)
    case start
    then show ?case by (simp add: handshake_ok_def patient_ok_def handshake_init_def)
  next
    case (step s t)
    then have "handshake_step s t" by (simp add: patient_step_def)
    with step show ?case using handshake_ok_step patient_ok_step by blast
  qed
  then show ?thesis by (simp add: patient_ok_def)
qed

lemma patient_example:
  "patiently_reachable \<lparr>hs_state = PAUSED, hs_position = Taken ''stop'', hs_plan = 1, hs_directive = None,
     hs_passed = [], hs_log = [(1, 1, ''stop'')]\<rparr>"
proof -
  let ?st = "\<lambda>x p n d q l. \<lparr>hs_state = x, hs_position = p, hs_plan = n, hs_directive = d, hs_passed = q, hs_log = l\<rparr>"
  have "patiently_reachable (?st IDLE Between 0 None [] [])"
    using patiently_reachable.start by (simp add: handshake_init_def)
  then have "patiently_reachable (?st ENGINE_RUNNING In_engine 1 None [] [])"
    by (rule patiently_reachable.step) (simp add: patient_step_def handshake_step_iff)
  then have "patiently_reachable (?st PAUSED Waiting 1 None [] [])"
    by (rule patiently_reachable.step) (simp add: patient_step_def handshake_step_iff)
  then have "patiently_reachable (?st PAUSED Waiting 1 None [(1, ''stop'')] [])"
    by (rule patiently_reachable.step) (simp add: patient_step_def handshake_step_iff)
  then have "patiently_reachable (?st PAUSED Waiting 1 (Some (1, ''stop'')) [] [])"
    by (rule patiently_reachable.step) (simp add: patient_step_def handshake_step_iff)
  then show ?thesis
    by (rule patiently_reachable.step) (simp add: patient_step_def handshake_step_iff)
qed

theorem patient_directives_hit_their_plan_witness:
  "(let s = \<lparr>hs_state = PAUSED, hs_position = Taken ''stop'', hs_plan = 1, hs_directive = None,
     hs_passed = [], hs_log = [(1, 1, ''stop'')]\<rparr>
    in patiently_reachable s \<and> list_all (\<lambda>(p, n, d). n = p) (hs_log s))"
  using patient_directives_hit_their_plan [OF patient_example] patient_example
  by (simp add: Let_def)


end
