(* ===== verification/EngineCalls.thy ===== *)
theory EngineCalls
  imports DirectiveProtocol
begin

section \<open>Requests that wait for the engine thread\<close>

text \<open>
  Once its payload is read, a route gives way nowhere, so the thread of the server handles one request after
  the other. Building a device runs on the engine thread: \<open>EngineHost.call\<close> puts a command
  and waits for its future, without a limit of time, and the thread of the server with it. The engine
  thread takes a command when it is \<open>Between\<close> plans; a plan is a command, too, and keeps the thread until it
  ends, its pauses included. A pause ends by a directive, which a request has to bring.

  The relation below puts the command queue and the thread of the server around the handshake of
  \<open>DirectiveProtocol\<close>: \<open>cl_server\<close> is the future that the server waits for, \<open>cl_served\<close> counts the
  requests answered.
\<close>

datatype engine_command = RunPlan | Construct nat

record calling =
  cl_hand :: handshake
  cl_commands :: "engine_command list"
  cl_server :: "nat option"
  cl_next :: nat
  cl_served :: nat

definition calling_init :: calling where
  "calling_init = \<lparr>cl_hand = handshake_init, cl_commands = [], cl_server = None, cl_next = 0, cl_served = 0\<rparr>"

text \<open>The server takes its next request: it waits for nothing and is not in the middle of a directive.\<close>

definition listening :: "calling \<Rightarrow> bool" where
  "listening s \<longleftrightarrow> cl_server s = None \<and> hs_passed (cl_hand s) = []"

inductive call_step :: "calling \<Rightarrow> calling \<Rightarrow> bool" where
  plan_submitted: "hs_state (cl_hand s) = IDLE \<Longrightarrow> RunPlan \<notin> set (cl_commands s) \<Longrightarrow>
    call_step s (s\<lparr>cl_commands := cl_commands s @ [RunPlan]\<rparr>)"
| plan_taken: "hs_position (cl_hand s) = Between \<Longrightarrow> cl_commands s = RunPlan # rest \<Longrightarrow>
    handshake_step (cl_hand s) h \<Longrightarrow> hs_position h = In_engine \<Longrightarrow> call_step s (s\<lparr>cl_hand := h, cl_commands := rest\<rparr>)"
| engine_works: "hs_position (cl_hand s) \<noteq> Between \<Longrightarrow> handshake_step (cl_hand s) h \<Longrightarrow>
    hs_passed h = hs_passed (cl_hand s) \<Longrightarrow> call_step s (s\<lparr>cl_hand := h\<rparr>)"
| device_built: "hs_position (cl_hand s) = Between \<Longrightarrow> cl_commands s = Construct n # rest \<Longrightarrow>
    call_step s (s\<lparr>cl_commands := rest, cl_server := (if cl_server s = Some n then None else cl_server s),
      cl_served := cl_served s + 1\<rparr>)"
| answered: "listening s \<Longrightarrow> call_step s (s\<lparr>cl_served := cl_served s + 1\<rparr>)"
| directive_checked: "listening s \<Longrightarrow> handshake_step (cl_hand s) h \<Longrightarrow> hs_passed h \<noteq> [] \<Longrightarrow>
    call_step s (s\<lparr>cl_hand := h\<rparr>)"
| directive_given: "hs_passed (cl_hand s) \<noteq> [] \<Longrightarrow> handshake_step (cl_hand s) h \<Longrightarrow> hs_passed h = [] \<Longrightarrow>
    call_step s (s\<lparr>cl_hand := h, cl_served := cl_served s + 1\<rparr>)"
| device_requested: "listening s \<Longrightarrow>
    call_step s (s\<lparr>cl_commands := cl_commands s @ [Construct (cl_next s)], cl_server := Some (cl_next s),
      cl_next := cl_next s + 1\<rparr>)"

inductive call_reachable :: "calling \<Rightarrow> bool" where
  start: "call_reachable calling_init"
| step: "call_reachable s \<Longrightarrow> call_step s t \<Longrightarrow> call_reachable t"

subsection \<open>What holds in every interleaving\<close>

text \<open>The server waits only for a command that is still to come, and has at most one directive in hand.\<close>

definition calls_ok :: "calling \<Rightarrow> bool" where
  "calls_ok s \<longleftrightarrow> handshake_ok (cl_hand s) \<and> length (hs_passed (cl_hand s)) \<le> 1 \<and>
     (\<forall>n. cl_server s = Some n \<longrightarrow> Construct n \<in> set (cl_commands s) \<and> hs_passed (cl_hand s) = [])"

lemma passed_grows_by_one:
  "handshake_step h h' \<Longrightarrow> length (hs_passed h') \<le> length (hs_passed h) + 1"
  by (cases rule: handshake_step.cases) (auto simp: length_remove1)

lemma calls_ok_step:
  assumes "call_step s t" "calls_ok s"
  shows "calls_ok t"
  using assms(1)
proof cases
  case (plan_taken rest h)
  then have "hs_passed h = hs_passed (cl_hand s)" by (auto simp: handshake_step_iff)
  with plan_taken assms(2) show ?thesis by (auto simp: calls_ok_def dest: handshake_ok_step)
next
  case (directive_checked h)
  with assms(2) passed_grows_by_one [of "cl_hand s" h] show ?thesis
    by (auto simp: calls_ok_def listening_def dest: handshake_ok_step)
qed (use assms(2) in \<open>auto simp: calls_ok_def listening_def dest: handshake_ok_step\<close>)

lemma reachable_calls_ok: "call_reachable s \<Longrightarrow> calls_ok s"
proof (induction rule: call_reachable.induct)
  case start
  show ?case by (simp add: calls_ok_def calling_init_def handshake_ok_def handshake_init_def)
next
  case (step s t)
  then show ?case using calls_ok_step by blast
qed

text \<open>
  While a plan is on the engine thread, a server that waits stays waiting, and nobody is answered.
\<close>

lemma plan_keeps_server_waiting:
  assumes "call_step s t" "calls_ok s" "cl_server s \<noteq> None" "hs_position (cl_hand s) \<noteq> Between"
  shows "cl_server t = cl_server s \<and> cl_served t = cl_served s"
  using assms by (cases rule: call_step.cases) (auto simp: calls_ok_def listening_def)

subsection \<open>Where it stops\<close>

text \<open>A pause nobody can answer: the engine thread waits for a directive, the server for the engine thread.\<close>

definition locked :: "calling \<Rightarrow> bool" where
  "locked s \<longleftrightarrow> cl_server s \<noteq> None \<and> hs_position (cl_hand s) = Waiting \<and> hs_directive (cl_hand s) = None"

lemma locked_is_stuck:
  assumes "calls_ok s" "locked s"
  shows "\<not> call_step s t"
proof
  assume "call_step s t"
  then show False using assms
    by cases (auto simp: calls_ok_def locked_def listening_def handshake_ok_def handshake_step_iff)
qed

lemma server_in_directive:
  assumes "calls_ok s" "hs_passed (cl_hand s) \<noteq> []"
  shows "\<exists>t. call_step s t"
proof -
  from assms obtain r where r: "hs_passed (cl_hand s) = [r]"
    by (cases "hs_passed (cl_hand s)") (auto simp: calls_ok_def)
  have "handshake_step (cl_hand s) ((cl_hand s)\<lparr>hs_directive := Some r, hs_passed := remove1 r (hs_passed (cl_hand s))\<rparr>)"
    by (rule request_stored) (simp add: r)
  with r show ?thesis by (intro exI) (erule directive_given [rotated], simp_all)
qed

lemma engine_goes_on:
  assumes "calls_ok s" "cl_server s = Some n" "\<not> locked s"
  shows "\<exists>t. call_step s t"
proof (cases "hs_position (cl_hand s)")
  case Between
  from assms(1,2) have "cl_commands s \<noteq> []" by (auto simp: calls_ok_def)
  then obtain c rest where c: "cl_commands s = c # rest" by (cases "cl_commands s") auto
  show ?thesis
  proof (cases c)
    case RunPlan
    with c Between plan_begins [OF Between] show ?thesis by (intro exI) (rule plan_taken, auto)
  next
    case (Construct m)
    with c Between show ?thesis by (intro exI) (rule device_built, auto)
  qed
next
  case In_engine
  with engine_works [OF _ plan_ends [OF In_engine]] show ?thesis by auto
next
  case Waiting
  with assms(2,3) obtain k d where d: "hs_directive (cl_hand s) = Some (k, d)" by (auto simp: locked_def)
  with Waiting engine_works [OF _ directive_taken [OF Waiting d]] show ?thesis by auto
next
  case (Taken d)
  with engine_works [OF _ engine_called [OF Taken]] show ?thesis by auto
qed

lemma stuck_iff_locked:
  assumes "calls_ok s"
  shows "(\<exists>t. call_step s t) \<longleftrightarrow> \<not> locked s"
proof
  assume "\<not> locked s"
  show "\<exists>t. call_step s t"
  proof (cases "cl_server s")
    case None
    then show ?thesis using assms server_in_directive call_step.answered [of s] by (auto simp: listening_def)
  next
    case (Some n)
    then show ?thesis using assms \<open>\<not> locked s\<close> engine_goes_on by blast
  qed
qed (use assms locked_is_stuck in blast)

text \<open>A plan runs and is paused; then somebody builds a device.\<close>

definition locked_state :: calling where
  "locked_state = \<lparr>cl_hand = \<lparr>hs_state = PAUSED, hs_position = Waiting, hs_plan = 1, hs_directive = None, hs_passed = [],
     hs_log = []\<rparr>, cl_commands = [Construct 0], cl_server = Some 0, cl_next = 1, cl_served = 0\<rparr>"

inductive_simps call_step_iff: "call_step s t"

lemma locked_state_reachable: "call_reachable locked_state"
proof -
  let ?st = "\<lambda>x p n cs v k. \<lparr>cl_hand = \<lparr>hs_state = x, hs_position = p, hs_plan = n, hs_directive = None, hs_passed = [], hs_log = []\<rparr>,
     cl_commands = cs, cl_server = v, cl_next = k, cl_served = 0\<rparr>"
  have "call_reachable (?st IDLE Between 0 [] None 0)"
    using call_reachable.start by (simp add: calling_init_def handshake_init_def)
  then have "call_reachable (?st IDLE Between 0 [RunPlan] None 0)"
    by (rule call_reachable.step) (simp add: call_step_iff)
  then have "call_reachable (?st ENGINE_RUNNING In_engine 1 [] None 0)"
    by (rule call_reachable.step) (simp add: call_step_iff handshake_step_iff)
  then have "call_reachable (?st PAUSED Waiting 1 [] None 0)"
    by (rule call_reachable.step) (simp add: call_step_iff handshake_step_iff)
  then have "call_reachable (?st PAUSED Waiting 1 [Construct 0] (Some 0) 1)"
    by (rule call_reachable.step) (simp add: call_step_iff listening_def)
  then show ?thesis by (simp add: locked_state_def)
qed

text \<open>
  C17: the service stops for good in one way only, and it can: while a plan is paused with no directive given, somebody
  builds a device. The server's thread then waits for the engine thread, which waits for a
  directive, which only a request could bring. In every other state of every interleaving something can go on.
\<close>

theorem device_request_can_lock_service:
  assumes "call_reachable s"
  shows "((\<nexists>t. call_step s t) \<longleftrightarrow>
      cl_server s \<noteq> None \<and> hs_position (cl_hand s) = Waiting \<and> hs_directive (cl_hand s) = None) \<and>
    (\<exists>s'. call_reachable s' \<and> (\<nexists>t. call_step s' t))"
proof -
  have "\<nexists>t. call_step locked_state t"
    using stuck_iff_locked [OF reachable_calls_ok [OF locked_state_reachable]] by (simp add: locked_def locked_state_def)
  then show ?thesis
    using stuck_iff_locked [OF reachable_calls_ok [OF assms]] locked_state_reachable unfolding locked_def by blast
qed

theorem device_request_can_lock_service_witness: "\<nexists>t. call_step locked_state t"
  using device_request_can_lock_service [OF locked_state_reachable] by (simp add: locked_state_def)

subsection \<open>Device requests at the right time\<close>

text \<open>A client that builds devices only while no plan is on the engine thread or on its way there.\<close>

definition careful_step :: "calling \<Rightarrow> calling \<Rightarrow> bool" where
  "careful_step s t \<longleftrightarrow> call_step s t \<and>
     (cl_server s = None \<and> cl_server t \<noteq> None \<longrightarrow> hs_position (cl_hand s) = Between \<and> cl_commands s = [])"

inductive carefully_reachable :: "calling \<Rightarrow> bool" where
  start: "carefully_reachable calling_init"
| step: "carefully_reachable s \<Longrightarrow> careful_step s t \<Longrightarrow> carefully_reachable t"

text \<open>What the server waits for is what the engine thread takes next.\<close>

definition next_in_line :: "calling \<Rightarrow> bool" where
  "next_in_line s \<longleftrightarrow> (\<forall>n. cl_server s = Some n \<longrightarrow>
     hs_position (cl_hand s) = Between \<and> (\<exists>rest. cl_commands s = Construct n # rest))"

lemma next_in_line_step:
  assumes "careful_step s t" "calls_ok s" "next_in_line s"
  shows "next_in_line t"
proof -
  have "call_step s t" using assms(1) by (simp add: careful_step_def)
  then show ?thesis
  proof cases
    case device_requested
    then have "hs_position (cl_hand s) = Between \<and> cl_commands s = []"
      using assms(1) by (simp add: careful_step_def listening_def)
    with device_requested show ?thesis by (simp add: next_in_line_def)
  qed (use assms(2,3) in \<open>auto simp: next_in_line_def calls_ok_def listening_def\<close>)
qed

lemma careful_ok: "carefully_reachable s \<Longrightarrow> calls_ok s \<and> next_in_line s"
proof (induction rule: carefully_reachable.induct)
  case start
  show ?case by (simp add: calls_ok_def calling_init_def handshake_ok_def handshake_init_def next_in_line_def)
next
  case (step s t)
  then have "call_step s t" by (simp add: careful_step_def)
  with step show ?case using calls_ok_step next_in_line_step by blast
qed

text \<open>
  Then no request is kept waiting: the engine thread is free, and its next step builds the device and releases
  the server.
\<close>

theorem careful_requests_are_served:
  assumes "carefully_reachable s" "cl_server s = Some n"
  shows "\<exists>t. call_step s t \<and> cl_server t = None \<and> cl_served t = cl_served s + 1"
proof -
  from careful_ok [OF assms(1)] assms(2) obtain rest where "hs_position (cl_hand s) = Between" "cl_commands s = Construct n # rest"
    by (auto simp: next_in_line_def)
  from device_built [OF this] assms(2) show ?thesis by (intro exI conjI) auto
qed

end
