(* ===== verification/Progress.thy ===== *)
theory Progress
  imports EngineEvents
begin

section \<open>Device progress (\<open>engine/progress.py\<close>)\<close>

text \<open>
  \<open>ProgressWatcher\<close>: the engine calls it with the status objects it waits for, and with \<open>None\<close> when
  the wait ends; each status then calls back with its progress. A status object is code outside
  the repository: \<open>status\<close> says which identity it has, whether it can be watched, whether it is
  done, and how \<open>watch\<close> and \<open>add_callback\<close> fail. The callbacks it is given are kept as pairs of the
  identity and the label they close over. A payload is a dictionary from field names to values.
\<close>

type_synonym payload = "(string \<times> pyval) list"

record status =
  st_id :: nat
  st_watchable :: bool
  st_done :: bool
  st_watch_raises :: "exn option"
  st_completable :: bool
  st_complete_raises :: "exn option"

record watcher =
  pw_min_period :: rat
  pw_chained :: "nat option"
  pw_watched :: "nat list"
  pw_last_sent :: "(nat \<times> rat) list"
  pw_last_payload :: "(nat \<times> payload) list"
  pw_counter :: nat
  pw_callbacks :: "(nat \<times> nat) list"
  pw_completions :: "(nat \<times> nat) list"
  pw_events :: "event list"

definition ProgressWatcher_init :: "rat \<Rightarrow> nat option \<Rightarrow> watcher" where
  "ProgressWatcher_init min_update_period chained =
     \<lparr>pw_min_period = min_update_period, pw_chained = chained, pw_watched = [], pw_last_sent = [],
      pw_last_payload = [], pw_counter = 0, pw_callbacks = [], pw_completions = [], pw_events = []\<rparr>"

definition FIELDS :: "string list" where
  "FIELDS = [''name'', ''current'', ''initial'', ''target'', ''unit'', ''precision'', ''fraction'', ''time_elapsed'',
     ''time_remaining'', ''done'']"

definition pget :: "string \<Rightarrow> payload \<Rightarrow> pyval" where
  "pget k p = (case map_of p k of None \<Rightarrow> PNone | Some v \<Rightarrow> v)"

definition payload_of :: "nat \<Rightarrow> watcher \<Rightarrow> payload" where
  "payload_of key w = (case map_of (pw_last_payload w) key of None \<Rightarrow> [] | Some p \<Rightarrow> p)"

text \<open>\<open>_snapshot\<close>: every status by its device name.\<close>

definition snapshot_of :: "(pyval \<Rightarrow> string) \<Rightarrow> (nat \<times> payload) list \<Rightarrow> pydict" where
  "snapshot_of fmt ps = fold (\<lambda>(key, p) d.
     AList.update (PStr (py_str fmt (py_or (pget ''name'' p) (PStr ''unknown''))))
       (PDict (map (\<lambda>f. (PStr f, pget f p)) FIELDS)) d) ps []"

definition progress_event :: "pydict \<Rightarrow> bool \<Rightarrow> event" where
  "progress_event statuses completed =
     event_of DEVICE_PROGRESS [(''statuses'', PV (PDict statuses)), (''completed'', PV (PBool completed))]"

definition emit_progress :: "(pyval \<Rightarrow> string) \<Rightarrow> watcher \<Rightarrow> watcher" where
  "emit_progress fmt w = w\<lparr>pw_events := pw_events w @ [progress_event (snapshot_of fmt (pw_last_payload w)) False]\<rparr>"

subsection \<open>The waiting hook\<close>

definition set_chained_hook :: "nat option \<Rightarrow> watcher \<Rightarrow> watcher" where
  "set_chained_hook hook w = w\<lparr>pw_chained := hook\<rparr>"

text \<open>One status of the set: a new one gets a label and, if it can be watched and is not done, the callbacks.\<close>

definition watch_status :: "status \<Rightarrow> (watcher, exn, unit) act" where
  "watch_status st = (\<lambda>w.
     if st_id st \<in> set (pw_watched w) then (Inr (), w)
     else
       let w = w\<lparr>pw_watched := st_id st # pw_watched w, pw_counter := pw_counter w + 1\<rparr>; label = pw_counter w in
       if \<not> st_watchable st \<or> st_done st then (Inr (), w)
       else (case st_watch_raises st of
           Some e \<Rightarrow> (if is_exception (exn_class e) then Inr () else Inl e, w)
         | None \<Rightarrow>
             let w = w\<lparr>pw_callbacks := pw_callbacks w @ [(st_id st, label)]\<rparr> in
             if \<not> st_completable st then (Inr (), w)
             else (case st_complete_raises st of
                 Some e \<Rightarrow> (if is_exception (exn_class e) then Inr () else Inl e, w)
               | None \<Rightarrow> (Inr (), w\<lparr>pw_completions := pw_completions w @ [(st_id st, label)]\<rparr>))))"

text \<open>\<open>__call__\<close>; \<open>chained_raises\<close> is what the profile's own hook does. \<open>None\<close> ends the wait.\<close>

definition waiting_hook :: "exn option \<Rightarrow> status list option \<Rightarrow> (watcher, exn, unit) act" where
  "waiting_hook chained_raises statuses = (\<lambda>w.
     case (if pw_chained w \<noteq> None then chained_raises else None) of
       Some e \<Rightarrow>
         (if is_exception (exn_class e)
          then (case statuses of
              None \<Rightarrow> (Inr (), w\<lparr>pw_events := pw_events w @ [progress_event [] True], pw_watched := [],
                 pw_last_sent := [], pw_last_payload := [], pw_counter := 0\<rparr>)
            | Some sts \<Rightarrow> chain (for_each watch_status sts) (\<lambda>_. ret ()) w)
          else (Inl e, w))
     | None \<Rightarrow>
         (case statuses of
            None \<Rightarrow> (Inr (), w\<lparr>pw_events := pw_events w @ [progress_event [] True], pw_watched := [],
               pw_last_sent := [], pw_last_payload := [], pw_counter := 0\<rparr>)
          | Some sts \<Rightarrow> chain (for_each watch_status sts) (\<lambda>_. ret ()) w))"

subsection \<open>The callbacks\<close>

text \<open>\<open>fraction >= 1.0\<close>: a comparison that only numbers have.\<close>

fun number_of :: "pyval \<Rightarrow> rat option" where
  "number_of (PInt i) = Some (of_int i)"
| "number_of (PFloat r) = Some r"
| "number_of (PBool b) = Some (if b then 1 else 0)"
| "number_of _ = None"

definition status_label :: "nat \<Rightarrow> pyval" where
  "status_label label = PStr (''status_'' @ show_nat label)"

text \<open>
  The progress callback of a status. \<open>kwargs\<close> are the arguments it is called with (others than the
  known fields are ignored), \<open>done_now\<close> is the attribute \<open>done\<close> of the status, \<open>now\<close> the clock.
\<close>

definition reported_fields :: "nat \<Rightarrow> payload \<Rightarrow> bool \<Rightarrow> payload" where
  "reported_fields label kwargs is_done =
     [(''name'', if pget ''name'' kwargs \<noteq> PNone then pget ''name'' kwargs else status_label label),
      (''current'', pget ''current'' kwargs), (''initial'', pget ''initial'' kwargs),
      (''target'', pget ''target'' kwargs), (''unit'', pget ''unit'' kwargs),
      (''precision'', pget ''precision'' kwargs), (''fraction'', pget ''fraction'' kwargs),
      (''time_elapsed'', pget ''time_elapsed'' kwargs), (''time_remaining'', pget ''time_remaining'' kwargs),
      (''done'', PBool is_done)]"

definition is_complete :: "bool \<Rightarrow> payload \<Rightarrow> exn + bool" where
  "is_complete done_now kwargs =
     (if done_now then Inr True
      else if pget ''fraction'' kwargs = PNone then Inr False
      else (case number_of (pget ''fraction'' kwargs) of
          Some r \<Rightarrow> Inr (r \<ge> 1) | None \<Rightarrow> Inl (Exn TypeError [Txt ''not supported between these types''])))"

definition merge_payload :: "payload \<Rightarrow> payload \<Rightarrow> bool \<Rightarrow> payload" where
  "merge_payload prev new is_done =
     AList.update ''done'' (PBool is_done) (dict_update prev (filter (\<lambda>(k, v). v \<noteq> PNone) new))"

definition progress_callback ::
  "(pyval \<Rightarrow> string) \<Rightarrow> nat \<Rightarrow> nat \<Rightarrow> bool \<Rightarrow> payload \<Rightarrow> rat \<Rightarrow> (watcher, exn, unit) act" where
  "progress_callback fmt key label done_now kwargs now = (\<lambda>w.
     case is_complete done_now kwargs of
       Inl e \<Rightarrow> (Inl e, w)
     | Inr is_done \<Rightarrow>
         if truthy (pget ''done'' (payload_of key w)) then (Inr (), w)
         else
           let merged = merge_payload (payload_of key w) (reported_fields label kwargs is_done) is_done;
               w = w\<lparr>pw_last_payload := AList.update key merged (pw_last_payload w)\<rparr> in
           case map_of (pw_last_sent w) key of
             Some prev \<Rightarrow>
               (if \<not> is_done \<and> now - prev < pw_min_period w then (Inr (), w)
                else (Inr (), emit_progress fmt (w\<lparr>pw_last_sent := AList.update key now (pw_last_sent w)\<rparr>)))
           | None \<Rightarrow> (Inr (), emit_progress fmt (w\<lparr>pw_last_sent := AList.update key now (pw_last_sent w)\<rparr>)))"

text \<open>\<open>on_done\<close>, in its two critical sections: what it read, and what it then stores.\<close>

definition completion_read :: "nat \<Rightarrow> watcher \<Rightarrow> payload option" where
  "completion_read key w = (let prev = payload_of key w in if truthy (pget ''done'' prev) then None else Some prev)"

definition setdefault :: "string \<Rightarrow> pyval \<Rightarrow> payload \<Rightarrow> payload" where
  "setdefault k v p = (case map_of p k of None \<Rightarrow> p @ [(k, v)] | Some _ \<Rightarrow> p)"

definition completed_payload :: "nat \<Rightarrow> payload \<Rightarrow> payload" where
  "completed_payload label prev =
     fold (\<lambda>f p. setdefault f PNone p) FIELDS
       (AList.update ''done'' (PBool True) (AList.update ''fraction'' (PFloat 1) (setdefault ''name'' (status_label label) prev)))"

definition completion_store :: "(pyval \<Rightarrow> string) \<Rightarrow> nat \<Rightarrow> nat \<Rightarrow> payload \<Rightarrow> watcher \<Rightarrow> watcher" where
  "completion_store fmt key label prev w =
     emit_progress fmt (w\<lparr>pw_last_payload := AList.update key (completed_payload label prev) (pw_last_payload w)\<rparr>)"

definition completion_callback :: "(pyval \<Rightarrow> string) \<Rightarrow> nat \<Rightarrow> nat \<Rightarrow> watcher \<Rightarrow> watcher" where
  "completion_callback fmt key label w =
     (case completion_read key w of None \<Rightarrow> w | Some prev \<Rightarrow> completion_store fmt key label prev w)"

subsection \<open>Lemmas\<close>

lemma pget_simps [simp]:
  "pget k (AList.update k' v p) = (if k = k' then v else pget k p)"
  "pget k [] = PNone"
  by (simp_all add: pget_def update_conv')

lemma payload_of_update [simp]:
  "payload_of key (w\<lparr>pw_last_payload := AList.update k p (pw_last_payload w)\<rparr>) = (if key = k then p else payload_of key w)"
  by (simp add: payload_of_def update_conv')

lemma payload_of_frame [simp]:
  "payload_of key (w\<lparr>pw_events := e\<rparr>) = payload_of key w" "payload_of key (w\<lparr>pw_last_sent := l\<rparr>) = payload_of key w"
  by (simp_all add: payload_of_def)

lemma emit_progress_simps [simp]:
  "pw_last_payload (emit_progress fmt w) = pw_last_payload w" "pw_last_sent (emit_progress fmt w) = pw_last_sent w"
  "pw_min_period (emit_progress fmt w) = pw_min_period w" "payload_of key (emit_progress fmt w) = payload_of key w"
  "length (pw_events (emit_progress fmt w)) = Suc (length (pw_events w))"
  by (simp_all add: emit_progress_def payload_of_def)

lemma merge_done [simp]: "pget ''done'' (merge_payload prev new b) = PBool b"
  by (simp add: merge_payload_def)

lemma setdefault_done: "pget ''done'' p = PBool True \<Longrightarrow> pget ''done'' (setdefault k v p) = PBool True"
  by (auto simp: setdefault_def pget_def split: option.split option.split_asm)

lemma completed_done [simp]: "pget ''done'' (completed_payload label prev) = PBool True"
proof -
  have "pget ''done'' p = PBool True \<Longrightarrow> pget ''done'' (fold (\<lambda>f p. setdefault f PNone p) fs p) = PBool True" for fs p
    by (induction fs arbitrary: p) (simp_all add: setdefault_done)
  then show ?thesis by (simp add: completed_payload_def)
qed

subsection \<open>One final report\<close>

text \<open>What a status does after it was subscribed: progress calls and completion calls, in any order.\<close>

datatype report = Progressing bool payload rat | Completed

fun report_step :: "(pyval \<Rightarrow> string) \<Rightarrow> nat \<Rightarrow> nat \<Rightarrow> report \<Rightarrow> watcher \<Rightarrow> watcher" where
  "report_step fmt key label (Progressing d kw now) w = snd (progress_callback fmt key label d kw now w)"
| "report_step fmt key label Completed w = completion_callback fmt key label w"

definition is_final :: "nat \<Rightarrow> watcher \<Rightarrow> bool" where
  "is_final key w \<longleftrightarrow> truthy (pget ''done'' (payload_of key w))"

lemma final_frozen: "is_final key w \<Longrightarrow> report_step fmt key label r w = w"
  by (cases r) (auto simp: is_final_def progress_callback_def completion_callback_def completion_read_def split: sum.split)

lemma final_frozen_run: "is_final key w \<Longrightarrow> fold (report_step fmt key label) rs w = w"
  by (induction rs) (simp_all add: final_frozen)

lemma completion_finalises:
  "is_final key (completion_callback fmt key label w)"
  by (simp add: completion_callback_def completion_read_def Let_def is_final_def completion_store_def)

text \<open>
  A status reports its completion once. However progress calls and completion calls of a
  status follow each other, once it has been reported done nothing more is sent or changed for
  it; and a completion call always makes it so.
\<close>

theorem completion_reported_once:
  "fold (report_step fmt key label) (rs @ Completed # rs') w =
     completion_callback fmt key label (fold (report_step fmt key label) rs w) \<and>
   is_final key (fold (report_step fmt key label) (rs @ Completed # rs') w) \<and>
   length (pw_events (fold (report_step fmt key label) (rs @ Completed # rs') w)) \<le>
     length (pw_events (fold (report_step fmt key label) rs w)) + 1"
proof -
  let ?w = "fold (report_step fmt key label) rs w"
  have e: "fold (report_step fmt key label) (rs @ Completed # rs') w = completion_callback fmt key label ?w"
    using final_frozen_run [OF completion_finalises] by simp
  have "length (pw_events (completion_callback fmt key label v)) \<le> length (pw_events v) + 1" for v
    by (simp add: completion_callback_def completion_store_def split: option.split)
  with e completion_finalises show ?thesis by simp
qed

text \<open>
  The completion callback reads and stores in two critical sections. A final progress call that
  falls between them is reported as well: the status is announced done twice.
\<close>

theorem completion_race_reports_twice:
  assumes "completion_read key w = Some prev" "is_complete d kw = Inr True"
  shows "(let w1 = snd (progress_callback fmt key label d kw now w); w2 = completion_store fmt key label prev w1 in
     length (pw_events w2) = length (pw_events w) + 2 \<and> is_final key w1 \<and> is_final key w2)"
proof -
  have "\<not> truthy (pget ''done'' (payload_of key w))"
    using assms(1) by (auto simp: completion_read_def Let_def split: if_splits)
  with assms(2) show ?thesis
    by (simp add: progress_callback_def is_final_def completion_store_def Let_def split: option.split)
qed

theorem completion_race_reports_twice_witness:
  "(let w = ProgressWatcher_init (1 / 5) None; w1 = snd (progress_callback (\<lambda>v. ''o'') 7 1 True [] 0 w);
        w2 = completion_store (\<lambda>v. ''o'') 7 1 [] w1 in length (pw_events w2) = 2)"
  using completion_race_reports_twice [of 7 "ProgressWatcher_init (1 / 5) None" "[]" True "[]" "\<lambda>v. ''o''" 1 0]
  by (simp add: completion_read_def payload_of_def ProgressWatcher_init_def is_complete_def Let_def)

subsection \<open>Throttling\<close>

text \<open>The times at which the progress calls of a status were passed on, final reports apart.\<close>

fun sent_times :: "(pyval \<Rightarrow> string) \<Rightarrow> nat \<Rightarrow> nat \<Rightarrow> (payload \<times> rat) list \<Rightarrow> watcher \<Rightarrow> rat list" where
  "sent_times fmt key label [] w = []"
| "sent_times fmt key label ((kw, now) # calls) w =
     (let w' = snd (progress_callback fmt key label False kw now w) in
      (if length (pw_events w') > length (pw_events w) \<and> is_complete False kw = Inr False then [now] else []) @
      sent_times fmt key label calls w')"

fun spaced :: "rat \<Rightarrow> rat list \<Rightarrow> bool" where
  "spaced d (x # y # xs) = (d \<le> y - x \<and> spaced d (y # xs))"
| "spaced d xs = True"

lemma callback_cases:
  obtains (error) e where "is_complete d kw = Inl e" "snd (progress_callback fmt key label d kw now w) = w"
  | (final) "is_final key w" "snd (progress_callback fmt key label d kw now w) = w"
  | (held) prev w' where "\<not> is_final key w" "is_complete d kw = Inr False" "map_of (pw_last_sent w) key = Some prev"
      "now - prev < pw_min_period w" "snd (progress_callback fmt key label d kw now w) = w'"
      "pw_last_sent w' = pw_last_sent w" "pw_events w' = pw_events w" "pw_min_period w' = pw_min_period w"
  | (sent) b w' where "\<not> is_final key w" "is_complete d kw = Inr b"
      "b \<or> (\<forall>prev. map_of (pw_last_sent w) key = Some prev \<longrightarrow> pw_min_period w \<le> now - prev)"
      "snd (progress_callback fmt key label d kw now w) = w'" "map_of (pw_last_sent w') key = Some now"
      "length (pw_events w') = Suc (length (pw_events w))" "pw_min_period w' = pw_min_period w"
      "is_final key w' = b"
proof (cases "is_complete d kw")
  case (Inl e)
  then show ?thesis by (intro error) (simp_all add: progress_callback_def)
next
  case (Inr b)
  show ?thesis
  proof (cases "is_final key w")
    case True
    with Inr show ?thesis by (intro final) (simp_all add: progress_callback_def is_final_def)
  next
    case False
    show ?thesis
    proof (cases "\<exists>prev. map_of (pw_last_sent w) key = Some prev \<and> \<not> b \<and> now - prev < pw_min_period w")
      case True
      then obtain prev where l: "map_of (pw_last_sent w) key = Some prev" "\<not> b" "now - prev < pw_min_period w" by blast
      with Inr False show ?thesis
        by (intro held [of prev "snd (progress_callback fmt key label d kw now w)"])
          (simp_all add: progress_callback_def is_final_def Let_def)
    next
      case no: False
      with Inr False show ?thesis
        by (intro sent [of b "snd (progress_callback fmt key label d kw now w)"])
          (auto simp: progress_callback_def is_final_def Let_def update_conv' not_less split: option.split)
    qed
  qed
qed

lemma sent_times_final: "is_final key w \<Longrightarrow> sent_times fmt key label calls w = []"
proof (induction calls)
  case (Cons c calls)
  obtain kw now where c: "c = (kw, now)" by force
  have "snd (progress_callback fmt key label False kw now w) = w"
    using final_frozen [OF Cons.prems, of fmt label "Progressing False kw now"] by simp
  with Cons c show ?case by simp
qed simp

lemma spaced_after:
  assumes "map_of (pw_last_sent w) key = Some t"
  shows "spaced (pw_min_period w) (t # sent_times fmt key label calls w)"
  using assms
proof (induction calls arbitrary: w t)
  case Nil
  then show ?case by simp
next
  case (Cons c calls)
  obtain kw now where c: "c = (kw, now)" by force
  show ?case
  proof (cases rule: callback_cases [of False kw fmt key label now w])
    case (error e)
    with Cons c show ?thesis by simp
  next
    case final
    then show ?thesis by (simp add: sent_times_final)
  next
    case (held prev w')
    then have "map_of (pw_last_sent w') key = Some t" using Cons.prems by simp
    from Cons.IH [OF this] held c show ?thesis by simp
  next
    case (sent b w')
    show ?thesis
    proof (cases b)
      case True
      with sent have "sent_times fmt key label calls w' = []" by (simp add: sent_times_final)
      with sent c True show ?thesis by simp
    next
      case False
      with sent Cons.prems have "pw_min_period w \<le> now - t" by simp
      with Cons.IH [OF sent(5)] sent c False show ?thesis by simp
    qed
  qed
qed

text \<open>
  The updates of a status are throttled: however fast its progress calls come, two updates that
  are passed on and are not the final one are at least the minimum period apart.
\<close>

theorem progress_throttled:
  "spaced (pw_min_period w) (sent_times fmt key label calls w)"
proof (induction calls arbitrary: w)
  case Nil
  then show ?case by simp
next
  case (Cons c calls)
  obtain kw now where c: "c = (kw, now)" by force
  show ?case
  proof (cases rule: callback_cases [of False kw fmt key label now w])
    case (error e)
    with Cons c show ?thesis by simp
  next
    case final
    then show ?thesis by (simp add: sent_times_final)
  next
    case (held prev w')
    with Cons.IH [of w'] c show ?thesis by simp
  next
    case (sent b w')
    show ?thesis
    proof (cases b)
      case True
      with sent have "sent_times fmt key label calls w' = []" by (simp add: sent_times_final)
      with sent c True show ?thesis by simp
    next
      case False
      with spaced_after [OF sent(5), of fmt label calls] sent c show ?thesis by simp
    qed
  qed
qed

subsection \<open>Waits\<close>

lemma watch_status_watched:
  "set (pw_watched (snd (watch_status st w))) = insert (st_id st) (set (pw_watched w)) \<and>
   (distinct (map fst (pw_callbacks w)) \<and> fst ` set (pw_callbacks w) \<subseteq> set (pw_watched w) \<longrightarrow>
    distinct (map fst (pw_callbacks (snd (watch_status st w)))) \<and>
    fst ` set (pw_callbacks (snd (watch_status st w))) \<subseteq> set (pw_watched (snd (watch_status st w))))"
  by (auto simp: watch_status_def Let_def split: option.split)

text \<open>
  Within a wait a status is subscribed at most once, however often the engine reports it; the
  end of the wait is announced by one event, and forgets all statuses.
\<close>

theorem wait_subscribes_once:
  assumes "distinct (map fst (pw_callbacks w))" "fst ` set (pw_callbacks w) \<subseteq> set (pw_watched w)"
  shows "distinct (map fst (pw_callbacks (snd (for_each watch_status sts w)))) \<and>
    (let w' = snd (waiting_hook None None w) in pw_events w' = pw_events w @ [progress_event [] True] \<and>
       pw_watched w' = [] \<and> pw_last_payload w' = [] \<and> pw_last_sent w' = [])"
proof -
  have "distinct (map fst (pw_callbacks (snd (for_each watch_status sts w))))"
    using assms
  proof (induction sts arbitrary: w)
    case Nil
    then show ?case by (simp add: act_simps)
  next
    case (Cons st sts)
    from Cons.IH [of "snd (watch_status st w)"] Cons.prems watch_status_watched [of st w] show ?case
      by (auto simp: act_simps split: sum.split)
  qed
  then show ?thesis by (simp add: waiting_hook_def Let_def)
qed

theorem wait_subscribes_once_witness:
  "length (pw_callbacks (snd (for_each watch_status
     [\<lparr>st_id = 4, st_watchable = True, st_done = False, st_watch_raises = None, st_completable = True, st_complete_raises = None\<rparr>,
      \<lparr>st_id = 4, st_watchable = True, st_done = False, st_watch_raises = None, st_completable = True, st_complete_raises = None\<rparr>]
     (ProgressWatcher_init 1 None)))) = 1 \<and>
   distinct (map fst (pw_callbacks (snd (for_each watch_status [] (ProgressWatcher_init 1 None)))))"
  using wait_subscribes_once [of "ProgressWatcher_init 1 None" "[]"]
  by (simp add: ProgressWatcher_init_def act_simps watch_status_def)

text \<open>
  A status that reports after its wait has ended (an aborted move that still goes on) is taken
  up again: an event that is not final follows the final one, and the status shows in the
  snapshots of the next wait.
\<close>

theorem late_report_reopens:
  assumes "is_complete d kw = Inr b"
  shows "(let w' = snd (waiting_hook None None w); w'' = snd (progress_callback fmt key label d kw now w') in
     length (pw_events w'') = length (pw_events w') + 1 \<and>
     ev_payload (last (pw_events w')) = [(''statuses'', PV (PDict [])), (''completed'', PV (PBool True))] \<and>
     map_of (ev_payload (last (pw_events w''))) ''completed'' = Some (PV (PBool False)) \<and>
     map fst (pw_last_payload w'') = [key])"
  using assms
  by (simp add: waiting_hook_def progress_callback_def payload_of_def Let_def emit_progress_def progress_event_def event_of_def)

theorem late_report_reopens_witness:
  "map fst (pw_last_payload (snd (progress_callback (\<lambda>v. ''o'') 7 1 False [] 3
     (snd (waiting_hook None None (ProgressWatcher_init 1 None)))))) = [7]"
  using late_report_reopens [of False "[]" False "ProgressWatcher_init 1 None" "\<lambda>v. ''o''" 7 1 3]
  by (simp add: is_complete_def Let_def)

end
