(* ===== verification/HostLoop.thy ===== *)
theory HostLoop
  imports HostProperties PyString
begin

section \<open>The engine thread and its subscribers (\<open>engine/host.py\<close>)\<close>

text \<open>
  \<open>_run_loop\<close>: the engine thread takes commands from a queue until it finds \<open>None\<close>. A command is an
  action with the number of its future. A future that was cancelled before its command is taken
  is skipped; whatever else a command does, result or exception of any kind, becomes the result of
  its future. \<open>subscribers\<close>: the names of the callbacks that the profile subscribed.
\<close>

type_synonym ('s, 'r) command = "nat \<times> ('s, exn, 'r) act"

text \<open>The futures that get a result, the state, and what is left in the queue when the thread ends or waits.\<close>

fun run_loop :: "nat set \<Rightarrow> ('s, 'r) command option list \<Rightarrow> 's \<Rightarrow> (nat \<times> (exn + 'r)) list \<times> 's \<times> ('s, 'r) command option list" where
  "run_loop cancelled [] s = ([], s, [])"
| "run_loop cancelled (None # rest) s = ([], s, rest)"
| "run_loop cancelled (Some (fut, fn) # rest) s =
     (if fut \<in> cancelled then run_loop cancelled rest s
      else (let (r, s) = fn s; (done, s, left) = run_loop cancelled rest s in ((fut, r) # done, s, left)))"

text \<open>\<open>shutdown\<close> puts the sentinel; \<open>submit\<close> is refused only once the thread has been joined.\<close>

definition put_command :: "('s, 'r) command \<Rightarrow> ('s, 'r) command option list \<Rightarrow> ('s, 'r) command option list" where
  "put_command c q = q @ [Some c]"

definition put_sentinel :: "('s, 'r) command option list \<Rightarrow> ('s, 'r) command option list" where
  "put_sentinel q = q @ [None]"

lemma run_loop_resolves:
  assumes "None \<notin> set cs"
  shows "map fst (fst (run_loop cancelled (cs @ None # later) s)) = filter (\<lambda>f. f \<notin> cancelled) (map (fst \<circ> the) cs) \<and>
    snd (snd (run_loop cancelled (cs @ None # later) s)) = later"
  using assms
proof (induction cs arbitrary: s)
  case Nil
  then show ?case by simp
next
  case (Cons c cs)
  then obtain fut fn where c: "c = Some (fut, fn)" by (cases c) auto
  obtain r t where r: "fn s = (r, t)" by force
  obtain d u l where l: "run_loop cancelled (cs @ None # later) t = (d, u, l)" by (cases "run_loop cancelled (cs @ None # later) t") auto
  from Cons.IH [of s] Cons.IH [of t] Cons.prems c r l show ?case by simp
qed

text \<open>
  C28: the engine thread answers every command, in the order of arrival. Each future of a command
  queued before the sentinel that was not cancelled gets exactly one result, whatever the
  commands before it did or raised; a command queued behind the sentinel is never taken, so its
  caller waits for ever.
\<close>

theorem engine_thread_answers:
  assumes "None \<notin> set cs" "distinct (map (fst \<circ> the) cs)"
  shows "(let (answers, s', left) = run_loop cancelled (put_sentinel cs @ later) s in
    map fst answers = filter (\<lambda>f. f \<notin> cancelled) (map (fst \<circ> the) cs) \<and> distinct (map fst answers) \<and> left = later)"
  using run_loop_resolves [OF assms(1), of cancelled later s] assms(2)
  by (cases "run_loop cancelled (put_sentinel cs @ later) s") (simp add: put_sentinel_def)

theorem engine_thread_answers_witness:
  "(let (answers, s', left) = run_loop {2} (put_sentinel [Some (1, throw (Exn RuntimeError [])), Some (2, ret ()), Some (3, modify Suc)]
       @ [Some (4, ret ())]) (0 :: nat)
    in map fst answers = [1, 3] \<and> length left = 1)"
proof -
  have "None \<notin> set [Some (1, throw (Exn RuntimeError [])), Some (2, ret ()), Some (3, modify Suc)]" by simp
  from engine_thread_answers [OF this, of "{2}" "[Some (4, ret ())]" 0] show ?thesis
    by (cases "run_loop {2} (put_sentinel [Some (1, throw (Exn RuntimeError [])), Some (2, ret ()), Some (3, modify Suc)]
       @ [Some (4, ret ())]) (0 :: nat)") simp
qed

subsection \<open>Subscribers\<close>

text \<open>
  What \<open>_callback_name\<close> looks at: bluesky's proxy has \<open>inst\<close> (the class of the object it refers to, if
  that is still alive) and \<open>func\<close> (its \<open>__name__\<close>, if any, and its class); a bound method has the
  class of its \<open>__self__\<close> and a \<open>__name__\<close>; another callback may have a \<open>__name__\<close>, and has a class.
\<close>

record callback =
  cb_inst :: "string option option"
  cb_func :: "(string option \<times> string) option"
  cb_self :: "(string \<times> string) option"
  cb_name :: "string option"
  cb_class :: string

definition strip_dots :: "string \<Rightarrow> string" where
  "strip_dots s = rev (dropWhile (\<lambda>c. c = CHR ''.'') (rev (dropWhile (\<lambda>c. c = CHR ''.'') s)))"

definition callback_name :: "callback \<Rightarrow> string" where
  "callback_name cb =
     (if cb_inst cb \<noteq> None \<or> cb_func cb \<noteq> None then
        (let owner = (case cb_inst cb of Some (Some cls) \<Rightarrow> cls | _ \<Rightarrow> []);
             fname = (case cb_func cb of Some (Some n, _) \<Rightarrow> n | _ \<Rightarrow> [])
         in if owner \<noteq> [] then strip_dots (owner @ ''.'' @ fname)
            else if fname \<noteq> [] then fname
            else (case cb_func cb of Some (_, cls) \<Rightarrow> cls | None \<Rightarrow> cb_class cb))
      else (case cb_self cb of
          Some (cls, n) \<Rightarrow> cls @ ''.'' @ n
        | None \<Rightarrow> (case cb_name cb of
            None \<Rightarrow> cb_class cb
          | Some n \<Rightarrow> (if n \<noteq> [] \<and> n \<noteq> ''<lambda>'' then n else cb_class cb @ '':<lambda>''))))"

text \<open>\<open>registry\<close> is the engine's dispatcher table, \<open>None\<close> where bluesky has no such attribute.\<close>

definition subscribers :: "(string \<times> callback list) list option \<Rightarrow> host \<Rightarrow> (string \<times> string list) list" where
  "subscribers registry h =
     (case h_engine h of None \<Rightarrow> []
      | Some _ \<Rightarrow> (case registry of None \<Rightarrow> []
          | Some table \<Rightarrow> fold (\<lambda>(doc, cbs) out.
              let names = sorted_list_of_set (set (map callback_name cbs)) in
              if names \<noteq> [] then AList.update doc names out else out) table []))"

lemma subscribers_fold:
  "map_of (fold (\<lambda>(doc, cbs) out. let names = sorted_list_of_set (set (map callback_name cbs)) in
       if names \<noteq> [] then AList.update doc names out else out) table acc) doc =
   (case map_of (rev (filter (\<lambda>(d, cbs). cbs \<noteq> []) table)) doc of
      Some cbs \<Rightarrow> Some (sorted_list_of_set (callback_name ` set cbs)) | None \<Rightarrow> map_of acc doc)"
proof (induction table arbitrary: acc)
  case (Cons p table)
  obtain d cbs where p: "p = (d, cbs)" by force
  have "sorted_list_of_set (callback_name ` set cbs) = [] \<longleftrightarrow> cbs = []" by simp
  with Cons p show ?case by (auto simp: update_conv' Let_def map_add_def split: option.splits)
qed simp

text \<open>
  The listing names every subscribed callback once: for a document type with callbacks the
  sorted names of all of them, and nothing for the other types.
\<close>

theorem subscribers_lists_all:
  assumes "h_engine h = Some e" "distinct (map fst table)"
  shows "map_of (subscribers (Some table) h) doc =
    (case map_of table doc of
       Some cbs \<Rightarrow> if cbs = [] then None else Some (sorted_list_of_set (callback_name ` set cbs))
     | None \<Rightarrow> None)"
proof -
  have "distinct (map fst (filter (\<lambda>(d, cbs). cbs \<noteq> []) table))" using assms(2) by (simp add: distinct_map_filter)
  then have "map_of (rev (filter (\<lambda>(d, cbs). cbs \<noteq> []) table)) = map_of (filter (\<lambda>(d, cbs). cbs \<noteq> []) table)"
    by (subst map_of_inject_set) (simp_all only: rev_map [symmetric] distinct_rev set_rev)
  moreover note lookup_filter [OF assms(2), of "\<lambda>cbs. cbs \<noteq> []" doc]
  ultimately show ?thesis
    unfolding subscribers_def assms(1) option.case subscribers_fold by (auto split: option.split)
qed

theorem subscribers_lists_all_witness:
  "map_of (subscribers (Some [(''start'', [\<lparr>cb_inst = Some (Some ''TiledWriter''), cb_func = Some (Some ''write'', ''function''),
       cb_self = None, cb_name = None, cb_class = ''_BoundMethodProxy''\<rparr>]), (''stop'', [])])
     example_host) ''start'' = Some [''TiledWriter.write'']"
  by (subst subscribers_lists_all [of _ example_engine])
    (simp_all add: callback_name_def strip_dots_def example_host_def)

end
