(* ===== verification/Streams.thy ===== *)
theory Streams
  imports EngineHost
begin

section \<open>From the event bus to the websockets (\<open>api/streams.py\<close>)\<close>

text \<open>
  Each websocket has a queue of its own. An event that passes the predicate is delivered on the
  loop of the server: a full queue drops its oldest event first. The consumer takes events from
  the front. A queue whose \<open>maxsize\<close> is zero or negative is unbounded.
\<close>

definition queue_full :: "int \<Rightarrow> event list \<Rightarrow> bool" where
  "queue_full maxsize q \<longleftrightarrow> 0 < maxsize \<and> maxsize \<le> int (length q)"

definition deliver :: "int \<Rightarrow> event \<Rightarrow> event list \<Rightarrow> event list" where
  "deliver maxsize ev q = (if queue_full maxsize q then tl q else q) @ [ev]"

text \<open>\<open>on_event\<close> with the loop running; once it is closed nothing is delivered.\<close>

definition on_event :: "bool \<Rightarrow> (event \<Rightarrow> bool) option \<Rightarrow> int \<Rightarrow> event \<Rightarrow> event list \<Rightarrow> event list" where
  "on_event loop_closed predicate maxsize ev q =
     (if (case predicate of Some p \<Rightarrow> \<not> p ev | None \<Rightarrow> False) then q
      else if loop_closed then q else deliver maxsize ev q)"

datatype stream_step = Published event | Taken_off

text \<open>The queue and what the consumer has received, step by step; taking waits while it is empty.\<close>

fun stream_run :: "(event \<Rightarrow> bool) option \<Rightarrow> int \<Rightarrow> stream_step list \<Rightarrow> event list \<times> event list \<Rightarrow> event list \<times> event list" where
  "stream_run p m [] st = st"
| "stream_run p m (Published ev # steps) (q, got) = stream_run p m steps (on_event False p m ev q, got)"
| "stream_run p m (Taken_off # steps) (q, got) =
     (case q of [] \<Rightarrow> stream_run p m steps (q, got) | ev # q' \<Rightarrow> stream_run p m steps (q', got @ [ev]))"

text \<open>The events that concern the subscriber.\<close>

fun relevant :: "(event \<Rightarrow> bool) option \<Rightarrow> stream_step list \<Rightarrow> event list" where
  "relevant p [] = []"
| "relevant p (Published ev # steps) =
     (if (case p of Some f \<Rightarrow> f ev | None \<Rightarrow> True) then ev # relevant p steps else relevant p steps)"
| "relevant p (Taken_off # steps) = relevant p steps"

subsection \<open>JSON\<close>

text \<open>
  \<open>json_safe\<close> on values. An object whose \<open>item()\<close> works (a numpy scalar) gives that value, which is
  the parameter \<open>item\<close>; any other object gives its text. The only dataclass among the payloads is
  the outcome of a plan, which \<open>json_safe_payload\<close> spells out.
\<close>

fun json_safe :: "(pyval \<Rightarrow> string) \<Rightarrow> (nat \<Rightarrow> pyval option) \<Rightarrow> pyval \<Rightarrow> pyval"
  and json_safe_list :: "(pyval \<Rightarrow> string) \<Rightarrow> (nat \<Rightarrow> pyval option) \<Rightarrow> pyval list \<Rightarrow> pyval list"
  and json_safe_dict :: "(pyval \<Rightarrow> string) \<Rightarrow> (nat \<Rightarrow> pyval option) \<Rightarrow> pydict \<Rightarrow> pydict \<Rightarrow> pydict"
where
  "json_safe fmt item (PObj n) = (case item n of Some v \<Rightarrow> v | None \<Rightarrow> PStr (py_str fmt (PObj n)))"
| "json_safe fmt item (PDict d) = PDict (json_safe_dict fmt item d [])"
| "json_safe fmt item (PList xs) = PList (json_safe_list fmt item xs)"
| "json_safe fmt item (PTuple xs) = PList (json_safe_list fmt item xs)"
| "json_safe fmt item (PSet xs) = PList (json_safe_list fmt item xs)"
| "json_safe fmt item v = v"
| "json_safe_list fmt item [] = []"
| "json_safe_list fmt item (x # xs) = json_safe fmt item x # json_safe_list fmt item xs"
| "json_safe_dict fmt item [] acc = acc"
| "json_safe_dict fmt item ((k, v) # d) acc =
     json_safe_dict fmt item d (AList.update (PStr (py_str fmt k)) (json_safe fmt item v) acc)"

definition outcome_fields :: "(fstring \<Rightarrow> string) \<Rightarrow> plan_outcome \<Rightarrow> pydict" where
  "outcome_fields pr oc =
    [(PStr ''item_uid'', PStr (po_item_uid oc)), (PStr ''exit_status'', PStr (po_exit_status oc)),
     (PStr ''run_uids'', PTuple (map PStr (po_run_uids oc))), (PStr ''reason'', PStr (pr (po_reason oc))),
     (PStr ''exception'', PStr (pr (po_exception oc))), (PStr ''traceback'', PStr (pr (po_traceback oc))),
     (PStr ''plan_result'', po_plan_result oc), (PStr ''extra'', PDict (po_extra oc)),
     (PStr ''root_cause'', PStr (po_root_cause oc)), (PStr ''where'', PStr (po_where oc))]"

fun json_safe_payload :: "(fstring \<Rightarrow> string) \<Rightarrow> (pyval \<Rightarrow> string) \<Rightarrow> (nat \<Rightarrow> pyval option) \<Rightarrow> payload_value \<Rightarrow> pyval" where
  "json_safe_payload pr fmt item (PV v) = json_safe fmt item v"
| "json_safe_payload pr fmt item (PText t) = PStr (pr t)"
| "json_safe_payload pr fmt item (POutcome oc) =
     PDict (map (\<lambda>(k, v). (k, json_safe fmt item v)) (outcome_fields pr oc))"

subsection \<open>Properties\<close>

lemma deliver_suffix:
  "\<exists>n. deliver m ev q = drop n (q @ [ev]) \<and> n \<le> length q \<and> (m \<le> 0 \<longrightarrow> n = 0)"
proof (cases "queue_full m q \<and> q \<noteq> []")
  case True
  then have "deliver m ev q = drop 1 (q @ [ev])" by (cases q) (simp_all add: deliver_def)
  moreover have "1 \<le> length q" using True by (cases q) auto
  ultimately show ?thesis using True by (intro exI [of _ 1]) (auto simp: queue_full_def)
next
  case False
  then have "deliver m ev q = q @ [ev]" by (auto simp: deliver_def)
  then show ?thesis by (intro exI [of _ 0]) simp
qed

lemma length_deliver: "0 < m \<Longrightarrow> int (length q) \<le> m \<Longrightarrow> int (length (deliver m ev q)) \<le> m"
  by (cases q) (auto simp: deliver_def queue_full_def)

lemma stream_run_order:
  assumes "stream_run p m steps (q, got) = (q', got')" "0 < m \<longrightarrow> int (length q) \<le> m"
  shows "subseq (got' @ q') (got @ q @ relevant p steps) \<and> (0 < m \<longrightarrow> int (length q') \<le> m) \<and>
    (m \<le> 0 \<longrightarrow> got' @ q' = got @ q @ relevant p steps)"
  using assms
proof (induction p m steps "(q, got)" arbitrary: q got rule: stream_run.induct)
  case (1 p m q got)
  then show ?case by simp
next
  case (2 p m ev steps q got)
  let ?q = "on_event False p m ev q"
  have q: "0 < m \<longrightarrow> int (length ?q) \<le> m"
    using 2(3) length_deliver [of m q ev] by (auto simp: on_event_def split: option.split)
  note ih = 2(1) [OF _ q] 
  have run: "stream_run p m steps (?q, got) = (q', got')" using 2(2) by simp
  obtain n where n: "deliver m ev q = drop n (q @ [ev])" "m \<le> 0 \<longrightarrow> n = 0" using deliver_suffix by blast
  have sub: "subseq (deliver m ev q) (q @ [ev])" unfolding n(1) by (metis append_take_drop_id subseq_drop_many subseq_order.refl)
  show ?case
  proof (cases "case p of Some f \<Rightarrow> f ev | None \<Rightarrow> True")
    case True
    then have e: "?q = deliver m ev q" by (auto simp: on_event_def split: option.splits)
    have r: "relevant p (Published ev # steps) = ev # relevant p steps" using True by simp
    have "subseq (got @ ?q @ relevant p steps) (got @ (q @ [ev]) @ relevant p steps)"
      unfolding e using sub by (intro list_emb_append_mono) auto
    with 2(1) [OF run q] show ?thesis
      unfolding r using n by (auto simp: e dest: subseq_order.trans)
  next
    case False
    then have e: "?q = q" by (auto simp: on_event_def split: option.splits)
    with 2(1) [OF run q] False show ?thesis by simp
  qed
next
  case (3 p m steps q got)
  then show ?case by (cases q) auto
qed

text \<open>
  A websocket sees events in the order they were published, each at most once, and only those
  it asked for; its backlog never exceeds the bound; and without a bound none is ever dropped.
\<close>

theorem stream_in_order:
  "(let (q, got) = stream_run p m steps ([], []) in
    subseq (got @ q) (relevant p steps) \<and> (if 0 < m then int (length q) \<le> m else got @ q = relevant p steps))"
  using stream_run_order [of p m steps "[]" "[]"] by (cases "stream_run p m steps ([], [])") auto

lemma deliver_all_drop:
  "0 < m \<Longrightarrow> fold (deliver m) es (drop (length xs - nat m) xs) = drop (length (xs @ es) - nat m) (xs @ es)"
proof (induction es arbitrary: xs)
  case Nil
  then show ?case by simp
next
  case (Cons e es)
  have "deliver m e (drop (length xs - nat m) xs) = drop (length (xs @ [e]) - nat m) (xs @ [e])"
  proof (cases "nat m \<le> length xs")
    case True
    then have "int (length (drop (length xs - nat m) xs)) = m" using Cons.prems by simp
    then have "queue_full m (drop (length xs - nat m) xs)" using Cons.prems by (simp add: queue_full_def)
    then show ?thesis using True Cons.prems by (simp add: deliver_def Suc_diff_le tl_drop drop_Suc [symmetric])
  next
    case False
    then show ?thesis by (auto simp: deliver_def queue_full_def)
  qed
  with Cons.IH [of "xs @ [e]"] Cons.prems show ?case by simp
qed

text \<open>
  A consumer that stands still finds the latest events when it comes back: after any burst the
  queue holds exactly the last \<open>maxsize\<close> ones.
\<close>

theorem slow_consumer_keeps_latest:
  "0 < m \<Longrightarrow> fold (deliver m) es [] = drop (length es - nat m) es"
  using deliver_all_drop [of m es "[]"] by simp

theorem slow_consumer_keeps_latest_witness:
  "fold (deliver 2) [event_of STATE [], event_of QUEUE_STATE [], event_of RE_STATE []] [] =
     [event_of QUEUE_STATE [], event_of RE_STATE []]"
  using slow_consumer_keeps_latest [of 2 "[event_of STATE [], event_of QUEUE_STATE [], event_of RE_STATE []]"] by simp

fun json_ok :: "pyval \<Rightarrow> bool" and json_ok_list :: "pyval list \<Rightarrow> bool" and json_ok_dict :: "pydict \<Rightarrow> bool" where
  "json_ok (PList xs) = json_ok_list xs"
| "json_ok (PDict d) = json_ok_dict d"
| "json_ok (PTuple _) = False"
| "json_ok (PSet _) = False"
| "json_ok (PObj _) = False"
| "json_ok v = True"
| "json_ok_list [] = True"
| "json_ok_list (x # xs) = (json_ok x \<and> json_ok_list xs)"
| "json_ok_dict [] = True"
| "json_ok_dict ((k, v) # d) = ((case k of PStr _ \<Rightarrow> True | _ \<Rightarrow> False) \<and> json_ok v \<and> json_ok_dict d)"

lemma json_ok_dict_update:
  "json_ok_dict d \<Longrightarrow> json_ok v \<Longrightarrow> json_ok_dict (AList.update (PStr s) v d)"
  by (induction d) auto

lemma json_safe_lemma:
  "\<forall>n v. item n = Some v \<longrightarrow> json_ok v \<Longrightarrow> json_ok (json_safe fmt item v)"
  "\<forall>n v. item n = Some v \<longrightarrow> json_ok v \<Longrightarrow> json_ok_list (json_safe_list fmt item xs)"
  "\<forall>n v. item n = Some v \<longrightarrow> json_ok v \<Longrightarrow> json_ok_dict acc \<Longrightarrow> json_ok_dict (json_safe_dict fmt item d acc)"
  by (induction fmt item v and fmt item xs and fmt item d acc rule: json_safe_json_safe_list_json_safe_dict.induct)
    (auto split: option.split intro: json_ok_dict_update)

text \<open>
  Every event payload becomes JSON before it is sent: whatever a plan returns and whatever an
  event carries (tuples, sets, objects, non-string keys), as long as \<open>item()\<close> of a numpy value
  gives a JSON value.
\<close>

theorem json_safe_payload_is_json:
  "(\<And>n v. item n = Some v \<Longrightarrow> json_ok v) \<Longrightarrow> json_ok (json_safe_payload pr fmt item p)"
proof (cases p)
  case (POutcome oc)
  assume "\<And>n v. item n = Some v \<Longrightarrow> json_ok v"
  then have a: "\<forall>n v. item n = Some v \<longrightarrow> json_ok v" by blast
  show ?thesis
    using json_safe_lemma [OF a] by (simp add: POutcome outcome_fields_def)
qed (use json_safe_lemma(1) in simp_all)

theorem json_safe_payload_is_json_witness:
  "json_ok (json_safe_payload (\<lambda>t. ''t'') (\<lambda>v. ''o'') (\<lambda>n. if n = 0 then Some (PInt 3) else None)
     (PV (PDict [(PInt 1, PTuple [PObj 0, PObj 1])])))"
  by (rule json_safe_payload_is_json) (auto split: if_splits)

end
