(* ===== verification/StatusReport.thy ===== *)
theory StatusReport
  imports HostLoop Sequencer Streams
begin

section \<open>The status document (\<open>api/status.py\<close>)\<close>

text \<open>
  \<open>StatusReporter\<close> with the parts of the service it looks at. Its own state is the record \<open>reporter\<close>.
  The queue is read through the repository and may raise; the document is built all the same, from
  the counts of the last time the database answered. What the code takes from its surroundings is
  one record: how texts print, the hash of \<open>_uid_of\<close>, the clock, the JSON decoder, fresh uids,
  bluesky's table of callbacks.
\<close>

record surroundings =
  en_tx :: texts
  en_pr :: "fstring \<Rightarrow> string"
  en_uid :: "pyval list \<Rightarrow> string"
  en_version :: string
  en_callbacks :: "(string \<times> callback list) list option"
  en_now :: rat
  en_loads :: "string \<Rightarrow> exn + pyval"
  en_fresh :: "nat \<Rightarrow> string \<times> rat"

record reporter =
  st_registry_uid :: string
  st_registry_revision :: nat
  st_last_counts :: "nat \<times> nat"
  st_database_error :: "fstring option"
  st_stall_after :: rat
  st_last_progress_at :: rat
  st_last_collected :: int
  st_stall_announced :: bool

record 'r reporting =
  sv_seq :: "'r sequencer"
  sv_status :: reporter

definition StatusReporter_init :: "surroundings \<Rightarrow> rat \<Rightarrow> reporter" where
  "StatusReporter_init env stall_after =
    \<lparr>st_registry_uid = en_uid env [PStr ''registry'', PInt 0], st_registry_revision = 0, st_last_counts = (0, 0),
     st_database_error = None, st_stall_after = stall_after, st_last_progress_at = en_now env,
     st_last_collected = 0, st_stall_announced = False\<rparr>"

definition bump_registry :: "surroundings \<Rightarrow> reporter \<Rightarrow> reporter" where
  "bump_registry env st =
     (let n = st_registry_revision st + 1
      in st\<lparr>st_registry_revision := n, st_registry_uid := en_uid env [PStr ''registry'', PInt (int n)]\<rparr>)"

definition via_sequencer :: "('r, 'a) seq_act \<Rightarrow> (('r, 'z) reporting_scheme, exn, 'a) act" where
  "via_sequencer = on_part sv_seq (\<lambda>q s. s\<lparr>sv_seq := q\<rparr>)"

definition via_queue :: "('r, 'a) service_act \<Rightarrow> (('r, 'z) reporting_scheme, exn, 'a) act" where
  "via_queue m = via_sequencer (on_queue m)"

abbreviation host_of :: "('r, 'z) reporting_scheme \<Rightarrow> host" where
  "host_of s \<equiv> sq_host (sv_seq s)"

subsection \<open>Progress and the stall alarm\<close>

text \<open>\<open>round(x, 1)\<close>: the nearest tenth, ties to even.\<close>

definition round_tenth :: "rat \<Rightarrow> rat" where
  "round_tenth r = of_int (round_half_even (10 * r)) / 10"

definition run_events_dict :: "run_events \<Rightarrow> pyval" where
  "run_events_dict r = PDict
    [(PStr ''uid'', ru_uid r), (PStr ''scan_id'', ru_scan_id r),
     (PStr ''streams'', PDict (map (\<lambda>(name, n). (PStr name, PInt n)) (ru_streams r))),
     (PStr ''total'', PInt (ru_total r))]"

text \<open>One look at the engine: whether the plan counts as stalled, and the reporter afterwards.\<close>

definition watch_progress :: "rat \<Rightarrow> bool \<Rightarrow> int \<Rightarrow> reporter \<Rightarrow> (rat \<times> bool) \<times> reporter" where
  "watch_progress now running n_events st =
     (let st = (if n_events \<noteq> st_last_collected st \<or> \<not> running
                then st\<lparr>st_last_collected := n_events, st_last_progress_at := now, st_stall_announced := False\<rparr> else st);
          quiet_for = now - st_last_progress_at st;
          stalled = (running \<and> st_stall_after st \<le> quiet_for);
          st = (if stalled \<and> \<not> st_stall_announced st then st\<lparr>st_stall_announced := True\<rparr> else st)
      in ((quiet_for, stalled), st))"

definition progress_and_stall :: "surroundings \<Rightarrow> host \<Rightarrow> reporter \<Rightarrow> pydict \<times> reporter" where
  "progress_and_stall env h st =
     (let (runs, n_events) = collected_events (en_tx env) h;
          running = (h_state h = ENGINE_RUNNING);
          ((quiet_for, stalled), st) = watch_progress (en_now env) running n_events st
      in ([(PStr ''collected_events'', PInt n_events),
           (PStr ''runs_in_progress'', PList (map run_events_dict runs)),
           (PStr ''seconds_since_progress'', if running then PFloat (round_tenth quiet_for) else PNone),
           (PStr ''plan_stalled'', PBool stalled)], st))"

subsection \<open>The document\<close>

definition manager_state :: "('r, 'z) reporting_scheme \<Rightarrow> string" where
  "manager_state s =
     (if h_state (host_of s) = PAUSED then ''paused''
      else if h_state (host_of s) = ENGINE_RUNNING \<or> sq_running (sv_seq s) then ''executing_queue''
      else ''idle'')"

definition running_item :: "('r, 'z) reporting_scheme \<Rightarrow> pydict" where
  "running_item s = (case sq_running_item (sv_seq s) of None \<Rightarrow> [] | Some it \<Rightarrow> item_to_dict it)"

definition env_state :: "('r, 'z) reporting_scheme \<Rightarrow> string" where
  "env_state s =
     (let state = h_state (host_of s) in
      if state \<in> {STARTING, NO_ENGINE} then ''initializing''
      else if state = CLOSED then ''closed''
      else if state = ENGINE_RUNNING \<or> state = PAUSED then ''executing_plan''
      else ''idle'')"

definition opt_text :: "(fstring \<Rightarrow> string) \<Rightarrow> fstring option \<Rightarrow> pyval" where
  "opt_text pr t = (case t of None \<Rightarrow> PNone | Some t \<Rightarrow> PStr (pr t))"

text \<open>\<open>a or b\<close> on texts that may be missing.\<close>

definition either_text :: "fstring option \<Rightarrow> fstring option \<Rightarrow> fstring option" where
  "either_text a b = (case a of Some t \<Rightarrow> (if text_nonempty t then a else b) | None \<Rightarrow> b)"

definition opt_str :: "string option \<Rightarrow> pyval" where
  "opt_str s = (case s of None \<Rightarrow> PNone | Some s \<Rightarrow> PStr s)"

text \<open>The counts: a failure of the database leaves those of before, and its text.\<close>

definition refresh_counts :: "'r queue_repository \<Rightarrow> (('r, 'z) reporting_scheme, exn, unit) act" where
  "refresh_counts ops =
     handle
       (chain (via_queue (queue_len ops)) (\<lambda>qsize.
        chain (via_queue (history ops)) (\<lambda>entries.
        modify (\<lambda>s. s\<lparr>sv_status := (sv_status s)\<lparr>st_last_counts := (qsize, length entries), st_database_error := None\<rparr>\<rparr>))))
       (\<lambda>e. if is_exception (exn_class e)
          then modify (\<lambda>s. s\<lparr>sv_status := (sv_status s)\<lparr>st_database_error := Some (typed_text e)\<rparr>\<rparr>)
          else throw e)"

definition status_qs :: "surroundings \<Rightarrow> pydict \<Rightarrow> pydict \<Rightarrow> ('r, 'z) reporting_scheme \<Rightarrow> pydict" where
  "status_qs env experiment progress s =
     (let host = host_of s; seq = sv_seq s; st = sv_status s; pr = en_pr env in
      [(PStr ''engine_state'', PStr (engine_state_str (h_state host))),
       (PStr ''engine_adopted'', PBool (h_engine_adopted host)),
       (PStr ''last_error'', opt_text pr (either_text (h_last_error host) (sq_last_error seq))),
       (PStr ''engine_subscribers'', PDict (map (\<lambda>(doc, names). (PStr doc, PList (map PStr names)))
          (subscribers (en_callbacks env) host))),
       (PStr ''experiment'', PDict experiment),
       (PStr ''database_ok'', PBool (st_database_error st = None \<and> sq_database_error seq = None)),
       (PStr ''database_error'', opt_text pr (either_text (st_database_error st) (sq_database_error seq))),
       (PStr ''pending_history'', PInt (int (length (sq_pending_history seq)))),
       (PStr ''progress'', PDict progress),
       (PStr ''require_synced_experiment'', PBool (sq_require_synced seq))])"

definition status_doc :: "surroundings \<Rightarrow> pydict \<Rightarrow> pydict \<Rightarrow> ('r, 'z) reporting_scheme \<Rightarrow> pydict" where
  "status_doc env experiment progress s =
     (let host = host_of s; seq = sv_seq s; st = sv_status s; uid = en_uid env;
          (qsize, history_len) = st_last_counts st;
          n_history = PInt (int (history_len + length (sq_pending_history seq)));
          registry_uid = PStr (st_registry_uid st) in
      [(PStr ''msg'', PStr (''qs v'' @ en_version env @ '' (bluesky-queueserver compatible)'')),
       (PStr ''items_in_queue'', PInt (int qsize)),
       (PStr ''items_in_history'', n_history),
       (PStr ''running_item_uid'', opt_str (map_option item_uid (sq_running_item seq))),
       (PStr ''manager_state'', PStr (manager_state s)),
       (PStr ''queue_stop_pending'', PBool (sq_stop_pending seq)),
       (PStr ''queue_autostart_enabled'', PBool (sq_autostart seq)),
       (PStr ''worker_environment_exists'', PBool (h_state host \<notin> {STARTING, NO_ENGINE, CLOSED})),
       (PStr ''worker_environment_state'', PStr (env_state s)),
       (PStr ''worker_background_tasks'', PInt 0),
       (PStr ''re_state'', opt_str (map_option re_state (h_engine host))),
       (PStr ''ip_kernel_state'', PNone),
       (PStr ''ip_kernel_captured'', PNone),
       (PStr ''pause_pending'', PBool False),
       (PStr ''run_list_uid'', PStr (uid [PStr ''runs'', PTuple (case h_last_outcome host of
            None \<Rightarrow> [] | Some oc \<Rightarrow> map PStr (po_run_uids oc))])),
       (PStr ''plan_queue_uid'', PStr (uid [PStr ''queue'', PInt (int (qs_revision (sq_queue seq)))])),
       (PStr ''plan_history_uid'', PStr (uid [PStr ''history'', n_history])),
       (PStr ''devices_existing_uid'', registry_uid),
       (PStr ''plans_existing_uid'', registry_uid),
       (PStr ''devices_allowed_uid'', registry_uid),
       (PStr ''plans_allowed_uid'', registry_uid),
       (PStr ''plan_queue_mode'', PDict [(PStr ''loop'', PBool (sq_loop_mode seq)), (PStr ''ignore_failures'', PBool False)]),
       (PStr ''task_results_uid'', PStr (uid [PStr ''tasks'', PInt 0])),
       (PStr ''lock_info_uid'', PStr (uid [PStr ''lock'', PInt 0])),
       (PStr ''lock'', PDict [(PStr ''environment'', PBool False), (PStr ''queue'', PBool False)]),
       (PStr ''qs'', PDict (status_qs env experiment progress s))])"

definition snapshot :: "'r queue_repository \<Rightarrow> surroundings \<Rightarrow> (('r, 'z) reporting_scheme, exn, pydict) act" where
  "snapshot ops env =
     chain (refresh_counts ops) (\<lambda>_ s.
     case experiment_metadata (en_tx env) (en_pr env) (host_of s) of
       Inl e \<Rightarrow> (Inl e, s)
     | Inr experiment \<Rightarrow>
         (let (progress, st) = progress_and_stall env (host_of s) (sv_status s);
              s = s\<lparr>sv_status := st\<rparr>
          in (Inr (status_doc env experiment progress s), s)))"

end
