(* ===== verification/ApiBasics.thy ===== *)
theory ApiBasics
  imports QueueModels PyString
begin

section \<open>Responses and request payloads\<close>

text \<open>
  \<open>api/responses.py\<close>: the bodies that every route answers with. \<open>api/payload.py\<close>: how the query
  parameters and the body of a request become one dictionary. Decoding JSON text is not part of
  the repository: \<open>loads\<close> is \<open>json.loads\<close>, a parameter that returns a value or raises. The limit of
  4300 digits that Python puts on \<open>int(text)\<close> is left out.
\<close>

subsection \<open>Responses\<close>

definition default_code :: "exn_class \<Rightarrow> error_code" where
  "default_code c =
     (if c = QueueError \<or> c = RegistryError \<or> c = DeviceDefinitionError then ITEM_INVALID
      else if class_name c = ''SequencerError'' then QUEUE_REFUSED
      else if c = EngineHostError then ENGINE_BUSY
      else INTERNAL)"

text \<open>\<open>getattr(exc, "code", None)\<close>: only a \<open>SequencerError\<close> has one.\<close>

fun own_code :: "exn_class \<Rightarrow> error_code option" where
  "own_code (SequencerError c) = Some c"
| "own_code _ = None"

definition ok_body :: "string \<Rightarrow> pydict \<Rightarrow> pydict" where
  "ok_body msg extra = dict_update [(PStr ''success'', PBool True), (PStr ''msg'', PStr msg)] extra"

definition fail_body :: "string \<Rightarrow> error_code option \<Rightarrow> pydict \<Rightarrow> pydict" where
  "fail_body msg code extra =
     (let body = dict_update [(PStr ''success'', PBool False), (PStr ''msg'', PStr msg)] extra
      in case code of None \<Rightarrow> body | Some c \<Rightarrow> AList.update (PStr ''code'') (PStr (code_str c)) body)"

definition fail_from :: "(fstring \<Rightarrow> string) \<Rightarrow> exn \<Rightarrow> error_code option \<Rightarrow> pydict" where
  "fail_from pr e dflt =
     (let code = (case own_code (exn_class e) of Some c \<Rightarrow> c
                  | None \<Rightarrow> (case dflt of Some c \<Rightarrow> c | None \<Rightarrow> default_code (exn_class e)))
      in fail_body (pr (exn_text e)) (Some code) [])"

definition unsupported :: "string \<Rightarrow> string \<Rightarrow> pydict" where
  "unsupported what why =
     fail_body (what @ '' is not supported by this service: '' @ why) (Some UNSUPPORTED) [(PStr ''supported'', PBool False)]"

definition succeeded_body :: "pydict \<Rightarrow> bool" where
  "succeeded_body b \<longleftrightarrow> dget ''success'' b = PBool True"

lemma dget_update [simp]: "dget k (AList.update (PStr k') v d) = (if k = k' then v else dget k d)"
  by (simp add: dget_def update_conv')

lemma dget_ok: "distinct (map fst extra) \<Longrightarrow> dget k (ok_body msg extra) =
   (case map_of extra (PStr k) of Some v \<Rightarrow> v
    | None \<Rightarrow> if k = ''success'' then PBool True else if k = ''msg'' then PStr msg else PNone)"
  by (auto simp: ok_body_def dget_def map_of_dict_update map_add_def split: option.split)

lemma dget_fail: "distinct (map fst extra) \<Longrightarrow> dget k (fail_body msg code extra) =
   (if k = ''code'' \<and> code \<noteq> None then PStr (code_str (the code))
    else (case map_of extra (PStr k) of Some v \<Rightarrow> v
    | None \<Rightarrow> if k = ''success'' then PBool False else if k = ''msg'' then PStr msg else PNone))"
  by (cases code)
    (auto simp: fail_body_def dget_def Let_def map_of_dict_update map_add_def update_conv' split: option.split)

subsection \<open>Numbers in text\<close>

definition is_digit :: "char \<Rightarrow> bool" where
  "is_digit c \<longleftrightarrow> 48 \<le> (of_char c :: nat) \<and> (of_char c :: nat) \<le> 57"

definition digit_value :: "char \<Rightarrow> nat" where
  "digit_value c = of_char c - 48"

text \<open>Digits, a single underscore allowed between two of them.\<close>

fun digits_from :: "nat \<Rightarrow> string \<Rightarrow> nat option" where
  "digits_from acc [] = Some acc"
| "digits_from acc (c # cs) =
     (if is_digit c then digits_from (10 * acc + digit_value c) cs
      else if c = CHR ''_'' then
        (case cs of [] \<Rightarrow> None
         | d # ds \<Rightarrow> if is_digit d then digits_from (10 * acc + digit_value d) ds else None)
      else None)"

definition parse_nat :: "string \<Rightarrow> nat option" where
  "parse_nat s = (case s of [] \<Rightarrow> None
     | c # cs \<Rightarrow> if is_digit c then digits_from (digit_value c) cs else None)"

text \<open>\<open>int(s)\<close>; \<open>None\<close> is \<open>ValueError\<close>.\<close>

definition parse_int :: "string \<Rightarrow> int option" where
  "parse_int s = (case strip s of
     [] \<Rightarrow> None
   | c # cs \<Rightarrow>
       (if c = CHR ''-'' then map_option (\<lambda>n. - int n) (parse_nat cs)
        else if c = CHR ''+'' then map_option int (parse_nat cs)
        else map_option int (parse_nat (c # cs))))"

subsection \<open>Payloads\<close>

definition coerce :: "(string \<Rightarrow> exn + pyval) \<Rightarrow> string \<Rightarrow> pyval" where
  "coerce loads value =
     (let lowered = lower value in
      if lowered = ''true'' \<or> lowered = ''false'' then PBool (lowered = ''true'')
      else (case parse_int value of
          Some i \<Rightarrow> PInt i
        | None \<Rightarrow> (case loads value of Inr v \<Rightarrow> v | Inl e \<Rightarrow> PStr value)))"

text \<open>A request as far as the routes look at it: headers and query parameters, and the raw body.\<close>

record request =
  rq_headers :: "(string \<times> string) list"
  rq_query :: "(string \<times> string) list"
  rq_body :: string

definition json_error :: exn_class where
  "json_error = OtherException ''JSONDecodeError''"

definition read_payload :: "(string \<Rightarrow> exn + pyval) \<Rightarrow> request \<Rightarrow> exn + pydict" where
  "read_payload loads rq =
     (let payload = fold (\<lambda>(key, value) d.
            if key = ''api_key'' \<or> key = ''access_token'' then d
            else AList.update (PStr key) (coerce loads value) d) (rq_query rq) []
      in if rq_body rq = [] then Inr payload
         else (case loads (rq_body rq) of
             Inl e \<Rightarrow> (if exn_class e = json_error then Inr payload else Inl e)
           | Inr (PDict data) \<Rightarrow> Inr (dict_update payload data)
           | Inr _ \<Rightarrow> Inr payload))"

subsection \<open>Lemmas\<close>

lemma of_char_char_of_small: "n < 256 \<Longrightarrow> (of_char (char_of n :: char) :: nat) = n"
  by simp

lemma show_nat_digit: "n < 10 \<Longrightarrow> show_nat n = [char_of (48 + n)]"
  by (simp add: show_nat.simps)

lemma is_digit_char_of: "n < 10 \<Longrightarrow> is_digit (char_of (48 + n)) \<and> digit_value (char_of (48 + n)) = n"
  by (simp add: is_digit_def digit_value_def of_char_char_of_small)

lemma digits_from_append:
  "digits_from acc s = Some k \<Longrightarrow> n < 10 \<Longrightarrow> digits_from acc (s @ [char_of (48 + n)]) = Some (10 * k + n)"
proof (induction acc s rule: digits_from.induct)
  case (1 acc)
  then show ?case using is_digit_char_of [of n] by simp
next
  case (2 acc c cs)
  show ?case
  proof (cases "is_digit c")
    case True
    with 2 show ?thesis by simp
  next
    case False
    with 2 show ?thesis by (auto split: if_splits list.splits)
  qed
qed

lemma parse_nat_append:
  "parse_nat s = Some k \<Longrightarrow> n < 10 \<Longrightarrow> parse_nat (s @ [char_of (48 + n)]) = Some (10 * k + n)"
  by (cases s) (auto simp: parse_nat_def digits_from_append split: if_splits)

lemma parse_show_nat: "parse_nat (show_nat n) = Some n"
proof (induction n rule: show_nat.induct)
  case (1 n)
  show ?case
  proof (cases "n < 10")
    case True
    then show ?thesis using is_digit_char_of [of n] by (simp add: show_nat_digit parse_nat_def)
  next
    case False
    then have "show_nat n = show_nat (n div 10) @ [char_of (48 + n mod 10)]" by (subst show_nat.simps) simp
    moreover have "parse_nat (show_nat (n div 10)) = Some (n div 10)" using 1 False by blast
    ultimately show ?thesis using parse_nat_append [of "show_nat (n div 10)" "n div 10" "n mod 10"] by simp
  qed
qed

lemma show_nat_digits: "set (show_nat n) \<subseteq> {c. is_digit c}"
proof (induction n rule: show_nat.induct)
  case (1 n)
  show ?case
  proof (cases "n < 10")
    case True
    then show ?thesis using is_digit_char_of [of n] by (simp add: show_nat_digit)
  next
    case False
    then have "show_nat n = show_nat (n div 10) @ [char_of (48 + n mod 10)]" by (subst show_nat.simps) simp
    then show ?thesis using 1 False is_digit_char_of [of "n mod 10"] by simp
  qed
qed

lemma show_nat_nonempty: "show_nat n \<noteq> []"
  by (subst show_nat.simps) simp

lemma digit_not_space: "is_digit c \<Longrightarrow> \<not> is_space c"
  by (auto simp: is_digit_def is_space_def)

lemma strip_id: "s \<noteq> [] \<Longrightarrow> \<not> is_space (hd s) \<Longrightarrow> \<not> is_space (last s) \<Longrightarrow> strip s = s"
proof -
  assume s: "s \<noteq> []" "\<not> is_space (hd s)" "\<not> is_space (last s)"
  then have "dropWhile is_space s = s" by (cases s) simp_all
  moreover have "dropWhile is_space (rev s) = rev s" using s by (cases s rule: rev_cases) simp_all
  ultimately show ?thesis by (simp add: strip_def)
qed

lemma parse_show_int: "parse_int (show_int i) = Some i"
proof -
  let ?d = "show_nat (nat (if i < 0 then - i else i))"
  have d: "is_digit (hd ?d)" "is_digit (last ?d)"
    using show_nat_digits show_nat_nonempty by (metis hd_in_set last_in_set mem_Collect_eq subsetD)+
  obtain c cs where c: "?d = c # cs" using show_nat_nonempty by (cases ?d) auto
  have "c \<noteq> CHR ''-'' \<and> c \<noteq> CHR ''+''" using d(1) c by (auto simp: is_digit_def)
  moreover have "\<not> is_space CHR ''-''" by (simp add: is_space_def)
  ultimately show ?thesis
    using d c digit_not_space show_nat_nonempty parse_show_nat [of "nat (if i < 0 then - i else i)"]
    by (auto simp: parse_int_def show_int_def strip_id)
qed

lemma show_int_not_bool: "lower (show_int i) \<noteq> ''true'' \<and> lower (show_int i) \<noteq> ''false''"
proof -
  have low: "lower_char c = c" if "is_digit c \<or> c = CHR ''-''" for c
    using that by (auto simp: is_digit_def lower_char_def Let_def)
  have mem: "c \<in> set (show_int i) \<Longrightarrow> is_digit c \<or> c = CHR ''-''" for c
    using show_nat_digits by (auto simp: show_int_def split: if_splits)
  then have "lower (show_int i) = show_int i" using low by (simp add: lower_def map_idI)
  moreover have "\<not> is_digit CHR ''e''" by (simp add: is_digit_def)
  then have "CHR ''e'' \<notin> set (show_int i)" using mem by blast
  ultimately show ?thesis by auto
qed

text \<open>
  A number in a query string arrives as that number: what \<open>str\<close> prints is read back, whatever
  the JSON decoder does.
\<close>

theorem coerce_reads_numbers: "coerce loads (py_str fmt (PInt i)) = PInt i"
  using show_int_not_bool [of i] by (simp add: coerce_def Let_def parse_show_int)

text \<open>
  A JSON object in the body takes precedence over query parameters of the same name, every
  other parameter is kept, and the credential never becomes part of the payload by way of the
  query.
\<close>

theorem payload_merge:
  assumes "rq_body rq \<noteq> []" "loads (rq_body rq) = Inr (PDict data)" "distinct (map fst data)"
  shows "\<exists>p. read_payload loads rq = Inr p \<and>
    (\<forall>k. map_of p (PStr k) = (case map_of data (PStr k) of Some v \<Rightarrow> Some v
       | None \<Rightarrow> if k = ''api_key'' \<or> k = ''access_token'' then None
                 else map_option (coerce loads) (map_of (rev (rq_query rq)) k)))"
proof -
  have q: "map_of (fold (\<lambda>(key, value) d.
            if key = ''api_key'' \<or> key = ''access_token'' then d
            else AList.update (PStr key) (coerce loads value) d) qs d0) (PStr k) =
      (if k = ''api_key'' \<or> k = ''access_token'' then map_of d0 (PStr k)
       else (case map_of (rev qs) k of Some v \<Rightarrow> Some (coerce loads v) | None \<Rightarrow> map_of d0 (PStr k)))" for qs d0 k
    by (induction qs arbitrary: d0) (auto simp: update_conv' map_add_def split: option.splits)
  show ?thesis
    using assms by (auto simp: read_payload_def Let_def map_of_dict_update map_add_def q split: option.splits)
qed

theorem payload_merge_witness:
  "read_payload (\<lambda>s. if s = ''B'' then Inr (PDict [(PStr ''pos'', PStr ''front'')]) else Inl (Exn json_error []))
     \<lparr>rq_headers = [], rq_query = [(''pos'', ''3''), (''api_key'', ''k''), (''uid'', ''abc'')], rq_body = ''B''\<rparr> =
   Inr [(PStr ''pos'', PStr ''front''), (PStr ''uid'', PStr ''abc'')]
   \<and> (\<exists>p. read_payload (\<lambda>s. if s = ''B'' then Inr (PDict [(PStr ''pos'', PStr ''front'')]) else Inl (Exn json_error []))
     \<lparr>rq_headers = [], rq_query = [(''pos'', ''3''), (''api_key'', ''k''), (''uid'', ''abc'')], rq_body = ''B''\<rparr> = Inr p
     \<and> map_of p (PStr ''pos'') = Some (PStr ''front''))"
proof -
  let ?l = "\<lambda>s. if s = ''B'' then Inr (PDict [(PStr ''pos'', PStr ''front'')]) else Inl (Exn json_error [])"
  let ?r = "\<lparr>rq_headers = [], rq_query = [(''pos'', ''3''), (''api_key'', ''k''), (''uid'', ''abc'')], rq_body = ''B''\<rparr>"
  have "coerce ?l ''3'' = PInt 3" "coerce ?l ''abc'' = PStr ''abc''"
    by (simp_all add: coerce_def lower_def lower_char_def parse_int_def strip_def is_space_def parse_nat_def is_digit_def
        digit_value_def)
  then have "read_payload ?l ?r = Inr [(PStr ''pos'', PStr ''front''), (PStr ''uid'', PStr ''abc'')]"
    by (simp add: read_payload_def dict_update_def)
  moreover have "\<exists>p. read_payload ?l ?r = Inr p \<and> map_of p (PStr ''pos'') = Some (PStr ''front'')"
    using payload_merge [of ?r ?l "[(PStr ''pos'', PStr ''front'')]"] by auto
  ultimately show ?thesis by blast
qed

text \<open>
  A body that is no JSON text is ignored, but any other error of the decoder (bytes that are not
  valid text) is not caught and leaves the route.
\<close>

theorem payload_decoder_errors:
  "rq_body rq \<noteq> [] \<and> loads (rq_body rq) = Inl e \<Longrightarrow>
   (if exn_class e = json_error then \<exists>p. read_payload loads rq = Inr p else read_payload loads rq = Inl e)"
  by (simp add: read_payload_def Let_def)

theorem payload_decoder_errors_witness:
  "read_payload (\<lambda>s. Inl (Exn (OtherException ''UnicodeDecodeError'') []))
     \<lparr>rq_headers = [], rq_query = [], rq_body = [char_of (255 :: nat)]\<rparr> =
   Inl (Exn (OtherException ''UnicodeDecodeError'') [])"
  using payload_decoder_errors [of "\<lparr>rq_headers = [], rq_query = [], rq_body = [char_of (255 :: nat)]\<rparr>"
    "\<lambda>s. Inl (Exn (OtherException ''UnicodeDecodeError'') [])" "Exn (OtherException ''UnicodeDecodeError'') []"]
  by (simp add: json_error_def)

end
