(* ===== verification/Auth.thy ===== *)
theory Auth
  imports ApiBasics
begin

section \<open>Who is calling (\<open>api/auth.py\<close>, \<open>api/deps.py\<close>, \<open>api/routers/auth.py\<close>)\<close>

text \<open>
  From a request to a credential, from a credential to a principal, and the two dependencies that
  guard the routes. Headers and query parameters are association lists. \<open>hmac.compare_digest\<close> is the
  comparison of the standard library: it compares two ASCII strings and raises \<open>TypeError\<close> on any
  other. The random key of an unconfigured service is an input.
\<close>

definition ALL_SCOPES :: "string list" where
  "ALL_SCOPES = [''read:status'', ''read:queue'', ''write:queue'', ''read:history'', ''write:history'',
     ''read:resources'', ''read:config'', ''read:monitor'', ''read:console'', ''read:lock'', ''write:lock'',
     ''write:permissions'', ''read:testing'', ''write:testing'', ''user:apikeys'', ''admin:apikeys'',
     ''admin:read:principals'', ''admin:metrics'', ''write:plans'', ''write:execute'', ''write:scripts'',
     ''write:manager'', ''write:unlock'', ''write:apikeys'']"

record principal =
  pr_name :: string
  pr_user_group :: string
  pr_scopes :: "string list"

definition new_principal :: "string \<Rightarrow> principal" where
  "new_principal name = \<lparr>pr_name = name, pr_user_group = ''primary'', pr_scopes = ALL_SCOPES\<rparr>"

definition is_anonymous :: "principal \<Rightarrow> bool" where
  "is_anonymous p \<longleftrightarrow> pr_name p = ''anonymous''"

record credential =
  cr_scheme :: string
  cr_value :: string

definition no_credential :: credential where
  "no_credential = \<lparr>cr_scheme = [], cr_value = []\<rparr>"

text \<open>\<open>mapping.get(k)\<close> on strings, and the value of \<open>get(k) or ""\<close>.\<close>

definition text_of :: "(string \<times> string) list \<Rightarrow> string \<Rightarrow> string" where
  "text_of d k = (case map_of d k of None \<Rightarrow> [] | Some v \<Rightarrow> v)"

definition from_headers_and_query :: "(string \<times> string) list \<Rightarrow> (string \<times> string) list \<Rightarrow> credential" where
  "from_headers_and_query headers query =
     (let auth = (if text_of headers ''authorization'' \<noteq> [] then text_of headers ''authorization''
                  else text_of headers ''Authorization'');
          (scheme, _, value) = partition_at CHR '' '' auth;
          scheme = lower (strip scheme); value = strip value
      in if auth \<noteq> [] \<and> scheme = ''apikey'' then \<lparr>cr_scheme = ''apikey'', cr_value = value\<rparr>
         else if auth \<noteq> [] \<and> scheme = ''bearer'' then \<lparr>cr_scheme = ''bearer'', cr_value = value\<rparr>
         else if text_of query ''api_key'' \<noteq> [] then \<lparr>cr_scheme = ''query'', cr_value = text_of query ''api_key''\<rparr>
         else if text_of query ''access_token'' \<noteq> [] then \<lparr>cr_scheme = ''bearer'', cr_value = text_of query ''access_token''\<rparr>
         else no_credential)"

subsection \<open>The single-key authenticator\<close>

record authenticator =
  au_key :: string
  au_allow_anonymous :: bool
  au_generated :: bool

text \<open>\<open>None\<close> and the empty string are both no key.\<close>

definition SingleKeyAuthenticator :: "string \<Rightarrow> bool \<Rightarrow> bool \<Rightarrow> exn + authenticator" where
  "SingleKeyAuthenticator api_key allow_anonymous generated =
     (if \<not> allow_anonymous \<and> api_key = []
      then Inl (Exn ValueError [Txt ''An API key is required unless anonymous access is allowed''])
      else Inr \<lparr>au_key = api_key, au_allow_anonymous = allow_anonymous, au_generated = generated\<rparr>)"

definition auth_mode :: "authenticator \<Rightarrow> string" where
  "auth_mode a = (if au_allow_anonymous a then ''UNAUTHENTICATED_SINGLE_USER'' else ''SINGLE_USER_API_KEY'')"

definition is_ascii :: "string \<Rightarrow> bool" where
  "is_ascii s \<longleftrightarrow> (\<forall>c \<in> set s. (of_char c :: nat) < 128)"

definition compare_digest :: "string \<Rightarrow> string \<Rightarrow> exn + bool" where
  "compare_digest a b =
     (if is_ascii a \<and> is_ascii b then Inr (a = b)
      else Inl (Exn TypeError [Txt ''comparing strings with non-ASCII characters is not supported'']))"

definition authenticate :: "authenticator \<Rightarrow> credential \<Rightarrow> exn + principal" where
  "authenticate a c =
     (if au_allow_anonymous a then Inr (new_principal ''anonymous'')
      else if cr_value c = []
      then Inl (Exn (AuthenticationError 401)
        [Txt ''Authentication required: pass 'Authorization: Apikey <key>' or ?api_key=''])
      else (case compare_digest (cr_value c) (au_key a) of
          Inl e \<Rightarrow> Inl e
        | Inr True \<Rightarrow> Inr (new_principal ''single_user'')
        | Inr False \<Rightarrow> Inl (Exn (AuthenticationError 401) [Txt ''Invalid API key''])))"

definition authenticator_from_environment :: "string \<Rightarrow> (string \<times> string) list \<Rightarrow> exn + authenticator" where
  "authenticator_from_environment random environ =
     (let allow = lower (strip (case map_of environ ''QSERVER_HTTP_SERVER_ALLOW_ANONYMOUS_ACCESS'' of
                                  None \<Rightarrow> ''0'' | Some v \<Rightarrow> v)) \<in> {''1'', ''true'', ''yes''};
          key = text_of environ ''QSERVER_HTTP_SERVER_SINGLE_USER_API_KEY'';
          (key, generated) = (if key = [] \<and> \<not> allow then (random, True) else (key, False))
      in SingleKeyAuthenticator key allow generated)"

subsection \<open>The dependencies of the routes\<close>

text \<open>\<open>HTTPException\<close>: a status code and its detail.\<close>

record http_refusal =
  hx_status :: int
  hx_detail :: fstring

text \<open>\<open>getattr(exc, "status_code", 401)\<close>.\<close>

fun status_code_of :: "exn_class \<Rightarrow> int" where
  "status_code_of (AuthenticationError n) = n"
| "status_code_of _ = 401"

definition get_principal :: "authenticator \<Rightarrow> request \<Rightarrow> http_refusal + principal" where
  "get_principal a rq =
     (case authenticate a (from_headers_and_query (rq_headers rq) (rq_query rq)) of
        Inr p \<Rightarrow> Inr p
      | Inl e \<Rightarrow> Inl \<lparr>hx_status = status_code_of (exn_class e), hx_detail = exn_text e\<rparr>)"

definition require_scope :: "string \<Rightarrow> authenticator \<Rightarrow> request \<Rightarrow> http_refusal + principal" where
  "require_scope scope a rq =
     (case get_principal a rq of
        Inl r \<Rightarrow> Inl r
      | Inr p \<Rightarrow> (if scope \<notin> set (pr_scopes p) then Inl \<lparr>hx_status = 403, hx_detail = [Txt ''Missing scope '', Rep (PStr scope)]\<rparr>
          else Inr p))"

subsection \<open>The routes of the auth group\<close>

definition single_user_key :: "authenticator \<Rightarrow> pydict" where
  "single_user_key a = [(PStr ''first_eight'', PStr (take 8 (au_key a))), (PStr ''expiration_time'', PNone),
     (PStr ''note'', PStr ''single-user key''), (PStr ''scopes'', PList (map PStr ALL_SCOPES))]"

definition principal_dict :: "principal \<Rightarrow> authenticator \<Rightarrow> pydict" where
  "principal_dict p a =
     [(PStr ''uuid'', PStr (pr_name p)),
      (PStr ''type'', PStr (if is_anonymous p then ''service'' else ''user'')),
      (PStr ''identities'', PList [PDict [(PStr ''id'', PStr (pr_name p)), (PStr ''provider'', PStr (auth_mode a))]]),
      (PStr ''api_keys'', PList (if au_key a \<noteq> [] then [PDict (single_user_key a)] else [])),
      (PStr ''sessions'', PList []),
      (PStr ''roles'', PList [PDict [(PStr ''name'', PStr (if \<not> is_anonymous p then ''admin'' else ''user''))]])]"

definition whoami :: "principal \<Rightarrow> authenticator \<Rightarrow> pydict" where
  "whoami p a = principal_dict p a"

definition auth_scopes :: "principal \<Rightarrow> pydict" where
  "auth_scopes p = [(PStr ''scopes'', PList (map PStr (sorted_list_of_set (set (pr_scopes p)))))]"

definition apikey_get :: "authenticator \<Rightarrow> pydict" where
  "apikey_get a = (if au_key a \<noteq> [] then single_user_key a else fail_body ''No API key is configured'' None [])"

definition logout :: pydict where
  "logout = []"

definition principal_list :: "principal \<Rightarrow> authenticator \<Rightarrow> pydict list" where
  "principal_list p a = [principal_dict p a]"

definition principal_get :: "string \<Rightarrow> principal \<Rightarrow> authenticator \<Rightarrow> pydict" where
  "principal_get uuid p a = principal_dict p a"

text \<open>What the single-user key does not support.\<close>

definition not_with_single_key :: "string \<Rightarrow> pydict" where
  "not_with_single_key msg = fail_body msg (Some UNSUPPORTED) []"

definition apikey_create :: pydict where
  "apikey_create = not_with_single_key
     ''Creating API keys is not supported under the single-user key; set QSERVER_HTTP_SERVER_SINGLE_USER_API_KEY''"

definition apikey_delete :: pydict where
  "apikey_delete = not_with_single_key ''Deleting API keys is not supported under the single-user key''"

definition principal_apikey :: pydict where
  "principal_apikey = not_with_single_key ''Per-principal API keys are not supported under the single-user key''"

definition session_refresh :: pydict where
  "session_refresh = not_with_single_key ''Sessions are not supported under the single-user key''"

definition session_revoke :: pydict where
  "session_revoke = not_with_single_key ''Sessions are not supported under the single-user key''"

subsection \<open>Properties\<close>

definition authenticator_ok :: "authenticator \<Rightarrow> bool" where
  "authenticator_ok a \<longleftrightarrow> au_allow_anonymous a \<or> au_key a \<noteq> []"

lemma built_ok: "SingleKeyAuthenticator k allow g = Inr a \<Longrightarrow> authenticator_ok a"
  by (auto simp: SingleKeyAuthenticator_def authenticator_ok_def split: if_splits)

text \<open>
  A caller gets in exactly if anonymous access is allowed or the request carries the configured
  key (and both are ASCII). Everybody else gets status 401, whatever the comparison raises; who
  gets in has every scope the routes ask for.
\<close>

theorem access_iff_key:
  assumes "SingleKeyAuthenticator k allow g = Inr a" "scope \<in> set ALL_SCOPES"
  shows "(let value = cr_value (from_headers_and_query (rq_headers rq) (rq_query rq)) in
    if allow \<or> value \<noteq> [] \<and> is_ascii value \<and> is_ascii k \<and> value = k
    then require_scope scope a rq = Inr (new_principal (if allow then ''anonymous'' else ''single_user''))
    else \<exists>detail. require_scope scope a rq = Inl \<lparr>hx_status = 401, hx_detail = detail\<rparr>)"
  using assms
  by (auto simp: SingleKeyAuthenticator_def Let_def require_scope_def get_principal_def authenticate_def
      compare_digest_def new_principal_def split: if_splits)

theorem access_iff_key_witness:
  "require_scope ''write:execute'' \<lparr>au_key = ''s3cret'', au_allow_anonymous = False, au_generated = False\<rparr>
     \<lparr>rq_headers = [(''authorization'', ''ApiKey  s3cret '')], rq_query = [], rq_body = []\<rparr> = Inr (new_principal ''single_user'')"
proof -
  have a: "SingleKeyAuthenticator ''s3cret'' False False = Inr \<lparr>au_key = ''s3cret'', au_allow_anonymous = False, au_generated = False\<rparr>"
    by (simp add: SingleKeyAuthenticator_def)
  have v: "cr_value (from_headers_and_query [(''authorization'', ''ApiKey  s3cret '')] []) = ''s3cret''"
    by code_simp
  show ?thesis
    using access_iff_key [OF a, of "''write:execute''" "\<lparr>rq_headers = [(''authorization'', ''ApiKey  s3cret '')], rq_query = [], rq_body = []\<rparr>"]
    by (simp add: v ALL_SCOPES_def is_ascii_def Let_def)
qed

lemma no_space_strip:
  assumes "\<forall>c \<in> set k. \<not> is_space c"
  shows "strip k = k"
proof (cases "k = []")
  case True
  then show ?thesis by (simp add: strip_def)
next
  case False
  with assms show ?thesis by (simp add: strip_id)
qed

text \<open>
  The four ways in which clients send a key all deliver it: the \<open>Apikey\<close> and \<open>Bearer\<close> schemes in
  any case, \<open>?api_key=\<close> and \<open>?access_token=\<close>. A header with another scheme does not hide the query.
\<close>

theorem credential_forms:
  assumes "k \<noteq> []" "\<forall>c \<in> set k. \<not> is_space c" "lower s \<in> {''apikey'', ''bearer''}"
    and "lower t \<notin> {''apikey'', ''bearer''}" "CHR '' '' \<notin> set s" "CHR '' '' \<notin> set t" "strip s = s" "strip t = t"
  shows "cr_value (from_headers_and_query [(''authorization'', s @ '' '' @ k)] q) = k \<and>
    cr_value (from_headers_and_query [] [(''api_key'', k)]) = k \<and>
    cr_value (from_headers_and_query [] [(''access_token'', k)]) = k \<and>
    cr_value (from_headers_and_query [(''authorization'', t @ '' '' @ v)] [(''api_key'', k)]) = k"
proof -
  have p: "partition_at CHR '' '' (x @ CHR '' '' # y) = (x, True, y)" if "CHR '' '' \<notin> set x" for x y
    using that by (rule partition_at_append)
  have e: "partition_at CHR '' '' [] = ([], False, [])" by (simp add: partition_at_def)
  from assms show ?thesis
    by (auto simp: from_headers_and_query_def text_of_def p e no_space_strip Let_def)
qed

theorem credential_forms_witness:
  "cr_value (from_headers_and_query [(''authorization'', ''Bearer key'')] []) = ''key''"
proof -
  have "lower ''Bearer'' = ''bearer''" "lower ''Basic'' = ''basic''" "strip ''Bearer'' = ''Bearer''" "strip ''Basic'' = ''Basic''"
    by code_simp+
  moreover have "\<forall>c \<in> set ''key''. \<not> is_space c" by (simp add: is_space_def)
  ultimately show ?thesis
    using credential_forms [of "''key''" "''Bearer''" "''Basic''" "[]" "[]"] by simp
qed

text \<open>
  \<open>whoami\<close> shows at most eight characters of the key, but that is the whole key when it is short;
  and where a key is configured together with anonymous access, an anonymous caller sees them.
\<close>

theorem whoami_shows_key_prefix:
  assumes "au_allow_anonymous a" "au_key a \<noteq> []"
  shows "\<exists>p. get_principal a rq = Inr p \<and> is_anonymous p \<and>
    dget ''api_keys'' (whoami p a) = PList [PDict (single_user_key a)] \<and>
    dget ''first_eight'' (single_user_key a) = PStr (take 8 (au_key a)) \<and>
    (length (au_key a) \<le> 8 \<longrightarrow> dget ''first_eight'' (single_user_key a) = PStr (au_key a))"
  using assms
  by (simp add: whoami_def get_principal_def authenticate_def principal_dict_def dget_def single_user_key_def new_principal_def is_anonymous_def)

theorem whoami_shows_key_prefix_witness:
  "\<exists>a p. authenticator_from_environment [] [(''QSERVER_HTTP_SERVER_ALLOW_ANONYMOUS_ACCESS'', ''1''),
       (''QSERVER_HTTP_SERVER_SINGLE_USER_API_KEY'', ''s3cret'')] = Inr a \<and>
     get_principal a \<lparr>rq_headers = [], rq_query = [], rq_body = []\<rparr> = Inr p \<and>
     dget ''api_keys'' (whoami p a) = PList [PDict (single_user_key a)] \<and>
     dget ''first_eight'' (single_user_key a) = PStr ''s3cret''"
proof -
  let ?a = "\<lparr>au_key = ''s3cret'', au_allow_anonymous = True, au_generated = False\<rparr>"
  have "authenticator_from_environment [] [(''QSERVER_HTTP_SERVER_ALLOW_ANONYMOUS_ACCESS'', ''1''),
       (''QSERVER_HTTP_SERVER_SINGLE_USER_API_KEY'', ''s3cret'')] = Inr ?a"
    by (simp add: authenticator_from_environment_def SingleKeyAuthenticator_def text_of_def lower_def lower_char_def
        strip_def is_space_def)
  with whoami_shows_key_prefix [of ?a "\<lparr>rq_headers = [], rq_query = [], rq_body = []\<rparr>"] show ?thesis
    by (intro exI [of _ ?a]) auto
qed

end
