(* ===== verification/Console.thy ===== *)
theory Console
  imports EngineEvents PyString
begin

section \<open>Console capture (\<open>api/console.py\<close>)\<close>

text \<open>
  Everything written to the two standard streams is cut into lines, kept in a bounded ring and
  announced as events. \<open>sys.stdout\<close> and \<open>sys.stderr\<close> are references to streams; an original stream
  may refuse a write, which is ignored. The time stamp and the fresh uid of each message are
  inputs: \<open>stamp i\<close> belongs to the \<open>i\<close>-th message of a call.
\<close>

datatype stream_ref = OriginalStream nat | TeeOf stream_ref

record std_streams =
  sys_stdout :: stream_ref
  sys_stderr :: stream_ref

record console =
  co_messages :: "(rat \<times> string) list"
  co_max :: nat
  co_uid :: string
  co_pending :: string
  co_installed :: bool
  co_saved :: "(stream_ref \<times> stream_ref) option"
  co_events :: "event list"

definition ConsoleCapture_init :: "nat \<Rightarrow> string \<Rightarrow> console" where
  "ConsoleCapture_init max_messages uid =
     \<lparr>co_messages = [], co_max = max_messages, co_uid = uid, co_pending = [], co_installed = False,
      co_saved = None, co_events = []\<rparr>"

subsection \<open>Installation\<close>

definition install :: "console \<times> std_streams \<Rightarrow> console \<times> std_streams" where
  "install = (\<lambda>(c, sys).
     if co_installed c then (c, sys)
     else (c\<lparr>co_saved := Some (sys_stdout sys, sys_stderr sys), co_installed := True\<rparr>,
           \<lparr>sys_stdout = TeeOf (sys_stdout sys), sys_stderr = TeeOf (sys_stderr sys)\<rparr>))"

definition uninstall :: "console \<times> std_streams \<Rightarrow> console \<times> std_streams" where
  "uninstall = (\<lambda>(c, sys).
     (c\<lparr>co_installed := False\<rparr>,
      case co_saved c of
        Some (out, err) \<Rightarrow> if co_installed c then \<lparr>sys_stdout = out, sys_stderr = err\<rparr> else sys
      | None \<Rightarrow> sys))"

subsection \<open>Lines\<close>

abbreviation newline :: char where
  "newline \<equiv> CHR 0x0A"

lemma partition_at_True:
  assumes "partition_at c s = (h, True, t)"
  shows "s = h @ c # t" "c \<notin> set h"
proof -
  obtain d where d: "dropWhile (\<lambda>x. x \<noteq> c) s = d # t" "h = takeWhile (\<lambda>x. x \<noteq> c) s"
    using assms by (auto simp: partition_at_def split: list.splits)
  then have "d = c" by (metis (mono_tags) dropWhile_eq_Cons_conv)
  with d show "s = h @ c # t" by (metis takeWhile_dropWhile_id)
  from d(2) show "c \<notin> set h" by (auto dest: set_takeWhileD)
qed

lemma partition_at_False: "partition_at c s = (h, False, t) \<Longrightarrow> h = s \<and> c \<notin> set s"
  by (auto simp: partition_at_def dropWhile_eq_Nil_conv split: list.splits)

text \<open>The loop of \<open>feed\<close>: complete lines are taken off the front as long as there is a newline.\<close>

function take_lines :: "string \<Rightarrow> string list \<times> string" where
  "take_lines pending = (case partition_at newline pending of
       (line, True, rest) \<Rightarrow> (case take_lines rest of (ls, left) \<Rightarrow> ((line @ [newline]) # ls, left))
     | (_, False, _) \<Rightarrow> ([], pending))"
  by pat_completeness auto

termination
proof (relation "measure length", goal_cases)
  case (2 pending line y b rest)
  then have "partition_at newline pending = (line, True, rest)" by simp
  from partition_at_True(1) [OF this] show ?case by simp
qed simp

declare take_lines.simps [simp del]

text \<open>\<open>deque(maxlen=m)\<close>: what is left after an \<open>append\<close>.\<close>

definition ring_append :: "nat \<Rightarrow> 'a list \<Rightarrow> 'a \<Rightarrow> 'a list" where
  "ring_append m xs x = drop (Suc (length xs) - m) (xs @ [x])"

definition append_message :: "rat \<times> string \<Rightarrow> string \<Rightarrow> console \<Rightarrow> console" where
  "append_message stamp t c =
     (let (now, uid) = stamp in
      c\<lparr>co_messages := ring_append (co_max c) (co_messages c) (now, t), co_uid := uid,
        co_events := co_events c @ [event_of CONSOLE_OUTPUT [(''time'', PV (PFloat now)), (''msg'', PV (PStr t))]]\<rparr>)"

fun append_messages :: "(nat \<Rightarrow> rat \<times> string) \<Rightarrow> string list \<Rightarrow> console \<Rightarrow> console" where
  "append_messages stamp [] c = c"
| "append_messages stamp (l # ls) c = append_messages (\<lambda>i. stamp (Suc i)) ls (append_message (stamp 0) l c)"

definition feed :: "(nat \<Rightarrow> rat \<times> string) \<Rightarrow> string \<Rightarrow> console \<Rightarrow> console" where
  "feed stamp t c =
     (if t = [] then c
      else (let (lines, left) = take_lines (co_pending c @ t) in
            append_messages stamp lines (c\<lparr>co_pending := left\<rparr>)))"

text \<open>\<open>_Tee.write\<close>: the original gets the text, whether it takes it or not; the answer is the length.\<close>

definition tee_write :: "(nat \<Rightarrow> rat \<times> string) \<Rightarrow> string \<Rightarrow> console \<Rightarrow> nat \<times> console" where
  "tee_write stamp t c = (length t, feed stamp t c)"

subsection \<open>Reading\<close>

text \<open>\<open>xs[-n:]\<close>: from \<open>n\<close> before the end; a zero or negative \<open>n\<close> is an offset from the front.\<close>

definition slice_from_end :: "int \<Rightarrow> 'a list \<Rightarrow> 'a list" where
  "slice_from_end n xs = (if 0 < n then drop (length xs - nat n) xs else drop (nat (- n)) xs)"

definition console_text :: "int \<Rightarrow> console \<Rightarrow> string" where
  "console_text nlines c = concat (map snd (slice_from_end nlines (co_messages c)))"

definition messages :: "console \<Rightarrow> pydict list" where
  "messages c = map (\<lambda>(t, m). [(PStr ''time'', PFloat t), (PStr ''msg'', PStr m)]) (co_messages c)"

subsection \<open>Properties\<close>

lemma take_lines_props:
  "take_lines p = (ls, left) \<Longrightarrow> concat ls @ left = p \<and> newline \<notin> set left \<and>
     (\<forall>l \<in> set ls. \<exists>h. l = h @ [newline] \<and> newline \<notin> set h)"
proof (induction p arbitrary: ls left rule: take_lines.induct)
  case (1 p)
  obtain line b rest where r: "partition_at newline p = (line, b, rest)" by (cases "partition_at newline p") auto
  show ?case
  proof (cases b)
    case False
    with r 1(2) have "ls = [] \<and> left = p" by (simp add: take_lines.simps [of p])
    with partition_at_False r False show ?thesis by auto
  next
    case True
    obtain ls' left' where rec: "take_lines rest = (ls', left')" by force
    with r True 1(2) have e: "ls = (line @ [newline]) # ls'" "left = left'" by (simp_all add: take_lines.simps [of p])
    from True have "b = True" by simp
    from 1(1) [OF r [symmetric] refl this rec] have ih: "concat ls' @ left' = rest \<and> newline \<notin> set left' \<and>
      (\<forall>l \<in> set ls'. \<exists>h. l = h @ [newline] \<and> newline \<notin> set h)" .
    with e partition_at_True r True show ?thesis by auto
  qed
qed

definition console_ok :: "string \<Rightarrow> console \<Rightarrow> bool" where
  "console_ok fed c \<longleftrightarrow> newline \<notin> set (co_pending c) \<and> length (co_messages c) \<le> co_max c \<and>
     (\<exists>lines. concat lines @ co_pending c = fed \<and>
        (\<forall>l \<in> set lines. \<exists>h. l = h @ [newline] \<and> newline \<notin> set h) \<and>
        map (\<lambda>e. map_of (ev_payload e) ''msg'') (co_events c) = map (\<lambda>l. Some (PV (PStr l))) lines \<and>
        map snd (co_messages c) = drop (length lines - co_max c) lines)"

lemma map_ring_append: "map f (ring_append m xs x) = ring_append m (map f xs) (f x)"
  unfolding ring_append_def length_map drop_map [symmetric] by simp

lemma ring_append_drop: "ring_append m (drop (length xs - m) xs) x = drop (Suc (length xs) - m) (xs @ [x])"
  by (cases "length xs \<le> m") (auto simp: ring_append_def Suc_diff_le)

lemma length_ring_append: "length (ring_append m xs x) \<le> m"
  by (simp add: ring_append_def)

lemma append_messages_pending [simp]:
  "co_pending (append_messages stamp ls c) = co_pending c" "co_max (append_messages stamp ls c) = co_max c"
  by (induction ls arbitrary: stamp c) (simp_all add: append_message_def Let_def case_prod_beta)

lemma append_messages_events:
  "map (\<lambda>e. map_of (ev_payload e) ''msg'') (co_events (append_messages stamp ls c)) =
     map (\<lambda>e. map_of (ev_payload e) ''msg'') (co_events c) @ map (\<lambda>l. Some (PV (PStr l))) ls"
  by (induction ls arbitrary: stamp c)
    (simp_all add: append_message_def Let_def case_prod_beta event_of_def)

lemma append_messages_ring:
  "map snd (co_messages c) = drop (length xs - co_max c) xs \<Longrightarrow>
   map snd (co_messages (append_messages stamp ls c)) = drop (length (xs @ ls) - co_max c) (xs @ ls)"
proof (induction ls arbitrary: stamp c xs)
  case Nil
  then show ?case by simp
next
  case (Cons l ls)
  let ?c = "append_message (stamp 0) l c"
  have "map snd (co_messages ?c) = drop (length (xs @ [l]) - co_max ?c) (xs @ [l])"
    using Cons.prems ring_append_drop [of "co_max c" xs l]
    by (simp add: append_message_def Let_def case_prod_beta map_ring_append)
  from Cons.IH [OF this, of "\<lambda>i. stamp (Suc i)"] show ?case
    by (simp add: append_message_def Let_def case_prod_beta)
qed

lemma console_ok_init: "console_ok [] (ConsoleCapture_init m u)"
  by (simp add: console_ok_def ConsoleCapture_init_def)

lemma console_ok_feed:
  assumes "console_ok fed c"
  shows "console_ok (fed @ t) (feed stamp t c)"
proof (cases "t = []")
  case True
  with assms show ?thesis by (simp add: feed_def)
next
  case False
  obtain ls left where r: "take_lines (co_pending c @ t) = (ls, left)" by force
  obtain lines where l: "concat lines @ co_pending c = fed"
      "\<forall>l \<in> set lines. \<exists>h. l = h @ [newline] \<and> newline \<notin> set h"
      "map (\<lambda>e. map_of (ev_payload e) ''msg'') (co_events c) = map (\<lambda>l. Some (PV (PStr l))) lines"
      "map snd (co_messages c) = drop (length lines - co_max c) lines"
    using assms by (auto simp: console_ok_def)
  let ?c = "append_messages stamp ls (c\<lparr>co_pending := left\<rparr>)"
  have f: "feed stamp t c = ?c" using False r by (simp add: feed_def)
  note p = take_lines_props [OF r]
  have ring: "map snd (co_messages ?c) = drop (length (lines @ ls) - co_max c) (lines @ ls)"
    using append_messages_ring [of "c\<lparr>co_pending := left\<rparr>" lines stamp ls] l(4) by simp
  then have "length (co_messages ?c) \<le> co_max c" by (metis diff_diff_cancel diff_le_self length_drop length_map nat_le_linear diff_is_0_eq' zero_le)
  moreover have "concat (lines @ ls) @ left = fed @ t" using p l(1) by (metis append.assoc concat_append)
  moreover have "\<forall>l \<in> set (lines @ ls). \<exists>h. l = h @ [newline] \<and> newline \<notin> set h" using p l(2) by auto
  ultimately show ?thesis
    unfolding f console_ok_def
    using p ring l(3) append_messages_events [of stamp ls "c\<lparr>co_pending := left\<rparr>"]
    by (intro conjI exI [of _ "lines @ ls"]) simp_all
qed

text \<open>
  Nothing written to the console is lost or torn. However the text arrives in pieces, the lines
  announced so far, followed by the unfinished one, are the text; every announced line ends
  with its newline and has no other; and the ring holds the latest lines, at most its size.
\<close>

theorem console_keeps_text:
  "console_ok (concat (map snd writes))
     (fold (\<lambda>(stamp, t) c. feed stamp t c) writes (ConsoleCapture_init m u))"
proof -
  have "console_ok (fed @ concat (map snd writes)) (fold (\<lambda>(stamp, t) c. feed stamp t c) writes c)"
    if "console_ok fed c" for fed c
    using that
  proof (induction writes arbitrary: fed c)
    case (Cons w ws)
    obtain stamp t where w: "w = (stamp, t)" by force
    from Cons.IH [OF console_ok_feed [OF Cons.prems, of t stamp]] w show ?case by simp
  qed simp
  from this [OF console_ok_init] show ?thesis by simp
qed

text \<open>
  Installing twice is installing once, and uninstalling puts the streams back that were there.
\<close>

theorem install_uninstall:
  "\<not> co_installed c \<Longrightarrow>
   install (install (c, sys)) = install (c, sys) \<and> snd (uninstall (install (c, sys))) = sys \<and>
   sys_stdout (snd (install (c, sys))) = TeeOf (sys_stdout sys)"
  by (simp add: install_def uninstall_def)

theorem install_uninstall_witness:
  "snd (uninstall (install (ConsoleCapture_init 5 ''u'', \<lparr>sys_stdout = OriginalStream 1, sys_stderr = OriginalStream 2\<rparr>))) =
     \<lparr>sys_stdout = OriginalStream 1, sys_stderr = OriginalStream 2\<rparr>"
  using install_uninstall [of "ConsoleCapture_init 5 ''u''" "\<lparr>sys_stdout = OriginalStream 1, sys_stderr = OriginalStream 2\<rparr>"]
  by (simp add: ConsoleCapture_init_def)

text \<open>
  Asking for the last \<open>n\<close> lines gives at most \<open>n\<close> of them for a positive \<open>n\<close>, but asking for
  none gives all, and a negative number gives all but the first ones.
\<close>

theorem console_text_slice:
  "console_text 0 c = concat (map snd (co_messages c)) \<and>
   (0 < n \<longrightarrow> console_text n c = concat (map snd (drop (length (co_messages c) - nat n) (co_messages c)))) \<and>
   (n < 0 \<longrightarrow> console_text n c = concat (map snd (drop (nat (- n)) (co_messages c))))"
  by (simp add: console_text_def slice_from_end_def)

theorem console_text_slice_witness:
  "console_text 0 (feed (\<lambda>i. (0, ''u'')) [CHR ''a'', newline, CHR ''b'', newline] (ConsoleCapture_init 5 ''u'')) =
     concat (map snd (co_messages (feed (\<lambda>i. (0, ''u'')) [CHR ''a'', newline, CHR ''b'', newline] (ConsoleCapture_init 5 ''u''))))"
  using console_text_slice by blast

end
