(* ===== verification/DeviceDefs.thy ===== *)
theory DeviceDefs
  imports Database PyString
begin

section \<open>Device definitions and their repositories\<close>

text \<open>
  \<open>DeviceDefinition\<close> (\<open>devices/models.py\<close>), the repository protocol of \<open>devices/repository.py\<close>
  and its two implementations in \<open>persistence/device_repository.py\<close>: rows of the table, and a
  dictionary. What the protocol promises is a map from names to definitions; the locale
  \<open>definition_repository\<close> states it, and both implementations are interpretations. \<open>ORDER BY name\<close>
  is taken to order by code point, as SQLite does and as \<open>sorted\<close> does in the dictionary.
\<close>

record device_definition =
  dd_name :: string
  dd_class_path :: string
  dd_prefix :: string
  dd_kwargs :: pydict
  dd_enabled :: bool
  dd_created_at :: rat
  dd_updated_at :: rat

definition definition_to_dict :: "device_definition \<Rightarrow> pydict" where
  "definition_to_dict d =
    [(PStr ''name'', PStr (dd_name d)), (PStr ''class_path'', PStr (dd_class_path d)),
     (PStr ''prefix'', PStr (dd_prefix d)), (PStr ''kwargs'', PDict (dd_kwargs d)),
     (PStr ''enabled'', PBool (dd_enabled d)), (PStr ''created_at'', PFloat (dd_created_at d)),
     (PStr ''updated_at'', PFloat (dd_updated_at d))]"

text \<open>\<open>data[key]\<close>.\<close>

definition dict_item :: "string \<Rightarrow> pydict \<Rightarrow> exn + pyval" where
  "dict_item k d = (case map_of d (PStr k) of None \<Rightarrow> Inl (Exn KeyError [Rep (PStr k)]) | Some v \<Rightarrow> Inr v)"

text \<open>\<open>created\<close> and \<open>updated\<close> are the two readings of the clock that the field defaults make.\<close>

definition definition_from_dict :: "(pyval \<Rightarrow> string) \<Rightarrow> rat \<Rightarrow> rat \<Rightarrow> pydict \<Rightarrow> exn + device_definition" where
  "definition_from_dict fmt created updated data =
     (case dict_item ''name'' data of Inl e \<Rightarrow> Inl e | Inr name \<Rightarrow>
      case dict_item ''class_path'' data of Inl e \<Rightarrow> Inl e | Inr class_path \<Rightarrow>
      case py_dict (py_or (dget ''kwargs'' data) (PDict [])) of Inl e \<Rightarrow> Inl e | Inr kwargs \<Rightarrow>
        Inr \<lparr>dd_name = py_str fmt name, dd_class_path = py_str fmt class_path,
             dd_prefix = py_str fmt (py_or (dget ''prefix'' data) (PStr [])), dd_kwargs = kwargs,
             dd_enabled = truthy (dget_or ''enabled'' (PBool True) data),
             dd_created_at = created, dd_updated_at = updated\<rparr>)"

definition touched :: "rat \<Rightarrow> device_definition \<Rightarrow> device_definition" where
  "touched now d = d\<lparr>dd_updated_at := now\<rparr>"

subsection \<open>The protocol\<close>

record 'r definition_repository =
  df_list :: "('r, exn, device_definition list) act"
  df_get :: "string \<Rightarrow> ('r, exn, device_definition option) act"
  df_save :: "device_definition \<Rightarrow> ('r, exn, unit) act"
  df_delete :: "string \<Rightarrow> ('r, exn, bool) act"

type_synonym definition_map = "string \<Rightarrow> device_definition option"

definition in_name_order :: "definition_map \<Rightarrow> device_definition list" where
  "in_name_order m = map (\<lambda>n. the (m n)) (sorted_list_of_set (dom m))"

definition spec_list :: "(definition_map, exn, device_definition list) act" where
  "spec_list = get_state in_name_order"

definition spec_get :: "string \<Rightarrow> (definition_map, exn, device_definition option) act" where
  "spec_get n = get_state (\<lambda>m. m n)"

definition spec_save :: "device_definition \<Rightarrow> (definition_map, exn, unit) act" where
  "spec_save d = modify (\<lambda>m. m(dd_name d \<mapsto> d))"

definition spec_delete :: "string \<Rightarrow> (definition_map, exn, bool) act" where
  "spec_delete n = (\<lambda>m. (Inr (m n \<noteq> None), m(n := None)))"

lemmas spec_definition_ops = spec_list_def spec_get_def spec_save_def spec_delete_def

locale definition_repository =
  fixes ops :: "'r definition_repository"
    and defs :: "'r \<Rightarrow> definition_map"
    and valid :: "'r \<Rightarrow> bool"
    and up :: "'r \<Rightarrow> bool"
  assumes names_ok: "valid r \<Longrightarrow> defs r n = Some d \<Longrightarrow> dd_name d = n"
    and list_law: "implements defs valid up (df_list ops) spec_list"
    and get_law: "implements defs valid up (df_get ops n) (spec_get n)"
    and save_law: "implements defs valid up (df_save ops d) (spec_save d)"
    and delete_law: "implements defs valid up (df_delete ops n) (spec_delete n)"
begin

text \<open>Each method as a case distinction for the service: it had its effect, or nothing happened.\<close>

lemma get_cases:
  assumes "valid r"
  shows "defs (snd (df_get ops n r)) = defs r \<and> valid (snd (df_get ops n r)) \<and>
    (fst (df_get ops n r) = Inr (defs r n) \<or> \<not> up r \<and> (\<exists>e. fst (df_get ops n r) = Inl e))"
  by (rule implements_cases [OF get_law assms, of n]) (auto simp: spec_definition_ops act_simps)

lemma save_cases:
  assumes "valid r"
  shows "valid (snd (df_save ops d r)) \<and>
    (fst (df_save ops d r) = Inr () \<and> defs (snd (df_save ops d r)) = (defs r)(dd_name d \<mapsto> d) \<or>
     \<not> up r \<and> (\<exists>e. fst (df_save ops d r) = Inl e) \<and> defs (snd (df_save ops d r)) = defs r)"
  by (rule implements_cases [OF save_law assms, of d]) (auto simp: spec_definition_ops act_simps)

lemma delete_cases:
  assumes "valid r"
  shows "valid (snd (df_delete ops n r)) \<and>
    ((\<exists>b. fst (df_delete ops n r) = Inr b) \<and> defs (snd (df_delete ops n r)) = (defs r)(n := None) \<or>
     \<not> up r \<and> (\<exists>e. fst (df_delete ops n r) = Inl e) \<and> defs (snd (df_delete ops n r)) = defs r)"
  by (rule implements_cases [OF delete_law assms, of n]) (auto simp: spec_definition_ops act_simps)

lemma list_cases:
  assumes "valid r"
  shows "defs (snd (df_list ops r)) = defs r \<and> valid (snd (df_list ops r)) \<and>
    (fst (df_list ops r) = Inr (in_name_order (defs r)) \<or> \<not> up r \<and> (\<exists>e. fst (df_list ops r) = Inl e))"
  by (rule implements_cases [OF list_law assms]) (auto simp: spec_definition_ops act_simps)

lemma ops_up:
  "valid r \<Longrightarrow> up r \<Longrightarrow> up (snd (df_get ops n r))" "valid r \<Longrightarrow> up r \<Longrightarrow> up (snd (df_save ops d r))"
  "valid r \<Longrightarrow> up r \<Longrightarrow> up (snd (df_delete ops n r))" "valid r \<Longrightarrow> up r \<Longrightarrow> up (snd (df_list ops r))"
  using get_law save_law delete_law list_law by (simp_all add: implements_def)

lemma get_up:
  "valid r \<Longrightarrow> up r \<Longrightarrow> fst (df_get ops n r) = Inr (defs r n)"
  using get_cases by blast

end

subsection \<open>Rows of the table\<close>

definition definition_to_row :: "device_definition \<Rightarrow> device_definition_row" where
  "definition_to_row d =
    \<lparr>dr_name = dd_name d, dr_class_path = dd_class_path d, dr_prefix = dd_prefix d, dr_kwargs = dd_kwargs d,
     dr_enabled = dd_enabled d, dr_created_at = dd_created_at d, dr_updated_at = dd_updated_at d\<rparr>"

definition row_to_definition :: "device_definition_row \<Rightarrow> device_definition" where
  "row_to_definition r =
    \<lparr>dd_name = dr_name r, dd_class_path = dr_class_path r, dd_prefix = dr_prefix r, dd_kwargs = dr_kwargs r,
     dd_enabled = dr_enabled r, dd_created_at = dr_created_at r, dd_updated_at = dr_updated_at r\<rparr>"

definition get_definition_row :: "string \<Rightarrow> device_definition_row list \<Rightarrow> device_definition_row option" where
  "get_definition_row n rows = find (\<lambda>r. dr_name r = n) rows"

definition sql_list_definitions :: "(database, exn, device_definition list) act" where
  "sql_list_definitions = session (get_state (\<lambda>t.
     map row_to_definition (sort_key dr_name (t_device_definitions t))))"

definition sql_get_definition :: "string \<Rightarrow> (database, exn, device_definition option) act" where
  "sql_get_definition n = session (get_state (\<lambda>t.
     map_option row_to_definition (get_definition_row n (t_device_definitions t))))"

text \<open>A new row is added when there is none; then every column is written.\<close>

definition sql_save_definition :: "device_definition \<Rightarrow> (database, exn, unit) act" where
  "sql_save_definition d = session (\<lambda>t.
     let rows = t_device_definitions t;
         rows = (if get_definition_row (dd_name d) rows = None then rows @ [definition_to_row d] else rows)
     in (Inr (), t\<lparr>t_device_definitions :=
           map (\<lambda>r. if dr_name r = dd_name d then definition_to_row d else r) rows\<rparr>))"

definition sql_delete_definition :: "string \<Rightarrow> (database, exn, bool) act" where
  "sql_delete_definition n = session (\<lambda>t.
     if get_definition_row n (t_device_definitions t) = None then (Inr False, t)
     else (Inr True, t\<lparr>t_device_definitions := filter (\<lambda>r. dr_name r \<noteq> n) (t_device_definitions t)\<rparr>))"

definition SqlDeviceDefinitionRepository :: "database definition_repository" where
  "SqlDeviceDefinitionRepository =
    \<lparr>df_list = sql_list_definitions, df_get = sql_get_definition,
     df_save = sql_save_definition, df_delete = sql_delete_definition\<rparr>"

subsection \<open>A dictionary\<close>

type_synonym memory_definitions = "(string \<times> device_definition) list"

definition mem_list_definitions :: "(memory_definitions, exn, device_definition list) act" where
  "mem_list_definitions = get_state (\<lambda>d. sort_key dd_name (map snd d))"

definition mem_get_definition :: "string \<Rightarrow> (memory_definitions, exn, device_definition option) act" where
  "mem_get_definition n = get_state (\<lambda>d. map_of d n)"

definition mem_save_definition :: "device_definition \<Rightarrow> (memory_definitions, exn, unit) act" where
  "mem_save_definition df = modify (AList.update (dd_name df) df)"

definition mem_delete_definition :: "string \<Rightarrow> (memory_definitions, exn, bool) act" where
  "mem_delete_definition n = (\<lambda>d. (Inr (map_of d n \<noteq> None), AList.delete n d))"

definition InMemoryDeviceDefinitionRepository :: "memory_definitions definition_repository" where
  "InMemoryDeviceDefinitionRepository =
    \<lparr>df_list = mem_list_definitions, df_get = mem_get_definition,
     df_save = mem_save_definition, df_delete = mem_delete_definition\<rparr>"

subsection \<open>Both keep the contract\<close>

text \<open>A list of values with distinct keys, in the order of the keys, is the map in name order.\<close>

lemma sorted_values:
  assumes "distinct (map key xs)" "\<And>x. x \<in> set xs \<Longrightarrow> m (key x) = Some (val x)" "dom m = key ` set xs"
  shows "map val (sort_key key xs) = map (\<lambda>n. the (m n)) (sorted_list_of_set (dom m))"
proof -
  have k: "map key (sort_key key xs) = sorted_list_of_set (dom m)"
  proof (rule sorted_distinct_set_unique)
    show "distinct (map key (sort_key key xs))" using assms(1) by (simp add: distinct_map)
    show "set (map key (sort_key key xs)) = set (sorted_list_of_set (dom m))" using assms(3) by simp
  qed simp_all
  have "map val (sort_key key xs) = map (\<lambda>n. the (m n)) (map key (sort_key key xs))"
    using assms(2) by (simp add: comp_def)
  with k show ?thesis by simp
qed

definition row_map :: "device_definition_row list \<Rightarrow> definition_map" where
  "row_map rows n = map_option row_to_definition (get_definition_row n rows)"

definition sql_defs :: "database \<Rightarrow> definition_map" where
  "sql_defs db = row_map (t_device_definitions (db_tables db))"

definition defs_valid :: "tables \<Rightarrow> bool" where
  "defs_valid t \<longleftrightarrow> distinct (map dr_name (t_device_definitions t))"

lemma get_definition_row_None: "get_definition_row n rows = None \<longleftrightarrow> n \<notin> dr_name ` set rows"
  unfolding get_definition_row_def find_None_iff by auto

lemma get_definition_row_mem:
  "distinct (map dr_name rows) \<Longrightarrow> r \<in> set rows \<Longrightarrow> get_definition_row (dr_name r) rows = Some r"
  by (induction rows) (auto simp: get_definition_row_def)

lemma get_definition_row_Some: "get_definition_row n rows = Some r \<Longrightarrow> r \<in> set rows \<and> dr_name r = n"
  unfolding get_definition_row_def find_Some_iff by auto

lemma row_map_order:
  "distinct (map dr_name rows) \<Longrightarrow> map row_to_definition (sort_key dr_name rows) = in_name_order (row_map rows)"
  unfolding in_name_order_def
proof (rule sorted_values)
  show "dom (row_map rows) = dr_name ` set rows"
  proof
    show "dom (row_map rows) \<subseteq> dr_name ` set rows"
      using get_definition_row_Some by (fastforce simp: row_map_def dom_def)
    show "dr_name ` set rows \<subseteq> dom (row_map rows)"
      using get_definition_row_None by (auto simp: row_map_def dom_def)
  qed
qed (simp_all add: row_map_def get_definition_row_mem)

lemma row_roundtrip [simp]: "row_to_definition (definition_to_row d) = d" "dr_name (definition_to_row d) = dd_name d"
  by (simp_all add: row_to_definition_def definition_to_row_def)

lemma row_map_Cons: "row_map (r # rows) = (row_map rows)(dr_name r \<mapsto> row_to_definition r)"
  by (simp add: row_map_def get_definition_row_def fun_eq_iff)

lemma row_map_Nil [simp]: "row_map [] = Map.empty"
  by (simp add: row_map_def get_definition_row_def fun_eq_iff)

lemma row_map_append: "dd_name d \<notin> dr_name ` set rows \<Longrightarrow>
   row_map (rows @ [definition_to_row d]) = (row_map rows)(dd_name d \<mapsto> d)"
  by (induction rows) (auto simp: row_map_Cons fun_eq_iff)

lemma row_map_overwrite: "dd_name d \<in> dr_name ` set rows \<Longrightarrow>
   row_map (map (\<lambda>r. if dr_name r = dd_name d then definition_to_row d else r) rows) = (row_map rows)(dd_name d \<mapsto> d)"
proof (induction rows)
  case Nil
  then show ?case by simp
next
  case (Cons r rows)
  show ?case
  proof (cases "dd_name d \<in> dr_name ` set rows")
    case True
    with Cons.IH show ?thesis by (auto simp: row_map_Cons fun_eq_iff)
  next
    case False
    then have "map (\<lambda>r. if dr_name r = dd_name d then definition_to_row d else r) rows = rows"
      by (intro map_idI) (metis image_eqI)
    with Cons.prems False show ?thesis by (auto simp: row_map_Cons fun_eq_iff)
  qed
qed

lemma row_map_delete: "row_map (filter (\<lambda>r. dr_name r \<noteq> n) rows) = (row_map rows)(n := None)"
  by (induction rows) (auto simp: row_map_Cons fun_eq_iff)

lemma names_overwrite:
  "map dr_name (map (\<lambda>r. if dr_name r = dd_name d then definition_to_row d else r) rows) = map dr_name rows"
  by simp

interpretation sqldefs: definition_repository SqlDeviceDefinitionRepository sql_defs
  "\<lambda>db. defs_valid (db_tables db)" db_up
proof unfold_locales
  fix r n d assume "sql_defs r n = Some d"
  then show "dd_name d = n"
    by (auto simp: sql_defs_def row_map_def row_to_definition_def dest!: get_definition_row_Some)
next
  have abs: "sql_defs = (\<lambda>db. row_map (t_device_definitions (db_tables db)))"
    by (simp add: fun_eq_iff sql_defs_def)
  note law = session_implements_on [where tv = defs_valid and ta = "\<lambda>t. row_map (t_device_definitions t)", folded abs]
  show "implements sql_defs (\<lambda>db. defs_valid (db_tables db)) db_up (df_list SqlDeviceDefinitionRepository) spec_list"
    unfolding SqlDeviceDefinitionRepository_def definition_repository.simps sql_list_definitions_def
    by (rule law) (simp_all add: act_simps spec_definition_ops defs_valid_def row_map_order)
  show "implements sql_defs (\<lambda>db. defs_valid (db_tables db)) db_up (df_get SqlDeviceDefinitionRepository n) (spec_get n)" for n
    unfolding SqlDeviceDefinitionRepository_def definition_repository.simps sql_get_definition_def
    by (rule law) (simp_all add: act_simps spec_definition_ops row_map_def)
  show "implements sql_defs (\<lambda>db. defs_valid (db_tables db)) db_up (df_delete SqlDeviceDefinitionRepository n) (spec_delete n)" for n
    unfolding SqlDeviceDefinitionRepository_def definition_repository.simps sql_delete_definition_def
  proof (rule law, goal_cases)
    case (1 t)
    then show ?case by (simp add: spec_definition_ops row_map_def)
  next
    case (2 t x)
    have absent: "(row_map rows)(n := None) = row_map rows" if "get_definition_row n rows = None" for rows
      using that by (simp add: row_map_def fun_eq_iff)
    from 2 show ?case
      by (simp add: spec_definition_ops defs_valid_def distinct_map_filter row_map_delete absent)
  qed (simp add: spec_definition_ops)
  show "implements sql_defs (\<lambda>db. defs_valid (db_tables db)) db_up (df_save SqlDeviceDefinitionRepository d) (spec_save d)" for d
    unfolding SqlDeviceDefinitionRepository_def definition_repository.simps sql_save_definition_def
  proof (rule law, goal_cases)
    case (2 t x)
    then have "distinct (map dr_name (t_device_definitions t))" by (simp add: defs_valid_def)
    then show ?case
      using row_map_append [of d "t_device_definitions t"] row_map_overwrite [of d "t_device_definitions t"]
        row_map_overwrite [of d "t_device_definitions t @ [definition_to_row d]"]
      by (auto simp: spec_definition_ops act_simps Let_def defs_valid_def names_overwrite get_definition_row_None
          comp_def if_distrib [of dr_name] cong: if_cong)
  qed (simp_all add: spec_definition_ops act_simps Let_def)
qed

definition mem_defs_valid :: "memory_definitions \<Rightarrow> bool" where
  "mem_defs_valid d \<longleftrightarrow> distinct (map fst d) \<and> (\<forall>(n, df) \<in> set d. dd_name df = n)"

lemma mem_defs_names: "mem_defs_valid d \<Longrightarrow> map dd_name (map snd d) = map fst d"
  by (auto simp: mem_defs_valid_def)

lemma mem_defs_order: "mem_defs_valid d \<Longrightarrow> sort_key dd_name (map snd d) = in_name_order (map_of d)"
proof -
  assume v: "mem_defs_valid d"
  have "map id (sort_key dd_name (map snd d)) = in_name_order (map_of d)"
    unfolding in_name_order_def
  proof (rule sorted_values)
    show "distinct (map dd_name (map snd d))"
      using v unfolding mem_defs_names [OF v] by (simp add: mem_defs_valid_def)
    show "dom (map_of d) = dd_name ` set (map snd d)"
      using mem_defs_names [OF v] by (metis dom_map_of_conv_image_fst list.set_map)
    show "map_of d (dd_name x) = Some (id x)" if "x \<in> set (map snd d)" for x
      using that v by (auto simp: mem_defs_valid_def)
  qed
  then show ?thesis by simp
qed

interpretation memdefs: definition_repository InMemoryDeviceDefinitionRepository map_of mem_defs_valid "\<lambda>_. True"
proof unfold_locales
  fix r n d assume "mem_defs_valid r" "map_of r n = Some d"
  then show "dd_name d = n" by (auto simp: mem_defs_valid_def dest: map_of_SomeD)
next
  have upd: "mem_defs_valid (AList.update (dd_name d) d r)" if "mem_defs_valid r" for d and r :: memory_definitions
  proof -
    have "set (AList.update (dd_name d) d r) \<subseteq> insert (dd_name d, d) (set r)" by (induction r) auto
    with that show ?thesis unfolding mem_defs_valid_def by (auto simp: distinct_update)
  qed
  show "implements map_of mem_defs_valid (\<lambda>_. True) (df_list InMemoryDeviceDefinitionRepository) spec_list"
    by (rule implementsI)
      (simp_all add: InMemoryDeviceDefinitionRepository_def mem_list_definitions_def spec_list_def act_simps mem_defs_order)
  show "implements map_of mem_defs_valid (\<lambda>_. True) (df_get InMemoryDeviceDefinitionRepository n) (spec_get n)" for n
    by (rule implementsI)
      (simp_all add: InMemoryDeviceDefinitionRepository_def mem_get_definition_def spec_get_def act_simps)
  show "implements map_of mem_defs_valid (\<lambda>_. True) (df_save InMemoryDeviceDefinitionRepository d) (spec_save d)" for d
    by (rule implementsI)
      (simp_all add: InMemoryDeviceDefinitionRepository_def mem_save_definition_def spec_save_def act_simps upd
        update_conv' fun_eq_iff)
  show "implements map_of mem_defs_valid (\<lambda>_. True) (df_delete InMemoryDeviceDefinitionRepository n) (spec_delete n)" for n
  proof (rule implementsI, goal_cases)
    case (1 r)
    then have "distinct (map fst (AList.delete n r))" by (simp add: mem_defs_valid_def distinct_delete)
    moreover have "set (AList.delete n r) \<subseteq> set r" by (auto simp: AList.delete_eq)
    ultimately show ?case
      using 1 by (auto simp: mem_defs_valid_def InMemoryDeviceDefinitionRepository_def mem_delete_definition_def)
  next
    case (3 r)
    show ?case
      by (simp add: InMemoryDeviceDefinitionRepository_def mem_delete_definition_def spec_delete_def delete_conv' fun_eq_iff)
  qed simp
qed

end
