(* ===== verification/DeviceService.thy ===== *)
theory DeviceService
  imports DeviceDefs EngineHost
begin

section \<open>Device definitions and live devices (\<open>devices/service.py\<close>)\<close>

text \<open>
  \<open>DeviceDefinitionService\<close>: its repository, the registry it shares with the rest of the program,
  and how often it has called \<open>on_change\<close>. What Python finds when it imports a module, what a
  device class does when it is called and whether connecting succeeds is code outside the
  repository: the record \<open>device_world\<close>. Classes are numbered.
\<close>

record device_world =
  dw_import :: "string \<Rightarrow> exn option"
  dw_class :: "string \<Rightarrow> string \<Rightarrow> nat option"
  dw_make :: "nat \<Rightarrow> string option \<Rightarrow> pydict \<Rightarrow> exn + pyval"
  dw_connects :: "pyval \<Rightarrow> bool"
  dw_loop_running :: bool
  dw_connect :: "pyval \<Rightarrow> exn option"

record 'r device_service =
  ds_repo :: 'r
  ds_registry :: registry
  ds_changes :: nat

type_synonym ('r, 'a) device_act = "('r device_service, exn, 'a) act"

definition DeviceDefinitionService_init :: "'r \<Rightarrow> registry \<Rightarrow> 'r device_service" where
  "DeviceDefinitionService_init r reg = \<lparr>ds_repo = r, ds_registry = reg, ds_changes = 0\<rparr>"

definition definition_error :: "fstring \<Rightarrow> exn" where
  "definition_error t = Exn DeviceDefinitionError t"

subsection \<open>Names and classes\<close>

text \<open>\<open>s.rpartition(c)\<close>: what is before and after the last separator; all after it when there is none.\<close>

definition rpartition_at :: "char \<Rightarrow> string \<Rightarrow> string \<times> string" where
  "rpartition_at c s =
     (case dropWhile (\<lambda>x. x \<noteq> c) (rev s) of [] \<Rightarrow> ([], s)
      | _ # before \<Rightarrow> (rev before, rev (takeWhile (\<lambda>x. x \<noteq> c) (rev s))))"

text \<open>\<open>s.isidentifier()\<close> for code points up to 255.\<close>

definition identifier_start :: "char \<Rightarrow> bool" where
  "identifier_start c = (let n = of_char c :: nat in
     65 \<le> n \<and> n \<le> 90 \<or> 97 \<le> n \<and> n \<le> 122 \<or> n = 95 \<or> n = 170 \<or> n = 181 \<or> n = 186 \<or>
     192 \<le> n \<and> n \<noteq> 215 \<and> n \<noteq> 247)"

definition identifier_part :: "char \<Rightarrow> bool" where
  "identifier_part c = (let n = of_char c :: nat in identifier_start c \<or> 48 \<le> n \<and> n \<le> 57 \<or> n = 183)"

fun is_identifier :: "string \<Rightarrow> bool" where
  "is_identifier [] = False"
| "is_identifier (c # cs) = (identifier_start c \<and> list_all identifier_part cs)"

text \<open>\<open>except ImportError\<close>: the class and its subclass.\<close>

definition is_import_error :: "exn \<Rightarrow> bool" where
  "is_import_error e \<longleftrightarrow>
     exn_class e = OtherException ''ImportError'' \<or> exn_class e = OtherException ''ModuleNotFoundError''"

definition import_class :: "device_world \<Rightarrow> string \<Rightarrow> exn + nat" where
  "import_class w class_path =
     (let (module_name, class_name) = rpartition_at CHR ''.'' class_path in
      if module_name = [] \<or> class_name = []
      then Inl (definition_error [Txt ''class_path must be 'package.module.Class', got '', Rep (PStr class_path)])
      else (case dw_import w module_name of
          Some e \<Rightarrow>
            (if is_import_error e
             then Inl (definition_error ([Txt ''Cannot import module '', Rep (PStr module_name), Txt '': ''] @ exn_text e))
             else Inl e)
        | None \<Rightarrow> (case dw_class w module_name class_name of
            None \<Rightarrow> Inl (definition_error [Rep (PStr class_path), Txt '' is not a class''])
          | Some c \<Rightarrow> Inr c)))"

subsection \<open>Definitions\<close>

definition defs_repo :: "('r, exn, 'a) act \<Rightarrow> ('r, 'a) device_act" where
  "defs_repo = on_part ds_repo (\<lambda>r s. s\<lparr>ds_repo := r\<rparr>)"

definition on_change :: "('r, unit) device_act" where
  "on_change = modify (\<lambda>s. s\<lparr>ds_changes := ds_changes s + 1\<rparr>)"

definition list_definitions :: "'r definition_repository \<Rightarrow> ('r, device_definition list) device_act" where
  "list_definitions ops = defs_repo (df_list ops)"

definition get_definition :: "'r definition_repository \<Rightarrow> string \<Rightarrow> ('r, device_definition) device_act" where
  "get_definition ops name = chain (defs_repo (df_get ops name)) (\<lambda>found.
     case found of
       None \<Rightarrow> throw (definition_error [Txt ''No device definition named '', Rep (PStr name)])
     | Some d \<Rightarrow> ret d)"

definition validate_definition :: "device_world \<Rightarrow> device_definition \<Rightarrow> registry \<Rightarrow> exn + unit" where
  "validate_definition w d reg =
     (if dd_name d = [] \<or> \<not> is_identifier (dd_name d)
      then Inl (definition_error [Txt ''Device name must be a valid Python identifier''])
      else if map_option de_origin (map_of (reg_devices reg) (dd_name d)) = Some Profile
      then Inl (definition_error [Rep (PStr (dd_name d)), Txt '' is defined by the profile and cannot be redefined''])
      else map_sum id (\<lambda>_. ()) (import_class w (dd_class_path d)))"

definition check_definition :: "device_world \<Rightarrow> device_definition \<Rightarrow> ('r, unit) device_act" where
  "check_definition w d = (\<lambda>s. (validate_definition w d (ds_registry s), s))"

definition create :: "'r definition_repository \<Rightarrow> device_world \<Rightarrow> device_definition \<Rightarrow> ('r, device_definition) device_act" where
  "create ops w d =
     chain (check_definition w d) (\<lambda>_.
     chain (defs_repo (df_get ops (dd_name d))) (\<lambda>found.
     if found \<noteq> None
     then throw (definition_error [Txt ''A definition named '', Rep (PStr (dd_name d)), Txt '' already exists''])
     else chain (defs_repo (df_save ops d)) (\<lambda>_. chain on_change (\<lambda>_. ret d))))"

definition update_definition ::
  "'r definition_repository \<Rightarrow> device_world \<Rightarrow> rat \<Rightarrow> device_definition \<Rightarrow> ('r, device_definition) device_act" where
  "update_definition ops w now d =
     chain (check_definition w d) (\<lambda>_.
     chain (get_definition ops (dd_name d)) (\<lambda>existing.
     let updated = touched now (d\<lparr>dd_created_at := dd_created_at existing\<rparr>) in
     chain (defs_repo (df_save ops updated)) (\<lambda>_. chain on_change (\<lambda>_. ret updated))))"

subsection \<open>Live instances\<close>

definition is_instantiated :: "string \<Rightarrow> 'r device_service \<Rightarrow> bool" where
  "is_instantiated name s \<longleftrightarrow>
     map_option de_origin (map_of (reg_devices (ds_registry s)) name) = Some Definition"

text \<open>A registry operation, its \<open>RegistryError\<close> turned into a \<open>DeviceDefinitionError\<close>.\<close>

definition with_registry :: "(registry, exn, 'a) act \<Rightarrow> ('r, 'a) device_act" where
  "with_registry m = handle (on_part ds_registry (\<lambda>r s. s\<lparr>ds_registry := r\<rparr>) m)
     (\<lambda>e. if exn_class e = RegistryError then throw (definition_error (exn_text e)) else throw e)"

definition remove_instance :: "string \<Rightarrow> ('r, unit) device_act" where
  "remove_instance name = chain (with_registry (remove_device name)) (\<lambda>_. on_change)"

definition delete_definition :: "'r definition_repository \<Rightarrow> string \<Rightarrow> ('r, unit) device_act" where
  "delete_definition ops name =
     chain (get_definition ops name) (\<lambda>_.
     chain (get_state (is_instantiated name)) (\<lambda>live.
     chain (if live then remove_instance name else ret ()) (\<lambda>_.
     chain (defs_repo (df_delete ops name)) (\<lambda>_. on_change))))"

text \<open>\<open>EngineHost.run_on_engine_loop\<close>: the loop of the engine must be running.\<close>

definition run_on_engine_loop :: "host \<Rightarrow> bool \<Rightarrow> exn option \<Rightarrow> exn + unit" where
  "run_on_engine_loop h loop_running raises =
     (case require_engine h of
        Inl e \<Rightarrow> Inl e
      | Inr _ \<Rightarrow> (if \<not> loop_running then Inl (host_error [Txt ''The engine's event loop is not running''])
          else (case raises of Some e \<Rightarrow> Inl e | None \<Rightarrow> Inr ())))"

definition construct_device :: "device_world \<Rightarrow> host \<Rightarrow> device_definition \<Rightarrow> exn + pyval" where
  "construct_device w h d =
     (case import_class w (dd_class_path d) of Inl e \<Rightarrow> Inl e | Inr cls \<Rightarrow>
      let kwargs = (if dhas ''name'' (dd_kwargs d) then dd_kwargs d
                    else dd_kwargs d @ [(PStr ''name'', PStr (dd_name d))]) in
      case dw_make w cls (if dd_prefix d \<noteq> [] then Some (dd_prefix d) else None) kwargs of
        Inl e \<Rightarrow> Inl e
      | Inr device \<Rightarrow>
          (if dw_connects w device
           then (case run_on_engine_loop h (dw_loop_running w) (dw_connect w device) of
               Inl e \<Rightarrow> (if exn_class e = EngineHostError
                 then Inl (definition_error (Txt ''Cannot connect an ophyd-async device: '' # exn_text e))
                 else Inl e)
             | Inr _ \<Rightarrow> Inr device)
           else Inr device))"

definition instantiate ::
  "'r definition_repository \<Rightarrow> device_world \<Rightarrow> host \<Rightarrow> string \<Rightarrow> ('r, pyval) device_act" where
  "instantiate ops w h name =
     chain (get_definition ops name) (\<lambda>d.
     if \<not> dd_enabled d then throw (definition_error [Txt ''Definition '', Rep (PStr name), Txt '' is disabled''])
     else chain (\<lambda>s. (fst (submit (\<lambda>h. (construct_device w h d, h)) h), s)) (\<lambda>device.
     chain (with_registry (add_device name device)) (\<lambda>_. chain on_change (\<lambda>_. ret device))))"

text \<open>The failures are a dictionary from names to texts.\<close>

fun instantiate_each ::
  "'r definition_repository \<Rightarrow> device_world \<Rightarrow> host \<Rightarrow> device_definition list \<Rightarrow> (string \<times> fstring) list \<Rightarrow>
   ('r, (string \<times> fstring) list) device_act" where
  "instantiate_each ops w h [] failures = ret failures"
| "instantiate_each ops w h (d # ds) failures =
     (if \<not> dd_enabled d then instantiate_each ops w h ds failures
      else chain (handle (chain (instantiate ops w h (dd_name d)) (\<lambda>_. ret failures))
             (\<lambda>e. if is_exception (exn_class e) then ret (AList.update (dd_name d) (typed_text e) failures) else throw e))
           (\<lambda>failures. instantiate_each ops w h ds failures))"

definition instantiate_all_enabled ::
  "'r definition_repository \<Rightarrow> device_world \<Rightarrow> host \<Rightarrow> ('r, (string \<times> fstring) list) device_act" where
  "instantiate_all_enabled ops w h =
     chain (list_definitions ops) (\<lambda>ds. instantiate_each ops w h ds [])"

text \<open>The calls a client can make.\<close>

datatype device_call =
    DList
  | DGet string
  | DCreate device_world device_definition
  | DUpdate device_world rat device_definition
  | DDelete string
  | DInstantiate device_world host string
  | DRemove string
  | DInstantiateAll device_world host

definition done_with :: "('r, 'a) device_act \<Rightarrow> ('r, unit) device_act" where
  "done_with m = chain m (\<lambda>_. ret ())"

fun device_effect :: "'r definition_repository \<Rightarrow> device_call \<Rightarrow> ('r, unit) device_act" where
  "device_effect ops DList = done_with (list_definitions ops)"
| "device_effect ops (DGet n) = done_with (get_definition ops n)"
| "device_effect ops (DCreate w d) = done_with (create ops w d)"
| "device_effect ops (DUpdate w now d) = done_with (update_definition ops w now d)"
| "device_effect ops (DDelete n) = done_with (delete_definition ops n)"
| "device_effect ops (DInstantiate w h n) = done_with (instantiate ops w h n)"
| "device_effect ops (DRemove n) = done_with (remove_instance n)"
| "device_effect ops (DInstantiateAll w h) = done_with (instantiate_all_enabled ops w h)"

definition device_calls :: "'r definition_repository \<Rightarrow> device_call list \<Rightarrow> 'r device_service \<Rightarrow> 'r device_service" where
  "device_calls ops cs s = fold (\<lambda>c s. snd (device_effect ops c s)) cs s"

end
