(* ===== verification/Services.thy ===== *)
theory Services
  imports StatusReport Auth Console DeviceService
begin

section \<open>The services behind the routes (\<open>api/deps.py\<close>, \<open>api/app.py\<close>)\<close>

text \<open>
  \<open>services\<close> is the object that the composition root hands to the routes. A route is an action on
  it: it answers with a body or raises. \<open>serve\<close> is what the application does around it: ask who is
  calling, run the route, and turn an exception that the route lets through into a 500 with a JSON
  body. The registry is one object that the queue, the loop and the device service share; the
  device service runs on the registry of \<open>services\<close>, and its \<open>on_change\<close> is the reporter's
  \<open>bump_registry\<close>.
\<close>

record ('r, 'd) services = "'r reporting" +
  sv_registry :: registry
  sv_auth :: authenticator
  sv_console :: console
  sv_definitions :: "'d option"
  sv_device_max_depth :: nat
  sv_config :: pydict
  sv_has_shutdown :: bool
  sv_shutdowns :: nat

type_synonym ('r, 'd, 'a) sv_act = "(('r, 'd) services, exn, 'a) act"

abbreviation queue_service_of :: "('r, 'z) reporting_scheme \<Rightarrow> 'r queue_service" where
  "queue_service_of s \<equiv> sq_queue (sv_seq s)"

subsection \<open>Clauses that catch\<close>

definition catching :: "(exn_class \<Rightarrow> bool) \<Rightarrow> ('s, exn, 'a) act \<Rightarrow> (exn \<Rightarrow> ('s, exn, 'a) act) \<Rightarrow> ('s, exn, 'a) act" where
  "catching caught m h = handle m (\<lambda>e. if caught (exn_class e) then h e else throw e)"

fun is_sequencer_error :: "exn_class \<Rightarrow> bool" where
  "is_sequencer_error (SequencerError _) = True"
| "is_sequencer_error _ = False"

text \<open>\<open>except (QueueError, IndexError, ValueError, TypeError)\<close>.\<close>

definition bad_selection :: "exn_class \<Rightarrow> bool" where
  "bad_selection c \<longleftrightarrow> is_value_error c \<or> c = IndexError \<or> c = TypeError"

subsection \<open>Conversions of the language\<close>

text \<open>\<open>int(v)\<close>.\<close>

fun py_int :: "pyval \<Rightarrow> exn + int" where
  "py_int (PInt i) = Inr i"
| "py_int (PBool b) = Inr (if b then 1 else 0)"
| "py_int (PFloat r) = Inr (if r < 0 then \<lceil>r\<rceil> else \<lfloor>r\<rfloor>)"
| "py_int (PStr s) = (case parse_int s of Some i \<Rightarrow> Inr i
     | None \<Rightarrow> Inl (Exn ValueError [Txt ''invalid literal for int() with base 10: '', Rep (PStr s)]))"
| "py_int v = Inl (Exn TypeError [Txt ''int() argument must be a string, a bytes-like object or a real number''])"

text \<open>\<open>xs[i]\<close>: a negative index counts from the end.\<close>

definition list_item :: "'a list \<Rightarrow> int \<Rightarrow> exn + 'a" where
  "list_item xs i =
     (let j = (if i < 0 then int (length xs) + i else i)
      in if 0 \<le> j \<and> j < int (length xs) then Inr (xs ! nat j)
         else Inl (Exn IndexError [Txt ''list index out of range'']))"

definition dicts :: "pydict list \<Rightarrow> pyval" where
  "dicts ds = PList (map PDict ds)"

subsection \<open>The application around a route\<close>

datatype response = Reply pyval | Denied http_refusal | Broken pydict | Escaping exn

definition unhandled :: "surroundings \<Rightarrow> exn \<Rightarrow> pydict" where
  "unhandled env e =
     [(PStr ''success'', PBool False), (PStr ''code'', PStr (code_str INTERNAL)),
      (PStr ''msg'', PStr (''Internal error: '' @ class_name (exn_class e) @ '': '' @ en_pr env (exn_text e)))]"

definition answer :: "surroundings \<Rightarrow> ('r, 'd, pyval) sv_act \<Rightarrow> ('r, 'd) services \<Rightarrow> response \<times> ('r, 'd) services" where
  "answer env route s =
     (case route s of
        (Inr body, s') \<Rightarrow> (Reply body, s')
      | (Inl e, s') \<Rightarrow> (if is_exception (exn_class e) then Broken (unhandled env e) else Escaping e, s'))"

definition serve ::
  "surroundings \<Rightarrow> string \<Rightarrow> request \<Rightarrow> (principal \<Rightarrow> ('r, 'd, pyval) sv_act) \<Rightarrow>
   ('r, 'd) services \<Rightarrow> response \<times> ('r, 'd) services" where
  "serve env scope rq route s =
     (case require_scope scope (sv_auth s) rq of
        Inl r \<Rightarrow> (Denied r, s)
      | Inr p \<Rightarrow> answer env (route p) s)"

text \<open>The application turns the outcome of a route into a reply; the state it leaves is the route's.\<close>

lemma answer_eq:
  "answer env route s =
     (case fst (route s) of Inr body \<Rightarrow> Reply body
      | Inl e \<Rightarrow> if is_exception (exn_class e) then Broken (unhandled env e) else Escaping e, snd (route s))"
  by (simp add: answer_def split: prod.split sum.split)

lemma snd_answer [simp]: "snd (answer env route s) = snd (route s)"
  by (simp add: answer_eq)

definition payload_of_request :: "surroundings \<Rightarrow> request \<Rightarrow> ('r, 'd, pydict) sv_act" where
  "payload_of_request env rq = lift_result (read_payload (en_loads env) rq)"

lemma catching_eq [act_simps]:
  "catching caught m h s = (case fst (m s) of
     Inl e \<Rightarrow> if caught (exn_class e) then h e (snd (m s)) else (Inl e, snd (m s)) | Inr x \<Rightarrow> (Inr x, snd (m s)))"
  by (simp add: catching_def act_simps split: sum.split)

end
