(* ===== verification/QueueRoutes.thy ===== *)
theory QueueRoutes
  imports Services
begin

section \<open>The queue and history routes (\<open>api/routers/queue.py\<close>)\<close>

text \<open>
  Every route of the group, as an action on the services: which fields of the payload it reads,
  which calls it makes in which order, which exceptions it turns into a body with \<open>success: false\<close>
  and which it lets through. \<open>ops\<close> is the repository of the queue. \<open>text_of_exn\<close> is \<open>str(exc)\<close>.
\<close>

abbreviation text_of_exn :: "surroundings \<Rightarrow> exn \<Rightarrow> string" where
  "text_of_exn env e \<equiv> en_pr env (exn_text e)"

abbreviation qsize :: "'r queue_repository \<Rightarrow> ('r, 'd, nat) sv_act" where
  "qsize ops \<equiv> via_queue (queue_len ops)"

definition num :: "nat \<Rightarrow> pyval" where
  "num n = PInt (int n)"

definition item_val :: "queue_item \<Rightarrow> pyval" where
  "item_val it = PDict (item_to_dict it)"

subsection \<open>Reading the payload\<close>

definition missing_item :: exn where
  "missing_item = Exn QueueError [Txt ''Payload must contain 'item' with at least a 'name'']"

definition item_from_payload :: "surroundings \<Rightarrow> pydict \<Rightarrow> principal \<Rightarrow> exn + queue_item" where
  "item_from_payload env payload p =
     (let raw = dget ''item'' payload in
      if \<not> is_dict raw \<or> \<not> dhas ''name'' (as_dict raw) then Inl missing_item
      else item_from_dict (tx_fmt (en_tx env)) (fst (en_fresh env 0)) (snd (en_fresh env 0)) raw (pr_name p) (pr_user_group p))"

text \<open>\<open>_position_kwargs\<close>, with the key of the target (\<open>pos\<close>, or \<open>pos_dest\<close> when moving).\<close>

definition with_position :: "string \<Rightarrow> pydict \<Rightarrow> (pyval \<Rightarrow> pyval \<Rightarrow> pyval \<Rightarrow> 'a) \<Rightarrow> 'a" where
  "with_position key payload f = f (dget key payload) (dget ''before_uid'' payload) (dget ''after_uid'' payload)"

text \<open>\<open>items[int({"front": 0, "back": len(items) - 1}.get(pos, pos))]\<close>.\<close>

definition pick_item :: "queue_item list \<Rightarrow> pyval \<Rightarrow> exn + queue_item" where
  "pick_item xs pos =
     (if \<not> hashable pos then Inl (Exn TypeError [Txt ''unhashable type''])
      else (case py_int (if pos = PStr ''front'' then PInt 0
                         else if pos = PStr ''back'' then PInt (int (length xs) - 1) else pos) of
          Inl e \<Rightarrow> Inl e
        | Inr i \<Rightarrow> list_item xs i))"

definition uid_text :: "surroundings \<Rightarrow> pyval \<Rightarrow> string" where
  "uid_text env v = py_str (tx_fmt (en_tx env)) v"

subsection \<open>Reading the queue\<close>

definition queue_get :: "'r queue_repository \<Rightarrow> surroundings \<Rightarrow> ('r, 'd, pydict) sv_act" where
  "queue_get ops env =
     chain (via_queue (items ops)) (\<lambda>xs.
     chain (get_state running_item) (\<lambda>running.
     chain (snapshot ops env) (\<lambda>status.
     ret (ok_body [] [(PStr ''items'', PList (map item_val xs)), (PStr ''running_item'', PDict running),
       (PStr ''plan_queue_uid'', dget ''plan_queue_uid'' status)]))))"

definition item_get :: "'r queue_repository \<Rightarrow> surroundings \<Rightarrow> request \<Rightarrow> ('r, 'd, pydict) sv_act" where
  "item_get ops env rq =
     chain (payload_of_request env rq) (\<lambda>payload.
     catching bad_selection
       (if truthy (dget ''uid'' payload) then
          chain (via_queue (get_queued ops (uid_text env (dget ''uid'' payload)))) (\<lambda>it.
          ret (ok_body [] [(PStr ''item'', item_val it)]))
        else
          chain (via_queue (items ops)) (\<lambda>xs.
          if xs = [] then ret (fail_body ''Queue is empty'' None [(PStr ''item'', PDict [])])
          else chain (lift_result (pick_item xs (dget_or ''pos'' (PStr ''back'') payload))) (\<lambda>it.
            ret (ok_body [] [(PStr ''item'', item_val it)]))))
       (\<lambda>e. ret (fail_body (text_of_exn env e) None [(PStr ''item'', PDict [])])))"

definition item_get_by_path :: "'r queue_repository \<Rightarrow> surroundings \<Rightarrow> string \<Rightarrow> ('r, 'd, pydict) sv_act" where
  "item_get_by_path ops env u =
     catching (\<lambda>c. c = QueueError)
       (chain (via_queue (get_queued ops u)) (\<lambda>it. ret (ok_body [] [(PStr ''item'', item_val it)])))
       (\<lambda>e. ret (fail_body (text_of_exn env e) None [(PStr ''item'', PDict [])]))"

subsection \<open>Adding and changing items\<close>

text \<open>The body of a refused change: the size of the queue and the item as it was sent.\<close>

definition refused_item :: "'r queue_repository \<Rightarrow> surroundings \<Rightarrow> pydict \<Rightarrow> exn \<Rightarrow> ('r, 'd, pydict) sv_act" where
  "refused_item ops env payload e =
     chain (qsize ops) (\<lambda>n.
     ret (fail_body (text_of_exn env e) None
       [(PStr ''qsize'', num n), (PStr ''item'', dget_or ''item'' (PDict []) payload)]))"

definition changed_item :: "'r queue_repository \<Rightarrow> queue_item \<Rightarrow> ('r, 'd, pydict) sv_act" where
  "changed_item ops it =
     chain (qsize ops) (\<lambda>n. ret (ok_body [] [(PStr ''qsize'', num n), (PStr ''item'', item_val it)]))"

definition in_registry :: "(registry \<Rightarrow> ('r, 'd, 'a) sv_act) \<Rightarrow> ('r, 'd, 'a) sv_act" where
  "in_registry f = (\<lambda>s. f (sv_registry s) s)"

definition item_add :: "'r queue_repository \<Rightarrow> surroundings \<Rightarrow> request \<Rightarrow> principal \<Rightarrow> ('r, 'd, pydict) sv_act" where
  "item_add ops env rq p =
     chain (payload_of_request env rq) (\<lambda>payload.
     catching (\<lambda>c. c = QueueError)
       (chain (lift_result (item_from_payload env payload p)) (\<lambda>it.
        chain (in_registry (\<lambda>reg. with_position ''pos'' payload (\<lambda>pos b a. via_queue (add ops reg (en_fresh env 1) it pos b a)))) (\<lambda>(stored, _).
        changed_item ops stored)))
       (refused_item ops env payload))"

text \<open>The loop over the batch: items so far, and one result body per element.\<close>

fun check_batch ::
  "surroundings \<Rightarrow> registry \<Rightarrow> principal \<Rightarrow> nat \<Rightarrow> pyval list \<Rightarrow> exn + (queue_item option \<times> pydict) list" where
  "check_batch env reg p i [] = Inr []"
| "check_batch env reg p i (raw # raws) =
     (let checked = (case item_from_dict (tx_fmt (en_tx env)) (fst (en_fresh env i)) (snd (en_fresh env i)) raw
              (pr_name p) (pr_user_group p) of
            Inl e \<Rightarrow> Inl e
          | Inr it \<Rightarrow> (case validate reg it of Inl e \<Rightarrow> Inl e | Inr _ \<Rightarrow> Inr it))
      in case checked of
           Inr it \<Rightarrow> map_sum id (\<lambda>rest. (Some it, ok_body [] []) # rest) (check_batch env reg p (i + 1) raws)
         | Inl e \<Rightarrow>
             (if exn_class e = QueueError \<or> exn_class e = KeyError \<or> exn_class e = TypeError
              then map_sum id (\<lambda>rest. (None, fail_from (en_pr env) e None) # rest) (check_batch env reg p (i + 1) raws)
              else Inl e))"

definition item_add_batch :: "'r queue_repository \<Rightarrow> surroundings \<Rightarrow> request \<Rightarrow> principal \<Rightarrow> ('r, 'd, pydict) sv_act" where
  "item_add_batch ops env rq p =
     chain (payload_of_request env rq) (\<lambda>payload.
     let raw_items = dget ''items'' payload in
     if \<not> is_list raw_items then
       chain (qsize ops) (\<lambda>n. ret (fail_body (''Payload must contain a list 'items'' @ [CHR 0x27]) None
         [(PStr ''qsize'', num n), (PStr ''items'', PList []), (PStr ''results'', PList [])]))
     else
       let raws = as_list raw_items in
       chain (in_registry (\<lambda>reg. lift_result (check_batch env reg p 0 raws))) (\<lambda>checked.
       let results = dicts (map snd checked) in
       if list_ex (\<lambda>c. fst c = None) checked then
         chain (qsize ops) (\<lambda>n. ret (fail_body ''Some items are invalid; nothing was added'' None
           [(PStr ''qsize'', num n), (PStr ''items'', raw_items), (PStr ''results'', results)]))
       else
         chain (in_registry (\<lambda>reg. with_position ''pos'' payload (\<lambda>pos b a.
           via_queue (add_batch ops reg (\<lambda>i. en_fresh env (length raws + i)) (map (the \<circ> fst) checked) pos b a)))) (\<lambda>added.
         chain (qsize ops) (\<lambda>n. ret (ok_body [] [(PStr ''qsize'', num n),
           (PStr ''items'', PList (map (item_val \<circ> fst) added)), (PStr ''results'', results)])))))"

definition item_update :: "'r queue_repository \<Rightarrow> surroundings \<Rightarrow> request \<Rightarrow> principal \<Rightarrow> ('r, 'd, pydict) sv_act" where
  "item_update ops env rq p =
     chain (payload_of_request env rq) (\<lambda>payload.
     catching (\<lambda>c. c = QueueError)
       (chain (lift_result (item_from_payload env payload p)) (\<lambda>it.
        chain (in_registry (\<lambda>reg. via_queue (update ops reg (en_fresh env 1) it
          (truthy (dget_or ''replace'' (PBool False) payload))))) (\<lambda>updated.
        changed_item ops updated)))
       (refused_item ops env payload))"

definition item_execute :: "'r queue_repository \<Rightarrow> surroundings \<Rightarrow> request \<Rightarrow> principal \<Rightarrow> ('r, 'd, pydict) sv_act" where
  "item_execute ops env rq p =
     chain (payload_of_request env rq) (\<lambda>payload.
     catching (\<lambda>c. c = QueueError \<or> is_sequencer_error c)
       (chain (lift_result (item_from_payload env payload p)) (\<lambda>it.
        chain (in_registry (\<lambda>reg. lift_result (validate reg it))) (\<lambda>_.
        chain (via_sequencer (execute_now ops (en_tx env) (en_pr env) it)) (\<lambda>_.
        changed_item ops it))))
       (refused_item ops env payload))"

subsection \<open>Moving and removing\<close>

definition refused_selection :: "'r queue_repository \<Rightarrow> surroundings \<Rightarrow> string \<Rightarrow> pyval \<Rightarrow> exn \<Rightarrow> ('r, 'd, pydict) sv_act" where
  "refused_selection ops env key v e =
     chain (qsize ops) (\<lambda>n. ret (fail_body (text_of_exn env e) None [(PStr ''qsize'', num n), (PStr key, v)]))"

definition item_move :: "'r queue_repository \<Rightarrow> surroundings \<Rightarrow> request \<Rightarrow> ('r, 'd, pydict) sv_act" where
  "item_move ops env rq =
     chain (payload_of_request env rq) (\<lambda>payload.
     catching bad_selection
       (chain
         (if \<not> truthy (dget ''uid'' payload) \<and> dhas ''pos'' payload then
            chain (via_queue (items ops)) (\<lambda>xs.
            chain (lift_result (py_int (dget ''pos'' payload))) (\<lambda>i.
            chain (lift_result (list_item xs i)) (\<lambda>it. ret (PStr (item_uid it)))))
          else ret (dget ''uid'' payload)) (\<lambda>u.
        if \<not> truthy u then throw (Exn QueueError [Txt ''Payload must contain 'uid' (or 'pos') of the item to move''])
        else
          chain (with_position ''pos_dest'' payload (\<lambda>pos b a. via_queue (move ops (uid_text env u) pos b a))) (\<lambda>_.
          chain (qsize ops) (\<lambda>n.
          chain (via_queue (get_queued ops (uid_text env u))) (\<lambda>it.
          ret (ok_body [] [(PStr ''qsize'', num n), (PStr ''item'', item_val it)]))))))
       (refused_selection ops env ''item'' (PDict [])))"

text \<open>The rest of a batch, each item behind the one before it.\<close>

fun move_behind :: "'r queue_repository \<Rightarrow> string \<Rightarrow> string list \<Rightarrow> ('r, unit) service_act" where
  "move_behind ops prev [] = ret ()"
| "move_behind ops prev (u # us) = chain (move ops u PNone PNone (PStr prev)) (\<lambda>_. move_behind ops u us)"

text \<open>The calls of a batch move, in order: the first to its anchor, then the others.\<close>

definition move_all :: "'r queue_repository \<Rightarrow> string list \<Rightarrow> pyval \<Rightarrow> pyval \<Rightarrow> pyval \<Rightarrow> ('r, unit) service_act" where
  "move_all ops us pos b a = chain (move ops (hd us) pos b a) (\<lambda>_. move_behind ops (hd us) (tl us))"

definition item_move_batch :: "'r queue_repository \<Rightarrow> surroundings \<Rightarrow> request \<Rightarrow> ('r, 'd, pydict) sv_act" where
  "item_move_batch ops env rq =
     chain (payload_of_request env rq) (\<lambda>payload.
     let uids = dget ''uids'' payload in
     if \<not> is_list uids \<or> \<not> truthy uids then
       chain (qsize ops) (\<lambda>n. ret (fail_body (''Payload must contain a non-empty list 'uids'' @ [CHR 0x27]) None
         [(PStr ''qsize'', num n), (PStr ''items'', PList [])]))
     else
       let us = map (uid_text env) (as_list uids) in
       catching (\<lambda>c. c = QueueError)
         (chain (with_position ''pos_dest'' payload (\<lambda>pos b a. via_queue (move_all ops us pos b a))) (\<lambda>_.
          chain (via_queue (for_each (get_queued ops) us)) (\<lambda>moved.
          chain (qsize ops) (\<lambda>n.
          ret (ok_body [] [(PStr ''qsize'', num n), (PStr ''items'', PList (map item_val moved))])))))
         (refused_selection ops env ''items'' (PList [])))"

definition item_remove :: "'r queue_repository \<Rightarrow> surroundings \<Rightarrow> request \<Rightarrow> ('r, 'd, pydict) sv_act" where
  "item_remove ops env rq =
     chain (payload_of_request env rq) (\<lambda>payload.
     catching bad_selection
       (chain
         (if \<not> truthy (dget ''uid'' payload) then
            chain (via_queue (items ops)) (\<lambda>xs.
            if xs = [] then throw (Exn QueueError [Txt ''Queue is empty''])
            else chain (lift_result (pick_item xs (dget_or ''pos'' (PStr ''back'') payload))) (\<lambda>it. ret (PStr (item_uid it))))
          else ret (dget ''uid'' payload)) (\<lambda>u.
        chain (via_queue (remove ops (uid_text env u))) (\<lambda>removed.
        chain (qsize ops) (\<lambda>n.
        ret (ok_body [] [(PStr ''qsize'', num n), (PStr ''item'', item_val removed)])))))
       (refused_selection ops env ''item'' (PDict [])))"

definition item_remove_batch :: "'r queue_repository \<Rightarrow> surroundings \<Rightarrow> request \<Rightarrow> ('r, 'd, pydict) sv_act" where
  "item_remove_batch ops env rq =
     chain (payload_of_request env rq) (\<lambda>payload.
     let uids = dget ''uids'' payload in
     if \<not> is_list uids then
       chain (qsize ops) (\<lambda>n. ret (fail_body (''Payload must contain a list 'uids'' @ [CHR 0x27]) None
         [(PStr ''qsize'', num n), (PStr ''items'', PList [])]))
     else
       catching (\<lambda>c. c = QueueError)
         (chain (via_queue (remove_batch ops (map (uid_text env) (as_list uids))
              (truthy (dget_or ''ignore_missing'' (PBool True) payload)))) (\<lambda>removed.
          chain (qsize ops) (\<lambda>n.
          ret (ok_body [] [(PStr ''qsize'', num n), (PStr ''items'', PList (map item_val removed))]))))
         (refused_selection ops env ''items'' (PList [])))"

definition queue_clear :: "'r queue_repository \<Rightarrow> ('r, 'd, pydict) sv_act" where
  "queue_clear ops = chain (via_queue (clear ops)) (\<lambda>_. ret (ok_body ''Plan queue is now empty.'' []))"

subsection \<open>Running the queue\<close>

text \<open>A control call; a \<open>SequencerError\<close> becomes a body with its code.\<close>

definition controlled :: "surroundings \<Rightarrow> ('r, unit) seq_act \<Rightarrow> ('r, 'd, pydict) sv_act" where
  "controlled env m =
     catching is_sequencer_error (chain (via_sequencer m) (\<lambda>_. ret (ok_body [] [])))
       (\<lambda>e. ret (fail_from (en_pr env) e None))"

definition queue_start_route :: "'r queue_repository \<Rightarrow> surroundings \<Rightarrow> ('r, 'd, pydict) sv_act" where
  "queue_start_route ops env = controlled env (queue_start ops (en_tx env) (en_pr env))"

definition queue_stop_route :: "surroundings \<Rightarrow> ('r, 'd, pydict) sv_act" where
  "queue_stop_route env = controlled env queue_stop"

definition queue_stop_cancel_route :: "('r, 'd, pydict) sv_act" where
  "queue_stop_cancel_route = chain (via_sequencer queue_stop_cancel) (\<lambda>_. ret (ok_body [] []))"

definition queue_autostart :: "surroundings \<Rightarrow> request \<Rightarrow> ('r, 'd, pydict) sv_act" where
  "queue_autostart env rq =
     chain (payload_of_request env rq) (\<lambda>payload.
     if \<not> dhas ''enable'' payload then ret (fail_body (''Payload must contain 'enable'' @ [CHR 0x27]) None [])
     else chain (via_sequencer (set_autostart (en_tx env) (en_pr env) (truthy (dget ''enable'' payload)))) (\<lambda>_.
       ret (ok_body [] [])))"

definition queue_mode_set :: "surroundings \<Rightarrow> request \<Rightarrow> ('r, 'd, pydict) sv_act" where
  "queue_mode_set env rq =
     chain (payload_of_request env rq) (\<lambda>payload.
     let mode = dget ''mode'' payload in
     if \<not> is_dict mode then ret (fail_body (''Payload must contain a dict 'mode'' @ [CHR 0x27]) None [])
     else if truthy (dget ''ignore_failures'' (as_dict mode)) then
       ret (fail_body ''ignore_failures is not supported: this service stops the queue on failure and waits for a human''
         (Some UNSUPPORTED) [])
     else if dhas ''loop'' (as_dict mode) then
       chain (via_sequencer (set_loop_mode (truthy (dget ''loop'' (as_dict mode))))) (\<lambda>_. ret (ok_body [] []))
     else ret (ok_body [] []))"

definition queue_upload_spreadsheet :: pydict where
  "queue_upload_spreadsheet = unsupported ''Spreadsheet upload'' ''no spreadsheet processing is configured''"

subsection \<open>History\<close>

definition history_get :: "'r queue_repository \<Rightarrow> surroundings \<Rightarrow> ('r, 'd, pydict) sv_act" where
  "history_get ops env =
     chain (via_queue (history ops)) (\<lambda>hs.
     chain (snapshot ops env) (\<lambda>status.
     ret (ok_body [] [(PStr ''items'', dicts (map (history_to_dict (en_pr env)) hs)),
       (PStr ''plan_history_uid'', dget ''plan_history_uid'' status)])))"

definition history_clear :: "'r queue_repository \<Rightarrow> ('r, 'd, pydict) sv_act" where
  "history_clear ops = chain (via_queue (clear_history ops)) (\<lambda>_. ret (ok_body [] []))"

end
