(* ===== verification/Describe.thy ===== *)
theory Describe
  imports Registry
begin

section \<open>Descriptions of plans and devices (\<open>api/describe.py\<close>)\<close>

text \<open>
  What the routes tell clients about plans and devices. What Python's introspection finds on a
  plan or a device object is a parameter: \<open>plan_view\<close> and \<open>object_view\<close>. The attributes of a device may
  lead back to the device itself; the description is finite because it stops at \<open>max_depth\<close>. The
  model counts the levels that are left, \<open>max_depth - depth\<close>.
\<close>

subsection \<open>Plans\<close>

text \<open>
  The unwrapped plan: its module, its doc string, whether it is a generator function, its signature
  if it has one, and, for a parameter, \<open>repr\<close> of the default and the text of the annotation (the
  string itself, the name of a class, else \<open>repr\<close>).
\<close>

record plan_view =
  pv_module :: string
  pv_doc :: string
  pv_is_generator :: bool
  pv_signature :: "parameter list option"
  pv_default_repr :: "string \<Rightarrow> string"
  pv_annotation :: "string \<Rightarrow> string option"

fun kind_name :: "param_kind \<Rightarrow> string" where
  "kind_name POSITIONAL_ONLY = ''POSITIONAL_ONLY''"
| "kind_name POSITIONAL_OR_KEYWORD = ''POSITIONAL_OR_KEYWORD''"
| "kind_name VAR_POSITIONAL = ''VAR_POSITIONAL''"
| "kind_name KEYWORD_ONLY = ''KEYWORD_ONLY''"
| "kind_name VAR_KEYWORD = ''VAR_KEYWORD''"

definition describe_parameter :: "plan_view \<Rightarrow> parameter \<Rightarrow> pyval" where
  "describe_parameter v p = PDict
    ([(PStr ''name'', PStr (par_name p)),
      (PStr ''kind'', PDict [(PStr ''name'', PStr (kind_name (par_kind p))), (PStr ''value'', PInt (int (kind_value (par_kind p))))])] @
     (if par_has_default p then [(PStr ''default'', PStr (pv_default_repr v (par_name p)))] else []) @
     (case pv_annotation v (par_name p) of None \<Rightarrow> []
      | Some a \<Rightarrow> [(PStr ''annotation'', PDict [(PStr ''type'', PStr a)])]))"

definition describe_plan :: "(plan_factory \<Rightarrow> plan_view) \<Rightarrow> string \<Rightarrow> plan_factory \<Rightarrow> pydict" where
  "describe_plan look name plan =
     (let v = look plan in
      [(PStr ''name'', PStr name), (PStr ''module'', PStr (pv_module v)), (PStr ''description'', PStr (pv_doc v)),
       (PStr ''properties'', PDict [(PStr ''is_generator'', PBool (pv_is_generator v))]),
       (PStr ''parameters'', PList (case pv_signature v of None \<Rightarrow> [] | Some ps \<Rightarrow> map (describe_parameter v) ps))])"

definition describe_plans :: "(plan_factory \<Rightarrow> plan_view) \<Rightarrow> plan_factory names \<Rightarrow> pydict" where
  "describe_plans look plans = map (\<lambda>(name, plan). (PStr name, PDict (describe_plan look name plan))) (sort_key fst plans)"

subsection \<open>Devices\<close>

text \<open>
  \<open>ov_callable a\<close>: the object has a callable attribute \<open>a\<close>. \<open>ov_children\<close>: the names that \<open>children()\<close>
  yields, or that it raises, if there is such a method. \<open>ov_attr a\<close>: what \<open>getattr\<close> gives.
\<close>

record object_view =
  ov_classname :: string
  ov_module :: string
  ov_callable :: "string \<Rightarrow> bool"
  ov_component_names :: "string list"
  ov_children :: "(exn + string list) option"
  ov_attr :: "string \<Rightarrow> exn + pyval"

definition device_flags :: "object_view \<Rightarrow> pydict" where
  "device_flags v =
    [(PStr ''is_readable'', PBool (ov_callable v ''read'' \<and> ov_callable v ''describe'')),
     (PStr ''is_movable'', PBool (ov_callable v ''set'')),
     (PStr ''is_flyable'', PBool (ov_callable v ''kickoff'' \<and> ov_callable v ''complete''))]"

definition component_list :: "object_view \<Rightarrow> string list" where
  "component_list v =
     (if ov_component_names v \<noteq> [] then ov_component_names v
      else (case ov_children v of Some (Inr names) \<Rightarrow> names | _ \<Rightarrow> []))"

text \<open>The components that can be reached, with what \<open>getattr\<close> gave; one that raises is left out.\<close>

definition reachable_components :: "object_view \<Rightarrow> (string \<times> pyval) list" where
  "reachable_components v =
     concat (map (\<lambda>c. case ov_attr v c of Inl e \<Rightarrow> [] | Inr child \<Rightarrow> [(c, child)]) (component_list v))"

fun describe_device :: "(pyval \<Rightarrow> object_view) \<Rightarrow> nat \<Rightarrow> pyval \<Rightarrow> pydict" where
  "describe_device look levels obj =
     device_flags (look obj) @
     [(PStr ''classname'', PStr (ov_classname (look obj))), (PStr ''module'', PStr (ov_module (look obj)))] @
     (case levels of 0 \<Rightarrow> []
      | Suc n \<Rightarrow>
          let components = dict_update [] (map (\<lambda>(c, child). (PStr c, PDict (describe_device look n child)))
                (reachable_components (look obj)))
          in if components \<noteq> [] then [(PStr ''components'', PDict components)] else [])"

declare describe_device.simps [simp del]

definition describe_devices :: "(pyval \<Rightarrow> object_view) \<Rightarrow> int \<Rightarrow> device_entry names \<Rightarrow> pydict" where
  "describe_devices look max_depth devices =
     map (\<lambda>(name, entry). (PStr name, PDict (describe_device look (nat max_depth) (de_device entry)))) (sort_key fst devices)"

subsection \<open>Properties\<close>

text \<open>How many levels of components a description shows, and the component at a dotted path.\<close>

inductive nested :: "nat \<Rightarrow> pydict \<Rightarrow> bool" where
  flat: "dget ''components'' d = PNone \<Longrightarrow> nested n d"
| deeper: "dget ''components'' d = PDict cs \<Longrightarrow> (\<And>k v. (k, v) \<in> set cs \<Longrightarrow> \<exists>e. v = PDict e \<and> nested n e) \<Longrightarrow> nested (Suc n) d"

fun component_at :: "string list \<Rightarrow> pydict \<Rightarrow> pydict option" where
  "component_at [] d = Some d"
| "component_at (c # cs) d =
     (case dget c (as_dict (dget ''components'' d)) of PDict e \<Rightarrow> component_at cs e | _ \<Rightarrow> None)"

fun object_at :: "(pyval \<Rightarrow> object_view) \<Rightarrow> string list \<Rightarrow> pyval \<Rightarrow> pyval option" where
  "object_at look [] obj = Some obj"
| "object_at look (c # cs) obj =
     (if c \<in> set (component_list (look obj))
      then (case ov_attr (look obj) c of Inr child \<Rightarrow> object_at look cs child | Inl _ \<Rightarrow> None) else None)"

lemma dget_append: "dget k (d @ e) = (if dhas k d then dget k d else dget k e)"
  by (simp add: dget_def dhas_def map_add_def split: option.split)

lemma fold_components_set:
  "set (dict_update d e) \<subseteq> set d \<union> set e"
proof (induction e arbitrary: d)
  case Nil
  then show ?case by (simp add: dict_update_def)
next
  case (Cons p e)
  have "dict_update d (p # e) = dict_update (AList.update (fst p) (snd p) d) e"
    by (simp add: dict_update_def case_prod_beta)
  with Cons [of "AList.update (fst p) (snd p) d"] set_alist_update [of "fst p" "snd p" d] show ?case by auto
qed

lemma fold_components_lookup: "map_of (dict_update d e) k = (case map_of (rev e) k of Some v \<Rightarrow> Some v | None \<Rightarrow> map_of d k)"
proof (induction e arbitrary: d)
  case Nil
  then show ?case by (simp add: dict_update_def)
next
  case (Cons p e)
  have "dict_update d (p # e) = dict_update (AList.update (fst p) (snd p) d) e"
    by (simp add: dict_update_def case_prod_beta)
  with Cons show ?case by (cases p) (simp add: update_conv' map_add_def split: option.split)
qed

definition described_components :: "(pyval \<Rightarrow> object_view) \<Rightarrow> nat \<Rightarrow> pyval \<Rightarrow> pydict" where
  "described_components look n obj =
     dict_update [] (map (\<lambda>(c, child). (PStr c, PDict (describe_device look n child))) (reachable_components (look obj)))"

lemma components_of_description:
  "dget ''components'' (describe_device look levels obj) =
     (case levels of 0 \<Rightarrow> PNone
      | Suc n \<Rightarrow> if described_components look n obj = [] then PNone else PDict (described_components look n obj))"
  by (subst describe_device.simps)
    (auto simp: dget_append dhas_def device_flags_def dget_def described_components_def Let_def split: nat.split)


lemma reachable_lookup:
  "map_of (rev (map (\<lambda>(c, child). (PStr c, PDict (describe_device look n child))) (reachable_components v))) (PStr c) =
     (if c \<in> set (component_list v) then (case ov_attr v c of Inr child \<Rightarrow> Some (PDict (describe_device look n child)) | Inl _ \<Rightarrow> None) else None)"
proof -
  have "map_of (rev (map (\<lambda>(c, child). (PStr c, PDict (describe_device look n child)))
        (concat (map (\<lambda>c. case ov_attr v c of Inl e \<Rightarrow> [] | Inr child \<Rightarrow> [(c, child)]) cs)))) (PStr c) =
     (if c \<in> set cs then (case ov_attr v c of Inr child \<Rightarrow> Some (PDict (describe_device look n child)) | Inl _ \<Rightarrow> None) else None)" for cs
    by (induction cs) (auto simp: map_add_def split: option.split sum.split)
  then show ?thesis by (simp add: reachable_components_def)
qed

text \<open>
  Within its levels the description shows every component that attribute access reaches, under
  its dotted path, and nothing else: looking up a path in the description is walking it on the
  device.
\<close>

theorem description_shows_components:
  "length path \<le> levels \<Longrightarrow>
   component_at path (describe_device look levels obj) =
     map_option (describe_device look (levels - length path)) (object_at look path obj)"
proof (induction path arbitrary: levels obj)
  case Nil
  then show ?case by simp
next
  case (Cons c cs)
  then obtain n where n: "levels = Suc n" "length cs \<le> n" by (cases levels) auto
  have "dget c (described_components look n obj) = (if c \<in> set (component_list (look obj))
      then (case ov_attr (look obj) c of Inr child \<Rightarrow> PDict (describe_device look n child) | Inl _ \<Rightarrow> PNone) else PNone)"
    by (simp add: dget_def described_components_def fold_components_lookup reachable_lookup split: sum.split)
  moreover have "dget c (as_dict (dget ''components'' (describe_device look levels obj))) = dget c (described_components look n obj)"
    using components_of_description [of look levels obj] by (simp add: n(1) dget_def [of c])
  ultimately show ?case using Cons.IH [OF n(2)] n by (auto split: sum.split)
qed

text \<open>A motor whose parent is the stage that holds it.\<close>

definition example_look :: "pyval \<Rightarrow> object_view" where
  "example_look obj =
    \<lparr>ov_classname = (if obj = PObj 0 then ''Stage'' else ''Motor''), ov_module = ''lab'',
     ov_callable = (\<lambda>a. a = ''set'' \<and> obj = PObj 1),
     ov_component_names = (if obj = PObj 0 then [''x'', ''broken''] else [''parent'']),
     ov_children = None,
     ov_attr = (\<lambda>a. if obj = PObj 0 \<and> a = ''x'' then Inr (PObj 1) else if obj = PObj 1 \<and> a = ''parent'' then Inr (PObj 0)
       else Inl (Exn AttributeError []))\<rparr>"

theorem description_shows_components_witness:
  "component_at [''x'', ''parent''] (describe_device example_look 2 (PObj 0)) = Some (describe_device example_look 0 (PObj 0))"
  using description_shows_components [of "[''x'', ''parent'']" 2 example_look "PObj 0"]
  by (simp add: example_look_def component_list_def)

end
