(* ===== verification/EngineRoutes.thy ===== *)
theory EngineRoutes
  imports QueueRoutes Describe
begin

section \<open>The engine, resource and miscellaneous routes (\<open>api/routers/engine.py\<close>, \<open>status.py\<close>, \<open>resources.py\<close>, \<open>misc.py\<close>)\<close>

text \<open>
  \<open>refuses\<close> is how bluesky refuses the call that a route makes into the engine, if it does. The
  endless console stream has a theory of its own, \<open>ConsoleStream\<close>.
\<close>

definition via_host :: "(host, exn, 'a) act \<Rightarrow> ('r, 'd, 'a) sv_act" where
  "via_host m = via_sequencer (on_part sq_host (\<lambda>h s. s\<lparr>sq_host := h\<rparr>) m)"

definition ok_after :: "('r, 'd, 'a) sv_act \<Rightarrow> ('r, 'd, pydict) sv_act" where
  "ok_after m = chain m (\<lambda>_. ret (ok_body [] []))"

definition or_fail :: "surroundings \<Rightarrow> (exn_class \<Rightarrow> bool) \<Rightarrow> ('r, 'd, pydict) sv_act \<Rightarrow> ('r, 'd, pydict) sv_act" where
  "or_fail env caught m = catching caught m (\<lambda>e. ret (fail_from (en_pr env) e None))"

subsection \<open>The engine\<close>

definition re_pause :: "surroundings \<Rightarrow> exn option \<Rightarrow> request \<Rightarrow> ('r, 'd, pydict) sv_act" where
  "re_pause env refuses rq =
     chain (payload_of_request env rq) (\<lambda>payload.
     let option = uid_text env (dget_or ''option'' (PStr ''deferred'') payload) in
     if option \<notin> {''deferred'', ''immediate''}
     then ret (fail_body (en_pr env [Txt ''Invalid pause option '', Rep (PStr option), Txt ('': use 'deferred' or 'immediate'' @ [CHR 0x27])]) None [])
     else or_fail env is_exception (ok_after (via_host (request_pause (option = ''deferred'') refuses))))"

definition re_resume :: "surroundings \<Rightarrow> ('r, 'd, pydict) sv_act" where
  "re_resume env = or_fail env (\<lambda>c. c = EngineHostError) (ok_after (via_host resume_plan))"

definition re_abort :: "surroundings \<Rightarrow> exn option \<Rightarrow> request \<Rightarrow> ('r, 'd, pydict) sv_act" where
  "re_abort env refuses rq =
     chain (payload_of_request env rq) (\<lambda>payload.
     or_fail env is_exception (ok_after (via_host
       (abort (uid_text env (dget_or ''reason'' (PStr ''aborted over HTTP'') payload)) refuses))))"

definition re_stop :: "surroundings \<Rightarrow> exn option \<Rightarrow> ('r, 'd, pydict) sv_act" where
  "re_stop env refuses = or_fail env is_exception (ok_after (via_host (stop refuses)))"

definition re_halt :: "surroundings \<Rightarrow> exn option \<Rightarrow> ('r, 'd, pydict) sv_act" where
  "re_halt env refuses = or_fail env is_exception (ok_after (via_host (halt refuses)))"

definition re_metadata :: "surroundings \<Rightarrow> ('r, 'd, pydict) sv_act" where
  "re_metadata env =
     chain (\<lambda>s. (engine_metadata (en_tx env) (en_pr env) (host_of s), s)) (\<lambda>md.
     ret (ok_body [] [(PStr ''metadata'', PDict md)]))"

definition run_list :: "string \<Rightarrow> ('r, 'z) reporting_scheme \<Rightarrow> pydict list" where
  "run_list option s =
     (let running = h_state (host_of s) \<in> {ENGINE_RUNNING, PAUSED} in
      if option \<in> {''active'', ''open''} then (if running then open_runs (host_of s) else [])
      else (case h_last_outcome (host_of s) of None \<Rightarrow> []
        | Some oc \<Rightarrow> map (\<lambda>u. [(PStr ''uid'', PStr u), (PStr ''is_open'', PBool False), (PStr ''scan_id'', PNone)]) (po_run_uids oc)))"

definition re_runs_of :: "'r queue_repository \<Rightarrow> surroundings \<Rightarrow> string \<Rightarrow> ('r, 'd, pydict) sv_act" where
  "re_runs_of ops env option =
     chain (get_state (run_list option)) (\<lambda>runs.
     chain (snapshot ops env) (\<lambda>status.
     ret (ok_body [] [(PStr ''run_list'', dicts runs), (PStr ''run_list_uid'', dget ''run_list_uid'' status)])))"

definition re_runs :: "'r queue_repository \<Rightarrow> surroundings \<Rightarrow> request \<Rightarrow> ('r, 'd, pydict) sv_act" where
  "re_runs ops env rq =
     chain (payload_of_request env rq) (\<lambda>payload.
     let option = uid_text env (dget_or ''option'' (PStr ''active'') payload) in
     if option \<notin> {''active'', ''open'', ''closed''}
     then ret (fail_body (en_pr env [Txt ''Invalid option '', Rep (PStr option)]) None [])
     else re_runs_of ops env option)"

definition re_runs_active :: "'r queue_repository \<Rightarrow> surroundings \<Rightarrow> ('r, 'd, pydict) sv_act" where
  "re_runs_active ops env = re_runs_of ops env ''active''"

definition re_runs_open :: "'r queue_repository \<Rightarrow> surroundings \<Rightarrow> ('r, 'd, pydict) sv_act" where
  "re_runs_open ops env = re_runs_of ops env ''open''"

definition re_runs_closed :: "'r queue_repository \<Rightarrow> surroundings \<Rightarrow> ('r, 'd, pydict) sv_act" where
  "re_runs_closed ops env = re_runs_of ops env ''closed''"

subsection \<open>The environment\<close>

definition environment_open :: "surroundings \<Rightarrow> ('r, 'd, pydict) sv_act" where
  "environment_open env = get_state (\<lambda>s.
     if h_state (host_of s) \<in> {NO_ENGINE, STARTING}
     then fail_body ''No profile is loaded; qs loads its profile at startup'' None [(PStr ''task_uid'', PNone)]
     else ok_body ''The RE environment already exists (qs loads the profile at startup).''
       [(PStr ''task_uid'', PStr (fst (en_fresh env 0)))])"

definition environment_close :: "('r, 'd, pydict) sv_act" where
  "environment_close = get_state (\<lambda>s.
     if h_state (host_of s) \<in> {ENGINE_RUNNING, PAUSED}
     then fail_body ''A plan is running; the environment cannot be closed'' None []
     else fail_body ''Closing the RE environment is not supported: qs keeps the profile loaded for the life of the process''
       (Some UNSUPPORTED) [])"

definition environment_update :: pydict where
  "environment_update = fail_body ''Reloading the profile at runtime is not supported yet; restart the service''
     (Some UNSUPPORTED) [(PStr ''task_uid'', PNone)]"

subsection \<open>Status and configuration\<close>

definition ping :: "surroundings \<Rightarrow> pydict" where
  "ping env = ok_body (''qs v'' @ en_version env @ '' (bluesky-queueserver compatible)'') []"

definition config_get :: "('r, 'd, pydict) sv_act" where
  "config_get = get_state (\<lambda>s. ok_body [] [(PStr ''config'', PDict (sv_config s))])"

subsection \<open>Plans, devices, permissions\<close>

definition plans_body :: "string \<Rightarrow> (plan_factory \<Rightarrow> plan_view) \<Rightarrow> ('r, 'd, pydict) sv_act" where
  "plans_body key look = get_state (\<lambda>s. ok_body []
     [(PStr key, PDict (describe_plans look (reg_plans (sv_registry s)))),
      (PStr (key @ ''_uid''), PStr (st_registry_uid (sv_status s)))])"

definition plans_allowed :: "(plan_factory \<Rightarrow> plan_view) \<Rightarrow> ('r, 'd, pydict) sv_act" where
  "plans_allowed = plans_body ''plans_allowed''"

definition plans_existing :: "(plan_factory \<Rightarrow> plan_view) \<Rightarrow> ('r, 'd, pydict) sv_act" where
  "plans_existing = plans_body ''plans_existing''"

definition devices_body :: "string \<Rightarrow> (pyval \<Rightarrow> object_view) \<Rightarrow> ('r, 'd, pydict) sv_act" where
  "devices_body key look = get_state (\<lambda>s. ok_body []
     [(PStr key, PDict (describe_devices look (int (sv_device_max_depth s)) (reg_devices (sv_registry s)))),
      (PStr (key @ ''_uid''), PStr (st_registry_uid (sv_status s)))])"

definition devices_allowed :: "(pyval \<Rightarrow> object_view) \<Rightarrow> ('r, 'd, pydict) sv_act" where
  "devices_allowed = devices_body ''devices_allowed''"

definition devices_existing :: "(pyval \<Rightarrow> object_view) \<Rightarrow> ('r, 'd, pydict) sv_act" where
  "devices_existing = devices_body ''devices_existing''"

definition permissions_get :: pydict where
  "permissions_get =
     (let everything = PDict (map (\<lambda>k. (PStr k, PList [PNone]))
          [''allowed_plans'', ''forbidden_plans'', ''allowed_devices'', ''forbidden_devices''])
      in ok_body [] [(PStr ''user_group_permissions'',
           PDict [(PStr ''user_groups'', PDict [(PStr ''root'', everything), (PStr ''primary'', everything)])])])"

definition permissions_set :: pydict where
  "permissions_set = ok_body ''Permissions are accepted but not enforced: every plan and device is allowed in this version'' []"

definition permissions_reload :: pydict where
  "permissions_reload = ok_body ''Permissions are not enforced in this version; nothing to reload'' []"

subsection \<open>Tasks, lock, console, administration\<close>

definition LOCK_INFO :: pydict where
  "LOCK_INFO = [(PStr ''environment'', PBool False), (PStr ''queue'', PBool False), (PStr ''user'', PNone),
     (PStr ''note'', PNone), (PStr ''time'', PNone), (PStr ''time_str'', PStr []),
     (PStr ''emergency_lock_key_is_set'', PBool False)]"

definition task_status :: "surroundings \<Rightarrow> request \<Rightarrow> ('r, 'd, pydict) sv_act" where
  "task_status env rq =
     chain (payload_of_request env rq) (\<lambda>payload.
     let task_uid = dget ''task_uid'' payload in
     ret (if \<not> truthy task_uid
          then fail_body (''Payload must contain 'task_uid'' @ [CHR 0x27]) None [(PStr ''task_uid'', PNone), (PStr ''status'', PNone)]
          else ok_body [] [(PStr ''task_uid'', task_uid), (PStr ''status'', PStr ''completed'')]))"

definition task_result :: "surroundings \<Rightarrow> request \<Rightarrow> ('r, 'd, pydict) sv_act" where
  "task_result env rq =
     chain (payload_of_request env rq) (\<lambda>payload.
     let task_uid = dget ''task_uid'' payload in
     ret (if \<not> truthy task_uid
          then fail_body (''Payload must contain 'task_uid'' @ [CHR 0x27]) None
            [(PStr ''task_uid'', PNone), (PStr ''status'', PNone), (PStr ''result'', PNone)]
          else ok_body [] [(PStr ''task_uid'', task_uid), (PStr ''status'', PStr ''completed''),
            (PStr ''result'', PDict [(PStr ''success'', PBool True), (PStr ''msg'', PStr [])])]))"

definition lock :: pydict where
  "lock = fail_body
     ''Locking is not supported: exclusive control comes from the queue itself (every operation runs as a plan through one RunEngine)''
     (Some UNSUPPORTED) [(PStr ''lock_info'', PDict LOCK_INFO), (PStr ''lock_info_uid'', PStr [])]"

definition lock_info :: pydict where
  "lock_info = ok_body [] [(PStr ''lock_info'', PDict LOCK_INFO), (PStr ''lock_info_uid'', PStr [])]"

definition unlock :: pydict where
  "unlock = ok_body ''Nothing to unlock: this service has no lock''
     [(PStr ''lock_info'', PDict LOCK_INFO), (PStr ''lock_info_uid'', PStr [])]"

definition function_execute :: pydict where
  "function_execute = unsupported ''Executing arbitrary functions'' ''this service runs Bluesky plans only''"

definition script_upload :: pydict where
  "script_upload = unsupported ''Uploading scripts'' ''this service runs Bluesky plans only''"

definition kernel_interrupt :: pydict where
  "kernel_interrupt = unsupported ''Kernel interrupt'' ''there is no IPython kernel; the profile runs in-process''"

definition manager_kill :: pydict where
  "manager_kill = unsupported ''test/manager/kill'' ''test routes are not available''"

definition console_output :: "surroundings \<Rightarrow> request \<Rightarrow> ('r, 'd, pydict) sv_act" where
  "console_output env rq =
     chain (payload_of_request env rq) (\<lambda>payload.
     chain (lift_result (py_int (dget_or ''nlines'' (PInt 200) payload))) (\<lambda>nlines.
     get_state (\<lambda>s. ok_body [] [(PStr ''text'', PStr (console_text nlines (sv_console s)))])))"

definition console_output_uid :: "('r, 'd, pydict) sv_act" where
  "console_output_uid = get_state (\<lambda>s. ok_body [] [(PStr ''console_output_uid'', PStr (co_uid (sv_console s)))])"

definition console_output_update :: "surroundings \<Rightarrow> request \<Rightarrow> ('r, 'd, pydict) sv_act" where
  "console_output_update env rq =
     chain (payload_of_request env rq) (\<lambda>payload.
     get_state (\<lambda>s. let uid = PStr (co_uid (sv_console s)) in ok_body []
       [(PStr ''console_output_msgs'', dicts (if dget ''last_msg_uid'' payload \<noteq> uid then messages (sv_console s) else [])),
        (PStr ''last_msg_uid'', uid)]))"

text \<open>The shutdown itself is left to the callback, which the event loop calls a moment later.\<close>

definition manager_stop :: "surroundings \<Rightarrow> request \<Rightarrow> ('r, 'd, pydict) sv_act" where
  "manager_stop env rq =
     chain (payload_of_request env rq) (\<lambda>payload s.
     if uid_text env (dget_or ''option'' (PStr ''safe_on'') payload) = ''safe_on'' \<and>
        engine_state_str (h_state (host_of s)) \<in> {''running'', ''paused''}
     then (Inr (fail_body ''A plan is running; use option 'safe_off' to stop anyway (the running plan is left to finish)'' None []), s)
     else (Inr (ok_body ''Service is shutting down'' []),
           if sv_has_shutdown s then s\<lparr>sv_shutdowns := sv_shutdowns s + 1\<rparr> else s))"

text \<open>
  \<open>float(v)\<close>: what a text denotes is the parameter \<open>read\<close>, \<open>None\<close> when it is no number. A text may also
  denote an infinity or no number at all, so the result is wider than \<open>PFloat\<close>.
\<close>

datatype float_value = Finite rat | PlusInfinity | MinusInfinity | NotANumber

fun py_float :: "(string \<Rightarrow> float_value option) \<Rightarrow> pyval \<Rightarrow> exn + float_value" where
  "py_float read (PInt i) = Inr (Finite (of_int i))"
| "py_float read (PBool b) = Inr (Finite (if b then 1 else 0))"
| "py_float read (PFloat r) = Inr (Finite r)"
| "py_float read (PStr s) = (case read s of Some x \<Rightarrow> Inr x
     | None \<Rightarrow> Inl (Exn ValueError [Txt ''could not convert string to float: '', Rep (PStr s)]))"
| "py_float read v = Inl (Exn TypeError [Txt ''float() argument must be a string or a real number''])"

text \<open>\<open>min(x, 5.0)\<close>: the first argument stays unless the second is smaller, and nothing is smaller than NaN.\<close>

fun at_most :: "float_value \<Rightarrow> rat \<Rightarrow> float_value" where
  "at_most (Finite r) bound = Finite (if bound < r then bound else r)"
| "at_most PlusInfinity bound = Finite bound"
| "at_most MinusInfinity bound = MinusInfinity"
| "at_most NotANumber bound = NotANumber"

definition sleep_time :: "(string \<Rightarrow> float_value option) \<Rightarrow> pydict \<Rightarrow> exn + float_value" where
  "sleep_time read payload =
     (case py_float read (py_or (dget_or ''time'' (PInt 0) payload) (PInt 0)) of
        Inl e \<Rightarrow> Inl e | Inr x \<Rightarrow> Inr (at_most x 5))"

text \<open>\<open>sleep\<close> is how \<open>asyncio.sleep\<close> refuses a duration, if it does.\<close>

definition test_server_sleep ::
  "(string \<Rightarrow> float_value option) \<Rightarrow> (float_value \<Rightarrow> exn option) \<Rightarrow> surroundings \<Rightarrow> request \<Rightarrow> ('r, 'd, pydict) sv_act" where
  "test_server_sleep read sleep env rq =
     chain (payload_of_request env rq) (\<lambda>payload.
     chain (lift_result (sleep_time read payload)) (\<lambda>duration.
     case sleep duration of Some e \<Rightarrow> throw e | None \<Rightarrow> ret (ok_body [] [])))"

text \<open>
  The test route never keeps a client waiting for more than five seconds, whatever it asks for: a
  number is cut at five, an infinite one too, and what is no number is refused or goes on unchanged.
\<close>

theorem sleep_bounded:
  "case sleep_time read payload of
     Inr (Finite r) \<Rightarrow> r \<le> 5 | Inr PlusInfinity \<Rightarrow> False
   | Inl e \<Rightarrow> exn_class e \<in> {ValueError, TypeError} | _ \<Rightarrow> True"
proof -
  have "case py_float read v of Inl e \<Rightarrow> exn_class e \<in> {ValueError, TypeError} | Inr _ \<Rightarrow> True" for v
    by (cases v) (auto split: option.split)
  note f = this [of "py_or (dget_or ''time'' (PInt 0) payload) (PInt 0)"]
  show ?thesis
  proof (cases "py_float read (py_or (dget_or ''time'' (PInt 0) payload) (PInt 0))")
    case (Inl e)
    with f show ?thesis by (simp add: sleep_time_def)
  next
    case (Inr x)
    then show ?thesis by (cases x) (simp_all add: sleep_time_def)
  qed
qed

end
