(* ===== verification/DeviceRoutes.thy ===== *)
theory DeviceRoutes
  imports EngineRoutes
begin

section \<open>The device-definition routes (\<open>api/routers/qs_devices.py\<close>)\<close>

text \<open>
  The device service works on the registry that the rest of the program shares: \<open>via_devices\<close> hands it
  in and takes it back, and every call of \<open>on_change\<close> becomes a \<open>bump_registry\<close>. \<open>definitions\<close> is \<open>None\<close>
  where no database is configured. \<open>w\<close> is what Python finds when it imports and builds devices.
\<close>

definition no_definitions :: exn where
  "no_definitions = definition_error [Txt ''Device definitions are not enabled (no database configured)'']"

definition via_devices :: "surroundings \<Rightarrow> ('d, 'a) device_act \<Rightarrow> ('r, 'd, 'a) sv_act" where
  "via_devices env m = (\<lambda>s. case sv_definitions s of
       None \<Rightarrow> (Inl no_definitions, s)
     | Some r \<Rightarrow>
         (let (x, ds) = m \<lparr>ds_repo = r, ds_registry = sv_registry s, ds_changes = 0\<rparr>
          in (x, s\<lparr>sv_definitions := Some (ds_repo ds), sv_registry := ds_registry ds,
                   sv_status := (bump_registry env ^^ ds_changes ds) (sv_status s)\<rparr>)))"

text \<open>\<open>_svc\<close>: the service, or the error that there is none.\<close>

definition with_service :: "('r, 'd, unit) sv_act" where
  "with_service = (\<lambda>s. (if sv_definitions s = None then Inl no_definitions else Inr (), s))"

definition entry_of :: "(pyval \<Rightarrow> object_view) \<Rightarrow> device_definition \<Rightarrow> ('r, 'd) services \<Rightarrow> pydict" where
  "entry_of look d s =
     definition_to_dict d @
     (case map_of (reg_devices (sv_registry s)) (dd_name d) of
        Some entry \<Rightarrow>
          (if de_origin entry = Definition
           then [(PStr ''instantiated'', PBool True),
                 (PStr ''device'', PDict (describe_device look (sv_device_max_depth s) (de_device entry)))]
           else [(PStr ''instantiated'', PBool False)])
      | None \<Rightarrow> [(PStr ''instantiated'', PBool False)])"

definition definition_body :: "(pyval \<Rightarrow> object_view) \<Rightarrow> device_definition \<Rightarrow> ('r, 'd, pydict) sv_act" where
  "definition_body look d = get_state (\<lambda>s. ok_body [] [(PStr ''definition'', PDict (entry_of look d s))])"

definition is_definition_error :: "exn_class \<Rightarrow> bool" where
  "is_definition_error c \<longleftrightarrow> c = DeviceDefinitionError"

text \<open>\<open>except (DeviceDefinitionError, KeyError, TypeError, ValueError)\<close>.\<close>

definition bad_definition :: "exn_class \<Rightarrow> bool" where
  "bad_definition c \<longleftrightarrow> is_value_error c \<or> c = KeyError \<or> c = TypeError"

definition fail_text :: "surroundings \<Rightarrow> fstring \<Rightarrow> ('r, 'd, pydict) sv_act" where
  "fail_text env t = ret (fail_body (en_pr env t) None [])"

definition parse_definition :: "surroundings \<Rightarrow> pydict \<Rightarrow> exn + device_definition" where
  "parse_definition env payload = definition_from_dict (tx_fmt (en_tx env)) (en_now env) (en_now env) payload"

definition list_devices :: "'d definition_repository \<Rightarrow> surroundings \<Rightarrow> (pyval \<Rightarrow> object_view) \<Rightarrow> ('r, 'd, pydict) sv_act" where
  "list_devices defs env look = (\<lambda>s.
     if sv_definitions s = None
     then (Inr (fail_body (text_of_exn env no_definitions) None [(PStr ''definitions'', PList []), (PStr ''profile_devices'', PList [])]), s)
     else
       (let profile = sort (map fst (filter (\<lambda>(name, e). de_origin e = Profile) (reg_devices (sv_registry s)))) in
        chain (via_devices env (list_definitions defs)) (\<lambda>ds.
        get_state (\<lambda>s. ok_body [] [(PStr ''definitions'', dicts (map (\<lambda>d. entry_of look d s) ds)),
          (PStr ''profile_devices'', PList (map PStr profile))])) s))"

definition create_device ::
  "'d definition_repository \<Rightarrow> surroundings \<Rightarrow> (pyval \<Rightarrow> object_view) \<Rightarrow> device_world \<Rightarrow> request \<Rightarrow> ('r, 'd, pydict) sv_act" where
  "create_device defs env look w rq =
     chain (payload_of_request env rq) (\<lambda>payload.
     catching is_exception
       (chain with_service (\<lambda>_.
        chain (lift_result (parse_definition env payload)) (\<lambda>given.
        chain (via_devices env (create defs w given)) (\<lambda>d.
        chain (if truthy (dget_or ''instantiate'' (PBool True) payload) \<and> dd_enabled d
               then (\<lambda>s. chain (via_devices env (instantiate defs w (host_of s) (dd_name d))) (\<lambda>_. ret ()) s)
               else ret ()) (\<lambda>_.
        definition_body look d)))))
       (\<lambda>e. if bad_definition (exn_class e)
            then fail_text env (if is_definition_error (exn_class e) then exn_text e else typed_text e)
            else fail_text env ([Txt ''Device could not be created: ''] @ typed_text e)))"

definition get_device_route :: "'d definition_repository \<Rightarrow> surroundings \<Rightarrow> (pyval \<Rightarrow> object_view) \<Rightarrow> string \<Rightarrow> ('r, 'd, pydict) sv_act" where
  "get_device_route defs env look name =
     or_fail env is_definition_error
       (chain with_service (\<lambda>_. chain (via_devices env (get_definition defs name)) (definition_body look)))"

definition update_device ::
  "'d definition_repository \<Rightarrow> surroundings \<Rightarrow> (pyval \<Rightarrow> object_view) \<Rightarrow> device_world \<Rightarrow> string \<Rightarrow> request \<Rightarrow> ('r, 'd, pydict) sv_act" where
  "update_device defs env look w name rq =
     chain (payload_of_request env rq) (\<lambda>payload.
     let payload = AList.update (PStr ''name'') (PStr name) payload in
     catching is_exception
       (chain with_service (\<lambda>_.
        chain (via_devices env (get_state (is_instantiated name))) (\<lambda>was_live.
        chain (if was_live then via_devices env (remove_instance name) else ret ()) (\<lambda>_.
        chain (lift_result (parse_definition env payload)) (\<lambda>given.
        chain (via_devices env (update_definition defs w (en_now env) given)) (\<lambda>d.
        chain (if truthy (dget_or ''instantiate'' (PBool was_live) payload) \<and> dd_enabled d
               then (\<lambda>s. chain (via_devices env (instantiate defs w (host_of s) name)) (\<lambda>_. ret ()) s)
               else ret ()) (\<lambda>_.
        definition_body look d)))))))
       (\<lambda>e. if bad_definition (exn_class e) then ret (fail_from (en_pr env) e None)
            else fail_text env ([Txt ''Device could not be updated: ''] @ typed_text e)))"

definition delete_device :: "'d definition_repository \<Rightarrow> surroundings \<Rightarrow> string \<Rightarrow> ('r, 'd, pydict) sv_act" where
  "delete_device defs env name =
     or_fail env is_definition_error
       (chain with_service (\<lambda>_. ok_after (via_devices env (delete_definition defs name))))"

definition instantiate_device ::
  "'d definition_repository \<Rightarrow> surroundings \<Rightarrow> (pyval \<Rightarrow> object_view) \<Rightarrow> device_world \<Rightarrow> string \<Rightarrow> ('r, 'd, pydict) sv_act" where
  "instantiate_device defs env look w name =
     catching is_exception
       (chain with_service (\<lambda>_.
        chain (\<lambda>s. via_devices env (instantiate defs w (host_of s) name) s) (\<lambda>_.
        chain (via_devices env (get_definition defs name)) (definition_body look))))
       (\<lambda>e. if is_definition_error (exn_class e) then ret (fail_from (en_pr env) e None)
            else fail_text env ([Txt ''Device could not be instantiated: ''] @ typed_text e))"

definition remove_device_instance ::
  "'d definition_repository \<Rightarrow> surroundings \<Rightarrow> (pyval \<Rightarrow> object_view) \<Rightarrow> string \<Rightarrow> ('r, 'd, pydict) sv_act" where
  "remove_device_instance defs env look name =
     or_fail env is_definition_error
       (chain with_service (\<lambda>_.
        chain (via_devices env (remove_instance name)) (\<lambda>_.
        chain (via_devices env (get_definition defs name)) (definition_body look))))"

end
