(* ===== verification/StatusProperties.thy ===== *)
theory StatusProperties
  imports StatusReport SequencerControl
begin

section \<open>Properties of the status document\<close>

lemma dget_Cons: "dget k ((PStr k', v) # d) = (if k' = k then v else dget k d)"
  by (simp add: dget_def)

lemma dget_status_doc:
  "dget ''items_in_queue'' (status_doc env md pg s) = PInt (int (fst (st_last_counts (sv_status s))))"
  "dget ''items_in_history'' (status_doc env md pg s) =
     PInt (int (snd (st_last_counts (sv_status s)) + length (sq_pending_history (sv_seq s))))"
  "dget ''qs'' (status_doc env md pg s) = PDict (status_qs env md pg s)"
  by (cases "st_last_counts (sv_status s)"; simp only: status_doc_def Let_def prod.case fst_conv snd_conv;
      simp add: dget_Cons)+

lemma dget_status_qs:
  "dget ''database_ok'' (status_qs env md pg s) =
     PBool (st_database_error (sv_status s) = None \<and> sq_database_error (sv_seq s) = None)"
  by (simp only: status_qs_def Let_def; simp add: dget_Cons)

text \<open>
  The status answers while the database is down, with the last known counts and an honest flag;
  and the stall alarm, which is computed poll by poll from one remembered time, says what a look at
  the whole series of polls would say.
\<close>

subsection \<open>Reading the queue\<close>

context repository
begin

lemma queue_len_cases:
  assumes "valid (qs_repo q)"
  shows "valid (qs_repo (snd (queue_len ops q)))" "absq (qs_repo (snd (queue_len ops q))) = absq (qs_repo q)"
    "up (qs_repo q) \<Longrightarrow> up (qs_repo (snd (queue_len ops q)))"
    "fst (queue_len ops q) = Inr (length (q_items (absq (qs_repo q)))) \<or> \<not> up (qs_repo q) \<and> (\<exists>e. fst (queue_len ops q) = Inl e)"
proof -
  let ?r = "qs_repo q" and ?m = "rp_list_items ops (qs_repo q)"
  have m: "valid (snd ?m) \<and> absq (snd ?m) = absq ?r \<and> (up ?r \<longrightarrow> up (snd ?m)) \<and>
      (fst ?m = Inr (q_items (absq ?r)) \<or> \<not> up ?r \<and> (\<exists>e. fst ?m = Inl e))"
    using list_items_law assms by (auto simp: implements_def spec_list_items_def act_simps)
  then show "valid (qs_repo (snd (queue_len ops q)))" "absq (qs_repo (snd (queue_len ops q))) = absq ?r"
    "up ?r \<Longrightarrow> up (qs_repo (snd (queue_len ops q)))"
    "fst (queue_len ops q) = Inr (length (q_items (absq ?r))) \<or> \<not> up ?r \<and> (\<exists>e. fst (queue_len ops q) = Inl e)"
    by (cases "fst ?m"; simp add: queue_len_def act_simps)+
qed

lemma history_cases:
  assumes "valid (qs_repo q)"
  shows "valid (qs_repo (snd (history ops q)))" "absq (qs_repo (snd (history ops q))) = absq (qs_repo q)"
    "up (qs_repo q) \<Longrightarrow> up (qs_repo (snd (history ops q)))"
    "fst (history ops q) = Inr (q_history (absq (qs_repo q))) \<or> \<not> up (qs_repo q) \<and> (\<exists>e. fst (history ops q) = Inl e)"
proof -
  let ?r = "qs_repo q" and ?m = "rp_list_history ops (qs_repo q)"
  have m: "valid (snd ?m) \<and> absq (snd ?m) = absq ?r \<and> (up ?r \<longrightarrow> up (snd ?m)) \<and>
      (fst ?m = Inr (q_history (absq ?r)) \<or> \<not> up ?r \<and> (\<exists>e. fst ?m = Inl e))"
    using list_history_law assms by (auto simp: implements_def spec_list_history_def act_simps)
  then show "valid (qs_repo (snd (history ops q)))" "absq (qs_repo (snd (history ops q))) = absq ?r"
    "up ?r \<Longrightarrow> up (qs_repo (snd (history ops q)))"
    "fst (history ops q) = Inr (q_history (absq ?r)) \<or> \<not> up ?r \<and> (\<exists>e. fst (history ops q) = Inl e)"
    by (simp_all add: history_def act_simps)
qed

end

lemma item_state_of_error: "item_state_of s = Inl e \<Longrightarrow> is_exception (exn_class e)"
  by (auto simp: item_state_of_def split: list.splits)

lemma map_fallible_error: "map_fallible f xs = Inl e \<Longrightarrow> \<exists>x \<in> set xs. f x = Inl e"
  by (induction xs) (auto split: sum.splits)

lemma ordinary_history: "ordinary (history SqlQueueRepository)"
  unfolding history_def SqlQueueRepository_def queue_repository.simps sql_list_history_def
  by (rule ordinary_repo_session)
    (auto dest!: map_fallible_error simp: row_to_entry_def Let_def split: sum.splits dest: item_state_of_error)

lemma ordinary_len: "ordinary (queue_len SqlQueueRepository)"
  unfolding queue_len_def by (intro ordinary_rules)

lemma queue_field_eq [simp]: "sq_queue (s\<lparr>sq_queue := q\<rparr>) = q" by simp

lemma via_queue_eq [act_simps]:
  "via_queue m s = (fst (m (sq_queue (sv_seq s))), s\<lparr>sv_seq := (sv_seq s)\<lparr>sq_queue := snd (m (sq_queue (sv_seq s)))\<rparr>\<rparr>)"
  by (simp add: via_queue_def via_sequencer_def on_queue_def act_simps)

text \<open>What the document is built from is as it was, but for the counts.\<close>

definition same_but_counts :: "(database, 'z) reporting_scheme \<Rightarrow> (database, 'z) reporting_scheme \<Rightarrow> bool" where
  "same_but_counts s s' \<longleftrightarrow>
     host_of s' = host_of s \<and> sq_database_error (sv_seq s') = sq_database_error (sv_seq s) \<and>
     sq_pending_history (sv_seq s') = sq_pending_history (sv_seq s) \<and>
     sql_queue (sq_queue (sv_seq s')) = sql_queue (sq_queue (sv_seq s)) \<and>
     sql_history (sq_queue (sv_seq s')) = sql_history (sq_queue (sv_seq s))"

lemma refresh_counts_cases:
  assumes "sql_valid (qs_repo (sq_queue (sv_seq s)))" "ordinary_faults (qs_repo (sq_queue (sv_seq s)))"
  obtains s' where "refresh_counts SqlQueueRepository s = (Inr (), s')" "same_but_counts s s'"
    "st_database_error (sv_status s') = None \<and>
       st_last_counts (sv_status s') =
         (length (sql_queue (sq_queue (sv_seq s))), length (sql_history (sq_queue (sv_seq s)))) \<or>
     \<not> db_up (qs_repo (sq_queue (sv_seq s))) \<and> st_database_error (sv_status s') \<noteq> None \<and>
       st_last_counts (sv_status s') = st_last_counts (sv_status s)"
proof -
  let ?q = "sq_queue (sv_seq s)"
  let ?q1 = "snd (queue_len SqlQueueRepository ?q)"
  let ?q2 = "snd (history SqlQueueRepository ?q1)"
  note l = sql.queue_len_cases [OF assms(1)] and h = sql.history_cases [of ?q1, OF sql.queue_len_cases(1) [OF assms(1)]]
  have o1: "fst (queue_len SqlQueueRepository ?q) = Inl e \<Longrightarrow> is_exception (exn_class e)" for e
    using ordinary_len assms(2) by (simp add: ordinary_def)
  have o2: "ordinary_faults (qs_repo ?q1)" using ordinary_len assms(2) by (simp add: ordinary_def)
  then have o3: "fst (history SqlQueueRepository ?q1) = Inl e \<Longrightarrow> is_exception (exn_class e)" for e
    using ordinary_history by (simp add: ordinary_def)
  have same: "sql_queue ?q1 = sql_queue ?q" "sql_history ?q1 = sql_history ?q" "sql_queue ?q2 = sql_queue ?q"
    "sql_history ?q2 = sql_history ?q"
    using l(2) h(2) by (simp_all add: sql_queue_def sql_history_def del: sql_abs_service)
  consider (both) "fst (queue_len SqlQueueRepository ?q) = Inr (length (sql_queue ?q))"
      "fst (history SqlQueueRepository ?q1) = Inr (sql_history ?q)"
    | (first) e where "\<not> db_up (qs_repo ?q)" "fst (queue_len SqlQueueRepository ?q) = Inl e"
    | (second) e where "\<not> db_up (qs_repo ?q)" "fst (queue_len SqlQueueRepository ?q) = Inr (length (sql_queue ?q))"
      "fst (history SqlQueueRepository ?q1) = Inl e"
    using l(3,4) h(4) same(2) by auto
  then show ?thesis
  proof cases
    case both
    then show ?thesis
      by (intro that [of "s\<lparr>sv_seq := (sv_seq s)\<lparr>sq_queue := ?q2\<rparr>, sv_status := (sv_status s)\<lparr>st_last_counts :=
          (length (sql_queue ?q), length (sql_history ?q)), st_database_error := None\<rparr>\<rparr>"])
        (use same in \<open>auto simp: refresh_counts_def act_simps same_but_counts_def\<close>)
  next
    case first
    then show ?thesis using o1
      by (intro that [of "s\<lparr>sv_seq := (sv_seq s)\<lparr>sq_queue := ?q1\<rparr>, sv_status := (sv_status s)\<lparr>
          st_database_error := Some (typed_text e)\<rparr>\<rparr>"])
        (use same in \<open>auto simp: refresh_counts_def act_simps same_but_counts_def\<close>)
  next
    case second
    then show ?thesis using o3
      by (intro that [of "s\<lparr>sv_seq := (sv_seq s)\<lparr>sq_queue := ?q2\<rparr>, sv_status := (sv_status s)\<lparr>
          st_database_error := Some (typed_text e)\<rparr>\<rparr>"])
        (use same in \<open>auto simp: refresh_counts_def act_simps same_but_counts_def\<close>)
  qed
qed

text \<open>
  C25: the status answers whatever the database does, and does not touch the queue: with the counts of
  the tables, or, only if the database failed, with the counts of its last answer; the flag
  \<open>database_ok\<close> says which, together with what the sequencer knows.
\<close>

theorem status_survives_database:
  assumes "sql_valid (qs_repo (sq_queue (sv_seq s)))" "ordinary_faults (qs_repo (sq_queue (sv_seq s)))"
    and "experiment_metadata (en_tx env) (en_pr env) (host_of s) = Inr md"
  shows "\<exists>d s'. snapshot SqlQueueRepository env s = (Inr d, s') \<and>
    sql_queue (sq_queue (sv_seq s')) = sql_queue (sq_queue (sv_seq s)) \<and>
    sql_history (sq_queue (sv_seq s')) = sql_history (sq_queue (sv_seq s)) \<and>
    dget ''items_in_queue'' d = PInt (int (fst (st_last_counts (sv_status s')))) \<and>
    dget ''items_in_history'' d =
      PInt (int (snd (st_last_counts (sv_status s')) + length (sq_pending_history (sv_seq s)))) \<and>
    dget ''database_ok'' (as_dict (dget ''qs'' d)) =
      PBool (st_database_error (sv_status s') = None \<and> sq_database_error (sv_seq s) = None) \<and>
    (if st_database_error (sv_status s') = None
     then st_last_counts (sv_status s') =
       (length (sql_queue (sq_queue (sv_seq s))), length (sql_history (sq_queue (sv_seq s))))
     else st_last_counts (sv_status s') = st_last_counts (sv_status s) \<and> \<not> db_up (qs_repo (sq_queue (sv_seq s))))"
proof -
  obtain s1 where r: "refresh_counts SqlQueueRepository s = (Inr (), s1)" and same: "same_but_counts s s1"
    and c: "st_database_error (sv_status s1) = None \<and>
       st_last_counts (sv_status s1) =
         (length (sql_queue (sq_queue (sv_seq s))), length (sql_history (sq_queue (sv_seq s)))) \<or>
     \<not> db_up (qs_repo (sq_queue (sv_seq s))) \<and> st_database_error (sv_status s1) \<noteq> None \<and>
       st_last_counts (sv_status s1) = st_last_counts (sv_status s)"
    using refresh_counts_cases [OF assms(1,2)] .
  have seq: "sq_host (sv_seq s1) = host_of s" "sq_database_error (sv_seq s1) = sq_database_error (sv_seq s)"
    "sq_pending_history (sv_seq s1) = sq_pending_history (sv_seq s)"
    "sql_queue (sq_queue (sv_seq s1)) = sql_queue (sq_queue (sv_seq s))"
    "sql_history (sq_queue (sv_seq s1)) = sql_history (sq_queue (sv_seq s))"
    using same by (simp_all add: same_but_counts_def)
  obtain progress st where p: "progress_and_stall env (host_of s1) (sv_status s1) = (progress, st)" by force
  have st: "st_last_counts st = st_last_counts (sv_status s1)" "st_database_error st = st_database_error (sv_status s1)"
    using p by (auto simp: progress_and_stall_def watch_progress_def Let_def split: prod.splits if_splits)
  let ?s' = "s1\<lparr>sv_status := st\<rparr>"
  have snap: "snapshot SqlQueueRepository env s = (Inr (status_doc env md progress ?s'), ?s')"
    using r p assms(3) seq(1) by (simp add: snapshot_def act_simps Let_def)
  have doc: "dget ''items_in_queue'' (status_doc env md progress ?s') = PInt (int (fst (st_last_counts st)))"
    "dget ''items_in_history'' (status_doc env md progress ?s') =
       PInt (int (snd (st_last_counts st) + length (sq_pending_history (sv_seq s))))"
    "dget ''database_ok'' (as_dict (dget ''qs'' (status_doc env md progress ?s'))) =
       PBool (st_database_error st = None \<and> sq_database_error (sv_seq s) = None)"
    using seq(2,3) by (simp_all add: dget_status_doc dget_status_qs)
  show ?thesis
    using snap doc seq(4,5) st c by (intro exI [of _ "status_doc env md progress ?s'"] exI [of _ ?s']) auto
qed

definition example_surroundings :: surroundings where
  "example_surroundings = \<lparr>en_tx = example_texts, en_pr = (\<lambda>t. ''text''), en_uid = (\<lambda>vs. ''uid''), en_version = ''0.1'',
     en_callbacks = None, en_now = 100, en_loads = (\<lambda>s. Inr PNone), en_fresh = (\<lambda>i. (replicate (i + 1) CHR ''x'', 0))\<rparr>"

definition example_reporting :: "database reporting" where
  "example_reporting = \<lparr>sv_seq = Sequencer_init example_service example_host False,
     sv_status = StatusReporter_init example_surroundings 300\<rparr>"

lemma example_metadata: "experiment_metadata example_texts pr example_host = Inr [(PStr ''data_session'', PStr ''pass-1'')]"
  by (simp add: experiment_metadata_def example_host_def example_engine_def EXPERIMENT_KEYS_def dget_def)

theorem status_survives_database_witness:
  "\<exists>d s'. snapshot SqlQueueRepository example_surroundings example_reporting = (Inr d, s') \<and>
     dget ''items_in_queue'' d = PInt 2"
proof -
  have q: "sq_queue (sv_seq example_reporting) = example_service" "host_of example_reporting = example_host"
    by (simp_all add: example_reporting_def Sequencer_init_def)
  have f: "db_up (qs_repo example_service)" "ordinary_faults (qs_repo example_service)"
    by (simp_all add: example_service_def ordinary_faults_def db_up_def)
  have v: "sql_valid (qs_repo example_service)" using example_ready by (simp only: sql_ready_def)
  have m: "experiment_metadata (en_tx example_surroundings) (en_pr example_surroundings) (host_of example_reporting) =
      Inr [(PStr ''data_session'', PStr ''pass-1'')]"
    by (simp add: q example_surroundings_def example_metadata)
  have "\<exists>d s'. snapshot SqlQueueRepository example_surroundings example_reporting = (Inr d, s') \<and>
     dget ''items_in_queue'' d = PInt (int (length (sql_queue example_service)))"
    using status_survives_database [of example_reporting example_surroundings, unfolded q, OF v f(2) m [unfolded q]] f(1)
    by (auto split: if_splits)
  then show ?thesis by simp
qed

subsection \<open>The stall alarm\<close>

text \<open>A poll: the clock, whether a plan is running, the number of events collected so far.\<close>

type_synonym poll = "rat \<times> bool \<times> int"

fun watch_all :: "poll list \<Rightarrow> reporter \<Rightarrow> bool list \<times> reporter" where
  "watch_all [] st = ([], st)"
| "watch_all ((now, running, n) # ps) st =
     (let ((_, stalled), st) = watch_progress now running n st; (alarms, st) = watch_all ps st in (stalled # alarms, st))"

text \<open>
  The reference: the polls at which the plan was not running or its count had moved, and the time
  since the latest of them.
\<close>

definition moved_at :: "int \<Rightarrow> poll list \<Rightarrow> nat \<Rightarrow> bool" where
  "moved_at n0 ps i \<longleftrightarrow> \<not> fst (snd (ps ! i)) \<or> snd (snd (ps ! i)) \<noteq> (if i = 0 then n0 else snd (snd (ps ! (i - 1))))"

definition last_movement :: "rat \<Rightarrow> int \<Rightarrow> poll list \<Rightarrow> rat" where
  "last_movement t0 n0 ps = last (t0 # map (\<lambda>i. fst (ps ! i)) (filter (moved_at n0 ps) [0..<length ps]))"

definition stalled_by :: "rat \<Rightarrow> rat \<Rightarrow> int \<Rightarrow> poll list \<Rightarrow> bool" where
  "stalled_by limit t0 n0 ps \<longleftrightarrow> fst (snd (last ps)) \<and> limit \<le> fst (last ps) - last_movement t0 n0 ps"

lemma watch_all_append:
  "watch_all (ps @ qs) st = (fst (watch_all ps st) @ fst (watch_all qs (snd (watch_all ps st))), snd (watch_all qs (snd (watch_all ps st))))"
proof (induction ps arbitrary: st)
  case (Cons p ps)
  then show ?case by (cases p) (simp add: Let_def case_prod_beta)
qed simp

lemma last_movement_snoc:
  "last_movement t0 n0 (ps @ [p]) = (if moved_at n0 (ps @ [p]) (length ps) then fst p else last_movement t0 n0 ps)"
proof -
  have "filter (moved_at n0 (ps @ [p])) [0..<length ps] = filter (moved_at n0 ps) [0..<length ps]"
    by (rule filter_cong) (auto simp: moved_at_def nth_append)
  moreover have "map (\<lambda>i. fst ((ps @ [p]) ! i)) (filter (moved_at n0 ps) [0..<length ps]) =
      map (\<lambda>i. fst (ps ! i)) (filter (moved_at n0 ps) [0..<length ps])"
    by (auto simp: nth_append)
  ultimately show ?thesis by (simp add: last_movement_def del: map_eq_conv)
qed

lemma watch_all_state:
  "st_last_progress_at (snd (watch_all ps st)) = last_movement (st_last_progress_at st) (st_last_collected st) ps \<and>
   st_last_collected (snd (watch_all ps st)) = (if ps = [] then st_last_collected st else snd (snd (last ps))) \<and>
   st_stall_after (snd (watch_all ps st)) = st_stall_after st"
proof (induction ps rule: rev_induct)
  case Nil
  then show ?case by (simp add: last_movement_def)
next
  case (snoc p ps)
  obtain now running n where p: "p = (now, running, n)" by (cases p)
  have m: "moved_at (st_last_collected st) (ps @ [p]) (length ps) \<longleftrightarrow>
      \<not> running \<or> n \<noteq> st_last_collected (snd (watch_all ps st))"
    using snoc by (cases ps rule: rev_cases) (auto simp: moved_at_def p nth_append)
  show ?case
    unfolding last_movement_snoc m watch_all_append
    using snoc by (auto simp: p watch_progress_def Let_def)
qed

text \<open>
  C26: the alarm of a poll, computed from the reporter's three remembered values, is that of the whole
  series: it rings exactly while a plan is running and its count has not moved for \<open>stall_after\<close>.
\<close>

theorem stall_alarm_exact:
  "ps \<noteq> [] \<Longrightarrow> last (fst (watch_all ps st)) =
     stalled_by (st_stall_after st) (st_last_progress_at st) (st_last_collected st) ps"
proof (cases ps rule: rev_cases)
  case (snoc qs p)
  obtain now running n where p: "p = (now, running, n)" by (cases p)
  have m: "moved_at (st_last_collected st) (qs @ [p]) (length qs) \<longleftrightarrow>
      \<not> running \<or> n \<noteq> st_last_collected (snd (watch_all qs st))"
    using watch_all_state [of qs st] by (cases qs rule: rev_cases) (auto simp: moved_at_def p nth_append)
  show ?thesis
    unfolding snoc stalled_by_def last_movement_snoc m watch_all_append
    using watch_all_state [of qs st] by (auto simp: p watch_progress_def Let_def)
qed simp

theorem stall_alarm_exact_witness:
  "last (fst (watch_all [(110, True, 4), (200, True, 4), (420, True, 4)] (StatusReporter_init example_surroundings 300)))"
  using stall_alarm_exact [of "[(110, True, 4), (200, True, 4), (420, True, 4)]" "StatusReporter_init example_surroundings 300"]
  by (simp add: stalled_by_def last_movement_def moved_at_def StatusReporter_init_def example_surroundings_def upt_rec)

end
