(* ===== verification/BatchMove.thy ===== *)
theory BatchMove
  imports QueueRoutes StatusProperties
begin

section \<open>Moving several items with one request\<close>

text \<open>
  \<open>/queue/item/move/batch\<close> is not one call of the service but one per item. When every call
  succeeds the named items end up next to each other, in the order of the request, where the first of
  them was sent; when one fails, the moves before it stay done.
\<close>

subsection \<open>The list\<close>

definition others :: "string list \<Rightarrow> queue_item list \<Rightarrow> queue_item list" where
  "others us xs = filter (\<lambda>x. item_uid x \<notin> set us) xs"

definition named :: "string list \<Rightarrow> queue_item list \<Rightarrow> queue_item list" where
  "named us xs = map (\<lambda>u. the (find_item u xs)) us"

lemma others_simps [simp]:
  "others us [] = []" "others [] xs = xs" "others us (xs @ ys) = others us xs @ others us ys"
  "others us (x # xs) = (if item_uid x \<in> set us then others us xs else x # others us xs)"
  by (simp_all add: others_def)

lemma others_Cons_uid: "others (u # us) xs = others us (without u xs)"
  by (simp add: others_def without_def)

lemma without_append: "without u (xs @ ys) = without u xs @ without u ys"
  by (simp add: without_def)

lemma find_item_without: "u \<noteq> v \<Longrightarrow> find_item u (without v xs) = find_item u xs"
  by (induction xs) (auto simp: find_item_def)

lemma find_item_append: "find_item u (xs @ ys) = (case find_item u xs of Some x \<Rightarrow> Some x | None \<Rightarrow> find_item u ys)"
  by (induction xs) (auto simp: find_item_def)

lemma find_item_skip: "item_uid p \<noteq> u \<Longrightarrow> find_item u (A @ p # B) = find_item u (A @ B)"
  by (induction A) (auto simp: find_item_def)

lemma notin_without: "u \<notin> set (uids (without u xs))"
  by (auto simp: without_def)

text \<open>One step: the item goes right behind its predecessor.\<close>

lemma position_behind:
  assumes "distinct (uids (A @ p # B))"
  shows "spec_position (A @ p # B) PNone PNone (PStr (item_uid p)) = Inr (Suc (length A))"
proof -
  have "find_pos (\<lambda>x. item_uid x = item_uid p) (insert_at (length A) p (A @ B)) = Some (length A)"
    using assms by (intro find_pos_insert_at) (auto simp: image_iff)
  then show ?thesis by (simp add: spec_position_def position_of_PStr insert_at_def)
qed

lemma move_one_behind:
  assumes "queue_of s = A @ p # B" "distinct (uids (queue_of s))" "u \<noteq> item_uid p" "find_item u (A @ B) = Some it"
  shows "move (SpecRepository keep) u PNone PNone (PStr (item_uid p)) s =
    (Inr (Suc (length (without u A))), bumped (with_queue (without u A @ p # it # without u B) s))"
proof -
  have w: "without u (queue_of s) = without u A @ p # without u B" using assms(1,3) by (auto simp: without_append)
  have d: "distinct (uids (without u A @ p # without u B))" using distinct_without [OF assms(2), of u] w by simp
  have f: "find_item u (queue_of s) = Some it"
    using assms(1,3,4) find_item_skip [of p u A B] by simp
  show ?thesis
    by (subst move_spec) (use assms(2,3) f w position_behind [OF d] in \<open>simp_all add: insert_at_def\<close>)
qed

lemma others_skip: "item_uid p \<notin> set us \<Longrightarrow> others us (A @ [p]) = others us A @ [p]"
  by simp

lemma move_behind_spec:
  assumes "queue_of s = A @ p # B" "distinct (uids (queue_of s))" "distinct us" "item_uid p \<notin> set us"
    and "set us \<subseteq> set (uids (A @ B))"
  shows "fst (move_behind (SpecRepository keep) (item_uid p) us s) = Inr () \<and>
    queue_of (snd (move_behind (SpecRepository keep) (item_uid p) us s)) =
      others us A @ p # named us (A @ B) @ others us B"
  using assms
proof (induction us arbitrary: s A p B)
  case Nil
  then show ?case by (simp add: act_simps named_def)
next
  case (Cons u us)
  from Cons.prems have u: "u \<in> set (uids (A @ B))" "u \<noteq> item_uid p" "u \<notin> set us" by auto
  then obtain it where it: "find_item u (A @ B) = Some it"
    using find_item_None [of u "A @ B"] by (cases "find_item u (A @ B)") auto
  have uid: "item_uid it = u" using find_item_Some [OF it] by simp
  let ?s = "bumped (with_queue (without u A @ p # it # without u B) s)"
  have q: "queue_of ?s = (without u A @ [p]) @ it # without u B" by simp
  have "distinct (uids (without u A @ p # without u B))"
    using distinct_without [OF Cons.prems(2), of u] Cons.prems(1) u(2) by (simp add: without_append)
  moreover have "u \<notin> set (uids (without u A @ p # without u B))"
    using u(2) notin_without [of u A] notin_without [of u B] by auto
  ultimately have d: "distinct (uids (queue_of ?s))" using uid by auto
  have rest: "set us \<subseteq> set (uids ((without u A @ [p]) @ without u B))"
  proof
    fix v assume v: "v \<in> set us"
    with Cons.prems(5) u(3) have "v \<in> set (uids A) \<union> set (uids B)" "v \<noteq> u" by auto
    then have "v \<in> set (uids (without u A)) \<union> set (uids (without u B))" by (simp only: set_uids_without) blast
    then show "v \<in> set (uids ((without u A @ [p]) @ without u B))" by auto
  qed
  have "\<And>v. v \<in> set us \<Longrightarrow> find_item v ((without u A @ [p]) @ without u B) = find_item v (A @ B)"
  proof -
    fix v assume v: "v \<in> set us"
    then have "v \<noteq> u" "item_uid p \<noteq> v" using u(3) Cons.prems(4) by auto
    then show "find_item v ((without u A @ [p]) @ without u B) = find_item v (A @ B)"
      using find_item_skip [of p v "without u A" "without u B"] by (simp add: find_item_append find_item_without split: option.split)
  qed
  then have n: "named us ((without u A @ [p]) @ without u B) = named us (A @ B)" by (simp add: named_def)
  have "fst (move_behind (SpecRepository keep) (item_uid it) us ?s) = Inr () \<and>
    queue_of (snd (move_behind (SpecRepository keep) (item_uid it) us ?s)) =
      others us (without u A @ [p]) @ it # named us ((without u A @ [p]) @ without u B) @ others us (without u B)"
    by (rule Cons.IH [OF q d]) (use Cons.prems(3) u(3) uid rest in auto)
  then show ?case
    using move_one_behind [OF Cons.prems(1,2) u(2) it, of keep] uid n it Cons.prems(4)
    by (simp add: act_simps named_def others_Cons_uid)
qed

lemma move_behind_append:
  "move_behind ops p (vs @ ws) = chain (move_behind ops p vs) (\<lambda>_. move_behind ops (last (p # vs)) ws)"
proof (induction vs arbitrary: p)
  case Nil
  then show ?case by (auto simp: act_simps fun_eq_iff)
next
  case (Cons v vs)
  then show ?case by (auto simp: act_simps fun_eq_iff split: sum.split)
qed

text \<open>Where the batch ends up, given where its first item goes.\<close>

definition batch_moved :: "string list \<Rightarrow> nat \<Rightarrow> queue_item list \<Rightarrow> queue_item list" where
  "batch_moved us i q =
     (let rest = without (hd us) q
      in others us (take i rest) @ named us q @ others us (drop i rest))"

lemma move_all_spec:
  assumes "us \<noteq> []" "distinct us" "set us \<subseteq> set (uids (queue_of s))" "distinct (uids (queue_of s))"
    and "b \<noteq> PStr (hd us)" "a \<noteq> PStr (hd us)" "spec_position (without (hd us) (queue_of s)) pos b a = Inr i"
  shows "fst (move_all (SpecRepository keep) us pos b a s) = Inr () \<and>
    queue_of (snd (move_all (SpecRepository keep) us pos b a s)) = batch_moved us i (queue_of s)"
proof -
  obtain u ws where us: "us = u # ws" using assms(1) by (cases us) auto
  obtain it where it: "find_item u (queue_of s) = Some it"
    using assms(3) find_item_None [of u "queue_of s"] us by (cases "find_item u (queue_of s)") auto
  have uid: "item_uid it = u" using find_item_Some [OF it] by simp
  let ?r = "without u (queue_of s)"
  let ?s = "bumped (with_queue (insert_at i it ?r) s)"
  have first: "move (SpecRepository keep) u pos b a s = (Inr i, ?s)"
    by (subst move_spec) (use assms it us in simp_all)
  have q: "queue_of ?s = take i ?r @ it # drop i ?r" by (simp add: insert_at_def)
  have gone: "u \<notin> set (uids ?r)" by (rule notin_without)
  have d: "distinct (uids (queue_of ?s))"
    using assms(4) gone uid by (simp add: map_insert_at distinct_insert_at del: set_map)
  have sub: "set ws \<subseteq> set (uids (take i ?r @ drop i ?r))"
    using assms(2,3) us by (simp only: append_take_drop_id set_uids_without) auto
  have "fst (move_behind (SpecRepository keep) (item_uid it) ws ?s) = Inr () \<and>
    queue_of (snd (move_behind (SpecRepository keep) (item_uid it) ws ?s)) =
      others ws (take i ?r) @ it # named ws (take i ?r @ drop i ?r) @ others ws (drop i ?r)"
    by (rule move_behind_spec [OF q d]) (use assms(2) us uid sub in auto)
  moreover have "named ws (take i ?r @ drop i ?r) = named ws (queue_of s)"
    using assms(2) us by (simp only: append_take_drop_id named_def) (auto intro!: arg_cong [where f = the] find_item_without)
  moreover have "others ws (take i ?r) = others us (take i ?r)" "others ws (drop i ?r) = others us (drop i ?r)"
    using gone us by (auto simp: others_def dest!: in_set_takeD in_set_dropD intro!: filter_cong)
  ultimately show ?thesis
    using first it uid us by (simp add: move_all_def act_simps batch_moved_def named_def Let_def)
qed

subsection \<open>Nothing is lost\<close>

lemma mset_others_named:
  "distinct (uids q) \<Longrightarrow> distinct us \<Longrightarrow> set us \<subseteq> set (uids q) \<Longrightarrow> mset (others us q) + mset (named us q) = mset q"
proof (induction us arbitrary: q)
  case Nil
  then show ?case by (simp add: named_def)
next
  case (Cons u us)
  then obtain it where it: "find_item u q = Some it"
    using find_item_None [of u q] by (cases "find_item u q") auto
  have sub: "set us \<subseteq> set (uids (without u q))" using Cons.prems(2,3) by (simp only: set_uids_without) auto
  have "named us (without u q) = named us q"
    using Cons.prems(2) by (auto simp: named_def intro!: arg_cong [where f = the] find_item_without)
  with Cons.IH [of "without u q"] Cons.prems(1,2) sub mset_without [OF Cons.prems(1) it] it show ?case
    by (simp add: others_Cons_uid) (simp add: named_def)
qed

lemma mset_batch_moved:
  assumes "distinct (uids q)" "us \<noteq> []" "distinct us" "set us \<subseteq> set (uids q)"
  shows "mset (batch_moved us i q) = mset q"
proof -
  have "others us (take i (without (hd us) q)) @ others us (drop i (without (hd us) q)) = others us (without (hd us) q)"
    by (simp flip: others_simps(3) del: others_simps(3))
  then have "mset (others us (take i (without (hd us) q))) + mset (others us (drop i (without (hd us) q))) =
      mset (others us (without (hd us) q))" by (metis mset_append)
  also have "others us (without (hd us) q) = others us q"
    using assms(2) by (auto simp: others_def without_def intro!: filter_cong)
  finally show ?thesis
    using mset_others_named [OF assms(1,3,4)] by (simp add: batch_moved_def Let_def ac_simps)
qed

lemma find_item_perm: "distinct (uids p) \<Longrightarrow> mset p = mset q \<Longrightarrow> find_item u p = find_item u q"
proof -
  assume d: "distinct (uids p)" and m: "mset p = mset q"
  then have dq: "distinct (uids q)" by (metis mset_map mset_eq_imp_distinct_iff)
  have s: "set p = set q" using m by (rule mset_eq_setD)
  show ?thesis
  proof (cases "find_item u p")
    case None
    with s find_item_None [of u p] find_item_None [of u q] show ?thesis by simp
  next
    case (Some it)
    with find_item_mem [OF dq, of it] find_item_Some [OF Some] s show ?thesis by simp
  qed
qed

subsection \<open>The route\<close>

lemma sim_move_behind [sim_rules]:
  "sim sql_abs (\<lambda>r. sql_valid r \<and> db_up r) (move_behind SqlQueueRepository p us) (move_behind (SpecRepository sql_keep) p us)"
  by (induction us arbitrary: p) (auto intro!: sim_rules sql.sim_move)

lemma sim_move_all [sim_rules]:
  "sim sql_abs (\<lambda>r. sql_valid r \<and> db_up r) (move_all SqlQueueRepository us pos b a) (move_all (SpecRepository sql_keep) us pos b a)"
  unfolding move_all_def by (intro sim_rules sql.sim_move)

text \<open>A valid batch: distinct queued items, and a target for the first of them.\<close>

definition batch_target :: "queue_item list \<Rightarrow> string list \<Rightarrow> pyval \<Rightarrow> pyval \<Rightarrow> pyval \<Rightarrow> nat \<Rightarrow> bool" where
  "batch_target q us pos b a i \<longleftrightarrow> us \<noteq> [] \<and> distinct us \<and> set us \<subseteq> set (uids q) \<and> b \<noteq> PStr (hd us) \<and>
     a \<noteq> PStr (hd us) \<and> spec_position (without (hd us) q) pos b a = Inr i"

lemma move_all_ready:
  assumes "sql_ready s" "batch_target (sql_queue s) us pos b a i"
  shows "fst (move_all SqlQueueRepository us pos b a s) = Inr ()"
    "sql_queue (snd (move_all SqlQueueRepository us pos b a s)) = batch_moved us i (sql_queue s)"
    "sql_ready (snd (move_all SqlQueueRepository us pos b a s))"
proof -
  obtain r t where e: "move_all (SpecRepository sql_keep) us pos b a (abs_service sql_abs s) = (r, t)" by force
  have "fst (r, t) = Inr () \<and> queue_of (snd (r, t)) = batch_moved us i (queue_of (abs_service sql_abs s))"
    unfolding e [symmetric]
    by (rule move_all_spec) (use assms(2) sql_distinct [OF assms(1)] in \<open>simp_all add: batch_target_def\<close>)
  then have "r = Inr ()" "queue_of t = batch_moved us i (sql_queue s)" by simp_all
  with sql_outcome [OF sim_move_all assms(1) e] show "fst (move_all SqlQueueRepository us pos b a s) = Inr ()"
    "sql_queue (snd (move_all SqlQueueRepository us pos b a s)) = batch_moved us i (sql_queue s)"
    "sql_ready (snd (move_all SqlQueueRepository us pos b a s))" by simp_all
qed

lemma get_all_spec:
  "set us \<subseteq> set (uids (queue_of s)) \<Longrightarrow>
   for_each (get_queued (SpecRepository keep)) us s = (Inr (named us (queue_of s)), s)"
proof (induction us)
  case (Cons u us)
  then obtain it where "find_item u (queue_of s) = Some it"
    using find_item_None [of u "queue_of s"] by (cases "find_item u (queue_of s)") auto
  with Cons show ?case by (simp add: act_simps get_spec named_def)
qed (simp add: act_simps named_def)

lemma get_all_ready:
  assumes "sql_ready s" "set us \<subseteq> set (uids (sql_queue s))"
  shows "fst (for_each (get_queued SqlQueueRepository) us s) = Inr (named us (sql_queue s))"
    "sql_queue (snd (for_each (get_queued SqlQueueRepository) us s)) = sql_queue s"
    "sql_ready (snd (for_each (get_queued SqlQueueRepository) us s))"
proof -
  have e: "for_each (get_queued (SpecRepository sql_keep)) us (abs_service sql_abs s) =
      (Inr (named us (sql_queue s)), abs_service sql_abs s)"
    by (subst get_all_spec) (use assms(2) in simp_all)
  have m: "sim sql_abs (\<lambda>r. sql_valid r \<and> db_up r) (for_each (get_queued SqlQueueRepository) us)
      (for_each (get_queued (SpecRepository sql_keep)) us)"
    by (intro sim_rules sql.sim_get)
  from sql_outcome [OF m assms(1) e] show "fst (for_each (get_queued SqlQueueRepository) us s) = Inr (named us (sql_queue s))"
    "sql_queue (snd (for_each (get_queued SqlQueueRepository) us s)) = sql_queue s"
    "sql_ready (snd (for_each (get_queued SqlQueueRepository) us s))" by simp_all
qed

lemma uid_texts [simp]: "uid_text env (PStr u) = u" "uid_text env \<circ> PStr = (\<lambda>u. u)"
  by (simp_all add: uid_text_def comp_def)

text \<open>
  C20: a batch move puts the named items next to each other, in the order of the request, at the place the
  first of them was sent to; the others keep their order; the answer lists the moved items.
\<close>

theorem batch_move_in_order:
  assumes "sql_ready (queue_service_of s)" "read_payload (en_loads env) rq = Inr payload"
    and "dget ''uids'' payload = PList (map PStr us)"
    and "batch_target (sql_queue (queue_service_of s)) us (dget ''pos_dest'' payload) (dget ''before_uid'' payload)
           (dget ''after_uid'' payload) i"
  shows "\<exists>body s'. item_move_batch SqlQueueRepository env rq s = (Inr body, s') \<and> succeeded_body body \<and>
    sql_queue (queue_service_of s') = batch_moved us i (sql_queue (queue_service_of s)) \<and>
    mset (sql_queue (queue_service_of s')) = mset (sql_queue (queue_service_of s)) \<and>
    dget ''items'' body = PList (map item_val (named us (sql_queue (queue_service_of s))))"
proof -
  let ?q = "queue_service_of s"
  let ?m = "move_all SqlQueueRepository us (dget ''pos_dest'' payload) (dget ''before_uid'' payload) (dget ''after_uid'' payload)"
  note m = move_all_ready [OF assms(1,4)]
  have t: "us \<noteq> []" "distinct us" "set us \<subseteq> set (uids (sql_queue ?q))" using assms(4) by (simp_all add: batch_target_def)
  note p = mset_batch_moved [OF sql_distinct [OF assms(1)] t, of i]
  have sub: "set us \<subseteq> set (uids (sql_queue (snd (?m ?q))))"
    using t(3) mset_eq_setD [OF p] m(2) by simp
  note g = get_all_ready [OF m(3) sub]
  note l = queue_len_ready [OF g(3)]
  have n: "named us (sql_queue (snd (?m ?q))) = named us (sql_queue ?q)"
    using find_item_perm [OF sql_distinct [OF assms(1)] p [symmetric]] m(2) by (simp add: named_def)
  show ?thesis
    using m(1,2) g(1,2) l(1,2) n p t(1) assms(2,3)
    by (simp add: item_move_batch_def payload_of_request_def act_simps with_position_def succeeded_body_def dget_ok Let_def)
qed

definition example_request :: request where
  "example_request = \<lparr>rq_headers = [(''authorization'', ''ApiKey key'')], rq_query = [], rq_body = ''B''\<rparr>"

text \<open>Surroundings in which the body of \<open>example_request\<close> decodes to a given payload.\<close>

definition decoding :: "pydict \<Rightarrow> surroundings" where
  "decoding payload = example_surroundings\<lparr>en_loads := (\<lambda>_. Inr (PDict payload))\<rparr>"

lemma read_decoding: "distinct (map fst payload) \<Longrightarrow> read_payload (en_loads (decoding payload)) example_request = Inr (dict_update [] payload)"
  by (simp add: read_payload_def decoding_def example_request_def)

lemma dget_dict_update: "distinct (map fst payload) \<Longrightarrow> dget k (dict_update [] payload) = dget k payload"
  by (simp add: dget_def map_of_dict_update)

definition example_services :: "(database, database) services" where
  "example_services = \<lparr>sv_seq = Sequencer_init example_service example_host False,
     sv_status = StatusReporter_init example_surroundings 300, sv_registry = example_registry,
     sv_auth = \<lparr>au_key = ''key'', au_allow_anonymous = False, au_generated = False\<rparr>,
     sv_console = ConsoleCapture_init 2000 ''c'', sv_definitions = None, sv_device_max_depth = 2, sv_config = [],
     sv_has_shutdown = False, sv_shutdowns = 0\<rparr>"

lemma example_services_queue [simp]: "queue_service_of example_services = example_service"
  by (simp add: example_services_def Sequencer_init_def)

lemma example_find [simp]: "find_item ''a'' (sql_queue example_service) = Some (example_item ''a'')"
  "find_item ''b'' (sql_queue example_service) = Some (example_item ''b'')"
  by (simp_all add: find_item_def)

theorem batch_move_in_order_witness:
  "\<exists>body s'. item_move_batch SqlQueueRepository (decoding [(PStr ''uids'', PList [PStr ''b'', PStr ''a'']), (PStr ''pos_dest'', PStr ''front'')])
     example_request example_services = (Inr body, s') \<and> sql_queue (queue_service_of s') = [example_item ''b'', example_item ''a'']"
proof -
  let ?p = "[(PStr ''uids'', PList [PStr ''b'', PStr ''a'']), (PStr ''pos_dest'', PStr ''front'')]"
  have d: "distinct (map fst ?p)" by simp
  have g: "dget ''uids'' ?p = PList (map PStr [''b'', ''a''])" "dget ''pos_dest'' ?p = PStr ''front''"
    "dget ''before_uid'' ?p = PNone" "dget ''after_uid'' ?p = PNone" by (simp_all add: dget_def)
  have t: "batch_target (sql_queue (queue_service_of example_services)) [''b'', ''a''] (PStr ''front'') PNone PNone 0"
    by (simp add: batch_target_def spec_position_def)
  show ?thesis
    using batch_move_in_order [of example_services "decoding ?p" example_request "dict_update [] ?p" "[''b'', ''a'']" 0]
      read_decoding [OF d] t
    unfolding dget_dict_update [OF d] g by (auto simp: batch_moved_def named_def find_item_def)
qed

lemma move_all_append:
  "vs \<noteq> [] \<Longrightarrow> move_all ops (vs @ ws) pos b a = chain (move_all ops vs pos b a) (\<lambda>_. move_behind ops (last vs) ws)"
  by (cases vs) (auto simp: move_all_def move_behind_append act_simps fun_eq_iff split: sum.split)

lemma move_missing_ready:
  assumes "sql_ready s" "u \<notin> set (uids (sql_queue s))"
  shows "fst (move SqlQueueRepository u pos b a s) = Inl (not_in_queue (PStr u))"
    "sql_queue (snd (move SqlQueueRepository u pos b a s)) = sql_queue s"
    "sql_ready (snd (move SqlQueueRepository u pos b a s))"
proof -
  have e: "move (SpecRepository sql_keep) u pos b a (abs_service sql_abs s) = (Inl (not_in_queue (PStr u)), abs_service sql_abs s)"
    by (subst move_spec) (use assms(2) sql_distinct [OF assms(1)] find_item_None [of u "sql_queue s"] in simp_all)
  from sql_outcome [OF sql.sim_move assms(1) e] show "fst (move SqlQueueRepository u pos b a s) = Inl (not_in_queue (PStr u))"
    "sql_queue (snd (move SqlQueueRepository u pos b a s)) = sql_queue s"
    "sql_ready (snd (move SqlQueueRepository u pos b a s))" by simp_all
qed

text \<open>
  A batch move that names an item that is not queued answers with \<open>success: false\<close>, but the items
  named before it have been moved.
\<close>

theorem batch_move_stops_halfway:
  assumes "sql_ready (queue_service_of s)" "read_payload (en_loads env) rq = Inr payload"
    and "dget ''uids'' payload = PList (map PStr (vs @ u # ws))"
    and "batch_target (sql_queue (queue_service_of s)) vs (dget ''pos_dest'' payload) (dget ''before_uid'' payload)
           (dget ''after_uid'' payload) i"
    and "u \<notin> set (uids (sql_queue (queue_service_of s)))"
  shows "\<exists>body s'. item_move_batch SqlQueueRepository env rq s = (Inr body, s') \<and> dget ''success'' body = PBool False \<and>
    sql_queue (queue_service_of s') = batch_moved vs i (sql_queue (queue_service_of s))"
proof -
  let ?q = "queue_service_of s"
  let ?m = "move_all SqlQueueRepository vs (dget ''pos_dest'' payload) (dget ''before_uid'' payload) (dget ''after_uid'' payload)"
  note m = move_all_ready [OF assms(1,4)]
  have t: "vs \<noteq> []" "distinct vs" "set vs \<subseteq> set (uids (sql_queue ?q))" using assms(4) by (simp_all add: batch_target_def)
  note p = mset_batch_moved [OF sql_distinct [OF assms(1)] t, of i]
  have gone: "u \<notin> set (uids (sql_queue (snd (?m ?q))))" using assms(5) mset_eq_setD [OF p] m(2) by simp
  note f = move_missing_ready [OF m(3) gone]
  note l = queue_len_ready [OF f(3)]
  show ?thesis
    using m(1,2) f(1,2) l(1,2) t(1) assms(2,3)
    by (simp add: item_move_batch_def payload_of_request_def move_all_append refused_selection_def not_in_queue_def
        act_simps with_position_def dget_fail Let_def)
qed

theorem batch_move_stops_halfway_witness:
  "\<exists>body s'. item_move_batch SqlQueueRepository (decoding [(PStr ''uids'', PList [PStr ''b'', PStr ''x'']), (PStr ''pos_dest'', PStr ''front'')])
     example_request example_services = (Inr body, s') \<and> dget ''success'' body = PBool False \<and>
     sql_queue (queue_service_of s') = [example_item ''b'', example_item ''a'']"
proof -
  let ?p = "[(PStr ''uids'', PList [PStr ''b'', PStr ''x'']), (PStr ''pos_dest'', PStr ''front'')]"
  have d: "distinct (map fst ?p)" by simp
  have g: "dget ''uids'' ?p = PList (map PStr ([''b''] @ ''x'' # []))" "dget ''pos_dest'' ?p = PStr ''front''"
    "dget ''before_uid'' ?p = PNone" "dget ''after_uid'' ?p = PNone" by (simp_all add: dget_def)
  have t: "batch_target (sql_queue (queue_service_of example_services)) [''b''] (PStr ''front'') PNone PNone 0"
    by (simp add: batch_target_def spec_position_def)
  show ?thesis
    using batch_move_stops_halfway [of example_services "decoding ?p" example_request "dict_update [] ?p" "[''b'']" "''x''" "[]" 0]
      read_decoding [OF d] t
    unfolding dget_dict_update [OF d] g by (auto simp: batch_moved_def named_def find_item_def)
qed

end
