(* ===== verification/DeviceProperties.thy ===== *)
theory DeviceProperties
  imports DeviceService
begin

section \<open>Properties of the device service\<close>

text \<open>
  Over any repository that keeps the contract of \<open>DeviceDefs\<close>, failures of the store included: a
  live instance always has a stored definition, and what the profile defines is never touched.
  With the store available, what each operation answers and does.
\<close>

definition instances_stored :: "('r \<Rightarrow> definition_map) \<Rightarrow> 'r device_service \<Rightarrow> bool" where
  "instances_stored defs s \<longleftrightarrow> (\<forall>n. is_instantiated n s \<longrightarrow> defs (ds_repo s) n \<noteq> None)"

definition profile_entry :: "registry \<Rightarrow> string \<Rightarrow> device_entry option" where
  "profile_entry reg n =
     (case map_of (reg_devices reg) n of
        Some e \<Rightarrow> if de_origin e = Profile then Some e else None | None \<Rightarrow> None)"

definition no_definition :: "string \<Rightarrow> exn" where
  "no_definition n = definition_error [Txt ''No device definition named '', Rep (PStr n)]"

definition definition_exists :: "string \<Rightarrow> exn" where
  "definition_exists n = definition_error [Txt ''A definition named '', Rep (PStr n), Txt '' already exists'']"

subsection \<open>The registry under the service\<close>

lemma profile_entry_add:
  "profile_entry (snd (add_device n dev reg)) = profile_entry reg"
  by (auto simp: profile_entry_def add_device_def update_conv' fun_eq_iff split: option.split)

lemma profile_entry_remove:
  "profile_entry (snd (remove_device n reg)) = profile_entry reg"
  by (auto simp: profile_entry_def remove_device_def delete_conv' fun_eq_iff split: option.split)

lemma origin_add:
  "map_option de_origin (map_of (reg_devices (snd (add_device n dev reg))) k) =
     (if k = n \<and> map_option de_origin (map_of (reg_devices reg) n) \<noteq> Some Profile then Some Definition
      else map_option de_origin (map_of (reg_devices reg) k))"
  by (auto simp: add_device_def update_conv' split: option.split)

lemma origin_remove:
  "map_option de_origin (map_of (reg_devices (snd (remove_device n reg))) k) =
     (if k = n \<and> map_option de_origin (map_of (reg_devices reg) n) = Some Definition then None
      else map_option de_origin (map_of (reg_devices reg) k))"
  by (cases "map_of (reg_devices reg) n"; cases "de_origin (the (map_of (reg_devices reg) n))")
    (auto simp: remove_device_def delete_conv')

lemma with_registry_eq:
  "with_registry m s =
     (case fst (m (ds_registry s)) of
        Inl e \<Rightarrow> Inl (if exn_class e = RegistryError then definition_error (exn_text e) else e) | Inr x \<Rightarrow> Inr x,
      s\<lparr>ds_registry := snd (m (ds_registry s))\<rparr>)"
  by (simp add: with_registry_def act_simps split: sum.split)

lemma remove_instance_eq:
  "snd (remove_instance n s) = s\<lparr>ds_registry := snd (remove_device n (ds_registry s)),
     ds_changes := ds_changes s + (case fst (remove_device n (ds_registry s)) of Inl _ \<Rightarrow> 0 | Inr _ \<Rightarrow> 1)\<rparr>"
  by (simp add: remove_instance_def on_change_def with_registry_eq act_simps split: sum.split)

subsection \<open>The invariant\<close>

text \<open>The repository is consistent, instances have definitions, the profile's part is \<open>p\<close>.\<close>

definition device_ok ::
  "('r \<Rightarrow> definition_map) \<Rightarrow> ('r \<Rightarrow> bool) \<Rightarrow> (string \<Rightarrow> device_entry option) \<Rightarrow> 'r device_service \<Rightarrow> bool" where
  "device_ok defs valid p s \<longleftrightarrow> valid (ds_repo s) \<and> instances_stored defs s \<and> profile_entry (ds_registry s) = p"

lemma defs_repo_eq: "defs_repo m s = (fst (m (ds_repo s)), s\<lparr>ds_repo := snd (m (ds_repo s))\<rparr>)"
  by (simp add: defs_repo_def act_simps)

lemma on_change_eq: "on_change s = (Inr (), s\<lparr>ds_changes := ds_changes s + 1\<rparr>)"
  by (simp add: on_change_def act_simps)

lemmas service_eqs = defs_repo_eq on_change_eq with_registry_eq act_simps

lemma keeps_done: "keeps P m \<Longrightarrow> keeps P (done_with m)"
  unfolding done_with_def by (intro keeps_chain keeps_basic)

context definition_repository
begin

abbreviation ok :: "(string \<Rightarrow> device_entry option) \<Rightarrow> 'r device_service \<Rightarrow> bool" where
  "ok p s \<equiv> device_ok defs valid p s"

lemma ok_repo:
  "ok p s \<Longrightarrow> valid r \<Longrightarrow> (\<And>n. defs (ds_repo s) n \<noteq> None \<Longrightarrow> defs r n \<noteq> None) \<Longrightarrow> ok p (s\<lparr>ds_repo := r\<rparr>)"
  by (auto simp: device_ok_def instances_stored_def is_instantiated_def)

lemma ok_changes: "ok p s \<Longrightarrow> ok p (s\<lparr>ds_changes := k\<rparr>)"
  by (simp add: device_ok_def instances_stored_def is_instantiated_def)

lemma keeps_ok_read [intro]: "keeps (ok p) (defs_repo (df_get ops n))" "keeps (ok p) (defs_repo (df_list ops))"
proof -
  have frame: "ok p (s\<lparr>ds_repo := r\<rparr>)" if "ok p s" "valid r" "defs r = defs (ds_repo s)" for s r
    by (rule ok_repo [OF that(1,2)]) (simp add: that(3))
  have get: "ok p (snd (defs_repo (df_get ops n) s))" if "ok p s" for s
    unfolding defs_repo_eq snd_conv
    by (rule frame [OF that]) (use get_cases [of "ds_repo s" n] that in \<open>simp_all add: device_ok_def\<close>)
  have list: "ok p (snd (defs_repo (df_list ops) s))" if "ok p s" for s
    unfolding defs_repo_eq snd_conv
    by (rule frame [OF that]) (use list_cases [of "ds_repo s"] that in \<open>simp_all add: device_ok_def\<close>)
  from get list show "keeps (ok p) (defs_repo (df_get ops n))" "keeps (ok p) (defs_repo (df_list ops))"
    by (simp_all add: keepsI)
qed

lemma keeps_ok_save [intro]: "keeps (ok p) (defs_repo (df_save ops d))"
proof (rule keepsI)
  fix s assume s: "ok p s"
  then have v: "valid (ds_repo s)" by (simp add: device_ok_def)
  show "ok p (snd (defs_repo (df_save ops d) s))"
    unfolding defs_repo_eq snd_conv
    by (rule ok_repo [OF s]) (use save_cases [OF v, of d] in auto)
qed

lemma keeps_ok_change [intro]: "keeps (ok p) on_change"
  by (simp add: keeps_def on_change_eq ok_changes)

lemma keeps_ok_get [intro]: "keeps (ok p) (get_definition ops n)"
  unfolding get_definition_def by (intro keeps_chain keeps_ok_read) (simp split: option.split)

lemma keeps_ok_check [intro]: "keeps (ok p) (check_definition w d)"
  by (simp add: keeps_def check_definition_def)

lemma keeps_ok_create: "keeps (ok p) (create ops w d)"
  unfolding create_def by (auto intro!: keeps_chain)

lemma keeps_ok_update: "keeps (ok p) (update_definition ops w now d)"
  unfolding update_definition_def Let_def by (auto intro!: keeps_chain)

lemma keeps_ok_remove: "keeps (ok p) (remove_instance n)"
proof (rule keepsI)
  fix s assume s: "ok p s"
  have "defs (ds_repo s) k \<noteq> None"
    if "map_option de_origin (map_of (reg_devices (snd (remove_device n (ds_registry s)))) k) = Some Definition" for k
    using s that unfolding origin_remove
    by (auto simp: device_ok_def instances_stored_def is_instantiated_def split: if_splits)
  with s show "ok p (snd (remove_instance n s))"
    unfolding remove_instance_eq device_ok_def instances_stored_def is_instantiated_def
    by (simp add: profile_entry_remove)
qed

lemma get_definition_found:
  assumes "valid (ds_repo s)" "fst (get_definition ops n s) = Inr d"
  shows "defs (ds_repo s) n = Some d" "\<exists>r. snd (get_definition ops n s) = s\<lparr>ds_repo := r\<rparr> \<and> valid r \<and> defs r = defs (ds_repo s)"
  using get_cases [OF assms(1), of n] assms(2)
  by (auto simp: get_definition_def service_eqs split: sum.splits option.splits)

lemma keeps_ok_instantiate: "keeps (ok p) (instantiate ops w h n)"
proof (rule keepsI)
  fix s assume s: "ok p s"
  have g: "ok p (snd (get_definition ops n s))" using keepsD [OF keeps_ok_get s] .
  show "ok p (snd (instantiate ops w h n s))"
  proof (cases "fst (get_definition ops n s)")
    case (Inl e)
    with g show ?thesis by (simp add: instantiate_def act_simps)
  next
    case (Inr d)
    let ?t = "snd (get_definition ops n s)"
    have v: "valid (ds_repo s)" using s by (simp add: device_ok_def)
    obtain r where r: "?t = s\<lparr>ds_repo := r\<rparr>" "defs r = defs (ds_repo s)" "defs (ds_repo s) n = Some d"
      using get_definition_found [OF v Inr] by blast
    have added: "ok p (?t\<lparr>ds_registry := snd (add_device n dev (ds_registry ?t))\<rparr>)" for dev
      using g r unfolding device_ok_def instances_stored_def is_instantiated_def
      by (auto simp: profile_entry_add origin_add)
    from g Inr added [THEN ok_changes] added show ?thesis
      by (simp add: instantiate_def service_eqs split: sum.split)
  qed
qed

lemma keeps_ok_delete: "keeps (ok p) (delete_definition ops n)"
proof (rule keepsI)
  fix s assume s: "ok p s"
  have g: "ok p (snd (get_definition ops n s))" using keepsD [OF keeps_ok_get s] .
  have last: "ok p (snd (chain (defs_repo (df_delete ops n)) (\<lambda>_. on_change) t))"
    if t: "ok p t" "\<not> is_instantiated n t" for t
  proof -
    have v: "valid (ds_repo t)" using t(1) by (simp add: device_ok_def)
    have "ok p (t\<lparr>ds_repo := snd (df_delete ops n (ds_repo t))\<rparr>)"
      using delete_cases [OF v, of n] t
      by (auto simp: device_ok_def instances_stored_def is_instantiated_def split: if_splits)
    then show ?thesis using ok_changes by (simp add: service_eqs split: sum.split)
  qed
  show "ok p (snd (delete_definition ops n s))"
  proof (cases "fst (get_definition ops n s)")
    case (Inl e)
    with g show ?thesis by (simp add: delete_definition_def act_simps)
  next
    case (Inr d)
    let ?t = "snd (get_definition ops n s)"
    show ?thesis
    proof (cases "is_instantiated n ?t")
      case False
      with Inr last [OF g False] show ?thesis by (simp add: delete_definition_def act_simps)
    next
      case True
      have k: "ok p (snd (remove_instance n ?t))" using keepsD [OF keeps_ok_remove g] .
      have gone: "\<not> is_instantiated n (snd (remove_instance n ?t))"
        unfolding is_instantiated_def remove_instance_eq by (simp add: origin_remove)
      show ?thesis
        using Inr True k last [OF k gone] by (simp add: delete_definition_def act_simps split: sum.split)
    qed
  qed
qed

lemma keeps_ok_each: "keeps (ok p) (instantiate_each ops w h ds fs)"
  by (induction ds arbitrary: fs) (auto intro!: keeps_chain keeps_handle keeps_ok_instantiate)

lemma keeps_ok_all: "keeps (ok p) (instantiate_all_enabled ops w h)"
  unfolding instantiate_all_enabled_def list_definitions_def by (intro keeps_chain keeps_ok_read keeps_ok_each)

lemma keeps_ok_effect: "keeps (ok p) (device_effect ops c)"
  by (cases c)
    (simp_all add: keeps_done keeps_ok_create keeps_ok_update keeps_ok_remove keeps_ok_instantiate keeps_ok_delete
      keeps_ok_all keeps_ok_get keeps_ok_read list_definitions_def)

lemma calls_ok: "ok p s \<Longrightarrow> ok p (device_calls ops cs s)"
  unfolding device_calls_def
  by (induction cs arbitrary: s) (simp_all add: keepsD [OF keeps_ok_effect])

subsection \<open>With the store available\<close>

lemma get_definition_up:
  assumes "valid (ds_repo s)" "up (ds_repo s)"
  shows "fst (get_definition ops n s) = (case defs (ds_repo s) n of None \<Rightarrow> Inl (no_definition n) | Some d \<Rightarrow> Inr d)"
    "ds_registry (snd (get_definition ops n s)) = ds_registry s" "ds_changes (snd (get_definition ops n s)) = ds_changes s"
    "defs (ds_repo (snd (get_definition ops n s))) = defs (ds_repo s)"
    "valid (ds_repo (snd (get_definition ops n s)))" "up (ds_repo (snd (get_definition ops n s)))"
  using get_cases [OF assms(1), of n] get_up [OF assms, of n] ops_up(1) [OF assms, of n]
  by (auto simp: get_definition_def service_eqs no_definition_def split: option.split)

lemma create_up:
  assumes "valid (ds_repo s)" "up (ds_repo s)"
  shows "let (r, s') = create ops w d s in ds_registry s' = ds_registry s \<and>
    (case validate_definition w d (ds_registry s) of
       Inl e \<Rightarrow> r = Inl e \<and> defs (ds_repo s') = defs (ds_repo s)
     | Inr _ \<Rightarrow>
         if defs (ds_repo s) (dd_name d) \<noteq> None
         then r = Inl (definition_exists (dd_name d)) \<and> defs (ds_repo s') = defs (ds_repo s) \<and> ds_changes s' = ds_changes s
         else r = Inr d \<and> defs (ds_repo s') = (defs (ds_repo s))(dd_name d \<mapsto> d) \<and> ds_changes s' = ds_changes s + 1)"
proof (cases "validate_definition w d (ds_registry s)")
  case (Inl e)
  then show ?thesis by (simp add: create_def check_definition_def act_simps)
next
  case (Inr u)
  let ?r = "snd (df_get ops (dd_name d) (ds_repo s))"
  have r: "fst (df_get ops (dd_name d) (ds_repo s)) = Inr (defs (ds_repo s) (dd_name d))" "defs ?r = defs (ds_repo s)"
    "valid ?r" "up ?r"
    using get_cases [OF assms(1), of "dd_name d"] get_up [OF assms] ops_up(1) [OF assms] by auto
  from save_cases [OF r(3), of d] r(4)
  have "fst (df_save ops d ?r) = Inr ()" "defs (snd (df_save ops d ?r)) = (defs ?r)(dd_name d \<mapsto> d)" by auto
  with Inr r(1,2) show ?thesis
    by (simp add: create_def check_definition_def service_eqs definition_exists_def)
qed

end

text \<open>
  C23: whatever calls reach the device service, whichever sessions with the database fail and
  whatever importing, building and connecting devices raises: a live device always has a
  stored definition, the table stays consistent, and no device of the profile is touched.
\<close>

theorem device_service_safe:
  assumes "defs_valid (db_tables (ds_repo s))" "instances_stored sql_defs s"
  shows "(let s' = device_calls SqlDeviceDefinitionRepository cs s in
    defs_valid (db_tables (ds_repo s')) \<and> instances_stored sql_defs s' \<and>
    profile_entry (ds_registry s') = profile_entry (ds_registry s))"
  using assms sqldefs.calls_ok [of "profile_entry (ds_registry s)" s cs] by (simp add: device_ok_def Let_def)

definition example_world :: device_world where
  "example_world = \<lparr>dw_import = (\<lambda>m. if m = ''ophyd.sim'' then None else Some (Exn (OtherException ''ImportError'') [])),
     dw_class = (\<lambda>m c. if c = ''SynAxis'' then Some 1 else None), dw_make = (\<lambda>c p k. Inr (PObj 5)),
     dw_connects = (\<lambda>v. False), dw_loop_running = True, dw_connect = (\<lambda>v. None)\<rparr>"

definition example_definition :: device_definition where
  "example_definition = \<lparr>dd_name = ''m1'', dd_class_path = ''ophyd.sim.SynAxis'', dd_prefix = [], dd_kwargs = [],
     dd_enabled = True, dd_created_at = 1, dd_updated_at = 1\<rparr>"

definition example_devices :: "database device_service" where
  "example_devices = DeviceDefinitionService_init
     \<lparr>db_tables = \<lparr>t_queue_items = [], t_queue_history = [], t_device_definitions = []\<rparr>, db_faults = []\<rparr>
     \<lparr>reg_plans = [], reg_devices = [(''det'', \<lparr>de_name = ''det'', de_device = PObj 0, de_origin = Profile\<rparr>)]\<rparr>"

lemma example_devices_ok:
  "defs_valid (db_tables (ds_repo example_devices))" "instances_stored sql_defs example_devices"
  "db_up (ds_repo example_devices)" "sql_defs (ds_repo example_devices) n = None"
  by (simp_all add: example_devices_def DeviceDefinitionService_init_def defs_valid_def instances_stored_def
      is_instantiated_def db_up_def sql_defs_def)

theorem device_service_safe_witness:
  "profile_entry (ds_registry (device_calls SqlDeviceDefinitionRepository
     [DCreate example_world example_definition, DRemove ''det'', DDelete ''m1''] example_devices)) ''det'' =
   Some \<lparr>de_name = ''det'', de_device = PObj 0, de_origin = Profile\<rparr>"
proof -
  have "profile_entry (ds_registry example_devices) ''det'' = Some \<lparr>de_name = ''det'', de_device = PObj 0, de_origin = Profile\<rparr>"
    by (simp add: profile_entry_def example_devices_def DeviceDefinitionService_init_def)
  with device_service_safe [OF example_devices_ok(1,2), of "[DCreate example_world example_definition, DRemove ''det'', DDelete ''m1'']"]
  show ?thesis by (simp add: Let_def)
qed

text \<open>
  With the database up, creating a definition succeeds exactly if its name is an identifier that
  the profile does not use, its class can be imported and no definition has the name yet; it is
  then stored as given. A refusal stores nothing, and no outcome touches the live devices.
\<close>

theorem create_stores_definition:
  assumes "defs_valid (db_tables (ds_repo s))" "db_up (ds_repo s)"
  shows "let (r, s') = create SqlDeviceDefinitionRepository w d s in ds_registry s' = ds_registry s \<and>
    (case validate_definition w d (ds_registry s) of
       Inl e \<Rightarrow> r = Inl e \<and> sql_defs (ds_repo s') = sql_defs (ds_repo s)
     | Inr _ \<Rightarrow>
         if sql_defs (ds_repo s) (dd_name d) \<noteq> None
         then r = Inl (definition_exists (dd_name d)) \<and> sql_defs (ds_repo s') = sql_defs (ds_repo s) \<and> ds_changes s' = ds_changes s
         else r = Inr d \<and> sql_defs (ds_repo s') = (sql_defs (ds_repo s))(dd_name d \<mapsto> d) \<and> ds_changes s' = ds_changes s + 1)"
  using sqldefs.create_up [OF assms] .

theorem create_stores_definition_witness:
  "fst (create SqlDeviceDefinitionRepository example_world example_definition example_devices) = Inr example_definition"
proof -
  have "validate_definition example_world example_definition (ds_registry example_devices) = Inr ()"
    by (simp add: validate_definition_def example_definition_def example_devices_def DeviceDefinitionService_init_def
        identifier_start_def identifier_part_def import_class_def rpartition_at_def example_world_def)
  with create_stores_definition [OF example_devices_ok(1,3), of example_world example_definition] example_devices_ok(4)
  show ?thesis by (simp add: case_prod_beta Let_def)
qed

subsection \<open>Startup\<close>

lemma instantiated_add:
  "is_instantiated k s \<Longrightarrow> is_instantiated k (s\<lparr>ds_registry := snd (add_device n dev (ds_registry s))\<rparr>)"
  by (simp add: is_instantiated_def origin_add)

lemma is_instantiated_frame [simp]:
  "is_instantiated k (s\<lparr>ds_repo := r\<rparr>) = is_instantiated k s" "is_instantiated k (s\<lparr>ds_changes := c\<rparr>) = is_instantiated k s"
  by (simp_all add: is_instantiated_def)

lemma get_definition_frame: "\<exists>r. snd (get_definition ops n s) = s\<lparr>ds_repo := r\<rparr>"
  by (simp add: get_definition_def service_eqs split: sum.split option.split) blast

lemma instantiate_keeps_live:
  assumes "is_instantiated k s"
  shows "is_instantiated k (snd (instantiate ops w h n s))"
proof -
  obtain r where r: "snd (get_definition ops n s) = s\<lparr>ds_repo := r\<rparr>" using get_definition_frame [of ops n s] by (rule exE)
  have i: "is_instantiated k (s\<lparr>ds_repo := r\<rparr>)" using assms by simp
  show ?thesis
    using i instantiated_add [OF i]
    by (simp add: instantiate_def service_eqs r split: sum.split)
qed

lemma instantiate_live:
  assumes "fst (instantiate ops w h n s) = Inr dev"
  shows "is_instantiated n (snd (instantiate ops w h n s))"
proof -
  obtain r where r: "snd (get_definition ops n s) = s\<lparr>ds_repo := r\<rparr>" using get_definition_frame [of ops n s] by (rule exE)
  have a: "map_option de_origin (map_of (reg_devices (snd (add_device n dev reg))) n) = Some Definition"
    if "fst (add_device n dev reg) = Inr ()" for dev reg
    using that by (auto simp: add_device_def update_conv' split: option.splits if_splits)
  show ?thesis
    using assms a by (auto simp: instantiate_def service_eqs r is_instantiated_def split: sum.splits if_splits)
qed

lemma instantiate_each_covers:
  assumes "instantiate_each ops w h ds fs s = (Inr fs', s')"
  shows "fst ` set fs \<subseteq> fst ` set fs' \<and> (\<forall>k. is_instantiated k s \<longrightarrow> is_instantiated k s') \<and>
    fst ` set fs' \<subseteq> fst ` set fs \<union> dd_name ` set (filter dd_enabled ds) \<and>
    (\<forall>d \<in> set ds. dd_enabled d \<longrightarrow> dd_name d \<in> fst ` set fs' \<or> is_instantiated (dd_name d) s')"
  using assms
proof (induction ds arbitrary: fs s)
  case Nil
  then show ?case by (simp add: act_simps)
next
  case (Cons d ds)
  show ?case
  proof (cases "dd_enabled d")
    case False
    with Cons.prems have "instantiate_each ops w h ds fs s = (Inr fs', s')" by simp
    from Cons.IH [OF this] False show ?thesis by auto
  next
    case True
    let ?t = "snd (instantiate ops w h (dd_name d) s)"
    note live = instantiate_keeps_live [of _ s ops w h "dd_name d"]
    show ?thesis
    proof (cases "fst (instantiate ops w h (dd_name d) s)")
      case (Inl e)
      with Cons.prems True have "instantiate_each ops w h ds (AList.update (dd_name d) (typed_text e) fs) ?t = (Inr fs', s')"
        by (simp add: act_simps split: if_splits)
      from Cons.IH [OF this] live True show ?thesis by (auto simp: dom_update)
    next
      case (Inr dev)
      with Cons.prems True have "instantiate_each ops w h ds fs ?t = (Inr fs', s')" by (simp add: act_simps)
      from Cons.IH [OF this] live True instantiate_live [OF Inr] show ?thesis by auto
    qed
  qed
qed

text \<open>What importing, building and connecting raise are ordinary exceptions.\<close>

definition ordinary_world :: "device_world \<Rightarrow> bool" where
  "ordinary_world w \<longleftrightarrow>
     (\<forall>m e. dw_import w m = Some e \<longrightarrow> is_exception (exn_class e)) \<and>
     (\<forall>c p k e. dw_make w c p k = Inl e \<longrightarrow> is_exception (exn_class e)) \<and>
     (\<forall>d e. dw_connect w d = Some e \<longrightarrow> is_exception (exn_class e))"

lemma import_class_ordinary:
  "ordinary_world w \<Longrightarrow> import_class w p = Inl e \<Longrightarrow> is_exception (exn_class e)"
  by (auto simp: import_class_def definition_error_def ordinary_world_def split: prod.splits if_splits option.splits)

lemma construct_device_ordinary:
  assumes "ordinary_world w" "construct_device w h d = Inl e"
  shows "is_exception (exn_class e)"
proof -
  have r: "run_on_engine_loop h b (dw_connect w v) = Inl e \<Longrightarrow> is_exception (exn_class e)" for b v e
    using assms(1)
    by (auto simp: run_on_engine_loop_def require_engine_def no_engine_error_def host_error_def ordinary_world_def
        split: option.splits if_splits)
  show ?thesis
    using assms import_class_ordinary [OF assms(1)] r
    by (auto simp: construct_device_def Let_def definition_error_def ordinary_world_def split: sum.splits if_splits)
qed

context definition_repository
begin

lemma instantiate_ordinary:
  assumes "valid (ds_repo s)" "up (ds_repo s)" "ordinary_world w" "fst (instantiate ops w h n s) = Inl e"
  shows "is_exception (exn_class e)"
proof -
  note g = get_definition_up [OF assms(1,2), of n]
  have sub: "fst (submit (\<lambda>h. (construct_device w h d, h)) h) = Inl e \<Longrightarrow> is_exception (exn_class e)" for d e
    using construct_device_ordinary [OF assms(3)] by (auto simp: submit_def host_error_def split: if_splits)
  have reg: "fst (add_device n dev reg) = Inl e \<Longrightarrow> is_exception (exn_class e)" for dev reg e
    by (auto simp: add_device_def split: option.splits if_splits)
  show ?thesis
    using assms(4) g(1) sub reg
    by (auto simp: instantiate_def service_eqs no_definition_def definition_error_def split: sum.splits option.splits if_splits)
qed

lemma instantiate_up:
  assumes "valid (ds_repo s)" "up (ds_repo s)"
  shows "valid (ds_repo (snd (instantiate ops w h n s)))" "up (ds_repo (snd (instantiate ops w h n s)))"
  using get_definition_up(5,6) [OF assms, of n]
  by (simp_all add: instantiate_def service_eqs split: sum.split)

lemma instantiate_each_returns:
  assumes "valid (ds_repo s)" "up (ds_repo s)" "ordinary_world w"
  shows "\<exists>fs' s'. instantiate_each ops w h ds fs s = (Inr fs', s')"
  using assms(1,2)
proof (induction ds arbitrary: fs s)
  case Nil
  then show ?case by (simp add: act_simps)
next
  case (Cons d ds)
  note u = instantiate_up [OF Cons.prems, of w h "dd_name d"]
  show ?case
    using Cons.IH [OF u] Cons.IH [OF Cons.prems] instantiate_ordinary [OF Cons.prems assms(3), of h "dd_name d"]
    by (simp add: act_simps split: sum.split)
qed

lemma list_up: "valid (ds_repo s) \<Longrightarrow> up (ds_repo s) \<Longrightarrow>
  \<exists>r. list_definitions ops s = (Inr (in_name_order (defs (ds_repo s))), s\<lparr>ds_repo := r\<rparr>) \<and> valid r \<and> up r"
  using list_cases [of "ds_repo s"] ops_up(4) [of "ds_repo s"] by (auto simp: list_definitions_def defs_repo_eq)

lemma instantiate_all_up:
  assumes "valid (ds_repo s)" "up (ds_repo s)" "ordinary_world w" "finite (dom (defs (ds_repo s)))"
  shows "\<exists>fs s'. instantiate_all_enabled ops w h s = (Inr fs, s') \<and>
    (\<forall>n d. defs (ds_repo s) n = Some d \<longrightarrow>
       (if dd_enabled d then n \<in> fst ` set fs \<or> is_instantiated n s' else n \<notin> fst ` set fs))"
proof -
  let ?ds = "in_name_order (defs (ds_repo s))"
  obtain r where r: "list_definitions ops s = (Inr ?ds, s\<lparr>ds_repo := r\<rparr>)" "valid r" "up r"
    using list_up [OF assms(1,2)] by blast
  have u: "valid (ds_repo (s\<lparr>ds_repo := r\<rparr>))" "up (ds_repo (s\<lparr>ds_repo := r\<rparr>))" using r by simp_all
  from instantiate_each_returns [OF u assms(3), of h ?ds "[]"]
  obtain fs s' where e: "instantiate_each ops w h ?ds [] (s\<lparr>ds_repo := r\<rparr>) = (Inr fs, s')" by (elim exE)
  have mem: "d \<in> set ?ds" if "defs (ds_repo s) n = Some d" for n d
    using that assms(4) by (force simp: in_name_order_def)
  have names: "defs (ds_repo s) (dd_name d) = Some d" if "d \<in> set ?ds" for d
    using that assms(4) names_ok [OF assms(1)] by (auto simp: in_name_order_def)
  from instantiate_each_covers [OF e]
  have c: "fst ` set fs \<subseteq> dd_name ` set (filter dd_enabled ?ds)"
    "\<forall>d \<in> set ?ds. dd_enabled d \<longrightarrow> dd_name d \<in> fst ` set fs \<or> is_instantiated (dd_name d) s'" by simp_all
  have "(if dd_enabled d then n \<in> fst ` set fs \<or> is_instantiated n s' else n \<notin> fst ` set fs)"
    if d: "defs (ds_repo s) n = Some d" for n d
  proof (cases "dd_enabled d")
    case True
    with c(2) mem [OF d] names_ok [OF assms(1) d] show ?thesis by auto
  next
    case False
    have "n \<notin> fst ` set fs"
    proof
      assume "n \<in> fst ` set fs"
      then obtain d' where "d' \<in> set ?ds" "dd_enabled d'" "dd_name d' = n" using c(1) by auto
      with names [of d'] d False show False by auto
    qed
    with False show ?thesis by simp
  qed
  with e r(1) show ?thesis
    by (intro exI [of _ fs] exI [of _ s']) (simp add: instantiate_all_enabled_def act_simps)
qed

end

lemma finite_sql_defs: "finite (dom (sql_defs db))"
proof -
  have "dom (sql_defs db) \<subseteq> dr_name ` set (t_device_definitions (db_tables db))"
    using get_definition_row_Some by (fastforce simp: sql_defs_def row_map_def dom_def)
  then show ?thesis by (rule finite_subset) simp
qed

text \<open>
  C31: at startup no broken device stops the others. As long as the code of the devices raises
  ordinary exceptions, instantiating all definitions returns; afterwards every enabled
  definition is live or has its error in the answer, and no disabled one is reported.
\<close>

theorem startup_covers_definitions:
  assumes "defs_valid (db_tables (ds_repo s))" "db_up (ds_repo s)" "ordinary_world w"
  shows "\<exists>fs s'. instantiate_all_enabled SqlDeviceDefinitionRepository w h s = (Inr fs, s') \<and>
    (\<forall>n d. sql_defs (ds_repo s) n = Some d \<longrightarrow>
       (if dd_enabled d then n \<in> fst ` set fs \<or> is_instantiated n s' else n \<notin> fst ` set fs))"
  by (rule sqldefs.instantiate_all_up [OF assms finite_sql_defs])

theorem startup_covers_definitions_witness:
  "\<exists>fs s'. instantiate_all_enabled SqlDeviceDefinitionRepository example_world (EngineHost_init False)
      (snd (create SqlDeviceDefinitionRepository example_world example_definition example_devices)) = (Inr fs, s')"
proof -
  let ?s = "snd (create SqlDeviceDefinitionRepository example_world example_definition example_devices)"
  have "defs_valid (db_tables (ds_repo ?s))"
    using sqldefs.keeps_ok_create [THEN keepsD, of "profile_entry (ds_registry example_devices)" example_devices]
      example_devices_ok by (simp add: device_ok_def)
  moreover have "ordinary_world example_world"
    by (auto simp: ordinary_world_def example_world_def split: if_splits)
  moreover have "db_up (ds_repo ?s)"
    by (auto simp: create_def check_definition_def service_eqs SqlDeviceDefinitionRepository_def sql_get_definition_def
        sql_save_definition_def session_up(3) example_devices_ok split: sum.split)
  ultimately show ?thesis using startup_covers_definitions by blast
qed

end
