(* ===== verification/Routes.thy ===== *)
theory Routes
  imports DeviceRoutes BatchMove DeviceProperties
begin

section \<open>The HTTP interface as a whole (\<open>api/app.py\<close>)\<close>

text \<open>
  Every route with the scope its decorator asks for, and what the application does with a request.
  A request is any route, any headers, query and body, any principal, any behaviour of the code
  outside the repository; requests are handled one after the other, each route being one step. The
  queue's tables and the definitions' table are two repositories here, though one database holds both.
\<close>

text \<open>The routes, router by router.\<close>

datatype queue_route =
    QueueGet | ItemGet | ItemGetByPath string | ItemAdd | ItemAddBatch | ItemUpdate | ItemMove | ItemMoveBatch
    | ItemRemove | ItemRemoveBatch | ItemExecute | QueueClear | QueueStart | QueueStop | QueueStopCancel
    | QueueAutostart | QueueModeSet | QueueUpload | HistoryGet | HistoryClear

datatype engine_route =
    RePause | ReResume | ReAbort | ReStop | ReHalt | ReMetadata | ReRuns | ReRunsActive | ReRunsOpen
    | ReRunsClosed | EnvironmentOpen | EnvironmentClose | EnvironmentUpdate

datatype resource_route =
    Ping | StatusRoute | ConfigGet | PlansAllowed | PlansExisting | DevicesAllowed | DevicesExisting
    | PermissionsGet | PermissionsSet | PermissionsReload

datatype misc_route =
    TaskStatus | TaskResult | LockRoute | LockInfo | UnlockRoute | FunctionExecute | ScriptUpload
    | ConsoleOutput | ConsoleOutputUid | ConsoleOutputUpdate | ManagerStop | KernelInterrupt | ManagerKill
    | ServerSleep

datatype device_route =
    ListDevices | CreateDevice | GetDevice string | UpdateDevice string | DeleteDevice string
    | InstantiateDevice string | RemoveDeviceInstance string

datatype auth_route =
    Whoami | AuthScopes | ApikeyCreate | ApikeyGet | ApikeyDelete | Logout | PrincipalList | PrincipalGet string
    | PrincipalApikey string | SessionRefresh | SessionRevoke string

datatype route = QueueRoute queue_route | EngineRoute engine_route | ResourceRoute resource_route | MiscRoute misc_route
  | AuthRoute auth_route | DeviceRoute device_route

record outside =
  ou_env :: surroundings
  ou_world :: device_world
  ou_plan :: "plan_factory \<Rightarrow> plan_view"
  ou_object :: "pyval \<Rightarrow> object_view"
  ou_refuses :: "exn option"
  ou_float :: "string \<Rightarrow> float_value option"
  ou_sleep :: "float_value \<Rightarrow> exn option"

text \<open>The scopes that the decorators ask for; outside the auth group only \<open>ping\<close> asks for none.\<close>

primrec queue_route_scope :: "queue_route \<Rightarrow> string" where
  "queue_route_scope QueueGet = ''read:queue''"
| "queue_route_scope ItemGet = ''read:queue''"
| "queue_route_scope (ItemGetByPath _) = ''read:queue''"
| "queue_route_scope ItemAdd = ''write:queue''"
| "queue_route_scope ItemAddBatch = ''write:queue''"
| "queue_route_scope ItemUpdate = ''write:queue''"
| "queue_route_scope ItemMove = ''write:queue''"
| "queue_route_scope ItemMoveBatch = ''write:queue''"
| "queue_route_scope ItemRemove = ''write:queue''"
| "queue_route_scope ItemRemoveBatch = ''write:queue''"
| "queue_route_scope ItemExecute = ''write:execute''"
| "queue_route_scope QueueClear = ''write:queue''"
| "queue_route_scope QueueStart = ''write:execute''"
| "queue_route_scope QueueStop = ''write:execute''"
| "queue_route_scope QueueStopCancel = ''write:execute''"
| "queue_route_scope QueueAutostart = ''write:execute''"
| "queue_route_scope QueueModeSet = ''write:queue''"
| "queue_route_scope QueueUpload = ''write:queue''"
| "queue_route_scope HistoryGet = ''read:history''"
| "queue_route_scope HistoryClear = ''write:history''"

primrec engine_route_scope :: "engine_route \<Rightarrow> string" where
  "engine_route_scope RePause = ''write:execute''"
| "engine_route_scope ReResume = ''write:execute''"
| "engine_route_scope ReAbort = ''write:execute''"
| "engine_route_scope ReStop = ''write:execute''"
| "engine_route_scope ReHalt = ''write:execute''"
| "engine_route_scope ReMetadata = ''read:status''"
| "engine_route_scope ReRuns = ''read:status''"
| "engine_route_scope ReRunsActive = ''read:status''"
| "engine_route_scope ReRunsOpen = ''read:status''"
| "engine_route_scope ReRunsClosed = ''read:status''"
| "engine_route_scope EnvironmentOpen = ''write:execute''"
| "engine_route_scope EnvironmentClose = ''write:execute''"
| "engine_route_scope EnvironmentUpdate = ''write:execute''"

primrec resource_route_scope :: "resource_route \<Rightarrow> string option" where
  "resource_route_scope Ping = None"
| "resource_route_scope StatusRoute = Some ''read:status''"
| "resource_route_scope ConfigGet = Some ''read:config''"
| "resource_route_scope PlansAllowed = Some ''read:resources''"
| "resource_route_scope PlansExisting = Some ''read:resources''"
| "resource_route_scope DevicesAllowed = Some ''read:resources''"
| "resource_route_scope DevicesExisting = Some ''read:resources''"
| "resource_route_scope PermissionsGet = Some ''read:resources''"
| "resource_route_scope PermissionsSet = Some ''write:permissions''"
| "resource_route_scope PermissionsReload = Some ''write:permissions''"

primrec misc_route_scope :: "misc_route \<Rightarrow> string" where
  "misc_route_scope TaskStatus = ''read:status''"
| "misc_route_scope TaskResult = ''read:status''"
| "misc_route_scope LockRoute = ''write:lock''"
| "misc_route_scope LockInfo = ''read:lock''"
| "misc_route_scope UnlockRoute = ''write:unlock''"
| "misc_route_scope FunctionExecute = ''write:execute''"
| "misc_route_scope ScriptUpload = ''write:scripts''"
| "misc_route_scope ConsoleOutput = ''read:console''"
| "misc_route_scope ConsoleOutputUid = ''read:console''"
| "misc_route_scope ConsoleOutputUpdate = ''read:console''"
| "misc_route_scope ManagerStop = ''write:manager''"
| "misc_route_scope KernelInterrupt = ''write:execute''"
| "misc_route_scope ManagerKill = ''write:testing''"
| "misc_route_scope ServerSleep = ''read:testing''"

primrec device_route_scope :: "device_route \<Rightarrow> string" where
  "device_route_scope ListDevices = ''read:resources''"
| "device_route_scope CreateDevice = ''write:queue''"
| "device_route_scope (GetDevice _) = ''read:resources''"
| "device_route_scope (UpdateDevice _) = ''write:queue''"
| "device_route_scope (DeleteDevice _) = ''write:queue''"
| "device_route_scope (InstantiateDevice _) = ''write:queue''"
| "device_route_scope (RemoveDeviceInstance _) = ''write:queue''"

text \<open>What a route asks of the caller: nothing, to be somebody, or a scope.\<close>

datatype access = Open | Caller | Scope string

primrec auth_route_access :: "auth_route \<Rightarrow> access" where
  "auth_route_access Whoami = Caller"
| "auth_route_access AuthScopes = Caller"
| "auth_route_access ApikeyCreate = Caller"
| "auth_route_access ApikeyGet = Caller"
| "auth_route_access ApikeyDelete = Caller"
| "auth_route_access Logout = Open"
| "auth_route_access PrincipalList = Caller"
| "auth_route_access (PrincipalGet _) = Caller"
| "auth_route_access (PrincipalApikey _) = Caller"
| "auth_route_access SessionRefresh = Open"
| "auth_route_access (SessionRevoke _) = Open"

primrec required_access :: "route \<Rightarrow> access" where
  "required_access (QueueRoute r) = Scope (queue_route_scope r)"
| "required_access (EngineRoute r) = Scope (engine_route_scope r)"
| "required_access (ResourceRoute r) = (case resource_route_scope r of None \<Rightarrow> Open | Some scope \<Rightarrow> Scope scope)"
| "required_access (MiscRoute r) = Scope (misc_route_scope r)"
| "required_access (AuthRoute r) = auth_route_access r"
| "required_access (DeviceRoute r) = Scope (device_route_scope r)"

primrec queue_route_body :: "'r queue_repository \<Rightarrow> outside \<Rightarrow> queue_route \<Rightarrow> request \<Rightarrow> principal \<Rightarrow> ('r, 'd, pydict) sv_act" where
  "queue_route_body ops out QueueGet rq p = queue_get ops (ou_env out)"
| "queue_route_body ops out ItemGet rq p = item_get ops (ou_env out) rq"
| "queue_route_body ops out (ItemGetByPath u) rq p = item_get_by_path ops (ou_env out) u"
| "queue_route_body ops out ItemAdd rq p = item_add ops (ou_env out) rq p"
| "queue_route_body ops out ItemAddBatch rq p = item_add_batch ops (ou_env out) rq p"
| "queue_route_body ops out ItemUpdate rq p = item_update ops (ou_env out) rq p"
| "queue_route_body ops out ItemMove rq p = item_move ops (ou_env out) rq"
| "queue_route_body ops out ItemMoveBatch rq p = item_move_batch ops (ou_env out) rq"
| "queue_route_body ops out ItemRemove rq p = item_remove ops (ou_env out) rq"
| "queue_route_body ops out ItemRemoveBatch rq p = item_remove_batch ops (ou_env out) rq"
| "queue_route_body ops out ItemExecute rq p = item_execute ops (ou_env out) rq p"
| "queue_route_body ops out QueueClear rq p = queue_clear ops"
| "queue_route_body ops out QueueStart rq p = queue_start_route ops (ou_env out)"
| "queue_route_body ops out QueueStop rq p = queue_stop_route (ou_env out)"
| "queue_route_body ops out QueueStopCancel rq p = queue_stop_cancel_route"
| "queue_route_body ops out QueueAutostart rq p = queue_autostart (ou_env out) rq"
| "queue_route_body ops out QueueModeSet rq p = queue_mode_set (ou_env out) rq"
| "queue_route_body ops out QueueUpload rq p = ret queue_upload_spreadsheet"
| "queue_route_body ops out HistoryGet rq p = history_get ops (ou_env out)"
| "queue_route_body ops out HistoryClear rq p = history_clear ops"

primrec engine_route_body :: "'r queue_repository \<Rightarrow> outside \<Rightarrow> engine_route \<Rightarrow> request \<Rightarrow> principal \<Rightarrow> ('r, 'd, pydict) sv_act" where
  "engine_route_body ops out RePause rq p = re_pause (ou_env out) (ou_refuses out) rq"
| "engine_route_body ops out ReResume rq p = re_resume (ou_env out)"
| "engine_route_body ops out ReAbort rq p = re_abort (ou_env out) (ou_refuses out) rq"
| "engine_route_body ops out ReStop rq p = re_stop (ou_env out) (ou_refuses out)"
| "engine_route_body ops out ReHalt rq p = re_halt (ou_env out) (ou_refuses out)"
| "engine_route_body ops out ReMetadata rq p = re_metadata (ou_env out)"
| "engine_route_body ops out ReRuns rq p = re_runs ops (ou_env out) rq"
| "engine_route_body ops out ReRunsActive rq p = re_runs_active ops (ou_env out)"
| "engine_route_body ops out ReRunsOpen rq p = re_runs_open ops (ou_env out)"
| "engine_route_body ops out ReRunsClosed rq p = re_runs_closed ops (ou_env out)"
| "engine_route_body ops out EnvironmentOpen rq p = environment_open (ou_env out)"
| "engine_route_body ops out EnvironmentClose rq p = environment_close"
| "engine_route_body ops out EnvironmentUpdate rq p = ret environment_update"

primrec resource_route_body :: "'r queue_repository \<Rightarrow> outside \<Rightarrow> resource_route \<Rightarrow> request \<Rightarrow> principal \<Rightarrow> ('r, 'd, pydict) sv_act" where
  "resource_route_body ops out Ping rq p = ret (ping (ou_env out))"
| "resource_route_body ops out StatusRoute rq p = snapshot ops (ou_env out)"
| "resource_route_body ops out ConfigGet rq p = config_get"
| "resource_route_body ops out PlansAllowed rq p = plans_allowed (ou_plan out)"
| "resource_route_body ops out PlansExisting rq p = plans_existing (ou_plan out)"
| "resource_route_body ops out DevicesAllowed rq p = devices_allowed (ou_object out)"
| "resource_route_body ops out DevicesExisting rq p = devices_existing (ou_object out)"
| "resource_route_body ops out PermissionsGet rq p = ret permissions_get"
| "resource_route_body ops out PermissionsSet rq p = ret permissions_set"
| "resource_route_body ops out PermissionsReload rq p = ret permissions_reload"

primrec misc_route_body :: "outside \<Rightarrow> misc_route \<Rightarrow> request \<Rightarrow> principal \<Rightarrow> ('r, 'd, pydict) sv_act" where
  "misc_route_body out TaskStatus rq p = task_status (ou_env out) rq"
| "misc_route_body out TaskResult rq p = task_result (ou_env out) rq"
| "misc_route_body out LockRoute rq p = ret lock"
| "misc_route_body out LockInfo rq p = ret lock_info"
| "misc_route_body out UnlockRoute rq p = ret unlock"
| "misc_route_body out FunctionExecute rq p = ret function_execute"
| "misc_route_body out ScriptUpload rq p = ret script_upload"
| "misc_route_body out ConsoleOutput rq p = console_output (ou_env out) rq"
| "misc_route_body out ConsoleOutputUid rq p = console_output_uid"
| "misc_route_body out ConsoleOutputUpdate rq p = console_output_update (ou_env out) rq"
| "misc_route_body out ManagerStop rq p = manager_stop (ou_env out) rq"
| "misc_route_body out KernelInterrupt rq p = ret kernel_interrupt"
| "misc_route_body out ManagerKill rq p = ret manager_kill"
| "misc_route_body out ServerSleep rq p = test_server_sleep (ou_float out) (ou_sleep out) (ou_env out) rq"

primrec device_route_body :: "'d definition_repository \<Rightarrow> outside \<Rightarrow> device_route \<Rightarrow> request \<Rightarrow> principal \<Rightarrow> ('r, 'd, pydict) sv_act" where
  "device_route_body defs out ListDevices rq p = list_devices defs (ou_env out) (ou_object out)"
| "device_route_body defs out CreateDevice rq p = create_device defs (ou_env out) (ou_object out) (ou_world out) rq"
| "device_route_body defs out (GetDevice n) rq p = get_device_route defs (ou_env out) (ou_object out) n"
| "device_route_body defs out (UpdateDevice n) rq p = update_device defs (ou_env out) (ou_object out) (ou_world out) n rq"
| "device_route_body defs out (DeleteDevice n) rq p = delete_device defs (ou_env out) n"
| "device_route_body defs out (InstantiateDevice n) rq p = instantiate_device defs (ou_env out) (ou_object out) (ou_world out) n"
| "device_route_body defs out (RemoveDeviceInstance n) rq p = remove_device_instance defs (ou_env out) (ou_object out) n"

primrec auth_route_body :: "auth_route \<Rightarrow> principal \<Rightarrow> authenticator \<Rightarrow> pyval" where
  "auth_route_body Whoami p a = PDict (whoami p a)"
| "auth_route_body AuthScopes p a = PDict (auth_scopes p)"
| "auth_route_body ApikeyCreate p a = PDict apikey_create"
| "auth_route_body ApikeyGet p a = PDict (apikey_get a)"
| "auth_route_body ApikeyDelete p a = PDict apikey_delete"
| "auth_route_body Logout p a = PDict logout"
| "auth_route_body PrincipalList p a = dicts (principal_list p a)"
| "auth_route_body (PrincipalGet u) p a = PDict (principal_get u p a)"
| "auth_route_body (PrincipalApikey u) p a = PDict principal_apikey"
| "auth_route_body SessionRefresh p a = PDict session_refresh"
| "auth_route_body (SessionRevoke i) p a = PDict session_revoke"

definition with_dict :: "('r, 'd, pydict) sv_act \<Rightarrow> ('r, 'd, pyval) sv_act" where
  "with_dict m = chain m (\<lambda>body. ret (PDict body))"

primrec route_body ::
  "'r queue_repository \<Rightarrow> 'd definition_repository \<Rightarrow> outside \<Rightarrow> route \<Rightarrow> request \<Rightarrow> principal \<Rightarrow> ('r, 'd, pyval) sv_act" where
  "route_body ops defs out (QueueRoute r) = (\<lambda>rq p. with_dict (queue_route_body ops out r rq p))"
| "route_body ops defs out (EngineRoute r) = (\<lambda>rq p. with_dict (engine_route_body ops out r rq p))"
| "route_body ops defs out (ResourceRoute r) = (\<lambda>rq p. with_dict (resource_route_body ops out r rq p))"
| "route_body ops defs out (MiscRoute r) = (\<lambda>rq p. with_dict (misc_route_body out r rq p))"
| "route_body ops defs out (AuthRoute r) = (\<lambda>rq p. get_state (\<lambda>s. auth_route_body r p (sv_auth s)))"
| "route_body ops defs out (DeviceRoute r) = (\<lambda>rq p. with_dict (device_route_body defs out r rq p))"

definition handle_request ::
  "'r queue_repository \<Rightarrow> 'd definition_repository \<Rightarrow> outside \<Rightarrow> route \<Rightarrow> request \<Rightarrow>
   ('r, 'd) services \<Rightarrow> response \<times> ('r, 'd) services" where
  "handle_request ops defs out r rq s =
     (case required_access r of
        Open \<Rightarrow> answer (ou_env out) (route_body ops defs out r rq (new_principal [])) s
      | Caller \<Rightarrow> (case get_principal (sv_auth s) rq of
            Inl d \<Rightarrow> (Denied d, s)
          | Inr p \<Rightarrow> answer (ou_env out) (route_body ops defs out r rq p) s)
      | Scope scope \<Rightarrow> serve (ou_env out) scope rq (route_body ops defs out r rq) s)"

fun handle_requests ::
  "'r queue_repository \<Rightarrow> 'd definition_repository \<Rightarrow> (outside \<times> route \<times> request) list \<Rightarrow>
   ('r, 'd) services \<Rightarrow> response list \<times> ('r, 'd) services" where
  "handle_requests ops defs [] s = ([], s)"
| "handle_requests ops defs ((out, r, rq) # rs) s =
     (let (x, s) = handle_request ops defs out r rq s; (xs, s) = handle_requests ops defs rs s in (x # xs, s))"

end
