(* ===== verification/RouteProperties.thy ===== *)
theory RouteProperties
  imports Routes
begin

section \<open>Properties of the HTTP interface\<close>

text \<open>
  Who gets in; and what no sequence of requests can break, whatever payloads arrive and whichever
  sessions with the database fail.
\<close>

subsection \<open>Access\<close>

lemma scopes_known: "required_access r = Scope sc \<Longrightarrow> sc \<in> set ALL_SCOPES"
proof -
  have q: "queue_route_scope x \<in> set ALL_SCOPES" for x by (cases x) (simp_all add: ALL_SCOPES_def)
  have e: "engine_route_scope x \<in> set ALL_SCOPES" for x by (cases x) (simp_all add: ALL_SCOPES_def)
  have m: "misc_route_scope x \<in> set ALL_SCOPES" for x by (cases x) (simp_all add: ALL_SCOPES_def)
  have d: "device_route_scope x \<in> set ALL_SCOPES" for x by (cases x) (simp_all add: ALL_SCOPES_def)
  have s: "resource_route_scope x = Some y \<Longrightarrow> y \<in> set ALL_SCOPES" for x y by (cases x) (auto simp: ALL_SCOPES_def)
  have a: "auth_route_access x \<noteq> Scope y" for x y by (cases x) simp_all
  assume "required_access r = Scope sc"
  then show ?thesis using q e m d s a by (cases r) (auto split: option.splits)
qed

lemma wrong_key_denied:
  assumes "SingleKeyAuthenticator k False g = Inr (sv_auth s)"
    and "cr_value (from_headers_and_query (rq_headers rq) (rq_query rq)) \<noteq> k" "required_access r \<noteq> Open"
  shows "\<exists>detail. handle_request ops defs out r rq s = (Denied \<lparr>hx_status = 401, hx_detail = detail\<rparr>, s)"
proof -
  let ?given = "cr_value (from_headers_and_query (rq_headers rq) (rq_query rq))"
  have a: "sv_auth s = \<lparr>au_key = k, au_allow_anonymous = False, au_generated = g\<rparr>"
    using assms(1) by (auto simp: SingleKeyAuthenticator_def split: if_splits)
  have "\<exists>e. authenticate (sv_auth s) (from_headers_and_query (rq_headers rq) (rq_query rq)) = Inl e \<and>
      status_code_of (exn_class e) = 401"
    using assms(2) by (simp add: a authenticate_def compare_digest_def)
  then have "\<exists>detail. get_principal (sv_auth s) rq = Inl \<lparr>hx_status = 401, hx_detail = detail\<rparr>"
    by (auto simp: get_principal_def)
  then show ?thesis
    using assms(3) by (cases "required_access r") (auto simp: handle_request_def serve_def require_scope_def)
qed

text \<open>A route that asks for nothing changes nothing.\<close>

lemma open_request: "required_access r = Open \<Longrightarrow> snd (handle_request ops defs out r rq s) = s"
proof -
  assume r: "required_access r = Open"
  have "resource_route_scope x = None \<Longrightarrow> x = Ping" for x by (cases x) simp_all
  with r have "r = ResourceRoute Ping \<or> (\<exists>x. r = AuthRoute x)" by (cases r) (auto split: option.splits)
  with r show ?thesis by (auto simp: handle_request_def answer_def with_dict_def act_simps)
qed

text \<open>
  A request that does not carry the key is refused with status 401 on every route that asks who is
  calling (all but \<open>ping\<close>, the logout and the two routes on sessions), and changes nothing.
\<close>

theorem wrong_key_changes_nothing:
  assumes "SingleKeyAuthenticator k False g = Inr (sv_auth s)"
    and "cr_value (from_headers_and_query (rq_headers rq) (rq_query rq)) \<noteq> k" "required_access r \<noteq> Open"
  shows "\<exists>detail. handle_request ops defs out r rq s = (Denied \<lparr>hx_status = 401, hx_detail = detail\<rparr>, s)"
  using assms by (rule wrong_key_denied)

definition example_outside :: outside where
  "example_outside = \<lparr>ou_env = example_surroundings, ou_world = example_world,
     ou_plan = (\<lambda>_. \<lparr>pv_module = ''lab'', pv_doc = [], pv_is_generator = True, pv_signature = None, pv_default_repr = (\<lambda>_. []),
        pv_annotation = (\<lambda>_. None)\<rparr>),
     ou_object = example_look, ou_refuses = None, ou_float = (\<lambda>_. None), ou_sleep = (\<lambda>_. None)\<rparr>"

lemma example_scope:
  "scope \<in> set ALL_SCOPES \<Longrightarrow> require_scope scope (sv_auth example_services) example_request = Inr (new_principal ''single_user'')"
proof -
  have v: "cr_value (from_headers_and_query [(''authorization'', ''ApiKey key'')] []) = ''key''" by code_simp
  show "scope \<in> set ALL_SCOPES \<Longrightarrow> ?thesis"
    by (simp add: require_scope_def get_principal_def authenticate_def example_services_def example_request_def v
        compare_digest_def is_ascii_def new_principal_def)
qed

theorem wrong_key_changes_nothing_witness:
  "\<exists>detail. handle_request SqlQueueRepository SqlDeviceDefinitionRepository
     example_outside (QueueRoute QueueClear) \<lparr>rq_headers = [], rq_query = [(''api_key'', ''guess'')], rq_body = []\<rparr> example_services =
     (Denied \<lparr>hx_status = 401, hx_detail = detail\<rparr>, example_services)"
proof -
  have "SingleKeyAuthenticator ''key'' False False = Inr (sv_auth example_services)"
    by (simp add: SingleKeyAuthenticator_def example_services_def)
  then show ?thesis
    by (rule wrong_key_changes_nothing) (simp_all add: from_headers_and_query_def text_of_def)
qed

subsection \<open>Preservation through the layers\<close>

lemma keeps_catching [keeps_rules]: "keeps P m \<Longrightarrow> (\<And>e. keeps P (h e)) \<Longrightarrow> keeps P (catching c m h)"
  unfolding catching_def by (intro keeps_rules)

definition definitions_ok :: "(string \<Rightarrow> device_entry option) \<Rightarrow> ('r, database) services \<Rightarrow> bool" where
  "definitions_ok p s \<longleftrightarrow> (case sv_definitions s of
     None \<Rightarrow> profile_entry (sv_registry s) = p
   | Some r \<Rightarrow> device_ok sql_defs (\<lambda>db. defs_valid (db_tables db)) p \<lparr>ds_repo = r, ds_registry = sv_registry s, ds_changes = 0\<rparr>)"

definition services_ok :: "(string \<Rightarrow> device_entry option) \<Rightarrow> (database, database) services \<Rightarrow> bool" where
  "services_ok p s \<longleftrightarrow> sql_valid (qs_repo (queue_service_of s)) \<and> definitions_ok p s"

lemma definitions_ok_frame [simp]:
  "definitions_ok p (s\<lparr>sv_seq := q\<rparr>) = definitions_ok p s"
  "definitions_ok p (s\<lparr>sv_status := st\<rparr>) = definitions_ok p s"
  "definitions_ok p (s\<lparr>sv_shutdowns := n\<rparr>) = definitions_ok p s"
  by (simp_all add: definitions_ok_def split: option.split)

abbreviation keeps_queue :: "(database, 'a) service_act \<Rightarrow> bool" where
  "keeps_queue \<equiv> keeps (\<lambda>s. sql_valid (qs_repo s))"

abbreviation keeps_seq :: "(database, 'a) seq_act \<Rightarrow> bool" where
  "keeps_seq \<equiv> keeps (\<lambda>s. sql_valid (qs_repo (sq_queue s)))"

lemma keeps_via_sequencer [keeps_rules]: "keeps_seq m \<Longrightarrow> keeps (services_ok p) (via_sequencer m)"
  by (simp add: keeps_def services_ok_def via_sequencer_def act_simps)

lemma keeps_seq_on_queue [keeps_rules]: "keeps_queue m \<Longrightarrow> keeps_seq (on_queue m)"
  by (simp add: keeps_def on_queue_def act_simps)

lemma keeps_via_queue [keeps_rules]: "keeps_queue m \<Longrightarrow> keeps (services_ok p) (via_queue m)"
  unfolding via_queue_def by (intro keeps_rules)

lemma keeps_via_host [keeps_rules]: "keeps (services_ok p) (via_host m)"
  by (simp add: keeps_def services_ok_def via_host_def via_sequencer_def act_simps)

lemma keeps_via_devices [keeps_rules]:
  "(\<And>q. keeps (device_ok sql_defs (\<lambda>db. defs_valid (db_tables db)) q) m) \<Longrightarrow> keeps (services_ok p) (via_devices env m)"
proof (rule keepsI)
  fix s assume m: "\<And>q. keeps (device_ok sql_defs (\<lambda>db. defs_valid (db_tables db)) q) m" and s: "services_ok p s"
  show "services_ok p (snd (via_devices env m s))"
  proof (cases "sv_definitions s")
    case None
    with s show ?thesis by (simp add: via_devices_def)
  next
    case (Some r)
    let ?ds = "snd (m \<lparr>ds_repo = r, ds_registry = sv_registry s, ds_changes = 0\<rparr>)"
    from Some s keepsD [OF m [of p], of "\<lparr>ds_repo = r, ds_registry = sv_registry s, ds_changes = 0\<rparr>"]
    have "device_ok sql_defs (\<lambda>db. defs_valid (db_tables db)) p ?ds" by (simp add: services_ok_def definitions_ok_def)
    with Some s show ?thesis
      by (simp add: via_devices_def services_ok_def definitions_ok_def device_ok_def instances_stored_def is_instantiated_def
          case_prod_beta Let_def)
  qed
qed

lemma keeps_in_registry [keeps_rules]: "(\<And>reg. keeps P (f reg)) \<Longrightarrow> keeps P (in_registry f)"
  by (simp add: keeps_def in_registry_def)

lemma keeps_payload [keeps_rules]: "keeps P (payload_of_request env rq)"
  unfolding payload_of_request_def by (intro keeps_rules)

lemma keeps_with_position [keeps_rules]: "(\<And>x b a. keeps P (f x b a)) \<Longrightarrow> keeps P (with_position k payload f)"
  by (simp add: with_position_def)

lemma keeps_pure: "keeps P (\<lambda>s. (f s, s))"
  by (simp add: keeps_def)

lemma keeps_query: "(\<And>x. keeps P (f x)) \<Longrightarrow> keeps P (\<lambda>s. f (g s) s)"
  by (simp add: keeps_def)

lemma keeps_if_state: "keeps P m \<Longrightarrow> keeps P n \<Longrightarrow> keeps P (\<lambda>s. if c s then m s else n s)"
  by (simp add: keeps_def)

lemmas keeps_queue_ops [keeps_rules] = sql.keeps_valid_ops sql.keeps_valid_helpers sql.keeps_valid_methods
  sql.keeps_valid_remove_batch

lemma keeps_queue_methods [keeps_rules]:
  "keeps_queue (items SqlQueueRepository)" "keeps_queue (history SqlQueueRepository)" "keeps_queue (queue_len SqlQueueRepository)"
  "keeps_queue (clear SqlQueueRepository)" "keeps_queue (clear_history SqlQueueRepository)"
  "keeps_queue (push_front SqlQueueRepository it)" "keeps_queue (record_history SqlQueueRepository h)"
  "keeps_queue (add_batch SqlQueueRepository reg fresh its pos b a)"
  unfolding items_def history_def queue_len_def clear_def clear_history_def push_front_def record_history_def add_batch_def
  by (intro keeps_rules)+

lemma keeps_move_behind [keeps_rules]: "keeps_queue (move_behind SqlQueueRepository u us)"
  by (induction us arbitrary: u) (auto intro!: keeps_rules)

lemma keeps_move_all [keeps_rules]: "keeps_queue (move_all SqlQueueRepository us pos b a)"
  unfolding move_all_def by (intro keeps_rules)

lemma keeps_seq_modify: "(\<And>s. sq_queue (f s) = sq_queue s) \<Longrightarrow> keeps_seq (modify f)"
  by (simp add: keeps_def act_simps)

lemma keeps_seq_announce [keeps_rules]: "keeps_seq (announce k q)"
  unfolding announce_def by (rule keeps_seq_modify) simp

lemma keeps_seq_flush [keeps_rules]: "keeps_seq (flush_entries SqlQueueRepository es)"
proof (induction es)
  case Nil
  show ?case unfolding flush_entries.simps by (intro keeps_rules keeps_seq_modify) simp_all
next
  case (Cons e es)
  show ?case
  proof (rule keepsI)
    fix s :: "database sequencer" assume s: "sql_valid (qs_repo (sq_queue s))"
    have "keeps_seq (on_queue (record_history SqlQueueRepository e))" by (intro keeps_rules)
    from keepsD [OF this s] keepsD [OF Cons]
    show "sql_valid (qs_repo (sq_queue (snd (flush_entries SqlQueueRepository (e # es) s))))"
      by (auto split: prod.split sum.split)
  qed
qed

lemma keeps_seq_controls [keeps_rules]:
  "keeps_seq (check_experiment tx pr)" "keeps_seq (flush_pending_history SqlQueueRepository)"
  "keeps_seq queue_stop" "keeps_seq queue_stop_cancel" "keeps_seq (set_loop_mode b)"
  using keepsD [OF keeps_seq_flush]
  by (auto simp: keeps_def check_experiment_def flush_pending_history_def queue_stop_def queue_stop_cancel_def
      set_loop_mode_def announce_def act_simps split: sum.split)

lemma keeps_seq_start [keeps_rules]: "keeps_seq (queue_start SqlQueueRepository tx pr)"
  unfolding queue_start_def by (intro keeps_rules keeps_seq_modify) (simp_all add: keeps_pure)

lemma keeps_seq_execute [keeps_rules]: "keeps_seq (execute_now SqlQueueRepository tx pr it)"
  unfolding execute_now_def by (intro keeps_rules)

lemma keeps_seq_autostart [keeps_rules]: "keeps_seq (set_autostart tx pr enable)"
  unfolding set_autostart_def
  by (intro keeps_rules) (simp add: keeps_def announce_def act_simps)

subsection \<open>The routes\<close>

lemma keeps_refresh [keeps_rules]: "keeps (services_ok p) (refresh_counts SqlQueueRepository)"
proof -
  have "keeps (services_ok p) (modify (\<lambda>s. s\<lparr>sv_status := f s\<rparr>))" for f
    by (simp add: keeps_def act_simps services_ok_def)
  then show ?thesis unfolding refresh_counts_def by (intro keeps_rules)
qed

lemma keeps_snapshot [keeps_rules]: "keeps (services_ok p) (snapshot SqlQueueRepository env)"
proof -
  have "keeps (services_ok p) (\<lambda>s. case experiment_metadata (en_tx env) (en_pr env) (host_of s) of
       Inl e \<Rightarrow> (Inl e, s)
     | Inr experiment \<Rightarrow>
         (let (progress, st) = progress_and_stall env (host_of s) (sv_status s);
              s = s\<lparr>sv_status := st\<rparr>
          in (Inr (status_doc env experiment progress s), s)))"
    by (auto simp: keeps_def services_ok_def Let_def split: sum.split prod.split)
  then show ?thesis unfolding snapshot_def by (intro keeps_rules)
qed

lemma keeps_sum: "(\<And>x. keeps P (f x)) \<Longrightarrow> (\<And>y. keeps P (g y)) \<Longrightarrow> keeps P (case v of Inl x \<Rightarrow> f x | Inr y \<Rightarrow> g y)"
  by (cases v) simp_all

lemma keeps_bodies [keeps_rules]:
  "keeps (services_ok p) (refused_item SqlQueueRepository env payload e)"
  "keeps (services_ok p) (changed_item SqlQueueRepository it)"
  "keeps (services_ok p) (refused_selection SqlQueueRepository env k v e)"
  "keeps (services_ok p) (definition_body look d)"
  unfolding refused_item_def changed_item_def refused_selection_def definition_body_def by (intro keeps_rules)+

text \<open>The bodies of the routes, group by group, for the proofs that go through all of them.\<close>

lemmas queue_route_defs = queue_get_def item_get_def item_get_by_path_def item_add_def
  item_add_batch_def item_update_def item_execute_def item_move_def item_move_batch_def
  item_remove_def item_remove_batch_def queue_clear_def controlled_def queue_start_route_def queue_stop_route_def
  queue_stop_cancel_route_def queue_autostart_def queue_mode_set_def history_get_def history_clear_def Let_def

lemmas engine_route_defs = re_pause_def or_fail_def ok_after_def re_resume_def re_abort_def re_stop_def re_halt_def
  re_metadata_def re_runs_of_def re_runs_def re_runs_active_def re_runs_open_def re_runs_closed_def environment_open_def
  environment_close_def Let_def

lemmas resource_route_defs = config_get_def plans_allowed_def plans_existing_def plans_body_def devices_allowed_def
  devices_existing_def devices_body_def

lemmas misc_route_defs = task_status_def task_result_def console_output_def console_output_uid_def
  console_output_update_def test_server_sleep_def Let_def

lemmas device_route_defs = create_device_def get_device_route_def update_device_def delete_device_def
  instantiate_device_def remove_device_instance_def or_fail_def ok_after_def fail_text_def Let_def

lemma keeps_queue_routes:
  "keeps (services_ok p) (queue_route_body SqlQueueRepository out r rq q)"
  by (cases r; simp only: queue_route_body.simps queue_route_defs; intro keeps_rules)

lemma keeps_engine_routes:
  "keeps (services_ok p) (engine_route_body SqlQueueRepository out r rq q)"
  by (cases r; simp only: engine_route_body.simps engine_route_defs; intro keeps_rules keeps_pure)

lemma keeps_resource_routes:
  "keeps (services_ok p) (resource_route_body SqlQueueRepository out r rq q)"
  by (cases r; simp only: resource_route_body.simps resource_route_defs; intro keeps_rules)

lemma keeps_misc_routes: "keeps (services_ok p) (misc_route_body out r rq q)"
proof -
  have stop: "keeps (services_ok p) (manager_stop env rq)" for env
    unfolding manager_stop_def
    by (intro keeps_chain keeps_payload) (simp add: keeps_def services_ok_def)
  show ?thesis by (cases r; simp only: misc_route_body.simps misc_route_defs; intro keeps_rules stop)
qed

lemmas keeps_device_ops = sqldefs.keeps_ok_read sqldefs.keeps_ok_get sqldefs.keeps_ok_create sqldefs.keeps_ok_update
  sqldefs.keeps_ok_remove sqldefs.keeps_ok_instantiate sqldefs.keeps_ok_delete

lemma keeps_device_routes:
  "keeps (services_ok p) (device_route_body SqlDeviceDefinitionRepository out r rq q)"
proof -
  have svc: "keeps P with_service" for P :: "(database, database) services \<Rightarrow> bool"
    by (simp add: keeps_def with_service_def)
  have inst: "keeps (services_ok p) (\<lambda>s. chain (via_devices env (instantiate SqlDeviceDefinitionRepository w (host_of s) n)) (\<lambda>_. ret ()) s)"
    "keeps (services_ok p) (\<lambda>s. via_devices env (instantiate SqlDeviceDefinitionRepository w (host_of s) n) s)" for env w n
    using keepsD [OF keeps_via_devices [OF sqldefs.keeps_ok_instantiate]]
    by (auto simp: keeps_def act_simps split: sum.split)
  have list: "keeps (services_ok p) (list_devices SqlDeviceDefinitionRepository env look)" for env look
  proof -
    have "keeps (services_ok p) (via_devices env (list_definitions SqlDeviceDefinitionRepository))"
      unfolding list_definitions_def by (intro keeps_via_devices keeps_device_ops)
    from keepsD [OF this] show ?thesis by (auto simp: keeps_def list_devices_def act_simps Let_def split: sum.split)
  qed
  show ?thesis
    by (cases r; simp only: device_route_body.simps device_route_defs; intro keeps_rules svc inst list keeps_device_ops)
qed

lemma keeps_routes: "keeps (services_ok p) (route_body SqlQueueRepository SqlDeviceDefinitionRepository out r rq q)"
proof (cases r)
  case (AuthRoute x)
  then show ?thesis by (simp add: keeps_def act_simps)
qed (simp_all add: with_dict_def keeps_chain keeps_basic keeps_queue_routes keeps_engine_routes keeps_resource_routes keeps_misc_routes
    keeps_device_routes)

lemma keeps_request:
  "services_ok p s \<Longrightarrow> services_ok p (snd (handle_request SqlQueueRepository SqlDeviceDefinitionRepository out r rq s))"
proof -
  assume s: "services_ok p s"
  have "services_ok p (snd (answer env (route_body SqlQueueRepository SqlDeviceDefinitionRepository out r rq q) s))" for env q
    using keepsD [OF keeps_routes s] by simp
  then show ?thesis using s by (simp add: handle_request_def serve_def split: access.split sum.split)
qed

lemma handle_requests_ok:
  "services_ok p s \<Longrightarrow>
   services_ok p (snd (handle_requests SqlQueueRepository SqlDeviceDefinitionRepository requests s))"
proof (induction requests arbitrary: s)
  case Nil
  then show ?case by simp
next
  case (Cons x xs)
  obtain out r rq where x: "x = (out, r, rq)" by (cases x)
  with Cons.IH [OF keeps_request [OF Cons.prems, of out r rq]] show ?case by (simp add: case_prod_beta Let_def)
qed

text \<open>
  Whatever requests arrive, with whatever payloads and from whoever, and whichever sessions with the
  database fail on the way: the tables of the queue stay consistent, every live device has a stored
  definition, and the devices of the profile are those of before.
\<close>

theorem requests_keep_invariants:
  "services_ok p s \<Longrightarrow>
   services_ok p (snd (handle_requests SqlQueueRepository SqlDeviceDefinitionRepository requests s))"
  by (rule handle_requests_ok)

lemma example_services_ok: "services_ok (profile_entry example_registry) example_services"
proof -
  have "sql_valid (qs_repo example_service)" using example_ready by (simp only: sql_ready_def)
  moreover have "definitions_ok (profile_entry example_registry) example_services"
    by (simp add: definitions_ok_def example_services_def)
  ultimately show ?thesis by (simp add: services_ok_def)
qed

theorem requests_keep_invariants_witness:
  "sql_valid (qs_repo (queue_service_of (snd (handle_requests SqlQueueRepository SqlDeviceDefinitionRepository
     [(example_outside, QueueRoute ItemMoveBatch, example_request), (example_outside, DeviceRoute (UpdateDevice ''m1''), example_request)] example_services))))"
  using requests_keep_invariants [OF example_services_ok,
    of "[(example_outside, QueueRoute ItemMoveBatch, example_request), (example_outside, DeviceRoute (UpdateDevice ''m1''), example_request)]"]
  by (simp add: services_ok_def)

end
