(* ===== verification/ServiceMachine.thy ===== *)
theory ServiceMachine
  imports RouteProperties SequencerControl
begin

section \<open>The whole service: requests among the steps of the loop (\<open>runtime/compose.py\<close>)\<close>

text \<open>
  The composed service as one state machine: the object behind the routes, the place where the loop's
  thread stands, the items it has started and the answers given so far. A step is a request, one of
  the three steps of the loop's thread, or a change of the engine. Requests and the loop work on the same
  sequencer, queue and registry; any session with the database may fail in any of them.

  The locale \<open>route_contract\<close> says what the routes need so that no request breaks a property of
  the sequencer; each interpretation gives the property for every route at once.
\<close>

datatype service_event =
    Ask outside route request
  | LoopChecks
  | LoopTakes rat
  | LoopFinishes "nat \<Rightarrow> string \<times> rat" plan_outcome rat rat
  | EngineMoves host

record ('r, 'd) running_service =
  rs_services :: "('r, 'd) services"
  rs_at :: thread_at
  rs_started :: "queue_item list"
  rs_responses :: "response list"

definition machine_of :: "('r, 'd) running_service \<Rightarrow> 'r machine" where
  "machine_of m = \<lparr>mc_seq = sv_seq (rs_services m), mc_at = rs_at m, mc_started = rs_started m\<rparr>"

definition by_machine :: "'r queue_repository \<Rightarrow> texts \<Rightarrow> (fstring \<Rightarrow> string) \<Rightarrow> seq_event \<Rightarrow>
    ('r, 'd) running_service \<Rightarrow> ('r, 'd) running_service" where
  "by_machine ops tx pr ev m =
     (let mc = machine_step ops tx pr ev (machine_of m)
      in m\<lparr>rs_services := (rs_services m)\<lparr>sv_seq := mc_seq mc\<rparr>, rs_at := mc_at mc, rs_started := mc_started mc\<rparr>)"

fun service_step :: "'r queue_repository \<Rightarrow> 'd definition_repository \<Rightarrow> texts \<Rightarrow> (fstring \<Rightarrow> string) \<Rightarrow> service_event \<Rightarrow>
    ('r, 'd) running_service \<Rightarrow> ('r, 'd) running_service" where
  "service_step ops defs tx pr (Ask out r rq) m =
     (let (x, s) = handle_request ops defs out r rq (rs_services m)
      in m\<lparr>rs_services := s, rs_responses := rs_responses m @ [x]\<rparr>)"
| "service_step ops defs tx pr LoopChecks m = by_machine ops tx pr ECheck m"
| "service_step ops defs tx pr (LoopTakes now) m = by_machine ops tx pr (ETake now) m"
| "service_step ops defs tx pr (LoopFinishes fresh oc t1 now) m =
     by_machine ops tx pr (EOutcome (sv_registry (rs_services m)) fresh oc t1 now) m"
| "service_step ops defs tx pr (EngineMoves h) m = by_machine ops tx pr (EHost h) m"

definition run_service :: "'r queue_repository \<Rightarrow> 'd definition_repository \<Rightarrow> texts \<Rightarrow> (fstring \<Rightarrow> string) \<Rightarrow> service_event list \<Rightarrow>
    ('r, 'd) running_service \<Rightarrow> ('r, 'd) running_service" where
  "run_service ops defs tx pr evs m = fold (service_step ops defs tx pr) evs m"

text \<open>A service that has come up: the thread of the loop is at the top of its first pass.\<close>

definition begin_service :: "('r, 'd) services \<Rightarrow> ('r, 'd) running_service" where
  "begin_service s = \<lparr>rs_services = s, rs_at = AtTop, rs_started = [], rs_responses = []\<rparr>"

lemma run_service_simps [simp]:
  "run_service ops defs tx pr [] m = m"
  "run_service ops defs tx pr (e # es) m = run_service ops defs tx pr es (service_step ops defs tx pr e m)"
  by (simp_all add: run_service_def)

lemma run_service_append: "run_service ops defs tx pr (es @ fs) m = run_service ops defs tx pr fs (run_service ops defs tx pr es m)"
  by (simp add: run_service_def)

lemma run_service_invariant:
  assumes "\<And>ev m. ev \<in> set evs \<Longrightarrow> P m \<Longrightarrow> P (service_step ops defs tx pr ev m)" "P m"
  shows "P (run_service ops defs tx pr evs m)"
  using assms by (induction evs arbitrary: m) simp_all

lemma machine_of_simps [simp]:
  "mc_seq (machine_of m) = sv_seq (rs_services m)" "mc_at (machine_of m) = rs_at m" "mc_started (machine_of m) = rs_started m"
  by (simp_all add: machine_of_def)

lemma machine_of_by_machine [simp]: "machine_of (by_machine ops tx pr ev m) = machine_step ops tx pr ev (machine_of m)"
  by (simp add: machine_of_def by_machine_def Let_def)

text \<open>A predicate of the machine holds through the steps of the service if each kind of step keeps it.\<close>

fun is_loop_event :: "seq_event \<Rightarrow> bool" where
  "is_loop_event ECheck = True"
| "is_loop_event (ETake now) = True"
| "is_loop_event (EOutcome reg fresh oc t1 now) = True"
| "is_loop_event (EHost h) = True"
| "is_loop_event e = False"

lemma machine_invariant:
  assumes "\<And>out r rq. ev = Ask out r rq \<Longrightarrow> P (machine_of (service_step ops defs tx pr ev m))"
    and "\<And>e. is_loop_event e \<Longrightarrow> P (machine_step ops tx pr e (machine_of m))"
  shows "P (machine_of (service_step ops defs tx pr ev m))"
  using assms by (cases ev) (simp_all del: machine_step.simps)

fun asks_for :: "(queue_route \<Rightarrow> bool) \<Rightarrow> service_event \<Rightarrow> bool" where
  "asks_for P (Ask out r rq) \<longleftrightarrow> (\<exists>q. r = QueueRoute q \<and> P q)"
| "asks_for P ev \<longleftrightarrow> False"

subsection \<open>What a request may do to the sequencer\<close>

text \<open>No route changes who may call, so the authenticator is carried along.\<close>

definition seq_holds :: "('r sequencer \<Rightarrow> bool) \<Rightarrow> authenticator \<Rightarrow> ('r, 'd) services \<Rightarrow> bool" where
  "seq_holds S a s \<longleftrightarrow> S (sv_seq s) \<and> sv_auth s = a"

lemma on_queue_chain: "on_queue (chain m f) = chain (on_queue m) (\<lambda>x. on_queue (f x))"
  by (rule ext) (simp add: act_simps split: sum.split)

lemma on_queue_ret: "on_queue (ret x) = ret x"
  by (rule ext) (simp add: act_simps)

lemma on_queue_for_each: "on_queue (for_each f xs) = for_each (\<lambda>x. on_queue (f x)) xs"
  by (induction xs) (simp_all add: on_queue_chain on_queue_ret)

lemma keeps_reply: "keeps S (on_queue (reply_with f m)) \<longleftrightarrow> keeps S (on_queue m)"
proof -
  have "snd (on_queue (reply_with f m) s) = snd (on_queue m s)" for s
    by (simp add: reply_with_def act_simps split: sum.split)
  then show ?thesis by (simp add: keeps_def)
qed

locale route_contract =
  fixes ops :: "'r queue_repository"
    and S :: "'r sequencer \<Rightarrow> bool"
    and spared :: "queue_route \<Rightarrow> bool"
  assumes on_host: "S s \<Longrightarrow> S (s\<lparr>sq_host := h\<rparr>)"
    and on_call: "\<not> touches_history c \<Longrightarrow> keeps S (on_queue (run_call ops c))"
    and on_clear_history: "\<not> spared HistoryClear \<Longrightarrow> keeps S (on_queue (run_call ops CClearHistory))"
    and on_start: "\<not> spared QueueStart \<Longrightarrow> keeps S (queue_start ops tx pr)"
    and on_execute: "\<not> spared ItemExecute \<Longrightarrow> keeps S (execute_now ops tx pr it)"
    and on_autostart: "\<not> spared QueueAutostart \<Longrightarrow> keeps S (set_autostart tx pr b)"
    and on_stop: "keeps S queue_stop"
    and on_cancel: "\<not> spared QueueStopCancel \<Longrightarrow> keeps S queue_stop_cancel"
    and on_loop_mode: "keeps S (set_loop_mode b)"
begin

lemma calls:
  "keeps S (on_queue (items ops))" "keeps S (on_queue (get_queued ops u))" "keeps S (on_queue (history ops))"
  "keeps S (on_queue (queue_len ops))" "keeps S (on_queue (add ops reg fresh it pos b a))"
  "keeps S (on_queue (add_batch ops reg freshes its pos b a))" "keeps S (on_queue (update ops reg fresh it replace))"
  "keeps S (on_queue (remove ops u))" "keeps S (on_queue (remove_batch ops us ignore))"
  "keeps S (on_queue (move ops u pos b a))" "keeps S (on_queue (clear ops))"
  using on_call [of CItems] on_call [of "CGet u"] on_call [of CHistory] on_call [of CLen]
    on_call [of "CAdd reg fresh it pos b a"] on_call [of "CAddBatch reg freshes its pos b a"]
    on_call [of "CUpdate reg fresh it replace"] on_call [of "CRemove u"] on_call [of "CRemoveBatch us ignore"]
    on_call [of "CMove u pos b a"] on_call [of CClear]
  by (simp_all add: keeps_reply)

lemma clears_history: "\<not> spared HistoryClear \<Longrightarrow> keeps S (on_queue (clear_history ops))"
  using on_clear_history by (simp add: keeps_reply)

lemma through_sequencer: "keeps S m \<Longrightarrow> keeps (seq_holds S a) (via_sequencer m)"
  by (simp add: keeps_def seq_holds_def via_sequencer_def act_simps)

lemma through_queue: "keeps S (on_queue m) \<Longrightarrow> keeps (seq_holds S a) (via_queue m)"
  unfolding via_queue_def by (rule through_sequencer)

lemma through_host: "keeps (seq_holds S a) (via_host m)"
  using on_host by (simp add: keeps_def seq_holds_def via_host_def via_sequencer_def act_simps)

lemma through_devices: "keeps (seq_holds S a) (via_devices env m)"
  by (auto simp: keeps_def seq_holds_def via_devices_def case_prod_beta Let_def split: option.split)

lemma frame: "(\<And>s. sv_seq (f s) = sv_seq s \<and> sv_auth (f s) = sv_auth s) \<Longrightarrow> keeps (seq_holds S a) (modify f)"
  by (simp add: keeps_def seq_holds_def act_simps)

lemma moves_all: "keeps S (on_queue (move_all ops us pos b a))"
proof -
  have "keeps S (on_queue (move_behind ops u vs))" for u vs
    by (induction vs arbitrary: u) (auto simp: on_queue_ret on_queue_chain intro!: keeps_rules calls)
  then show ?thesis unfolding move_all_def on_queue_chain by (intro keeps_rules calls)
qed

lemma gets_all: "keeps S (on_queue (for_each (get_queued ops) us))"
  unfolding on_queue_for_each by (intro keeps_rules calls)

lemmas route_rules = through_host through_devices through_queue through_sequencer calls moves_all gets_all

lemma refreshes: "keeps (seq_holds S a) (refresh_counts ops)"
  unfolding refresh_counts_def by (intro keeps_rules route_rules frame) simp_all

lemma snapshots: "keeps (seq_holds S a) (snapshot ops env)"
proof -
  have "keeps (seq_holds S a) (\<lambda>s. case experiment_metadata (en_tx env) (en_pr env) (host_of s) of
       Inl e \<Rightarrow> (Inl e, s)
     | Inr experiment \<Rightarrow>
         (let (progress, st) = progress_and_stall env (host_of s) (sv_status s);
              s = s\<lparr>sv_status := st\<rparr>
          in (Inr (status_doc env experiment progress s), s)))"
    by (auto simp: keeps_def seq_holds_def Let_def split: sum.split prod.split)
  then show ?thesis unfolding snapshot_def by (intro keeps_rules refreshes)
qed

lemma bodies:
  "keeps (seq_holds S a) (refused_item ops env payload e)" "keeps (seq_holds S a) (changed_item ops it)"
  "keeps (seq_holds S a) (refused_selection ops env k v e)" "keeps (seq_holds S a) (definition_body look d)"
  unfolding refused_item_def changed_item_def refused_selection_def definition_body_def by (intro keeps_rules route_rules)+

lemma queue_routes: "\<not> spared r \<Longrightarrow> keeps (seq_holds S a) (queue_route_body ops out r rq p)"
  by (cases r; simp only: queue_route_body.simps queue_route_defs;
      intro keeps_rules route_rules snapshots bodies on_stop on_cancel on_loop_mode on_start on_execute on_autostart
        clears_history; simp)

lemma engine_routes: "keeps (seq_holds S a) (engine_route_body ops out r rq p)"
  by (cases r; simp only: engine_route_body.simps engine_route_defs; intro keeps_rules keeps_pure route_rules snapshots)

lemma resource_routes: "keeps (seq_holds S a) (resource_route_body ops out r rq p)"
  by (cases r; simp only: resource_route_body.simps resource_route_defs; intro keeps_rules snapshots)

lemma misc_routes: "keeps (seq_holds S a) (misc_route_body out r rq p)"
proof -
  have stop: "keeps (seq_holds S a) (manager_stop env rq)" for env
    unfolding manager_stop_def
    by (intro keeps_chain keeps_payload) (simp add: keeps_def seq_holds_def)
  show ?thesis by (cases r; simp only: misc_route_body.simps misc_route_defs; intro keeps_rules stop)
qed

lemma device_routes: "keeps (seq_holds S a) (device_route_body defs out r rq p)"
proof -
  have svc: "keeps P with_service" for P :: "('r, 'd) services \<Rightarrow> bool"
    by (simp add: keeps_def with_service_def)
  have inst: "keeps (seq_holds S a) (\<lambda>s. chain (via_devices env (instantiate defs w (host_of s) n)) (\<lambda>_. ret ()) s)"
    "keeps (seq_holds S a) (\<lambda>s. via_devices env (instantiate defs w (host_of s) n) s)" for env w n
    using keepsD [OF through_devices] by (auto simp: keeps_def act_simps split: sum.split)
  have list: "keeps (seq_holds S a) (list_devices defs env look)" for env look
    using keepsD [OF through_devices] by (auto simp: keeps_def list_devices_def act_simps Let_def split: sum.split)
  show ?thesis
    by (cases r; simp only: device_route_body.simps device_route_defs; intro keeps_rules route_rules bodies svc inst list)
qed

lemma routes: "\<forall>q. r = QueueRoute q \<longrightarrow> \<not> spared q \<Longrightarrow> keeps (seq_holds S a) (route_body ops defs out r rq p)"
  by (cases r)
    (simp_all add: with_dict_def keeps_chain keeps_basic queue_routes engine_routes resource_routes misc_routes device_routes)

lemma request:
  assumes "\<forall>q. r = QueueRoute q \<longrightarrow> \<not> spared q" "S (sv_seq s)"
  shows "S (sv_seq (snd (handle_request ops defs out r rq s)))" "sv_auth (snd (handle_request ops defs out r rq s)) = sv_auth s"
proof -
  have "seq_holds S (sv_auth s) (snd (answer env (route_body ops defs out r rq q) s))" for env q
    using keepsD [OF routes [OF assms(1)], of "sv_auth s" s defs out rq q] assms(2) by (simp add: seq_holds_def)
  then show "S (sv_seq (snd (handle_request ops defs out r rq s)))" "sv_auth (snd (handle_request ops defs out r rq s)) = sv_auth s"
    using assms(2) by (simp_all add: seq_holds_def handle_request_def serve_def split: access.split sum.split)
qed

end

text \<open>The trivial property holds of every repository: no request changes who may call.\<close>

interpretation any_request: route_contract ops "\<lambda>_. True" "\<lambda>_. False" for ops :: "'r queue_repository"
  by unfold_locales (simp_all add: keeps_def)

lemma auth_by_machine [simp]: "sv_auth (rs_services (by_machine ops tx pr ev m)) = sv_auth (rs_services m)"
  by (simp add: by_machine_def Let_def)

lemma auth_step: "sv_auth (rs_services (service_step ops defs tx pr ev m)) = sv_auth (rs_services m)"
  by (cases ev) (simp_all add: case_prod_beta any_request.request(2))

end
