(* ===== verification/ServiceRefinement.thy ===== *)
theory ServiceRefinement
  imports ServiceMachine
begin

section \<open>The whole service over any repository is the service over a list\<close>

text \<open>
  The composed service of \<open>ServiceMachine\<close> is written against the interface of the queue repository. Run
  over a repository that keeps the contract, it does what the same service does over the abstract list: same
  answers to every request, same items started, corresponding states, event by event. \<open>tracks\<close> is the simulation of
  one action by another along a function of the state; its rules follow the way actions are built.
\<close>

definition tracks :: "('s \<Rightarrow> 't) \<Rightarrow> ('s \<Rightarrow> bool) \<Rightarrow> ('s, exn, 'a) act \<Rightarrow> ('t, exn, 'a) act \<Rightarrow> bool" where
  "tracks A ok m n \<longleftrightarrow> (\<forall>s. ok s \<longrightarrow> fst (m s) = fst (n (A s)) \<and> A (snd (m s)) = snd (n (A s)) \<and> ok (snd (m s)))"

named_theorems track_rules \<open>simulation of actions, constructor by constructor\<close>

lemma trackI:
  "(\<And>s. ok s \<Longrightarrow> fst (m s) = fst (n (A s)) \<and> A (snd (m s)) = snd (n (A s)) \<and> ok (snd (m s))) \<Longrightarrow> tracks A ok m n"
  by (simp add: tracks_def)

lemma trackD:
  assumes "tracks A ok m n" "ok s"
  shows "fst (m s) = fst (n (A s))" "A (snd (m s)) = snd (n (A s))" "ok (snd (m s))"
  using assms by (auto simp: tracks_def)

lemma track_basic [track_rules]:
  "tracks A ok (ret x) (ret x)" "tracks A ok (throw e) (throw e)" "tracks A ok (lift_result r) (lift_result r)"
  by (simp_all add: tracks_def act_simps)

lemma track_get: "(\<And>s. f s = g (A s)) \<Longrightarrow> tracks A ok (get_state f) (get_state g)"
  by (simp add: tracks_def act_simps)

lemma track_modify: "(\<And>s. A (f s) = g (A s)) \<Longrightarrow> (\<And>s. ok s \<Longrightarrow> ok (f s)) \<Longrightarrow> tracks A ok (modify f) (modify g)"
  by (simp add: tracks_def act_simps)

lemma track_chain [track_rules]:
  assumes m: "tracks A ok m n" and f: "\<And>x. tracks A ok (f x) (g x)"
  shows "tracks A ok (chain m f) (chain n g)"
proof (rule trackI)
  fix s assume s: "ok s"
  note first = trackD [OF m s]
  show "fst (chain m f s) = fst (chain n g (A s)) \<and> A (snd (chain m f s)) = snd (chain n g (A s)) \<and> ok (snd (chain m f s))"
    using first trackD [OF f first(3)] by (simp add: act_simps split: sum.split)
qed

lemma track_handle [track_rules]:
  assumes m: "tracks A ok m n" and f: "\<And>e. tracks A ok (f e) (g e)"
  shows "tracks A ok (handle m f) (handle n g)"
proof (rule trackI)
  fix s assume s: "ok s"
  note first = trackD [OF m s]
  show "fst (handle m f s) = fst (handle n g (A s)) \<and> A (snd (handle m f s)) = snd (handle n g (A s)) \<and> ok (snd (handle m f s))"
    using first trackD [OF f first(3)] by (simp add: act_simps split: sum.split)
qed

lemma track_if [track_rules]:
  "tracks A ok m n \<Longrightarrow> tracks A ok m' n' \<Longrightarrow> tracks A ok (if b then m else m') (if b then n else n')"
  by simp

lemma track_catching [track_rules]:
  "tracks A ok m n \<Longrightarrow> (\<And>e. tracks A ok (h e) (k e)) \<Longrightarrow> tracks A ok (catching c m h) (catching c n k)"
  unfolding catching_def by (intro track_rules)

lemma track_option [track_rules]:
  "tracks A ok m n \<Longrightarrow> (\<And>y. tracks A ok (f y) (g y)) \<Longrightarrow>
   tracks A ok (case x of None \<Rightarrow> m | Some y \<Rightarrow> f y) (case x of None \<Rightarrow> n | Some y \<Rightarrow> g y)"
  by (cases x) simp_all

lemma track_prod [track_rules]:
  "(\<And>a b. tracks A ok (f a b) (g a b)) \<Longrightarrow> tracks A ok (case p of (a, b) \<Rightarrow> f a b) (case p of (a, b) \<Rightarrow> g a b)"
  by (cases p) simp

text \<open>An action that reads the state it runs in.\<close>

lemma track_read:
  assumes "\<And>v. tracks A ok (f v) (g v)" "\<And>s. ok s \<Longrightarrow> u s = w (A s)"
  shows "tracks A ok (\<lambda>s. f (u s) s) (\<lambda>s. g (w s) s)"
  using assms by (simp add: tracks_def)

subsection \<open>The abstract sequencer and the abstract services\<close>

definition abs_seq :: "('r \<Rightarrow> store) \<Rightarrow> 'r sequencer \<Rightarrow> store sequencer" where
  "abs_seq absq s = \<lparr>sq_queue = abs_service absq (sq_queue s), sq_host = sq_host s, sq_require_synced = sq_require_synced s,
     sq_pending_history = sq_pending_history s, sq_database_error = sq_database_error s, sq_running = sq_running s,
     sq_stop_pending = sq_stop_pending s, sq_autostart = sq_autostart s, sq_loop_mode = sq_loop_mode s, sq_closing = sq_closing s,
     sq_thread_started = sq_thread_started s, sq_running_item = sq_running_item s, sq_last_error = sq_last_error s,
     sq_events = sq_events s\<rparr>"

lemma abs_seq_fields [simp]:
  "sq_queue (abs_seq absq s) = abs_service absq (sq_queue s)" "sq_host (abs_seq absq s) = sq_host s"
  "sq_require_synced (abs_seq absq s) = sq_require_synced s" "sq_pending_history (abs_seq absq s) = sq_pending_history s"
  "sq_database_error (abs_seq absq s) = sq_database_error s" "sq_running (abs_seq absq s) = sq_running s"
  "sq_stop_pending (abs_seq absq s) = sq_stop_pending s" "sq_autostart (abs_seq absq s) = sq_autostart s"
  "sq_loop_mode (abs_seq absq s) = sq_loop_mode s" "sq_closing (abs_seq absq s) = sq_closing s"
  "sq_thread_started (abs_seq absq s) = sq_thread_started s" "sq_running_item (abs_seq absq s) = sq_running_item s"
  "sq_last_error (abs_seq absq s) = sq_last_error s" "sq_events (abs_seq absq s) = sq_events s"
  by (simp_all add: abs_seq_def)

lemma abs_seq_updates [simp]:
  "abs_seq absq (s\<lparr>sq_queue := q\<rparr>) = (abs_seq absq s)\<lparr>sq_queue := abs_service absq q\<rparr>"
  "abs_seq absq (s\<lparr>sq_host := h\<rparr>) = (abs_seq absq s)\<lparr>sq_host := h\<rparr>"
  "abs_seq absq (s\<lparr>sq_pending_history := p\<rparr>) = (abs_seq absq s)\<lparr>sq_pending_history := p\<rparr>"
  "abs_seq absq (s\<lparr>sq_database_error := d\<rparr>) = (abs_seq absq s)\<lparr>sq_database_error := d\<rparr>"
  "abs_seq absq (s\<lparr>sq_running := b\<rparr>) = (abs_seq absq s)\<lparr>sq_running := b\<rparr>"
  "abs_seq absq (s\<lparr>sq_stop_pending := b\<rparr>) = (abs_seq absq s)\<lparr>sq_stop_pending := b\<rparr>"
  "abs_seq absq (s\<lparr>sq_autostart := b\<rparr>) = (abs_seq absq s)\<lparr>sq_autostart := b\<rparr>"
  "abs_seq absq (s\<lparr>sq_loop_mode := b\<rparr>) = (abs_seq absq s)\<lparr>sq_loop_mode := b\<rparr>"
  "abs_seq absq (s\<lparr>sq_closing := b\<rparr>) = (abs_seq absq s)\<lparr>sq_closing := b\<rparr>"
  "abs_seq absq (s\<lparr>sq_running_item := i\<rparr>) = (abs_seq absq s)\<lparr>sq_running_item := i\<rparr>"
  "abs_seq absq (s\<lparr>sq_last_error := l\<rparr>) = (abs_seq absq s)\<lparr>sq_last_error := l\<rparr>"
  "abs_seq absq (s\<lparr>sq_events := es\<rparr>) = (abs_seq absq s)\<lparr>sq_events := es\<rparr>"
  by (simp_all add: abs_seq_def)

definition abs_services :: "('r \<Rightarrow> store) \<Rightarrow> ('r, 'd) services \<Rightarrow> (store, 'd) services" where
  "abs_services absq s = \<lparr>sv_seq = abs_seq absq (sv_seq s), sv_status = sv_status s, sv_registry = sv_registry s, sv_auth = sv_auth s,
     sv_console = sv_console s, sv_definitions = sv_definitions s, sv_device_max_depth = sv_device_max_depth s,
     sv_config = sv_config s, sv_has_shutdown = sv_has_shutdown s, sv_shutdowns = sv_shutdowns s\<rparr>"

definition abs_machine :: "('r \<Rightarrow> store) \<Rightarrow> 'r machine \<Rightarrow> store machine" where
  "abs_machine absq mc = \<lparr>mc_seq = abs_seq absq (mc_seq mc), mc_at = mc_at mc, mc_started = mc_started mc\<rparr>"

lemma abs_machine_simps [simp]:
  "mc_seq (abs_machine absq mc) = abs_seq absq (mc_seq mc)" "mc_at (abs_machine absq mc) = mc_at mc"
  "mc_started (abs_machine absq mc) = mc_started mc"
  "abs_machine absq (mc\<lparr>mc_seq := s\<rparr>) = (abs_machine absq mc)\<lparr>mc_seq := abs_seq absq s\<rparr>"
  "abs_machine absq (mc\<lparr>mc_at := p\<rparr>) = (abs_machine absq mc)\<lparr>mc_at := p\<rparr>"
  "abs_machine absq (mc\<lparr>mc_started := its\<rparr>) = (abs_machine absq mc)\<lparr>mc_started := its\<rparr>"
  by (simp_all add: abs_machine_def)

definition abs_running :: "('r \<Rightarrow> store) \<Rightarrow> ('r, 'd) running_service \<Rightarrow> (store, 'd) running_service" where
  "abs_running absq m = \<lparr>rs_services = abs_services absq (rs_services m), rs_at = rs_at m, rs_started = rs_started m,
     rs_responses = rs_responses m\<rparr>"

lemma abs_running_fields:
  "rs_responses (abs_running absq m) = rs_responses m" "rs_started (abs_running absq m) = rs_started m"
  by (simp_all add: abs_running_def)

lemma abs_services_fields [simp]:
  "sv_seq (abs_services absq s) = abs_seq absq (sv_seq s)" "sv_status (abs_services absq s) = sv_status s"
  "sv_registry (abs_services absq s) = sv_registry s" "sv_auth (abs_services absq s) = sv_auth s"
  "sv_console (abs_services absq s) = sv_console s" "sv_definitions (abs_services absq s) = sv_definitions s"
  "sv_device_max_depth (abs_services absq s) = sv_device_max_depth s" "sv_config (abs_services absq s) = sv_config s"
  "sv_has_shutdown (abs_services absq s) = sv_has_shutdown s" "sv_shutdowns (abs_services absq s) = sv_shutdowns s"
  by (simp_all add: abs_services_def)

lemma abs_services_updates [simp]:
  "abs_services absq (s\<lparr>sv_seq := q\<rparr>) = (abs_services absq s)\<lparr>sv_seq := abs_seq absq q\<rparr>"
  "abs_services absq (s\<lparr>sv_status := st\<rparr>) = (abs_services absq s)\<lparr>sv_status := st\<rparr>"
  "abs_services absq (s\<lparr>sv_registry := reg\<rparr>) = (abs_services absq s)\<lparr>sv_registry := reg\<rparr>"
  "abs_services absq (s\<lparr>sv_definitions := ds\<rparr>) = (abs_services absq s)\<lparr>sv_definitions := ds\<rparr>"
  "abs_services absq (s\<lparr>sv_shutdowns := n\<rparr>) = (abs_services absq s)\<lparr>sv_shutdowns := n\<rparr>"
  by (simp_all add: abs_services_def)

text \<open>What the documents show does not depend on the repository.\<close>

lemma abs_views [simp]:
  "running_item (abs_services absq s) = running_item s" "run_list option (abs_services absq s) = run_list option s"
  "status_doc env experiment progress (abs_services absq s) = status_doc env experiment progress s"
  "entry_of look d (abs_services absq s) = entry_of look d s"
  by (simp_all add: running_item_def run_list_def status_doc_def status_qs_def manager_state_def env_state_def entry_of_def Let_def
      split: option.split)

lemma status_doc_later:
  "status_doc env experiment progress ((abs_services absq s)\<lparr>sv_status := st\<rparr>) = status_doc env experiment progress (s\<lparr>sv_status := st\<rparr>)"
  using abs_views(3) [of env _ _ absq "s\<lparr>sv_status := st\<rparr>"] by simp

subsection \<open>Inside the contract of the repository\<close>

context repository
begin

abbreviation live_seq :: "'r sequencer \<Rightarrow> bool" where
  "live_seq s \<equiv> live (qs_repo (sq_queue s))"

abbreviation live_services :: "('r, 'd) services \<Rightarrow> bool" where
  "live_services s \<equiv> live_seq (sv_seq s)"

abbreviation seq_tracks :: "('r, 'a) seq_act \<Rightarrow> (store, 'a) seq_act \<Rightarrow> bool" where
  "seq_tracks \<equiv> tracks (abs_seq absq) live_seq"

abbreviation sv_tracks :: "('r, 'd, 'a) sv_act \<Rightarrow> (store, 'd, 'a) sv_act \<Rightarrow> bool" where
  "sv_tracks \<equiv> tracks (abs_services absq) live_services"

lemma track_on_queue:
  assumes "sim absq live m m'"
  shows "seq_tracks (on_queue m) (on_queue m')"
proof (rule trackI)
  fix s assume "live_seq s"
  from simD [OF assms this] show "fst (on_queue m s) = fst (on_queue m' (abs_seq absq s)) \<and>
      abs_seq absq (snd (on_queue m s)) = snd (on_queue m' (abs_seq absq s)) \<and> live_seq (snd (on_queue m s))"
    by (simp add: act_simps)
qed

lemma sim_methods:
  "sim absq live (items ops) (items spec_ops)" "sim absq live (history ops) (history spec_ops)"
  "sim absq live (queue_len ops) (queue_len spec_ops)" "sim absq live (clear ops) (clear spec_ops)"
  "sim absq live (clear_history ops) (clear_history spec_ops)" "sim absq live (push_front ops it) (push_front spec_ops it)"
  "sim absq live (pop_front ops) (pop_front spec_ops)" "sim absq live (record_history ops h) (record_history spec_ops h)"
  unfolding items_def history_def queue_len_def clear_def clear_history_def push_front_def pop_front_def record_history_def
  by (intro sim_rules)+

lemma track_move_all: "sim absq live (move_all ops us pos b a) (move_all spec_ops us pos b a)"
proof -
  have "sim absq live (move_behind ops u vs) (move_behind spec_ops u vs)" for u vs
    by (induction vs arbitrary: u) (auto intro!: sim_rules)
  then show ?thesis unfolding move_all_def by (intro sim_rules)
qed

lemmas sim_calls = sim_methods track_move_all sim_get sim_add sim_add_batch sim_update sim_remove sim_remove_batch sim_move sim_for_each

lemma seq_track_announce [track_rules]: "seq_tracks (announce k p) (announce k p)"
  unfolding announce_def by (rule track_modify) simp_all

lemma track_flush: "seq_tracks (flush_entries ops es) (flush_entries spec_ops es)"
proof (induction es)
  case Nil
  show ?case unfolding flush_entries.simps by (intro track_rules track_modify) simp_all
next
  case (Cons e es)
  show ?case
  proof (rule trackI)
    fix s assume s: "live_seq s"
    note q = trackD [OF track_on_queue [OF sim_methods(8)] s, of e]
    let ?s = "(snd (on_queue (record_history ops e) s))\<lparr>sq_pending_history := es\<rparr>"
    have "live_seq ?s" using q(3) by simp
    note r = trackD [OF Cons this]
    show "fst (flush_entries ops (e # es) s) = fst (flush_entries spec_ops (e # es) (abs_seq absq s)) \<and>
      abs_seq absq (snd (flush_entries ops (e # es) s)) = snd (flush_entries spec_ops (e # es) (abs_seq absq s)) \<and>
      live_seq (snd (flush_entries ops (e # es) s))"
      using q r by (auto simp: case_prod_beta split: sum.split)
  qed
qed

lemma seq_track_flush [track_rules]: "seq_tracks (flush_pending_history ops) (flush_pending_history spec_ops)"
  unfolding flush_pending_history_def by (rule track_read [OF track_flush]) simp

lemma seq_track_experiment [track_rules]: "seq_tracks (check_experiment tx pr) (check_experiment tx pr)"
  by (rule trackI) (simp add: check_experiment_def split: sum.split)

lemma seq_track_unavailable: "seq_tracks (\<lambda>s. (Inl (database_unavailable s), s)) (\<lambda>s. (Inl (database_unavailable s), s))"
  by (rule trackI) (simp add: database_unavailable_def)

lemma seq_track_start [track_rules]: "seq_tracks (queue_start ops tx pr) (queue_start spec_ops tx pr)"
  unfolding queue_start_def
  by (intro track_rules track_on_queue track_modify track_get seq_track_unavailable sim_calls) simp_all

lemma seq_track_flags [track_rules]:
  "seq_tracks queue_stop queue_stop" "seq_tracks queue_stop_cancel queue_stop_cancel"
  "seq_tracks (set_loop_mode b) (set_loop_mode b)"
  by (rule trackI; simp add: queue_stop_def queue_stop_cancel_def set_loop_mode_def act_simps)+

lemma seq_track_autostart [track_rules]: "seq_tracks (set_autostart tx pr b) (set_autostart tx pr b)"
proof -
  have "seq_tracks (\<lambda>s. announce QUEUE_STATE (queue_state_payload (sq_running s) (sq_stop_pending s) b) (s\<lparr>sq_autostart := b\<rparr>))
     (\<lambda>s. announce QUEUE_STATE (queue_state_payload (sq_running s) (sq_stop_pending s) b) (s\<lparr>sq_autostart := b\<rparr>))"
    by (rule trackI) (simp add: act_simps)
  then show ?thesis unfolding set_autostart_def by (intro track_rules)
qed

lemma seq_track_execute [track_rules]: "seq_tracks (execute_now ops tx pr it) (execute_now spec_ops tx pr it)"
  unfolding execute_now_def by (intro track_rules track_on_queue sim_calls)

text \<open>The steps of the loop.\<close>

lemma seq_track_should_run: "seq_tracks (should_run ops) (should_run spec_ops)"
proof (rule trackI)
  fix s assume s: "live_seq s"
  have start: "seq_tracks
     (chain
       (if b then
          chain (on_queue (queue_len ops)) (\<lambda>n.
          if n > 0 then
            chain (modify (\<lambda>s. s\<lparr>sq_running := True\<rparr>)) (\<lambda>_.
            chain (on_queue (queue_len ops)) (\<lambda>_.
            announce QUEUE_STATE (queue_state_payload True False True)))
          else ret ())
        else ret ())
       (\<lambda>_. get_state (\<lambda>s. sq_running s \<and> h_state (sq_host s) = IDLE)))
     (chain
       (if b then
          chain (on_queue (queue_len spec_ops)) (\<lambda>n.
          if n > 0 then
            chain (modify (\<lambda>s. s\<lparr>sq_running := True\<rparr>)) (\<lambda>_.
            chain (on_queue (queue_len spec_ops)) (\<lambda>_.
            announce QUEUE_STATE (queue_state_payload True False True)))
          else ret ())
        else ret ())
       (\<lambda>_. get_state (\<lambda>s. sq_running s \<and> h_state (sq_host s) = IDLE)))" for b
    by (intro track_rules track_on_queue track_modify track_get sim_calls) simp_all
  show "fst (should_run ops s) = fst (should_run spec_ops (abs_seq absq s)) \<and>
    abs_seq absq (snd (should_run ops s)) = snd (should_run spec_ops (abs_seq absq s)) \<and> live_seq (snd (should_run ops s))"
    using s trackD [OF start s, of "sq_autostart s \<and> \<not> sq_running s"]
    unfolding should_run_def by (simp add: announce_eq basic_eqs chain_eq [of "announce k p" for k p])
qed

lemma seq_track_take: "seq_tracks (take_item ops) (take_item spec_ops)"
proof -
  have "seq_tracks (\<lambda>s. chain (announce QUEUE_STATE (queue_state_payload False False (sq_autostart s) @
            [(''reason'', PV (PStr ''queue empty''))])) (\<lambda>_. ret None) s)
     (\<lambda>s. chain (announce QUEUE_STATE (queue_state_payload False False (sq_autostart s) @
            [(''reason'', PV (PStr ''queue empty''))])) (\<lambda>_. ret (None :: queue_item option)) s)"
    by (rule trackI) (simp add: act_simps)
  then show ?thesis unfolding take_item_def
    by (intro track_rules track_on_queue track_modify sim_calls) simp_all
qed

lemma seq_track_record: "seq_tracks (record_outcome ops it oc t0 now) (record_outcome spec_ops it oc t0 now)"
  unfolding record_outcome_def Let_def by (intro track_rules track_on_queue track_modify sim_calls) simp_all

lemma seq_track_finish: "seq_tracks (finish_item ops tx reg fresh it oc t0 t1 now) (finish_item spec_ops tx reg fresh it oc t0 t1 now)"
proof -
  have "seq_tracks (\<lambda>s. announce QUEUE_STATE (queue_state_payload False False (sq_autostart s) @ ps) s)
     (\<lambda>s. announce QUEUE_STATE (queue_state_payload False False (sq_autostart s) @ ps) s)" for ps
    by (rule trackI) (simp add: act_simps)
  then show ?thesis unfolding finish_item_def safely_def Let_def
    by (intro track_rules seq_track_record track_on_queue track_modify track_get sim_calls) simp_all
qed

text \<open>The routes.\<close>

lemma sv_track_sequencer: "seq_tracks m n \<Longrightarrow> sv_tracks (via_sequencer m) (via_sequencer n)"
  by (simp add: tracks_def via_sequencer_def act_simps)

lemma sv_track_queue: "sim absq live m m' \<Longrightarrow> sv_tracks (via_queue m) (via_queue m')"
  unfolding via_queue_def by (intro sv_track_sequencer track_on_queue)

lemma sv_track_host: "sv_tracks (via_host m) (via_host m)"
  by (rule trackI) (simp add: via_host_def via_sequencer_def act_simps)

lemma sv_track_devices: "sv_tracks (via_devices env m) (via_devices env m)"
  by (rule trackI) (simp add: via_devices_def case_prod_beta Let_def split: option.split)

lemma sv_track_registry: "(\<And>reg. sv_tracks (f reg) (g reg)) \<Longrightarrow> sv_tracks (in_registry f) (in_registry g)"
  by (simp add: tracks_def in_registry_def)

lemma sv_track_payload: "sv_tracks (payload_of_request env rq) (payload_of_request env rq)"
  unfolding payload_of_request_def by (rule track_basic)

lemma sv_track_position: "(\<And>x b a. sv_tracks (f x b a) (g x b a)) \<Longrightarrow> sv_tracks (with_position k payload f) (with_position k payload g)"
  by (simp add: with_position_def)

lemma sv_track_refresh: "sv_tracks (refresh_counts ops) (refresh_counts spec_ops)"
  unfolding refresh_counts_def by (intro track_rules sv_track_queue track_modify sim_calls) simp_all

lemma sv_track_snapshot: "sv_tracks (snapshot ops env) (snapshot spec_ops env)"
proof -
  have "sv_tracks (\<lambda>s. case experiment_metadata (en_tx env) (en_pr env) (host_of s) of
       Inl e \<Rightarrow> (Inl e, s)
     | Inr experiment \<Rightarrow>
         (let (progress, st) = progress_and_stall env (host_of s) (sv_status s);
              s = s\<lparr>sv_status := st\<rparr>
          in (Inr (status_doc env experiment progress s), s)))
     (\<lambda>s. case experiment_metadata (en_tx env) (en_pr env) (host_of s) of
       Inl e \<Rightarrow> (Inl e, s)
     | Inr experiment \<Rightarrow>
         (let (progress, st) = progress_and_stall env (host_of s) (sv_status s);
              s = s\<lparr>sv_status := st\<rparr>
          in (Inr (status_doc env experiment progress s), s)))"
    by (rule trackI) (simp add: Let_def case_prod_beta status_doc_later split: sum.split)
  then show ?thesis unfolding snapshot_def by (intro track_rules sv_track_refresh)
qed

lemmas sv_track_rules = sv_track_sequencer sv_track_queue sv_track_host sv_track_devices sv_track_registry sv_track_payload
  sv_track_position sv_track_snapshot sim_calls

lemma sv_track_bodies:
  "sv_tracks (refused_item ops env payload e) (refused_item spec_ops env payload e)"
  "sv_tracks (changed_item ops it) (changed_item spec_ops it)"
  "sv_tracks (refused_selection ops env k v e) (refused_selection spec_ops env k v e)"
  "sv_tracks (definition_body look d) (definition_body look d)"
  unfolding refused_item_def changed_item_def refused_selection_def definition_body_def
  by (intro track_rules sv_track_rules track_get; simp)+

lemma sv_track_queue_routes: "sv_tracks (queue_route_body ops out r rq p) (queue_route_body spec_ops out r rq p)"
  by (cases r; simp only: queue_route_body.simps queue_route_defs;
      intro track_rules sv_track_rules sv_track_bodies track_get; simp)

lemma sv_track_engine_routes: "sv_tracks (engine_route_body ops out r rq p) (engine_route_body spec_ops out r rq p)"
proof -
  have md: "sv_tracks (\<lambda>s. (engine_metadata tx pr (host_of s), s)) (\<lambda>s. (engine_metadata tx pr (host_of s), s))" for tx pr
    by (rule trackI) simp
  show ?thesis
    by (cases r; simp only: engine_route_body.simps engine_route_defs;
        intro track_rules sv_track_rules track_get md; simp)
qed

lemma sv_track_resource_routes: "sv_tracks (resource_route_body ops out r rq p) (resource_route_body spec_ops out r rq p)"
  by (cases r; simp only: resource_route_body.simps resource_route_defs; intro track_rules sv_track_rules track_get; simp)

lemma sv_track_misc_routes: "sv_tracks (misc_route_body out r rq p) (misc_route_body out r rq p)"
proof -
  have stop: "sv_tracks (manager_stop env rq) (manager_stop env rq)" for env
    unfolding manager_stop_def
    by (intro track_chain sv_track_payload) (auto simp: tracks_def)
  show ?thesis
    by (cases r; simp only: misc_route_body.simps misc_route_defs; intro track_rules sv_track_rules track_get stop; simp)
qed

lemma sv_track_device_routes:
  fixes defs :: "'d definition_repository"
  shows "sv_tracks (device_route_body defs out r rq p) (device_route_body defs out r rq p)"
proof -
  have svc: "sv_tracks with_service (with_service :: (store, 'd, unit) sv_act)"
    by (simp add: tracks_def with_service_def)
  have inst: "sv_tracks (\<lambda>s. chain (via_devices env (instantiate defs w (host_of s) n)) (\<lambda>_. ret ()) s)
      (\<lambda>s. chain (via_devices env (instantiate defs w (host_of s) n)) (\<lambda>_. ret ()) s)"
    "sv_tracks (\<lambda>s. via_devices env (instantiate defs w (host_of s) n) s) (\<lambda>s. via_devices env (instantiate defs w (host_of s) n) s)"
    for env w n
    by (rule track_read, intro track_rules sv_track_devices, simp)+
  have list: "sv_tracks (list_devices defs env look) (list_devices defs env look)" for env look
  proof (rule trackI)
    fix s :: "('r, 'd) services" assume s: "live_services s"
    have "sv_tracks (chain (via_devices env (list_definitions defs)) (\<lambda>ds.
        get_state (\<lambda>s. ok_body [] [(PStr ''definitions'', dicts (map (\<lambda>d. entry_of look d s) ds)), (PStr ''profile_devices'', v)])))
      (chain (via_devices env (list_definitions defs)) (\<lambda>ds.
        get_state (\<lambda>s. ok_body [] [(PStr ''definitions'', dicts (map (\<lambda>d. entry_of look d s) ds)), (PStr ''profile_devices'', v)])))" for v
      by (intro track_rules sv_track_devices track_get) simp
    from trackD [OF this s] s show "fst (list_devices defs env look s) = fst (list_devices defs env look (abs_services absq s)) \<and>
      abs_services absq (snd (list_devices defs env look s)) = snd (list_devices defs env look (abs_services absq s)) \<and>
      live_services (snd (list_devices defs env look s))"
      unfolding list_devices_def Let_def by simp
  qed
  show ?thesis
    by (cases r; simp only: device_route_body.simps device_route_defs;
        intro track_rules sv_track_rules sv_track_bodies svc inst list; simp)
qed

lemma sv_track_routes: "sv_tracks (route_body ops defs out r rq p) (route_body spec_ops defs out r rq p)"
  by (cases r; simp only: route_body.simps with_dict_def;
      intro track_rules track_get sv_track_queue_routes sv_track_engine_routes sv_track_resource_routes sv_track_misc_routes
        sv_track_device_routes; simp)

lemma request_tracks:
  assumes "live_services s"
  shows "fst (handle_request ops defs out r rq s) = fst (handle_request spec_ops defs out r rq (abs_services absq s))"
    "abs_services absq (snd (handle_request ops defs out r rq s)) = snd (handle_request spec_ops defs out r rq (abs_services absq s))"
    "live_services (snd (handle_request ops defs out r rq s))"
proof -
  have a: "fst (answer env (route_body ops defs out r rq p) s) =
      fst (answer env (route_body spec_ops defs out r rq p) (abs_services absq s)) \<and>
    abs_services absq (snd (answer env (route_body ops defs out r rq p) s)) =
      snd (answer env (route_body spec_ops defs out r rq p) (abs_services absq s)) \<and>
    live_services (snd (answer env (route_body ops defs out r rq p) s))" for env p
    using trackD [OF sv_track_routes assms] by (simp add: answer_eq)
  show "fst (handle_request ops defs out r rq s) = fst (handle_request spec_ops defs out r rq (abs_services absq s))"
    "abs_services absq (snd (handle_request ops defs out r rq s)) = snd (handle_request spec_ops defs out r rq (abs_services absq s))"
    "live_services (snd (handle_request ops defs out r rq s))"
    using a assms by (simp_all add: handle_request_def serve_def split: access.split sum.split)
qed

text \<open>The steps of the machine.\<close>

lemma machine_tracks:
  assumes "live_seq (mc_seq mc)" "is_loop_event ev"
  shows "abs_machine absq (machine_step ops tx pr ev mc) = machine_step spec_ops tx pr ev (abs_machine absq mc)"
    "live_seq (mc_seq (machine_step ops tx pr ev mc))"
proof -
  have "abs_machine absq (machine_step ops tx pr ev mc) = machine_step spec_ops tx pr ev (abs_machine absq mc) \<and>
    live_seq (mc_seq (machine_step ops tx pr ev mc))"
  proof (cases ev)
    case ECheck
    from trackD [OF seq_track_should_run assms(1)] assms(1) show ?thesis
      by (simp add: ECheck case_prod_beta split: sum.split)
  next
    case (ETake now)
    from trackD [OF seq_track_take assms(1)] assms(1) show ?thesis
      by (simp add: ETake case_prod_beta split: sum.split option.split)
  next
    case (EOutcome reg fresh oc t1 now)
    show ?thesis
    proof (cases "mc_at mc")
      case (Busy it t0)
      from trackD [OF seq_track_finish [of tx reg fresh it oc t0 t1 now] assms(1)] assms(1) show ?thesis
        by (simp add: EOutcome Busy case_prod_beta split: sum.split)
    qed (use assms(1) EOutcome in simp_all)
  qed (use assms in simp_all)
  then show "abs_machine absq (machine_step ops tx pr ev mc) = machine_step spec_ops tx pr ev (abs_machine absq mc)"
    "live_seq (mc_seq (machine_step ops tx pr ev mc))" by simp_all
qed

lemma by_machine_tracks:
  assumes "live_services (rs_services m)" "is_loop_event ev"
  shows "abs_running absq (by_machine ops tx pr ev m) = by_machine spec_ops tx pr ev (abs_running absq m)"
    "live_services (rs_services (by_machine ops tx pr ev m))"
proof -
  have l: "live_seq (mc_seq (machine_of m))" using assms(1) by simp
  note t = machine_tracks [OF l assms(2), of tx pr]
  have a: "machine_of (abs_running absq m) = abs_machine absq (machine_of m)"
    by (simp add: machine_of_def abs_running_def abs_machine_def)
  show "abs_running absq (by_machine ops tx pr ev m) = by_machine spec_ops tx pr ev (abs_running absq m)"
    by (simp add: by_machine_def Let_def a t(1) [symmetric]) (simp add: abs_running_def abs_machine_def)
  show "live_services (rs_services (by_machine ops tx pr ev m))"
    using t(2) by (simp add: by_machine_def Let_def)
qed

lemma step_tracks:
  assumes "live_services (rs_services m)"
  shows "abs_running absq (service_step ops defs tx pr ev m) = service_step spec_ops defs tx pr ev (abs_running absq m)"
    "live_services (rs_services (service_step ops defs tx pr ev m))"
proof -
  have "abs_running absq (service_step ops defs tx pr ev m) = service_step spec_ops defs tx pr ev (abs_running absq m) \<and>
    live_services (rs_services (service_step ops defs tx pr ev m))"
  proof (cases ev)
    case (Ask out r rq)
    from request_tracks [OF assms, of defs out r rq] show ?thesis
      by (simp add: Ask case_prod_beta abs_running_def)
  qed (use by_machine_tracks [OF assms] in \<open>simp_all add: abs_running_def\<close>)
  then show "abs_running absq (service_step ops defs tx pr ev m) = service_step spec_ops defs tx pr ev (abs_running absq m)"
    "live_services (rs_services (service_step ops defs tx pr ev m))" by simp_all
qed

lemma run_tracks:
  assumes "live_services (rs_services m)"
  shows "abs_running absq (run_service ops defs tx pr evs m) = run_service spec_ops defs tx pr evs (abs_running absq m) \<and>
    live_services (rs_services (run_service ops defs tx pr evs m))"
  using assms
proof (induction evs arbitrary: m)
  case (Cons ev evs)
  from Cons.IH [OF step_tracks(2) [OF Cons.prems]] step_tracks(1) [OF Cons.prems] show ?case by simp
qed simp

end

subsection \<open>The repositories of the program\<close>

text \<open>
  C1: the service over the tables is the service over a list. With the database up, whatever requests,
  loop steps and engine changes come, in whatever order: every answer, every started item, the place of the loop, and the
  state of every part are those of the same service whose queue and history are two lists.
\<close>

theorem service_over_tables_refines_list:
  assumes "sql_ready (queue_service_of (rs_services m))"
  shows "abs_running sql_abs (run_service SqlQueueRepository defs tx pr evs m) =
    run_service (SpecRepository sql_keep) defs tx pr evs (abs_running sql_abs m)"
proof -
  have "sql_valid (qs_repo (queue_service_of (rs_services m))) \<and> db_up (qs_repo (queue_service_of (rs_services m)))"
    using assms by (simp add: sql_ready_def)
  from sql.run_tracks [OF this, of defs tx pr evs] show ?thesis by simp
qed

theorem service_over_tables_refines_list_witness:
  "rs_responses (run_service SqlQueueRepository SqlDeviceDefinitionRepository example_texts (\<lambda>t. ''text'')
     [Ask example_outside (QueueRoute QueueClear) example_request, LoopChecks] (begin_service example_services)) =
   rs_responses (run_service (SpecRepository sql_keep) SqlDeviceDefinitionRepository example_texts (\<lambda>t. ''text'')
     [Ask example_outside (QueueRoute QueueClear) example_request, LoopChecks] (abs_running sql_abs (begin_service example_services)))"
proof -
  let ?evs = "[Ask example_outside (QueueRoute QueueClear) example_request, LoopChecks]"
  have "sql_ready (queue_service_of (rs_services (begin_service example_services)))"
    by (simp add: begin_service_def)
  from arg_cong [OF service_over_tables_refines_list [OF this, of SqlDeviceDefinitionRepository example_texts "\<lambda>t. ''text''" ?evs],
      of rs_responses]
  show ?thesis by (simp only: abs_running_fields)
qed

text \<open>The two repositories differ in one thing: what becomes of the creation time when an item is replaced in place.\<close>

lemma keep_irrelevant:
  "items (SpecRepository sql_keep) = items (SpecRepository (\<lambda>old new. new))"
  "history (SpecRepository sql_keep) = history (SpecRepository (\<lambda>old new. new))"
  "queue_len (SpecRepository sql_keep) = queue_len (SpecRepository (\<lambda>old new. new))"
  "clear (SpecRepository sql_keep) = clear (SpecRepository (\<lambda>old new. new))"
  "clear_history (SpecRepository sql_keep) = clear_history (SpecRepository (\<lambda>old new. new))"
  "push_front (SpecRepository sql_keep) = push_front (SpecRepository (\<lambda>old new. new))"
  "pop_front (SpecRepository sql_keep) = pop_front (SpecRepository (\<lambda>old new. new))"
  "record_history (SpecRepository sql_keep) = record_history (SpecRepository (\<lambda>old new. new))"
  "get_queued (SpecRepository sql_keep) = get_queued (SpecRepository (\<lambda>old new. new))"
  "index_of (SpecRepository sql_keep) = index_of (SpecRepository (\<lambda>old new. new))"
  "index_of_or_back (SpecRepository sql_keep) = index_of_or_back (SpecRepository (\<lambda>old new. new))"
  by (rule ext)?
    (simp_all add: items_def history_def queue_len_def clear_def clear_history_def push_front_def pop_front_def record_history_def
      get_queued_def index_of_def index_of_or_back_def fun_eq_iff)

lemma keep_irrelevant_resolve:
  "resolve_index (SpecRepository sql_keep) = resolve_index (SpecRepository (\<lambda>old new. new))"
  by (simp add: resolve_index_def keep_irrelevant fun_eq_iff)

lemma keep_irrelevant_methods:
  "add (SpecRepository sql_keep) = add (SpecRepository (\<lambda>old new. new))"
  "remove (SpecRepository sql_keep) = remove (SpecRepository (\<lambda>old new. new))"
  "move (SpecRepository sql_keep) = move (SpecRepository (\<lambda>old new. new))"
  by (simp_all add: add_def remove_def move_def keep_irrelevant keep_irrelevant_resolve fun_eq_iff cong: if_cong)

lemma keep_irrelevant_batches:
  "add_batch (SpecRepository sql_keep) = add_batch (SpecRepository (\<lambda>old new. new))"
  "remove_batch (SpecRepository sql_keep) us ig = remove_batch (SpecRepository (\<lambda>old new. new)) us ig"
  "move_all (SpecRepository sql_keep) us pos b a = move_all (SpecRepository (\<lambda>old new. new)) us pos b a"
proof -
  show "add_batch (SpecRepository sql_keep) = add_batch (SpecRepository (\<lambda>old new. new))"
    by (simp add: add_batch_def keep_irrelevant_methods fun_eq_iff)
  show "remove_batch (SpecRepository sql_keep) us ig = remove_batch (SpecRepository (\<lambda>old new. new)) us ig"
    by (induction us) (simp_all add: keep_irrelevant_methods)
  have "move_behind (SpecRepository sql_keep) u vs = move_behind (SpecRepository (\<lambda>old new. new)) u vs" for u vs
    by (induction vs arbitrary: u) (simp_all add: keep_irrelevant_methods)
  then show "move_all (SpecRepository sql_keep) us pos b a = move_all (SpecRepository (\<lambda>old new. new)) us pos b a"
    by (simp add: move_all_def keep_irrelevant_methods)
qed

lemma keep_irrelevant_loop:
  "flush_entries (SpecRepository sql_keep) es = flush_entries (SpecRepository (\<lambda>old new. new)) es"
  by (induction es) (simp_all add: keep_irrelevant fun_eq_iff case_prod_beta split: sum.split)

lemmas keep_irrelevants = keep_irrelevant keep_irrelevant_resolve keep_irrelevant_methods keep_irrelevant_batches keep_irrelevant_loop

lemma keep_irrelevant_controls:
  "flush_pending_history (SpecRepository sql_keep) = flush_pending_history (SpecRepository (\<lambda>old new. new))"
  "should_run (SpecRepository sql_keep) = should_run (SpecRepository (\<lambda>old new. new))"
  "take_item (SpecRepository sql_keep) = take_item (SpecRepository (\<lambda>old new. new))"
  by (simp_all only: flush_pending_history_def should_run_def take_item_def keep_irrelevants)

lemma keep_irrelevant_record:
  "queue_start (SpecRepository sql_keep) = queue_start (SpecRepository (\<lambda>old new. new))"
  "record_outcome (SpecRepository sql_keep) = record_outcome (SpecRepository (\<lambda>old new. new))"
  "snapshot (SpecRepository sql_keep) = snapshot (SpecRepository (\<lambda>old new. new))"
  by (intro ext; simp only: queue_start_def record_outcome_def snapshot_def refresh_counts_def keep_irrelevants keep_irrelevant_controls)+

lemma keep_irrelevant_finish:
  "execute_now (SpecRepository sql_keep) = execute_now (SpecRepository (\<lambda>old new. new))"
  "finish_item (SpecRepository sql_keep) = finish_item (SpecRepository (\<lambda>old new. new))"
  "refused_item (SpecRepository sql_keep) = refused_item (SpecRepository (\<lambda>old new. new))"
  "refused_selection (SpecRepository sql_keep) = refused_selection (SpecRepository (\<lambda>old new. new))"
  "changed_item (SpecRepository sql_keep) = changed_item (SpecRepository (\<lambda>old new. new))"
  by (intro ext; simp only: execute_now_def finish_item_def refused_item_def refused_selection_def changed_item_def
      keep_irrelevants keep_irrelevant_record)+

lemma keep_irrelevant_routes:
  "r \<noteq> ItemUpdate \<Longrightarrow> queue_route_body (SpecRepository sql_keep) out r rq p = queue_route_body (SpecRepository (\<lambda>old new. new)) out r rq p"
  "engine_route_body (SpecRepository sql_keep) out e rq p = engine_route_body (SpecRepository (\<lambda>old new. new)) out e rq p"
  "resource_route_body (SpecRepository sql_keep) out x rq p = resource_route_body (SpecRepository (\<lambda>old new. new)) out x rq p"
proof -
  note alike = keep_irrelevants keep_irrelevant_record keep_irrelevant_finish
  show "r \<noteq> ItemUpdate \<Longrightarrow> queue_route_body (SpecRepository sql_keep) out r rq p = queue_route_body (SpecRepository (\<lambda>old new. new)) out r rq p"
  proof (cases r)
    case ItemUpdate
    then show "r \<noteq> ItemUpdate \<Longrightarrow> ?thesis" by simp
  qed (simp_all only: queue_route_body.simps queue_route_defs alike cong: if_cong prod.case_cong)
  show "engine_route_body (SpecRepository sql_keep) out e rq p = engine_route_body (SpecRepository (\<lambda>old new. new)) out e rq p"
    by (cases e) (simp_all only: engine_route_body.simps engine_route_defs alike cong: if_cong)
  show "resource_route_body (SpecRepository sql_keep) out x rq p = resource_route_body (SpecRepository (\<lambda>old new. new)) out x rq p"
    by (cases x) (simp_all only: resource_route_body.simps resource_route_defs alike)
qed

lemma keep_irrelevant_step:
  assumes "\<not> asks_for (\<lambda>r. r = ItemUpdate) ev"
  shows "service_step (SpecRepository sql_keep) defs tx pr ev m = service_step (SpecRepository (\<lambda>old new. new)) defs tx pr ev m"
proof (cases ev)
  case (Ask out r rq)
  with assms have "route_body (SpecRepository sql_keep) defs out r rq p = route_body (SpecRepository (\<lambda>old new. new)) defs out r rq p" for p
    by (cases r) (simp_all add: keep_irrelevant_routes)
  then have "route_body (SpecRepository sql_keep) defs out r rq = route_body (SpecRepository (\<lambda>old new. new)) defs out r rq" by (rule ext)
  then have "handle_request (SpecRepository sql_keep) defs out r rq = handle_request (SpecRepository (\<lambda>old new. new)) defs out r rq"
    unfolding handle_request_def by (simp only:)
  then show ?thesis by (simp add: Ask)
next
  case (LoopFinishes fresh oc t1 now)
  show ?thesis by (cases "rs_at m") (simp_all add: LoopFinishes by_machine_def keep_irrelevant_finish)
qed (simp_all add: by_machine_def keep_irrelevant_controls)


text \<open>The service of the witnesses, its queue on Python lists.\<close>

definition example_listed :: "(memory_repo, database) services" where
  "example_listed = \<lparr>sv_seq = Sequencer_init
       \<lparr>qs_repo = \<lparr>mem_items = sql_queue example_service, mem_history = sql_history example_service\<rparr>,
        qs_revision = qs_revision example_service\<rparr> example_host False,
     sv_status = sv_status example_services, sv_registry = sv_registry example_services, sv_auth = sv_auth example_services,
     sv_console = sv_console example_services, sv_definitions = sv_definitions example_services,
     sv_device_max_depth = sv_device_max_depth example_services, sv_config = sv_config example_services,
     sv_has_shutdown = sv_has_shutdown example_services, sv_shutdowns = sv_shutdowns example_services\<rparr>"


end
