(* ===== verification/Config.thy ===== *)
theory Config
  imports ApiBasics
begin

section \<open>Configuration (\<open>runtime/config.py\<close>)\<close>

text \<open>
  Defaults, a YAML file, the environment and the overrides of the command line, in this order. The
  fields of a section are set by name (\<open>setattr\<close>) and a file may give them any value, so a section is
  the association list of its fields. \<open>config_world\<close> is what is outside the program: the file system
  as far as it is read, \<open>yaml.safe_load\<close>, \<open>float\<close> on strings, and whether the settings can be dumped.
\<close>

subsection \<open>String methods used here\<close>

text \<open>\<open>s.split()\<close>.\<close>

definition add_word :: "string \<Rightarrow> string list \<Rightarrow> string list" where
  "add_word w ws = (if w = [] then ws else w # ws)"

fun split_words :: "string \<Rightarrow> string \<Rightarrow> string list" where
  "split_words acc [] = add_word acc []"
| "split_words acc (c # cs) =
     (if is_space c then add_word acc (split_words [] cs) else split_words (acc @ [c]) cs)"

definition starts_with :: "string \<Rightarrow> string \<Rightarrow> bool" where
  "starts_with p s \<longleftrightarrow> take (length p) s = p"

text \<open>The character \<open>U+2026\<close>, in UTF-8.\<close>

definition ellipsis :: string where
  "ellipsis = map char_of [226 :: nat, 128, 166]"

subsection \<open>The sections and their defaults\<close>

type_synonym settings = "(string \<times> pyval) list"

definition NOT_APPLICABLE_PREFIXES :: "string list" where
  "NOT_APPLICABLE_PREFIXES = [''QSERVER_ZMQ_'', ''QSERVER_IPYTHON_KERNEL_'']"

definition NOT_APPLICABLE_VARS :: "string list" where
  "NOT_APPLICABLE_VARS = [''QSERVER_EMERGENCY_LOCK_KEY_FOR_SERVER'', ''QSERVER_USE_IPYTHON_KERNEL'']"

definition truthy_text :: "string \<Rightarrow> bool" where
  "truthy_text value \<longleftrightarrow> lower (strip value) \<in> {''1'', ''true'', ''yes'', ''on'', ''y'', ''t''}"

definition StartupConfig :: settings where
  "StartupConfig = [(''kind'', PStr ''ipython''), (''startup_dir'', PNone), (''startup_module'', PNone),
     (''happi_path'', PNone), (''device_max_depth'', PInt 2)]"

definition DatabaseConfig :: settings where
  "DatabaseConfig = [(''url'', PStr ''sqlite:///qs.sqlite'')]"

definition HttpConfig :: settings where
  "HttpConfig = [(''host'', PStr ''127.0.0.1''), (''port'', PInt 60610), (''api_key'', PNone), (''allow_anonymous'', PBool False),
     (''allow_origins'', PList []), (''response_bytesize_limit'', PInt 300000000), (''smoke_page'', PBool True)]"

definition EngineConfig :: settings where
  "EngineConfig = [(''stream_device_progress'', PBool False), (''progress_min_update_period'', PFloat (1 / 5)),
     (''permitted_re_metadata_keys'', PList [PStr ''/'']), (''capture_console'', PBool True), (''stall_after'', PFloat 300),
     (''require_synced_experiment'', PBool False)]"

definition TiledConfig :: settings where
  "TiledConfig = [(''uri'', PNone), (''api_key_env'', PNone), (''api_key'', PNone)]"

record config =
  cf_startup :: settings
  cf_database :: settings
  cf_http :: settings
  cf_engine :: settings
  cf_tiled :: settings
  cf_config_path :: "string option"
  cf_ignored :: "string list"

definition Config_init :: config where
  "Config_init = \<lparr>cf_startup = StartupConfig, cf_database = DatabaseConfig, cf_http = HttpConfig, cf_engine = EngineConfig,
     cf_tiled = TiledConfig, cf_config_path = None, cf_ignored = []\<rparr>"

definition SECTIONS :: "string list" where
  "SECTIONS = [''startup'', ''database'', ''http'', ''engine'', ''tiled'']"

text \<open>\<open>getattr(config, name)\<close> for the names of the sections, and the section put back.\<close>

definition section_of :: "string \<Rightarrow> config \<Rightarrow> settings option" where
  "section_of name c =
     (if name = ''startup'' then Some (cf_startup c) else if name = ''database'' then Some (cf_database c)
      else if name = ''http'' then Some (cf_http c) else if name = ''engine'' then Some (cf_engine c)
      else if name = ''tiled'' then Some (cf_tiled c) else None)"

definition with_section :: "string \<Rightarrow> settings \<Rightarrow> config \<Rightarrow> config" where
  "with_section name s c =
     (if name = ''startup'' then c\<lparr>cf_startup := s\<rparr> else if name = ''database'' then c\<lparr>cf_database := s\<rparr>
      else if name = ''http'' then c\<lparr>cf_http := s\<rparr> else if name = ''engine'' then c\<lparr>cf_engine := s\<rparr>
      else if name = ''tiled'' then c\<lparr>cf_tiled := s\<rparr> else c)"

definition setting :: "string \<Rightarrow> string \<Rightarrow> config \<Rightarrow> pyval" where
  "setting name key c =
     (case section_of name c of None \<Rightarrow> PNone | Some s \<Rightarrow> case map_of s key of None \<Rightarrow> PNone | Some v \<Rightarrow> v)"

text \<open>\<open>setattr\<close> on a field that exists.\<close>

definition set_setting :: "string \<Rightarrow> string \<Rightarrow> pyval \<Rightarrow> config \<Rightarrow> config" where
  "set_setting name key v c =
     (case section_of name c of None \<Rightarrow> c | Some s \<Rightarrow> with_section name (AList.update key v s) c)"

subsection \<open>What \<open>GET /config\<close> shows\<close>

text \<open>\<open>v[:8] + "..."\<close> with the ellipsis.\<close>

fun clip_secret :: "pyval \<Rightarrow> exn + pyval" where
  "clip_secret (PStr s) = Inr (PStr (take 8 s @ ellipsis))"
| "clip_secret (PDict d) = Inl (Exn KeyError [Txt ''slice(None, 8, None)''])"
| "clip_secret v = Inl (Exn TypeError [])"

definition as_settings_dict :: "settings \<Rightarrow> pydict" where
  "as_settings_dict s = map (\<lambda>(k, v). (PStr k, v)) s"

definition asdict :: "config \<Rightarrow> pydict" where
  "asdict c =
     [(PStr ''startup'', PDict (as_settings_dict (cf_startup c))), (PStr ''database'', PDict (as_settings_dict (cf_database c))),
      (PStr ''http'', PDict (as_settings_dict (cf_http c))), (PStr ''engine'', PDict (as_settings_dict (cf_engine c))),
      (PStr ''tiled'', PDict (as_settings_dict (cf_tiled c))),
      (PStr ''config_path'', (case cf_config_path c of None \<Rightarrow> PNone | Some p \<Rightarrow> PStr p)),
      (PStr ''ignored_environment'', PList (map PStr (cf_ignored c)))]"

definition to_dict :: "bool \<Rightarrow> config \<Rightarrow> exn + pydict" where
  "to_dict redact c =
     (if \<not> redact then Inr (asdict c)
      else
        let hide = (\<lambda>c. if truthy (setting ''tiled'' ''api_key'' c) then set_setting ''tiled'' ''api_key'' (PStr ellipsis) c else c)
        in if truthy (setting ''http'' ''api_key'' c)
           then (case clip_secret (setting ''http'' ''api_key'' c) of
               Inl e \<Rightarrow> Inl e
             | Inr shown \<Rightarrow> Inr (asdict (hide (set_setting ''http'' ''api_key'' shown c))))
           else Inr (asdict (hide c)))"

subsection \<open>The file\<close>

definition config_error :: "fstring \<Rightarrow> exn" where
  "config_error t = Exn ValueError t"

fun apply_section :: "string \<Rightarrow> (pyval \<times> pyval) list \<Rightarrow> config \<Rightarrow> exn + config" where
  "apply_section name [] c = Inr c"
| "apply_section name ((PStr key, v) # rest) c =
     (if map_of (the (section_of name c)) key = None
      then Inl (config_error [Txt ''Unknown config key '', Txt name, Txt ''.'', Txt key])
      else apply_section name rest (set_setting name key v c))"
| "apply_section name ((k, v) # rest) c = Inl (Exn TypeError [Txt ''attribute name must be string''])"

fun apply_sections :: "string list \<Rightarrow> pydict \<Rightarrow> config \<Rightarrow> exn + config" where
  "apply_sections [] data c = Inr c"
| "apply_sections (name # names) data c =
     (let given = py_or (dget name data) (PDict []) in
      if \<not> is_dict given then Inl (config_error [Txt ''Config section '', Rep (PStr name), Txt '' must be a mapping''])
      else (case apply_section name (as_dict given) c of Inl e \<Rightarrow> Inl e | Inr c' \<Rightarrow> apply_sections names data c'))"

definition apply_file :: "string \<Rightarrow> pyval \<Rightarrow> config \<Rightarrow> exn + config" where
  "apply_file path loaded c =
     (let data = py_or loaded (PDict []) in
      if \<not> is_dict data then Inl (config_error [Txt ''Config file '', Txt path, Txt '' must contain a mapping''])
      else apply_sections SECTIONS (as_dict data) c)"

subsection \<open>The environment\<close>

record config_world =
  cw_expand :: "string \<Rightarrow> string"
  cw_file :: "string \<Rightarrow> (exn + pyval) option"
  cw_float :: "string \<Rightarrow> exn + rat"
  cw_save :: "string \<Rightarrow> pydict \<Rightarrow> exn option"

type_synonym environ = "(string \<times> string) list"

text \<open>\<open>env.get(k) or ""\<close>: an unset variable and an empty one are the same to most of the tests.\<close>

definition env_text :: "environ \<Rightarrow> string \<Rightarrow> string" where
  "env_text env k = (case map_of env k of None \<Rightarrow> [] | Some v \<Rightarrow> v)"

definition env_int :: "environ \<Rightarrow> string \<Rightarrow> exn + pyval" where
  "env_int env k = (case parse_int (env_text env k) of
     Some i \<Rightarrow> Inr (PInt i)
   | None \<Rightarrow> Inl (Exn ValueError [Txt ''invalid literal for int() with base 10: '', Rep (PStr (env_text env k))]))"

text \<open>\<open>if env.get(k): set\<close> and \<open>if k in env: set\<close>, for a value that can be computed.\<close>

definition when_given :: "environ \<Rightarrow> string \<Rightarrow> (config \<Rightarrow> config) \<Rightarrow> config \<Rightarrow> config" where
  "when_given env k f c = (if env_text env k \<noteq> [] then f c else c)"

definition flag_from :: "environ \<Rightarrow> string \<Rightarrow> string \<Rightarrow> string \<Rightarrow> config \<Rightarrow> config" where
  "flag_from env k name key c =
     (case map_of env k of None \<Rightarrow> c | Some v \<Rightarrow> set_setting name key (PBool (truthy_text v)) c)"

definition number_from :: "environ \<Rightarrow> string \<Rightarrow> (exn + pyval) \<Rightarrow> string \<Rightarrow> string \<Rightarrow> config \<Rightarrow> exn + config" where
  "number_from env k converted name key c =
     (if env_text env k = [] then Inr c
      else case converted of Inl e \<Rightarrow> Inl e | Inr v \<Rightarrow> Inr (set_setting name key v c))"

definition ignored_variables :: "environ \<Rightarrow> string list" where
  "ignored_variables env =
     sort (filter (\<lambda>k. list_ex (\<lambda>p. starts_with p k) NOT_APPLICABLE_PREFIXES \<or> k \<in> set NOT_APPLICABLE_VARS) (map fst env))"

definition apply_environment :: "config_world \<Rightarrow> environ \<Rightarrow> config \<Rightarrow> exn + config" where
  "apply_environment w env c =
     (let t = env_text env;
          c = when_given env ''QSERVER_HTTP_SERVER_SINGLE_USER_API_KEY''
                (set_setting ''http'' ''api_key'' (PStr (t ''QSERVER_HTTP_SERVER_SINGLE_USER_API_KEY''))) c;
          c = flag_from env ''QSERVER_HTTP_SERVER_ALLOW_ANONYMOUS_ACCESS'' ''http'' ''allow_anonymous'' c;
          c = when_given env ''QSERVER_HTTP_SERVER_ALLOW_ORIGINS''
                (set_setting ''http'' ''allow_origins'' (PList (map PStr (split_words [] (t ''QSERVER_HTTP_SERVER_ALLOW_ORIGINS''))))) c
      in case number_from env ''QSERVER_HTTP_SERVER_RESPONSE_BYTESIZE_LIMIT''
                (env_int env ''QSERVER_HTTP_SERVER_RESPONSE_BYTESIZE_LIMIT'') ''http'' ''response_bytesize_limit'' c of
        Inl e \<Rightarrow> Inl e
      | Inr c \<Rightarrow>
     let c = when_given env ''QSERVER_PERMITTED_RE_METADATA_KEYS''
               (set_setting ''engine'' ''permitted_re_metadata_keys''
                 (PList (map PStr (split_on CHR '':'' (t ''QSERVER_PERMITTED_RE_METADATA_KEYS''))))) c;
         c = flag_from env ''QS_REQUIRE_SYNCED_EXPERIMENT'' ''engine'' ''require_synced_experiment'' c;
         c = when_given env ''QS_STARTUP_DIR''
               (set_setting ''startup'' ''startup_dir'' (PStr (t ''QS_STARTUP_DIR'')) \<circ> set_setting ''startup'' ''kind'' (PStr ''ipython'')) c;
         c = when_given env ''QS_STARTUP_MODULE''
               (set_setting ''startup'' ''startup_module'' (PStr (t ''QS_STARTUP_MODULE'')) \<circ> set_setting ''startup'' ''kind'' (PStr ''bits'')) c;
         c = when_given env ''QS_DATABASE_URL'' (set_setting ''database'' ''url'' (PStr (t ''QS_DATABASE_URL''))) c;
         c = when_given env ''QS_HTTP_HOST'' (set_setting ''http'' ''host'' (PStr (t ''QS_HTTP_HOST''))) c
     in case number_from env ''QS_HTTP_PORT'' (env_int env ''QS_HTTP_PORT'') ''http'' ''port'' c of
        Inl e \<Rightarrow> Inl e
      | Inr c \<Rightarrow>
     let c = flag_from env ''QS_STREAM_DEVICE_PROGRESS'' ''engine'' ''stream_device_progress'' c
     in case number_from env ''QS_STALL_AFTER'' (map_sum id PFloat (cw_float w (t ''QS_STALL_AFTER''))) ''engine'' ''stall_after'' c of
        Inl e \<Rightarrow> Inl e
      | Inr c \<Rightarrow> Inr (c\<lparr>cf_ignored := ignored_variables env\<rparr>))"

subsection \<open>Overrides, and the whole\<close>

fun apply_overrides :: "(string \<times> pyval) list \<Rightarrow> config \<Rightarrow> exn + config" where
  "apply_overrides [] c = Inr c"
| "apply_overrides ((dotted, v) # rest) c =
     (if v = PNone then apply_overrides rest c
      else
        let (name, _, key) = partition_at CHR ''.'' dotted in
        case section_of name c of
          None \<Rightarrow> Inl (Exn AttributeError [Txt ''no attribute '', Rep (PStr name)])
        | Some s \<Rightarrow>
            if map_of s key = None then Inl (config_error [Txt ''Unknown override '', Rep (PStr dotted)])
            else apply_overrides rest (set_setting name key v c))"

definition read_file :: "config_world \<Rightarrow> string \<Rightarrow> config \<Rightarrow> exn + config" where
  "read_file w path c =
     (if path = [] then Inr c
      else let p = cw_expand w path in
        case cw_file w p of
          None \<Rightarrow> Inl (Exn FileNotFoundError [Txt ''Config file not found: '', Txt p])
        | Some (Inl e) \<Rightarrow> Inl e
        | Some (Inr loaded) \<Rightarrow> (case apply_file p loaded c of Inl e \<Rightarrow> Inl e | Inr c \<Rightarrow> Inr (c\<lparr>cf_config_path := Some p\<rparr>)))"

text \<open>\<open>except OSError\<close> around the dump of the settings.\<close>

definition is_os_error :: "exn \<Rightarrow> bool" where
  "is_os_error e \<longleftrightarrow> exn_class e = FileNotFoundError \<or>
     exn_class e \<in> OtherException ` {''OSError'', ''PermissionError'', ''IsADirectoryError'', ''NotADirectoryError''}"

definition save_settings :: "config_world \<Rightarrow> string \<Rightarrow> config \<Rightarrow> exn + unit" where
  "save_settings w save_to c =
     (if save_to = [] then Inr ()
      else case to_dict True c of
          Inl e \<Rightarrow> Inl e
        | Inr d \<Rightarrow> (case cw_save w save_to d of None \<Rightarrow> Inr () | Some e \<Rightarrow> if is_os_error e then Inr () else Inl e))"

definition load_config :: "config_world \<Rightarrow> string \<Rightarrow> environ \<Rightarrow> (string \<times> pyval) list \<Rightarrow> exn + config" where
  "load_config w config_path env overrides =
     (case read_file w (if config_path \<noteq> [] then config_path else env_text env ''QSERVER_CONFIG'') Config_init of
        Inl e \<Rightarrow> Inl e
      | Inr c \<Rightarrow> (case apply_environment w env c of
          Inl e \<Rightarrow> Inl e
        | Inr c \<Rightarrow> (case apply_overrides overrides c of
            Inl e \<Rightarrow> Inl e
          | Inr c \<Rightarrow> (case save_settings w (env_text env ''QSERVER_SETTINGS_SAVE_TO_FILE'') c of
              Inl e \<Rightarrow> Inl e
            | Inr _ \<Rightarrow> Inr c))))"

end
