(* ===== verification/ConfigProperties.thy ===== *)
theory ConfigProperties
  imports Config
begin

section \<open>Properties of the configuration\<close>

text \<open>
  Which source a setting comes from, the types of what was loaded, and what the redacted dictionary
  gives away.
\<close>

subsection \<open>Reading a setting that was written\<close>

lemma section_with [simp]:
  "section_of n (with_section n' s c) = (if n = n' \<and> n \<in> set SECTIONS then Some s else section_of n c)"
  by (auto simp: section_of_def with_section_def SECTIONS_def)

lemma section_known: "n \<in> set SECTIONS \<longleftrightarrow> section_of n c \<noteq> None"
  by (auto simp: section_of_def SECTIONS_def)

lemma setting_set [simp]:
  "setting n k (set_setting n' k' v c) = (if n = n' \<and> k = k' \<and> n \<in> set SECTIONS then v else setting n k c)"
  using section_known [of n' c] by (auto simp: setting_def set_setting_def update_conv' split: option.split)

lemma setting_frame [simp]:
  "setting n k (c\<lparr>cf_config_path := p\<rparr>) = setting n k c" "setting n k (c\<lparr>cf_ignored := vs\<rparr>) = setting n k c"
  by (simp_all add: setting_def section_of_def)

lemma sections [simp]: "''startup'' \<in> set SECTIONS" "''database'' \<in> set SECTIONS" "''http'' \<in> set SECTIONS"
  "''engine'' \<in> set SECTIONS" "''tiled'' \<in> set SECTIONS"
  by (simp_all add: SECTIONS_def)

lemma when_given_setting:
  "n' \<in> set SECTIONS \<Longrightarrow> setting n k (when_given env x (set_setting n' k' v) c) =
     (if n = n' \<and> k = k' \<and> env_text env x \<noteq> [] then v else setting n k c)"
  "n' \<in> set SECTIONS \<Longrightarrow> setting n k (when_given env x (set_setting n' k' v \<circ> set_setting n' l u) c) =
     (if n = n' \<and> k = k' \<and> env_text env x \<noteq> [] then v
      else if n = n' \<and> k = l \<and> env_text env x \<noteq> [] then u else setting n k c)"
  by (simp_all add: when_given_def)

lemma flag_setting:
  "n' \<in> set SECTIONS \<Longrightarrow> setting n k (flag_from env x n' k' c) =
     (if n = n' \<and> k = k' \<and> map_of env x \<noteq> None then PBool (truthy_text (the (map_of env x))) else setting n k c)"
  by (simp add: flag_from_def split: option.split)

lemma number_setting:
  "number_from env x v n' k' c = Inr c' \<Longrightarrow> n' \<in> set SECTIONS \<Longrightarrow> setting n k c' =
     (if n = n' \<and> k = k' \<and> env_text env x \<noteq> [] then projr v else setting n k c)"
  by (auto simp: number_from_def split: if_splits sum.splits)

subsection \<open>Precedence\<close>

text \<open>What the environment says about a setting.\<close>

definition env_setting :: "config_world \<Rightarrow> environ \<Rightarrow> string \<times> string \<Rightarrow> pyval option" where
  "env_setting w env nk =
     (let t = env_text env;
          given = (\<lambda>x v. if t x \<noteq> [] then Some v else None);
          flag = (\<lambda>x. map_option (\<lambda>v. PBool (truthy_text v)) (map_of env x))
      in if nk = (''http'', ''api_key'') then given ''QSERVER_HTTP_SERVER_SINGLE_USER_API_KEY'' (PStr (t ''QSERVER_HTTP_SERVER_SINGLE_USER_API_KEY''))
         else if nk = (''http'', ''allow_anonymous'') then flag ''QSERVER_HTTP_SERVER_ALLOW_ANONYMOUS_ACCESS''
         else if nk = (''http'', ''allow_origins'') then given ''QSERVER_HTTP_SERVER_ALLOW_ORIGINS''
           (PList (map PStr (split_words [] (t ''QSERVER_HTTP_SERVER_ALLOW_ORIGINS''))))
         else if nk = (''http'', ''response_bytesize_limit'') then given ''QSERVER_HTTP_SERVER_RESPONSE_BYTESIZE_LIMIT''
           (projr (env_int env ''QSERVER_HTTP_SERVER_RESPONSE_BYTESIZE_LIMIT''))
         else if nk = (''engine'', ''permitted_re_metadata_keys'') then given ''QSERVER_PERMITTED_RE_METADATA_KEYS''
           (PList (map PStr (split_on CHR '':'' (t ''QSERVER_PERMITTED_RE_METADATA_KEYS''))))
         else if nk = (''engine'', ''require_synced_experiment'') then flag ''QS_REQUIRE_SYNCED_EXPERIMENT''
         else if nk = (''startup'', ''kind'') then
           (if t ''QS_STARTUP_MODULE'' \<noteq> [] then Some (PStr ''bits'') else given ''QS_STARTUP_DIR'' (PStr ''ipython''))
         else if nk = (''startup'', ''startup_dir'') then given ''QS_STARTUP_DIR'' (PStr (t ''QS_STARTUP_DIR''))
         else if nk = (''startup'', ''startup_module'') then given ''QS_STARTUP_MODULE'' (PStr (t ''QS_STARTUP_MODULE''))
         else if nk = (''database'', ''url'') then given ''QS_DATABASE_URL'' (PStr (t ''QS_DATABASE_URL''))
         else if nk = (''http'', ''host'') then given ''QS_HTTP_HOST'' (PStr (t ''QS_HTTP_HOST''))
         else if nk = (''http'', ''port'') then given ''QS_HTTP_PORT'' (projr (env_int env ''QS_HTTP_PORT''))
         else if nk = (''engine'', ''stream_device_progress'') then flag ''QS_STREAM_DEVICE_PROGRESS''
         else if nk = (''engine'', ''stall_after'') then given ''QS_STALL_AFTER'' (projr (map_sum id PFloat (cw_float w (t ''QS_STALL_AFTER''))))
         else None)"

definition ENV_SETTINGS :: "(string \<times> string) list" where
  "ENV_SETTINGS = [(''http'', ''api_key''), (''http'', ''allow_anonymous''), (''http'', ''allow_origins''),
     (''http'', ''response_bytesize_limit''), (''engine'', ''permitted_re_metadata_keys''), (''engine'', ''require_synced_experiment''),
     (''startup'', ''kind''), (''startup'', ''startup_dir''), (''startup'', ''startup_module''), (''database'', ''url''),
     (''http'', ''host''), (''http'', ''port''), (''engine'', ''stream_device_progress''), (''engine'', ''stall_after'')]"

lemma environment_setting:
  assumes "apply_environment w env c = Inr c'"
  shows "setting n k c' = (case env_setting w env (n, k) of Some v \<Rightarrow> v | None \<Rightarrow> setting n k c)"
proof -
  obtain c1 c2 c3 where steps:
    "number_from env ''QSERVER_HTTP_SERVER_RESPONSE_BYTESIZE_LIMIT'' (env_int env ''QSERVER_HTTP_SERVER_RESPONSE_BYTESIZE_LIMIT'')
       ''http'' ''response_bytesize_limit''
       (when_given env ''QSERVER_HTTP_SERVER_ALLOW_ORIGINS''
          (set_setting ''http'' ''allow_origins'' (PList (map PStr (split_words [] (env_text env ''QSERVER_HTTP_SERVER_ALLOW_ORIGINS'')))))
       (flag_from env ''QSERVER_HTTP_SERVER_ALLOW_ANONYMOUS_ACCESS'' ''http'' ''allow_anonymous''
       (when_given env ''QSERVER_HTTP_SERVER_SINGLE_USER_API_KEY''
          (set_setting ''http'' ''api_key'' (PStr (env_text env ''QSERVER_HTTP_SERVER_SINGLE_USER_API_KEY''))) c))) = Inr c1"
    "number_from env ''QS_HTTP_PORT'' (env_int env ''QS_HTTP_PORT'') ''http'' ''port''
       (when_given env ''QS_HTTP_HOST'' (set_setting ''http'' ''host'' (PStr (env_text env ''QS_HTTP_HOST'')))
       (when_given env ''QS_DATABASE_URL'' (set_setting ''database'' ''url'' (PStr (env_text env ''QS_DATABASE_URL'')))
       (when_given env ''QS_STARTUP_MODULE''
          (set_setting ''startup'' ''startup_module'' (PStr (env_text env ''QS_STARTUP_MODULE'')) \<circ> set_setting ''startup'' ''kind'' (PStr ''bits''))
       (when_given env ''QS_STARTUP_DIR''
          (set_setting ''startup'' ''startup_dir'' (PStr (env_text env ''QS_STARTUP_DIR'')) \<circ> set_setting ''startup'' ''kind'' (PStr ''ipython''))
       (flag_from env ''QS_REQUIRE_SYNCED_EXPERIMENT'' ''engine'' ''require_synced_experiment''
       (when_given env ''QSERVER_PERMITTED_RE_METADATA_KEYS''
          (set_setting ''engine'' ''permitted_re_metadata_keys''
             (PList (map PStr (split_on CHR '':'' (env_text env ''QSERVER_PERMITTED_RE_METADATA_KEYS''))))) c1)))))) = Inr c2"
    "number_from env ''QS_STALL_AFTER'' (map_sum id PFloat (cw_float w (env_text env ''QS_STALL_AFTER''))) ''engine'' ''stall_after''
       (flag_from env ''QS_STREAM_DEVICE_PROGRESS'' ''engine'' ''stream_device_progress'' c2) = Inr c3"
    and c': "c' = c3\<lparr>cf_ignored := ignored_variables env\<rparr>"
    using assms unfolding apply_environment_def Let_def by (auto split: sum.splits)
  have e: "setting m l c' = setting m l c3" for m l by (simp add: c')
  note eq = e number_setting [OF steps(3) sections(4)] flag_setting [OF sections(4)] number_setting [OF steps(2) sections(3)]
    when_given_setting [OF sections(1)] when_given_setting(1) [OF sections(2)] when_given_setting(1) [OF sections(3)]
    when_given_setting(1) [OF sections(4)] flag_setting [OF sections(3)] number_setting [OF steps(1) sections(3)]
  show ?thesis
  proof (cases "(n, k) \<in> set ENV_SETTINGS")
    case True
    then show ?thesis
      unfolding ENV_SETTINGS_def list.set insert_iff empty_iff prod.inject
      by (elim disjE conjE FalseE; hypsubst; simp add: eq env_setting_def Let_def split: option.split)
  next
    case False
    then have "list_all (\<lambda>(m, l). (n = m \<and> k = l) = False \<and> (\<forall>P. (n = m \<and> k = l \<and> P) = False)) ENV_SETTINGS"
      by (auto simp: list_all_iff)
    note no = this [unfolded ENV_SETTINGS_def list.pred_inject prod.case]
    have none: "env_setting w env (n, k) = None"
      unfolding env_setting_def Let_def prod.inject using no by (simp only: simp_thms if_False)
    show ?thesis
      unfolding eq none using no by (simp only: simp_thms if_False option.case)
  qed
qed

lemma overrides_setting:
  assumes "apply_overrides os c = Inr c'" "distinct (map fst os)" "n \<in> set SECTIONS" "k \<noteq> []"
  shows "setting n k c' = (case map_of os (n @ CHR ''.'' # k) of
     Some v \<Rightarrow> if v = PNone then setting n k c else v | None \<Rightarrow> setting n k c)"
  using assms(1,2)
proof (induction os arbitrary: c)
  case (Cons ov os)
  obtain dotted v where ov: "ov = (dotted, v)" by force
  have dot: "CHR ''.'' \<notin> set n" using assms(3) by (auto simp: SECTIONS_def)
  have other: "map_of os dotted = None" using Cons.prems(2) ov by (simp add: map_of_eq_None_iff)
  show ?case
  proof (cases "v = PNone")
    case True
    with Cons ov other show ?thesis by auto
  next
    case False
    obtain m b k' where p: "partition_at CHR ''.'' dotted = (m, b, k')" using prod_cases3 by blast
    from Cons.prems(1) False ov p obtain s where s: "section_of m c = Some s"
      and r: "apply_overrides os (set_setting m k' v c) = Inr c'"
      by (auto simp: Let_def split: option.splits if_splits)
    have same: "m = n \<and> k' = k \<longleftrightarrow> dotted = n @ CHR ''.'' # k"
    proof
      assume e: "m = n \<and> k' = k"
      have "dotted = takeWhile (\<lambda>x. x \<noteq> CHR ''.'') dotted @ dropWhile (\<lambda>x. x \<noteq> CHR ''.'') dotted" by simp
      with p e assms(4) show "dotted = n @ CHR ''.'' # k"
        unfolding partition_at_def
        by (cases "dropWhile (\<lambda>x. x \<noteq> CHR ''.'') dotted") (auto dest: hd_dropWhile simp: dropWhile_eq_Cons_conv)
    next
      assume "dotted = n @ CHR ''.'' # k"
      with p partition_at_append [OF dot, of k] show "m = n \<and> k' = k" by simp
    qed
    note ih = Cons.IH [OF r]
    show ?thesis
    proof (cases "dotted = n @ CHR ''.'' # k")
      case True
      then have "m = n" "k' = k" using same by auto
      with True ih Cons.prems(2) ov other False assms(3) show ?thesis by auto
    next
      case False
      then have "\<not> (n = m \<and> k = k')" using same by auto
      with False ih Cons.prems(2) ov show ?thesis by (auto split: option.splits)
    qed
  qed
qed simp

subsection \<open>The file\<close>

lemma as_dict_or [simp]: "as_dict (py_or v (PDict [])) = as_dict v"
  by (cases v) (auto simp: py_or_def)

lemma apply_section_setting:
  assumes "apply_section m kvs c = Inr c'" "distinct (map fst kvs)" "m \<in> set SECTIONS"
  shows "setting n k c' = (case (if n = m then map_of kvs (PStr k) else None) of Some v \<Rightarrow> v | None \<Rightarrow> setting n k c)"
  using assms
proof (induction m kvs c rule: apply_section.induct)
  case (2 name key v rest c)
  then have ih: "setting n k c' = (case (if n = name then map_of rest (PStr k) else None) of Some v \<Rightarrow> v
      | None \<Rightarrow> setting n k (set_setting name key v c))" by (simp split: if_splits)
  have other: "map_of rest (PStr key) = None" using 2(3) by (simp add: map_of_eq_None_iff)
  show ?case using ih other 2(2-4) by (auto split: option.splits)
qed simp_all

definition file_setting :: "pydict \<Rightarrow> string \<Rightarrow> string \<Rightarrow> pyval option" where
  "file_setting data n k = map_of (as_dict (dget n data)) (PStr k)"

lemma apply_sections_setting:
  assumes "apply_sections ns data c = Inr c'" "distinct ns" "set ns \<subseteq> set SECTIONS"
    and "\<forall>m \<in> set SECTIONS. distinct (map fst (as_dict (dget m data)))"
  shows "setting n k c' = (case (if n \<in> set ns then file_setting data n k else None) of Some v \<Rightarrow> v | None \<Rightarrow> setting n k c)"
  using assms(1-3)
proof (induction ns arbitrary: c)
  case (Cons m ns)
  let ?d = "as_dict (dget m data)"
  from Cons.prems(1) obtain c1 where s: "apply_section m ?d c = Inr c1" and r: "apply_sections ns data c1 = Inr c'"
    by (auto simp: Let_def split: if_splits sum.splits)
  have one: "setting n k c1 = (case (if n = m then map_of ?d (PStr k) else None) of Some v \<Rightarrow> v | None \<Rightarrow> setting n k c)"
    by (rule apply_section_setting [OF s]) (use Cons.prems assms(4) in auto)
  show ?case using Cons.IH [OF r] Cons.prems one by (auto simp: file_setting_def split: option.splits)
qed simp

definition config_file :: "string \<Rightarrow> environ \<Rightarrow> string" where
  "config_file path env = (if path \<noteq> [] then path else env_text env ''QSERVER_CONFIG'')"

definition file_settings :: "config_world \<Rightarrow> string \<Rightarrow> environ \<Rightarrow> pydict" where
  "file_settings w path env =
     (if config_file path env = [] then []
      else case cw_file w (cw_expand w (config_file path env)) of Some (Inr loaded) \<Rightarrow> as_dict loaded | _ \<Rightarrow> [])"

lemma sections_distinct: "distinct SECTIONS" by (simp add: SECTIONS_def)

lemma read_file_setting:
  assumes "read_file w (config_file path env) c = Inr c'"
    and "\<forall>m \<in> set SECTIONS. distinct (map fst (as_dict (dget m (file_settings w path env))))" "n \<in> set SECTIONS"
  shows "setting n k c' = (case file_setting (file_settings w path env) n k of Some v \<Rightarrow> v | None \<Rightarrow> setting n k c)"
proof (cases "config_file path env = []")
  case True
  with assms(1) show ?thesis by (simp add: read_file_def file_settings_def file_setting_def dget_def)
next
  case False
  from assms(1) False obtain loaded c1 where f: "cw_file w (cw_expand w (config_file path env)) = Some (Inr loaded)"
    and a: "apply_sections SECTIONS (as_dict loaded) c = Inr c1" and c': "c' = c1\<lparr>cf_config_path := Some (cw_expand w (config_file path env))\<rparr>"
    by (auto simp: read_file_def apply_file_def Let_def split: option.splits sum.splits if_splits)
  have d: "file_settings w path env = as_dict loaded" using False f by (simp add: file_settings_def)
  show ?thesis
    using apply_sections_setting [OF a sections_distinct subset_refl] assms(2,3) c' unfolding d by simp
qed

fun first_given :: "pyval option list \<Rightarrow> pyval \<Rightarrow> pyval" where
  "first_given [] v = v"
| "first_given (None # xs) v = first_given xs v"
| "first_given (Some u # xs) v = u"

definition override_setting :: "(string \<times> pyval) list \<Rightarrow> string \<Rightarrow> string \<Rightarrow> pyval option" where
  "override_setting os n k =
     (case map_of os (n @ CHR ''.'' # k) of None \<Rightarrow> None | Some v \<Rightarrow> if v = PNone then None else Some v)"

lemma setting_sources:
  assumes "load_config w path env overrides = Inr c" "distinct (map fst overrides)"
    and "\<forall>m \<in> set SECTIONS. distinct (map fst (as_dict (dget m (file_settings w path env))))"
    and "n \<in> set SECTIONS" "k \<noteq> []"
  shows "setting n k c = first_given
    [override_setting overrides n k, env_setting w env (n, k), file_setting (file_settings w path env) n k]
    (setting n k Config_init)"
proof -
  from assms(1) obtain c1 c2 where steps: "read_file w (config_file path env) Config_init = Inr c1"
    "apply_environment w env c1 = Inr c2" "apply_overrides overrides c2 = Inr c"
    by (auto simp: load_config_def config_file_def split: sum.splits)
  show ?thesis
    using overrides_setting [OF steps(3) assms(2,4,5)] environment_setting [OF steps(2)] read_file_setting [OF steps(1) assms(3,4)]
    by (auto simp: override_setting_def split: option.splits)
qed

text \<open>
  C27: every setting has the value of the command line, else that of the environment, else that of the
  file, else its default; \<open>None\<close> on the command line and an empty variable count as not given.
\<close>

theorem config_precedence:
  assumes "load_config w path env overrides = Inr c" "distinct (map fst overrides)"
    and "\<forall>m \<in> set SECTIONS. distinct (map fst (as_dict (dget m (file_settings w path env))))"
    and "n \<in> set SECTIONS" "k \<noteq> []"
  shows "setting n k c = first_given
    [override_setting overrides n k, env_setting w env (n, k), file_setting (file_settings w path env) n k]
    (setting n k Config_init)"
  using assms by (rule setting_sources)

definition example_config_world :: config_world where
  "example_config_world = \<lparr>cw_expand = id,
     cw_file = (\<lambda>p. if p = ''qs.yml'' then Some (Inr (PDict [(PStr ''http'', PDict [(PStr ''host'', PStr ''0.0.0.0''), (PStr ''port'', PInt 8000)])]))
                    else None),
     cw_float = (\<lambda>t. Inr 60), cw_save = (\<lambda>p d. None)\<rparr>"

abbreviation example_environ :: environ where
  "example_environ \<equiv> [(''QS_HTTP_PORT'', ''9000'')]"

abbreviation example_overrides :: "(string \<times> pyval) list" where
  "example_overrides \<equiv> [(''http.api_key'', PStr ''k'')]"

lemma example_port: "env_int example_environ ''QS_HTTP_PORT'' = Inr (PInt 9000)"
  by (simp add: env_int_def env_text_def) code_simp

lemma example_file:
  "file_settings example_config_world ''qs.yml'' example_environ =
     [(PStr ''http'', PDict [(PStr ''host'', PStr ''0.0.0.0''), (PStr ''port'', PInt 8000)])]"
  by (simp add: file_settings_def config_file_def example_config_world_def)

lemma example_file_distinct:
  "\<forall>m \<in> set SECTIONS. distinct (map fst (as_dict (dget m (file_settings example_config_world ''qs.yml'' example_environ))))"
  unfolding example_file by (simp add: SECTIONS_def dget_def)

lemma example_loads: "\<exists>c. load_config example_config_world ''qs.yml'' example_environ example_overrides = Inr c"
  using example_port
  by (simp add: load_config_def read_file_def apply_file_def example_config_world_def SECTIONS_def dget_def py_or_def section_of_def
      set_setting_def with_section_def Config_init_def StartupConfig_def DatabaseConfig_def HttpConfig_def EngineConfig_def TiledConfig_def
      apply_environment_def when_given_def flag_from_def number_from_def env_text_def partition_at_def save_settings_def Let_def)

theorem config_precedence_witness:
  "\<exists>c. load_config example_config_world ''qs.yml'' example_environ example_overrides = Inr c \<and> setting ''http'' ''port'' c = PInt 9000"
proof -
  obtain c where c: "load_config example_config_world ''qs.yml'' example_environ example_overrides = Inr c"
    using example_loads by blast
  show ?thesis
    using config_precedence [OF c _ example_file_distinct, of "''http''" "''port''"] c example_port
    by (simp add: override_setting_def env_setting_def env_text_def Let_def)
qed

subsection \<open>Types\<close>

datatype field_type = TText | TOptText | TInt | TNumber | TBool | TTexts

fun is_text :: "pyval \<Rightarrow> bool" where
  "is_text (PStr s) = True"
| "is_text v = False"

fun has_type :: "pyval \<Rightarrow> field_type \<Rightarrow> bool" where
  "has_type (PStr s) t = (t = TText \<or> t = TOptText)"
| "has_type PNone t = (t = TOptText)"
| "has_type (PInt i) t = (t = TInt \<or> t = TNumber)"
| "has_type (PFloat r) t = (t = TNumber)"
| "has_type (PBool b) t = (t = TBool)"
| "has_type (PList xs) t = (t = TTexts \<and> list_all is_text xs)"
| "has_type v t = False"

text \<open>The annotations of the dataclasses.\<close>

definition SCHEMA :: "((string \<times> string) \<times> field_type) list" where
  "SCHEMA =
     [((''startup'', ''kind''), TText), ((''startup'', ''startup_dir''), TOptText), ((''startup'', ''startup_module''), TOptText),
      ((''startup'', ''happi_path''), TOptText), ((''startup'', ''device_max_depth''), TInt), ((''database'', ''url''), TText),
      ((''http'', ''host''), TText), ((''http'', ''port''), TInt), ((''http'', ''api_key''), TOptText),
      ((''http'', ''allow_anonymous''), TBool), ((''http'', ''allow_origins''), TTexts), ((''http'', ''response_bytesize_limit''), TInt),
      ((''http'', ''smoke_page''), TBool), ((''engine'', ''stream_device_progress''), TBool),
      ((''engine'', ''progress_min_update_period''), TNumber), ((''engine'', ''permitted_re_metadata_keys''), TTexts),
      ((''engine'', ''capture_console''), TBool), ((''engine'', ''stall_after''), TNumber),
      ((''engine'', ''require_synced_experiment''), TBool), ((''tiled'', ''uri''), TOptText), ((''tiled'', ''api_key_env''), TOptText),
      ((''tiled'', ''api_key''), TOptText)]"

definition well_typed :: "config \<Rightarrow> bool" where
  "well_typed c \<longleftrightarrow> list_all (\<lambda>((n, k), t). has_type (setting n k c) t) SCHEMA"

definition typed_by :: "(string \<Rightarrow> string \<Rightarrow> pyval option) \<Rightarrow> bool" where
  "typed_by given \<longleftrightarrow> list_all (\<lambda>((n, k), t). case given n k of None \<Rightarrow> True | Some v \<Rightarrow> has_type v t) SCHEMA"

lemma default_well_typed: "well_typed Config_init"
  by (simp add: well_typed_def SCHEMA_def setting_def section_of_def Config_init_def StartupConfig_def DatabaseConfig_def
      HttpConfig_def EngineConfig_def TiledConfig_def)

lemma schema_named: "((n, k), t) \<in> set SCHEMA \<Longrightarrow> n \<in> set SECTIONS \<and> k \<noteq> []"
  by (auto simp: SCHEMA_def SECTIONS_def)

lemma all_texts [simp]: "list_all is_text (map PStr xs)"
  by (simp add: list_all_iff)

lemma number_read: "number_from env x v n k c = Inr c' \<Longrightarrow> env_text env x \<noteq> [] \<Longrightarrow> \<exists>u. v = Inr u"
  by (auto simp: number_from_def split: sum.splits)

lemma environment_typed:
  assumes "apply_environment w env c = Inr c'"
  shows "typed_by (\<lambda>n k. env_setting w env (n, k))"
proof -
  have int: "has_type (projr (env_int env x)) TInt" if "env_int env x = Inr u" for x u
    using that by (auto simp: env_int_def split: option.splits)
  have stall: "has_type (projr (map_sum id PFloat r)) TNumber" if "map_sum id PFloat r = Inr u" for r :: "exn + rat" and u
    using that by (cases r) auto
  have numbers: "env_text env ''QSERVER_HTTP_SERVER_RESPONSE_BYTESIZE_LIMIT'' \<noteq> [] \<Longrightarrow>
      has_type (projr (env_int env ''QSERVER_HTTP_SERVER_RESPONSE_BYTESIZE_LIMIT'')) TInt"
    "env_text env ''QS_HTTP_PORT'' \<noteq> [] \<Longrightarrow> has_type (projr (env_int env ''QS_HTTP_PORT'')) TInt"
    "env_text env ''QS_STALL_AFTER'' \<noteq> [] \<Longrightarrow>
      has_type (projr (map_sum id PFloat (cw_float w (env_text env ''QS_STALL_AFTER'')))) TNumber"
    using assms int stall unfolding apply_environment_def Let_def by (auto split: sum.splits dest!: number_read)
  show ?thesis
    unfolding typed_by_def SCHEMA_def list.pred_inject prod.case
    by (intro conjI; simp add: env_setting_def Let_def numbers split: option.split)
qed

text \<open>
  C36: the program checks no types. If the file and the command line give every setting a value of its
  declared type, the configuration is typed as declared: the environment cannot break this.
\<close>

theorem config_well_typed:
  assumes "load_config w path env overrides = Inr c" "distinct (map fst overrides)"
    and "\<forall>m \<in> set SECTIONS. distinct (map fst (as_dict (dget m (file_settings w path env))))"
    and "typed_by (override_setting overrides)" "typed_by (file_setting (file_settings w path env))"
  shows "well_typed c"
  unfolding well_typed_def list_all_iff
proof (clarify)
  fix n k t assume s: "((n, k), t) \<in> set SCHEMA"
  from assms(1) obtain c1 c2 where "apply_environment w env c1 = Inr c2" by (auto simp: load_config_def split: sum.splits)
  then have e: "typed_by (\<lambda>n k. env_setting w env (n, k))" by (rule environment_typed)
  have "setting n k c = first_given
      [override_setting overrides n k, env_setting w env (n, k), file_setting (file_settings w path env) n k] (setting n k Config_init)"
    using setting_sources [OF assms(1-3)] schema_named [OF s] by simp
  then show "has_type (setting n k c) t"
    using s e assms(4,5) default_well_typed unfolding well_typed_def typed_by_def list_all_iff
    by (fastforce split: option.splits)
qed

theorem config_well_typed_witness:
  "\<exists>c. load_config example_config_world ''qs.yml'' example_environ example_overrides = Inr c \<and> well_typed c"
proof -
  obtain c where c: "load_config example_config_world ''qs.yml'' example_environ example_overrides = Inr c"
    using example_loads by blast
  have given: "typed_by (override_setting example_overrides)"
    by (simp add: typed_by_def SCHEMA_def override_setting_def)
  have from_file: "typed_by (file_setting (file_settings example_config_world ''qs.yml'' example_environ))"
    unfolding example_file by (simp add: typed_by_def SCHEMA_def file_setting_def dget_def)
  show ?thesis using config_well_typed [OF c _ example_file_distinct given from_file] c by simp
qed

subsection \<open>Secrets\<close>

lemma with_section_twice [simp]: "with_section n s (with_section n t c) = with_section n s c"
  by (simp add: with_section_def)

lemma update_twice [simp]: "AList.update k v (AList.update k u d) = AList.update k v d"
  by (induction d) auto

lemma set_setting_twice [simp]: "set_setting n k v (set_setting n k u c) = set_setting n k v c"
  by (auto simp: set_setting_def section_known [of n c] split: option.split)

lemma set_setting_order [simp]:
  "set_setting ''http'' k v (set_setting ''tiled'' l u c) = set_setting ''tiled'' l u (set_setting ''http'' k v c)"
  by (simp add: set_setting_def section_of_def with_section_def)

text \<open>
  What is shown of a configuration does not depend on the API key beyond its first eight characters,
  nor on the key for Tiled. The database URL, with the password it may hold, is shown as it is.
\<close>

theorem redaction_hides_keys:
  "length shown = 8 \<Longrightarrow> key \<noteq> [] \<Longrightarrow> key' \<noteq> [] \<Longrightarrow>
   to_dict True (set_setting ''tiled'' ''api_key'' (PStr key) (set_setting ''http'' ''api_key'' (PStr (shown @ rest)) c)) =
   to_dict True (set_setting ''tiled'' ''api_key'' (PStr key') (set_setting ''http'' ''api_key'' (PStr (shown @ rest')) c))"
  by (auto simp: to_dict_def)

theorem redaction_hides_keys_witness:
  "to_dict True (set_setting ''tiled'' ''api_key'' (PStr ''t'') (set_setting ''http'' ''api_key'' (PStr (''12345678'' @ ''9'')) Config_init)) =
   to_dict True (set_setting ''tiled'' ''api_key'' (PStr ''u'') (set_setting ''http'' ''api_key'' (PStr (''12345678'' @ ''abc'')) Config_init))"
  by (rule redaction_hides_keys) simp_all

lemma url_shown: "to_dict True c = Inr d \<Longrightarrow> dget ''database'' d = PDict (as_settings_dict (cf_database c))"
  by (auto simp: to_dict_def asdict_def dget_def Let_def set_setting_def section_of_def with_section_def split: sum.splits if_splits)

text \<open>A key that YAML reads as a number (digits only) cannot be clipped: the dictionary cannot be built.\<close>

lemma numeric_key_breaks:
  "setting ''http'' ''api_key'' c = PInt n \<Longrightarrow> n \<noteq> 0 \<Longrightarrow> to_dict True c = Inl (Exn TypeError [])"
  by (auto simp: to_dict_def)

end
