(* ===== verification/Sources.thy ===== *)
theory Sources
  imports Config DeviceService
begin

section \<open>Where a profile comes from (\<open>sources/\<close>)\<close>

text \<open>
  What a loaded namespace defines (\<open>namespace.py\<close>), and the three ways to get one: an IPython startup
  directory, a BITS startup module, a happi database. Running the profile's own code, importing its module
  and asking happi are inputs; \<open>look\<close> is what the interpreter says of an object: whether it is an
  instance of an installed device class, callable, a class, a plan for bluesky, a generator function
  when unwrapped, an engine.
\<close>

subsection \<open>What a namespace defines (\<open>sources/namespace.py\<close>)\<close>

record object_look =
  ol_device :: bool
  ol_callable :: bool
  ol_class :: bool
  ol_bluesky_plan :: bool
  ol_generator :: bool
  ol_engine :: "run_engine option"
  ol_factory :: plan_factory

definition public_name :: "string \<Rightarrow> bool" where
  "public_name name \<longleftrightarrow> \<not> starts_with ''_'' name"

definition iter_devices :: "(pyval \<Rightarrow> object_look) \<Rightarrow> pyval names \<Rightarrow> pyval names" where
  "iter_devices look ns = filter (\<lambda>(name, obj). public_name name \<and> ol_device (look obj)) ns"

definition is_plan :: "(pyval \<Rightarrow> object_look) \<Rightarrow> pyval \<Rightarrow> bool" where
  "is_plan look obj \<longleftrightarrow>
     (if \<not> ol_callable (look obj) \<or> ol_class (look obj) then False
      else if ol_bluesky_plan (look obj) then True else ol_generator (look obj))"

definition iter_plans :: "(pyval \<Rightarrow> object_look) \<Rightarrow> pyval names \<Rightarrow> pyval names" where
  "iter_plans look ns = filter (\<lambda>(name, obj). public_name name \<and> is_plan look obj) ns"

definition find_engine :: "(pyval \<Rightarrow> object_look) \<Rightarrow> pyval names \<Rightarrow> run_engine option" where
  "find_engine look ns =
     (case (case map_of ns ''RE'' of None \<Rightarrow> None | Some candidate \<Rightarrow> ol_engine (look candidate)) of
        Some e \<Rightarrow> Some e
      | None \<Rightarrow> (case List.map_filter (\<lambda>(_, v). ol_engine (look v)) ns of [e] \<Rightarrow> Some e | _ \<Rightarrow> None))"

definition collect_namespace ::
  "(pyval \<Rightarrow> object_look) \<Rightarrow> string \<Rightarrow> pyval names option \<Rightarrow> pyval names \<Rightarrow> load_result" where
  "collect_namespace look description devices ns =
     \<lparr>lr_devices = (case devices of None \<Rightarrow> iter_devices look ns | Some ds \<Rightarrow> ds),
      lr_plans = map (\<lambda>(name, obj). (name, ol_factory (look obj))) (iter_plans look ns),
      lr_engine = find_engine look ns, lr_namespace = ns, lr_source_description = description\<rparr>"

subsection \<open>IPython startup directories (\<open>sources/ipython_profile.py\<close>)\<close>

text \<open>\<open>s.splitlines()\<close>.\<close>

definition is_break :: "char \<Rightarrow> bool" where
  "is_break c \<longleftrightarrow> of_char c \<in> {10, 11, 12, 13, 28, 29, 30, 133 :: nat}"

abbreviation LF :: char where "LF \<equiv> CHR 0x0A"
abbreviation CR :: char where "CR \<equiv> CHR 0x0D"

fun break_lines :: "string \<Rightarrow> string \<Rightarrow> string list" where
  "break_lines acc [] = (if acc = [] then [] else [acc])"
| "break_lines acc [c] = (if is_break c then [acc] else [acc @ [c]])"
| "break_lines acc (c # d # cs) =
     (if c = CR \<and> d = LF then acc # break_lines [] cs
      else if is_break c then acc # break_lines [] (d # cs)
      else break_lines (acc @ [c]) (d # cs))"

definition splitlines :: "string \<Rightarrow> string list" where
  "splitlines s = break_lines [] s"

text \<open>The characters of \<open>\w\<close> up to code point 255, and \<open>\b\<close>.\<close>

definition is_word_char :: "char \<Rightarrow> bool" where
  "is_word_char c = (let n = of_char c :: nat in
     48 \<le> n \<and> n \<le> 57 \<or> 65 \<le> n \<and> n \<le> 90 \<or> 97 \<le> n \<and> n \<le> 122 \<or> n = 95 \<or>
     n \<in> {170, 178, 179, 181, 185, 186, 188, 189, 190} \<or> 192 \<le> n \<and> n \<noteq> 215 \<and> n \<noteq> 247)"

definition word_at :: "string \<Rightarrow> string \<Rightarrow> nat \<Rightarrow> bool" where
  "word_at w s i \<longleftrightarrow>
     take (length w) (drop i s) = w \<and>
     (i = 0 \<or> \<not> is_word_char (s ! (i - 1))) \<and>
     (i + length w \<ge> length s \<or> \<not> is_word_char (s ! (i + length w)))"

text \<open>\<open>^[^#]*\bIPython\b[^#]*\bget_ipython\b\<close> and \<open>^\s*[%!]\<close>.\<close>

definition imports_get_ipython :: "string \<Rightarrow> bool" where
  "imports_get_ipython line \<longleftrightarrow>
     list_ex (\<lambda>i. word_at ''IPython'' line i \<and>
       list_ex (\<lambda>j. i + 7 \<le> j \<and> word_at ''get_ipython'' line j \<and> CHR 0x23 \<notin> set (take j line)) [0..<length line])
     [0..<length line]"

definition is_magic_line :: "string \<Rightarrow> bool" where
  "is_magic_line line \<longleftrightarrow>
     (case dropWhile is_space line of [] \<Rightarrow> False | c # _ \<Rightarrow> c = CHR 0x25 \<or> c = CHR 0x21)"

definition rstrip :: "string \<Rightarrow> string" where
  "rstrip s = rev (dropWhile is_space (rev s))"

definition skipped_magic :: string where
  "skipped_magic = CHR 0x23 # '' qs: skipped magic: ''"

definition rebind_get_ipython :: string where
  "rebind_get_ipython = ''; get_ipython = _qs_get_ipython_patch''"

definition patch_line :: "string \<Rightarrow> string" where
  "patch_line line =
     (if is_magic_line line then skipped_magic @ line
      else if imports_get_ipython line then rstrip line @ rebind_get_ipython
      else line)"

definition patch_profile_code :: "string \<Rightarrow> string" where
  "patch_profile_code code = join_with [LF] (map patch_line (splitlines code)) @ [LF]"

text \<open>\<open>Path.suffix\<close> of a file name.\<close>

definition path_suffix :: "string \<Rightarrow> string" where
  "path_suffix name =
     (let before = dropWhile (\<lambda>c. c \<noteq> CHR ''.'') (rev name); ext = rev (takeWhile (\<lambda>c. c \<noteq> CHR ''.'') (rev name))
      in if ext = [] \<or> length before \<le> 1 then [] else CHR ''.'' # ext)"

record dir_entry =
  en_name :: string
  en_is_file :: bool

definition startup_files :: "dir_entry list \<Rightarrow> string list" where
  "startup_files entries =
     (let files = sort (map en_name (filter (\<lambda>p. en_is_file p \<and> (path_suffix (en_name p) = ''.py'' \<or> path_suffix (en_name p) = ''.ipy'')) entries))
      in filter (\<lambda>name. path_suffix name = ''.py'') files)"

text \<open>
  What is outside: the directory and its files, the compiler, and what executing a file does to the
  namespace (also when it raises). Raising an \<open>Exception\<close> there is wrapped; an error of the compiler is not.
\<close>

record profile_world =
  pw_is_dir :: bool
  pw_entries :: "dir_entry list"
  pw_read :: "string \<Rightarrow> exn + string"
  pw_compile :: "string \<Rightarrow> string \<Rightarrow> exn option"
  pw_exec :: "string \<Rightarrow> pyval names \<Rightarrow> exn option \<times> pyval names"

record profile_state =
  ps_namespace :: "pyval names"
  ps_sys_path :: "string list"

definition runtime_error :: "fstring \<Rightarrow> exn" where
  "runtime_error t = Exn RuntimeError t"

definition file_not_found :: "fstring \<Rightarrow> exn" where
  "file_not_found t = Exn FileNotFoundError t"

definition file_path :: "string \<Rightarrow> string \<Rightarrow> string" where
  "file_path dir name = dir @ ''/'' @ name"

definition run_file :: "profile_world \<Rightarrow> string \<Rightarrow> string \<Rightarrow> (profile_state, exn, unit) act" where
  "run_file w dir name = (\<lambda>s.
     let path = file_path dir name in
     case pw_read w path of
       Inl e \<Rightarrow> (Inl e, s)
     | Inr text \<Rightarrow>
         let code = patch_profile_code text in
         case pw_compile w code path of
           Some e \<Rightarrow> (Inl e, s)
         | None \<Rightarrow>
             let ns = AList.update ''__file__'' (PStr path) (ps_namespace s);
                 (raised, ns) = pw_exec w code ns;
                 s = s\<lparr>ps_namespace := ns\<rparr>
             in case raised of
                  None \<Rightarrow> (Inr (), s)
                | Some e \<Rightarrow>
                    (Inl (if is_exception (exn_class e)
                          then runtime_error ([Txt ''Profile file '', Txt path, Txt '' failed: ''] @ exn_text e) else e), s))"

definition profile_description :: "string \<Rightarrow> string" where
  "profile_description dir = ''IPython-style profile at '' @ dir"

text \<open>
  The source as it is constructed; \<open>absolute\<close> makes a path absolute. That \<open>exec_fn\<close> may replace the
  interpreter is in \<open>pw_exec\<close>.
\<close>

record ipython_source =
  ip_startup_dir :: string
  ip_extra_namespace :: "pyval names"
  ip_add_to_sys_path :: bool

definition new_ipython_source :: "(string \<Rightarrow> string) \<Rightarrow> string \<Rightarrow> pyval names option \<Rightarrow> bool \<Rightarrow> ipython_source" where
  "new_ipython_source absolute startup_dir extra_namespace add_to_sys_path =
     \<lparr>ip_startup_dir = absolute startup_dir,
      ip_extra_namespace = (case extra_namespace of None \<Rightarrow> [] | Some names \<Rightarrow> names),
      ip_add_to_sys_path = add_to_sys_path\<rparr>"

text \<open>
  The namespace that a profile starts in: \<open>builtins\<close> and \<open>patch\<close> are the two objects it is given; the objects of
  a namespace are references.
\<close>

definition startup_namespace :: "pyval \<Rightarrow> pyval \<Rightarrow> pyval names \<Rightarrow> pyval names" where
  "startup_namespace builtins patch extra =
     dict_update [(''__name__'', PStr ''__main__''), (''__builtins__'', builtins),
       (''_qs_get_ipython_patch'', patch), (''get_ipython'', patch)] extra"

definition load_profile ::
  "(pyval \<Rightarrow> object_look) \<Rightarrow> profile_world \<Rightarrow> ipython_source \<Rightarrow> pyval \<Rightarrow> pyval \<Rightarrow> string list \<Rightarrow>
   (exn + load_result) \<times> profile_state" where
  "load_profile look w src builtins patch sys_path =
     (let dir = ip_startup_dir src;
          s = \<lparr>ps_namespace = startup_namespace builtins patch (ip_extra_namespace src), ps_sys_path = sys_path\<rparr> in
      if \<not> pw_is_dir w then (Inl (file_not_found [Txt ''Startup directory not found: '', Txt dir]), s)
      else
        let s = (if ip_add_to_sys_path src \<and> dir \<notin> set sys_path then s\<lparr>ps_sys_path := dir # sys_path\<rparr> else s);
            names = startup_files (pw_entries w)
        in if names = [] then (Inl (file_not_found [Txt ''No .py startup files in '', Txt dir]), s)
           else (case for_each (run_file w dir) names s of
               (Inl e, s) \<Rightarrow> (Inl e, s)
             | (Inr _, s) \<Rightarrow> (Inr (collect_namespace look (profile_description dir) None (ps_namespace s)), s)))"

subsection \<open>BITS startup modules (\<open>sources/bits_instrument.py\<close>)\<close>

text \<open>
  \<open>imported\<close> is what importing it does; \<open>registered\<close> are the devices that the \<open>oregistry\<close> of the
  namespace yields before it ends or raises, each with its name (\<open>name\<close>, else \<open>str\<close>).
\<close>

definition set_default :: "string \<times> pyval \<Rightarrow> pyval names \<Rightarrow> pyval names" where
  "set_default kv d = (if map_of d (fst kv) = None then d @ [kv] else d)"

definition load_bits ::
  "(pyval \<Rightarrow> object_look) \<Rightarrow> string \<Rightarrow> exn + pyval names \<Rightarrow> pyval names \<Rightarrow> exn + load_result" where
  "load_bits look module_name imported registered =
     (case imported of
        Inl e \<Rightarrow> Inl (if is_exception (exn_class e)
          then runtime_error ([Txt ''BITS startup module '', Rep (PStr module_name), Txt '' failed to import: ''] @ exn_text e) else e)
      | Inr namespace \<Rightarrow>
          let devices = iter_devices look namespace;
              devices = (case map_of namespace ''oregistry'' of
                  None \<Rightarrow> devices
                | Some r \<Rightarrow> if r = PNone then devices else fold set_default registered devices)
          in Inr (collect_namespace look (''BITS instrument startup module '' @ module_name) (Some devices) namespace))"

subsection \<open>happi databases (\<open>sources/happi_database.py\<close>)\<close>

record happi_entry =
  he_name :: string
  he_active :: bool
  he_loaded :: "exn + pyval"

fun load_entries :: "happi_entry list \<Rightarrow> pyval names \<Rightarrow> (string \<times> fstring) list \<Rightarrow> exn + pyval names \<times> (string \<times> fstring) list" where
  "load_entries [] devices failures = Inr (devices, failures)"
| "load_entries (entry # rest) devices failures =
     (if \<not> he_active entry then load_entries rest devices failures
      else (case he_loaded entry of
          Inr dev \<Rightarrow> load_entries rest (AList.update (he_name entry) dev devices) failures
        | Inl e \<Rightarrow>
            if is_exception (exn_class e) then load_entries rest devices (AList.update (he_name entry) (typed_text e) failures)
            else Inl e))"

definition standard_plans :: "(pyval \<Rightarrow> object_look) \<Rightarrow> pyval names \<Rightarrow> plan_factory names" where
  "standard_plans look bluesky_plans = map (\<lambda>(name, obj). (name, ol_factory (look obj))) (iter_plans look bluesky_plans)"

text \<open>
  \<open>import_happi\<close> is what importing the package raises; \<open>connect from_config path\<close> is the client, with the entries
  of its database, or what connecting raises.
\<close>

definition load_happi ::
  "(fstring \<Rightarrow> string) \<Rightarrow> (pyval \<Rightarrow> object_look) \<Rightarrow> pyval names \<Rightarrow> plan_factory names \<Rightarrow> exn option \<Rightarrow>
   (bool \<Rightarrow> string \<Rightarrow> exn + pyval \<times> happi_entry list) \<Rightarrow> string \<Rightarrow> exn + load_result" where
  "load_happi pr look bluesky_plans extra_plans import_happi connect path =
     (case import_happi of
        Some e \<Rightarrow> Inl (if is_import_error e then runtime_error [Txt ''happi is not installed; install qs[happi]''] else e)
      | None \<Rightarrow>
     (case connect (starts_with ''http://'' path \<or> starts_with ''https://'' path) path of
        Inl e \<Rightarrow> Inl e
      | Inr (client, entries) \<Rightarrow>
          (case load_entries entries [] [] of
             Inl e \<Rightarrow> Inl e
           | Inr (devices, failures) \<Rightarrow>
               Inr \<lparr>lr_devices = devices, lr_plans = dict_update (standard_plans look bluesky_plans) extra_plans, lr_engine = None,
                    lr_namespace = [(''happi_client'', client),
                      (''happi_failures'', PDict (map (\<lambda>(n, t). (PStr n, PStr (pr t))) failures))],
                    lr_source_description = ''happi database '' @ path\<rparr>)))"

end
