(* ===== verification/RouteFaults.thy ===== *)
theory RouteFaults
  imports RouteProperties
begin

section \<open>Adding over HTTP, and two routes that go wrong\<close>

text \<open>
  What \<open>/queue/item/add\<close> answers in every case; the batch route lets the refusal of a position through;
  and an update of a device definition takes the live device down before it knows whether the update
  is valid.
\<close>

subsection \<open>Adding one item\<close>

lemma validate_error: "validate reg it = Inl e \<Longrightarrow> exn_class e = QueueError"
  by (auto simp: validate_def check_parameters_def split: if_splits sum.splits option.splits)

lemma add_ready:
  assumes "sql_ready s" "fst fresh \<notin> set (uids (sql_queue s))"
  shows "fst (add SqlQueueRepository reg fresh it pos b a s) =
      (case validate reg it of Inl e \<Rightarrow> Inl e | Inr _ \<Rightarrow>
       case spec_position (sql_queue s) pos b a of Inl e \<Rightarrow> Inl e | Inr i \<Rightarrow> Inr (added_item fresh it (sql_queue s), i))"
    "sql_queue (snd (add SqlQueueRepository reg fresh it pos b a s)) =
      (case validate reg it of Inl e \<Rightarrow> sql_queue s | Inr _ \<Rightarrow>
       case spec_position (sql_queue s) pos b a of Inl e \<Rightarrow> sql_queue s
         | Inr i \<Rightarrow> insert_at i (added_item fresh it (sql_queue s)) (sql_queue s))"
    "sql_ready (snd (add SqlQueueRepository reg fresh it pos b a s))"
proof -
  obtain r t where e: "add (SpecRepository sql_keep) reg fresh it pos b a (abs_service sql_abs s) = (r, t)" by force
  note spec = add_spec [of it "abs_service sql_abs s" fresh sql_keep reg pos b a]
  show "fst (add SqlQueueRepository reg fresh it pos b a s) =
      (case validate reg it of Inl e \<Rightarrow> Inl e | Inr _ \<Rightarrow>
       case spec_position (sql_queue s) pos b a of Inl e \<Rightarrow> Inl e | Inr i \<Rightarrow> Inr (added_item fresh it (sql_queue s), i))"
    "sql_queue (snd (add SqlQueueRepository reg fresh it pos b a s)) =
      (case validate reg it of Inl e \<Rightarrow> sql_queue s | Inr _ \<Rightarrow>
       case spec_position (sql_queue s) pos b a of Inl e \<Rightarrow> sql_queue s
         | Inr i \<Rightarrow> insert_at i (added_item fresh it (sql_queue s)) (sql_queue s))"
    "sql_ready (snd (add SqlQueueRepository reg fresh it pos b a s))"
    using sql_outcome [OF sql.sim_add assms(1) e] spec assms(2) e
    by (auto simp: Let_def split: sum.splits)
qed

text \<open>The whole answer, and the queue behind it.\<close>

definition add_target :: "registry \<Rightarrow> queue_item \<Rightarrow> pydict \<Rightarrow> queue_item list \<Rightarrow> exn + nat" where
  "add_target reg it payload q = (case validate reg it of Inl e \<Rightarrow> Inl e
     | Inr _ \<Rightarrow> spec_position q (dget ''pos'' payload) (dget ''before_uid'' payload) (dget ''after_uid'' payload))"

lemma item_add_outcome:
  assumes "sql_ready (queue_service_of s)" "fst (en_fresh env 1) \<notin> set (uids (sql_queue (queue_service_of s)))"
    and "read_payload (en_loads env) rq = Inr payload" "item_from_payload env payload p = Inr it"
  shows "\<exists>s'. item_add SqlQueueRepository env rq p s =
      (Inr (case add_target (sv_registry s) it payload (sql_queue (queue_service_of s)) of
         Inr i \<Rightarrow> ok_body [] [(PStr ''qsize'', num (length (sql_queue (queue_service_of s)) + 1)),
           (PStr ''item'', item_val (added_item (en_fresh env 1) it (sql_queue (queue_service_of s))))]
       | Inl e \<Rightarrow> fail_body (text_of_exn env e) None [(PStr ''qsize'', num (length (sql_queue (queue_service_of s)))),
           (PStr ''item'', dget_or ''item'' (PDict []) payload)]), s') \<and>
    sql_queue (queue_service_of s') = (case add_target (sv_registry s) it payload (sql_queue (queue_service_of s)) of
         Inr i \<Rightarrow> insert_at i (added_item (en_fresh env 1) it (sql_queue (queue_service_of s))) (sql_queue (queue_service_of s))
       | Inl e \<Rightarrow> sql_queue (queue_service_of s))"
proof -
  let ?q = "queue_service_of s"
  note r = add_ready [OF assms(1,2), of "sv_registry s" it "dget ''pos'' payload" "dget ''before_uid'' payload" "dget ''after_uid'' payload"]
  note l = queue_len_ready [OF r(3)]
  note defs = item_add_def payload_of_request_def in_registry_def with_position_def changed_item_def refused_item_def add_target_def
  show ?thesis
  proof (cases "validate (sv_registry s) it")
    case (Inl e)
    then show ?thesis using assms(3,4) r(1,2) l(1,2) validate_error [OF Inl] by (simp add: defs act_simps)
  next
    case (Inr u)
    show ?thesis
    proof (cases "spec_position (sql_queue ?q) (dget ''pos'' payload) (dget ''before_uid'' payload) (dget ''after_uid'' payload)")
      case (Inl e)
      then show ?thesis using Inr assms(3,4) r(1,2) l(1,2) spec_position_error [OF Inl] by (simp add: defs act_simps)
    next
      case (Inr i)
      then show ?thesis using \<open>validate (sv_registry s) it = Inr u\<close> assms(3,4) r(1,2) l(1,2) by (simp add: defs act_simps)
    qed
  qed
qed


definition example_payload :: pydict where
  "example_payload = [(PStr ''item'', PDict [(PStr ''name'', PStr ''count''), (PStr ''args'', PList [PList [PStr ''det'']])]),
     (PStr ''pos'', PStr ''front'')]"

lemma example_from_payload:
  "\<exists>it. item_from_payload (decoding example_payload) (dict_update [] example_payload) (new_principal ''single_user'') = Inr it \<and>
     item_name it = ''count'' \<and> validate example_registry it = Inr ()"
proof -
  have d: "dget ''item'' (dict_update [] example_payload) = PDict [(PStr ''name'', PStr ''count''), (PStr ''args'', PList [PList [PStr ''det'']])]"
  proof -
    have u: "distinct (map fst example_payload)" by (simp add: example_payload_def)
    show ?thesis unfolding dget_dict_update [OF u] by (simp add: example_payload_def dget_def)
  qed
  show ?thesis
    unfolding item_from_payload_def d
    by (simp add: dhas_def item_from_dict_def dget_def dget_or_def py_or_def validate_def get_plan_def example_registry_def
        check_parameters_def bind_item_def bind_call_def Let_def)
qed


subsection \<open>A batch whose position makes no sense\<close>

lemma check_batch_valid:
  assumes "check_batch env reg p i raws = Inr checked"
  shows "length checked = length raws \<and> (\<forall>c \<in> set checked. \<forall>it. fst c = Some it \<longrightarrow> validate reg it = Inr ())"
  using assms
proof (induction raws arbitrary: i checked)
  case (Cons raw raws)
  show ?case
  proof (cases "check_batch env reg p (i + 1) raws")
    case (Inl e)
    with Cons.prems show ?thesis by (auto simp: Let_def split: sum.splits if_splits)
  next
    case (Inr rest)
    from Cons.IH [OF Inr] Cons.prems Inr show ?thesis by (auto simp: Let_def split: sum.splits if_splits)
  qed
qed simp

lemma add_batch_refused:
  assumes "sql_ready s" "fst (fresh 0) \<notin> set (uids (sql_queue s))" "its \<noteq> []" "\<forall>it \<in> set its. validate reg it = Inr ()"
    and "spec_position (sql_queue s) pos b a = Inl e"
  shows "fst (add_batch SqlQueueRepository reg fresh its pos b a s) = Inl e"
    "sql_queue (snd (add_batch SqlQueueRepository reg fresh its pos b a s)) = sql_queue s"
proof -
  obtain it rest where its: "its = it # rest" using assms(3) by (cases its) auto
  have find: "find (\<lambda>it. validate reg it \<noteq> Inr ()) its = None" using assms(4) by (simp add: find_None_iff)
  let ?t = "abs_service sql_abs s"
  have one: "add (SpecRepository sql_keep) reg (fresh 0) it pos b a ?t = (Inl e, ?t)"
    using assms(2,4,5) its by (subst add_spec) simp_all
  have e: "add_batch (SpecRepository sql_keep) reg fresh its pos b a ?t = (Inl e, ?t)"
    unfolding add_batch_def act_simps validate_all find using one its by (simp add: act_simps)
  from sql_outcome [OF sql.sim_add_batch assms(1) e]
  show "fst (add_batch SqlQueueRepository reg fresh its pos b a s) = Inl e"
    "sql_queue (snd (add_batch SqlQueueRepository reg fresh its pos b a s)) = sql_queue s" by simp_all
qed

text \<open>
  \<open>/queue/item/add/batch\<close> has no clause for a position that makes no sense: where the single add answers
  with \<open>success: false\<close>, a batch of good items ends as an internal error with status 500.
\<close>

theorem batch_add_bad_position_breaks:
  assumes "sql_ready (queue_service_of s)" "fst (en_fresh env (length raws)) \<notin> set (uids (sql_queue (queue_service_of s)))"
    and "read_payload (en_loads env) rq = Inr payload" "dget ''items'' payload = PList raws" "raws \<noteq> []"
    and "check_batch env (sv_registry s) p 0 raws = Inr checked" "\<forall>c \<in> set checked. fst c \<noteq> None"
    and "spec_position (sql_queue (queue_service_of s)) (dget ''pos'' payload) (dget ''before_uid'' payload) (dget ''after_uid'' payload) = Inl e"
  shows "\<exists>s'. item_add_batch SqlQueueRepository env rq p s = (Inl e, s') \<and> exn_class e = QueueError \<and>
    fst (answer env (with_dict (item_add_batch SqlQueueRepository env rq p)) s) = Broken (unhandled env e) \<and>
    sql_queue (queue_service_of s') = sql_queue (queue_service_of s)"
proof -
  note c = check_batch_valid [OF assms(6)]
  have some: "\<not> list_ex (\<lambda>c. fst c = None) checked" using assms(7) by (simp add: list_ex_iff)
  let ?its = "map (the \<circ> fst) checked"
  have v: "\<forall>it \<in> set ?its. validate (sv_registry s) it = Inr ()"
  proof
    fix it assume "it \<in> set ?its"
    then obtain x where x: "x \<in> set checked" "it = the (fst x)" by auto
    then have "fst x = Some it" using assms(7) by (cases "fst x") auto
    with c x(1) show "validate (sv_registry s) it = Inr ()" by blast
  qed
  have ne: "?its \<noteq> []" using c assms(5) by auto
  have f: "fst ((\<lambda>i. en_fresh env (length raws + i)) 0) \<notin> set (uids (sql_queue (queue_service_of s)))" using assms(2) by simp
  note b = add_batch_refused [where fresh = "\<lambda>i. en_fresh env (length raws + i)", OF assms(1) f ne v assms(8)]
  note q = spec_position_error [OF assms(8)]
  show ?thesis
    using b q some assms(3,4,6)
    by (simp add: item_add_batch_def payload_of_request_def in_registry_def with_position_def with_dict_def answer_def act_simps Let_def)
qed

theorem batch_add_bad_position_breaks_witness:
  "\<exists>e s'. item_add_batch SqlQueueRepository (decoding [(PStr ''items'', PList [PDict [(PStr ''name'', PStr ''count''), (PStr ''args'', PList [PList [PStr ''det'']])]]),
       (PStr ''before_uid'', PStr ''x'')])
     example_request (new_principal ''single_user'') example_services = (Inl e, s') \<and> exn_class e = QueueError"
proof -
  let ?raws = "[PDict [(PStr ''name'', PStr ''count''), (PStr ''args'', PList [PList [PStr ''det'']])]]"
  let ?p = "[(PStr ''items'', PList ?raws), (PStr ''before_uid'', PStr ''x'')]"
  let ?env = "decoding ?p"
  have d: "distinct (map fst ?p)" by simp
  have g: "dget ''items'' ?p = PList ?raws" "dget ''pos'' ?p = PNone"
    "dget ''before_uid'' ?p = PStr ''x''" "dget ''after_uid'' ?p = PNone" by (simp_all add: dget_def)
  have reg: "sv_registry example_services = example_registry" by (simp add: example_services_def)
  have "\<exists>checked. check_batch ?env example_registry (new_principal ''single_user'') 0 ?raws = Inr checked \<and> (\<forall>c \<in> set checked. fst c \<noteq> None)"
    by (simp add: item_from_dict_def dhas_def dget_def dget_or_def py_or_def validate_def get_plan_def example_registry_def
        check_parameters_def bind_item_def bind_call_def Let_def)
  then obtain checked where c: "check_batch ?env (sv_registry example_services) (new_principal ''single_user'') 0 ?raws = Inr checked"
    "\<forall>c \<in> set checked. fst c \<noteq> None" unfolding reg by blast
  have f: "fst (en_fresh ?env (length ?raws)) \<notin> set (uids (sql_queue (queue_service_of example_services)))"
    by (simp add: decoding_def example_surroundings_def numeral_2_eq_2)
  have t: "spec_position (sql_queue (queue_service_of example_services)) PNone (PStr ''x'') PNone = Inl (not_in_queue (PStr ''x''))"
    by (simp add: spec_position_def position_of_PStr)
  show ?thesis
    using batch_add_bad_position_breaks [of example_services ?env, OF _ f read_decoding [OF d] _ _ c] t
    unfolding dget_dict_update [OF d] g by auto
qed

subsection \<open>An update that is refused\<close>

definition live_instance :: "string \<Rightarrow> registry \<Rightarrow> bool" where
  "live_instance name reg \<longleftrightarrow> map_option de_origin (map_of (reg_devices reg) name) = Some Definition"

text \<open>
  \<open>PUT /qs/devices/{name}\<close> removes the live device before it looks at the new definition. If that is
  refused, the answer is \<open>success: false\<close> and the stored definition is the old one, but the device is
  gone until somebody instantiates it again.
\<close>

theorem refused_update_drops_live:
  assumes "sv_definitions s = Some r" "live_instance name (sv_registry s)"
    and "read_payload (en_loads env) rq = Inr payload"
    and "parse_definition env (AList.update (PStr ''name'') (PStr name) payload) = Inr given"
    and "validate_definition w given (snd (remove_device name (sv_registry s))) = Inl e" "is_exception (exn_class e)"
  shows "\<exists>body s'. update_device defs env look w name rq s = (Inr body, s') \<and> dget ''success'' body = PBool False \<and>
    sv_definitions s' = Some r \<and> map_of (reg_devices (sv_registry s')) name = None"
proof -
  obtain entry where e: "map_of (reg_devices (sv_registry s)) name = Some entry" "de_origin entry = Definition"
    using assms(2) by (auto simp: live_instance_def)
  have gone: "remove_device name (sv_registry s) =
      (Inr (de_device entry), (sv_registry s)\<lparr>reg_devices := AList.delete name (reg_devices (sv_registry s))\<rparr>)"
    using e by (simp add: remove_device_def)
  show ?thesis
    using assms e
    by (simp add: update_device_def payload_of_request_def with_service_def via_devices_def is_instantiated_def remove_instance_def
        with_registry_eq on_change_eq gone update_definition_def check_definition_def fail_from_def fail_text_def dget_fail act_simps
        delete_conv' Let_def)
qed

definition example_update :: pydict where
  "example_update = [(PStr ''class_path'', PStr ''Nowhere''), (PStr ''name'', PStr ''m1'')]"

theorem refused_update_drops_live_witness:
  "\<exists>body s'. update_device SqlDeviceDefinitionRepository (decoding example_update) example_look example_world ''m1'' example_request
       (example_services\<lparr>sv_definitions := Some (ds_repo example_devices),
          sv_registry := \<lparr>reg_plans = [], reg_devices = [(''m1'', \<lparr>de_name = ''m1'', de_device = PObj 1, de_origin = Definition\<rparr>)]\<rparr>\<rparr>) =
     (Inr body, s') \<and> dget ''success'' body = PBool False \<and> map_of (reg_devices (sv_registry s')) ''m1'' = None"
proof -
  let ?reg = "\<lparr>reg_plans = [], reg_devices = [(''m1'', \<lparr>de_name = ''m1'', de_device = PObj 1, de_origin = Definition\<rparr>)]\<rparr>"
  let ?given = "\<lparr>dd_name = ''m1'', dd_class_path = ''Nowhere'', dd_prefix = [], dd_kwargs = [], dd_enabled = True,
     dd_created_at = en_now (decoding example_update), dd_updated_at = en_now (decoding example_update)\<rparr>"
  have u: "AList.update (PStr ''name'') (PStr ''m1'') (dict_update [] example_update) =
      [(PStr ''class_path'', PStr ''Nowhere''), (PStr ''name'', PStr ''m1'')]"
    by (simp add: example_update_def dict_update_def)
  have g: "parse_definition (decoding example_update) (AList.update (PStr ''name'') (PStr ''m1'') (dict_update [] example_update)) = Inr ?given"
    unfolding u by (simp add: parse_definition_def definition_from_dict_def dict_item_def dget_def dget_or_def py_or_def)
  have v: "\<exists>e. validate_definition example_world ?given (snd (remove_device ''m1'' ?reg)) = Inl e \<and> is_exception (exn_class e)"
    by (simp add: validate_definition_def remove_device_def identifier_start_def identifier_part_def import_class_def
        rpartition_at_def definition_error_def)
  have p: "read_payload (en_loads (decoding example_update)) example_request = Inr (dict_update [] example_update)"
    by (rule read_decoding) (simp add: example_update_def)
  have l: "live_instance ''m1'' ?reg" by (simp add: live_instance_def)
  show ?thesis
    using refused_update_drops_live [of "example_services\<lparr>sv_definitions := Some (ds_repo example_devices), sv_registry := ?reg\<rparr>",
        OF _ _ p g] l v by force
qed

end
