(* ===== verification/Compose.thy ===== *)
theory Compose
  imports ConfigProperties Sources RouteFaults
begin

section \<open>The composition root and the entry point (\<open>runtime/compose.py\<close>, \<open>runtime/main.py\<close>)\<close>

text \<open>
  From a configuration to the running service: console capture, engine thread, profile, registry, database,
  queue, sequencer, status, device definitions, the sequencer's thread, authentication. \<open>beginnings\<close> is
  what is found outside: what loading a source does, the engine that the factory would build, what opening the
  database gives (with the tables created), the random key, and the surroundings of the other parts.
\<close>

datatype profile_source =
    IPythonProfileSource string
  | BitsInstrumentSource pyval
  | HappiDatabaseSource pyval

record beginnings =
  bg_env :: surroundings
  bg_load :: "profile_source \<Rightarrow> exn + load_result"
  bg_description :: "profile_source \<Rightarrow> string"
  bg_new_engine :: "exn + run_engine"
  bg_database :: "string \<Rightarrow> exn + database"
  bg_world :: device_world
  bg_random_key :: string
  bg_console_uid :: string

definition value_error :: "fstring \<Rightarrow> exn" where
  "value_error t = Exn ValueError t"

text \<open>\<open>Path(...)\<close> takes a string only.\<close>

definition make_source :: "config \<Rightarrow> exn + profile_source" where
  "make_source c =
     (let kind = setting ''startup'' ''kind'' c in
      if kind = PStr ''ipython'' then
        (if \<not> truthy (setting ''startup'' ''startup_dir'' c)
         then Inl (value_error [Txt ''startup.startup_dir is required for an IPython-style profile''])
         else (case setting ''startup'' ''startup_dir'' c of PStr d \<Rightarrow> Inr (IPythonProfileSource d) | _ \<Rightarrow> Inl (Exn TypeError [])))
      else if kind = PStr ''bits'' then
        (if \<not> truthy (setting ''startup'' ''startup_module'' c)
         then Inl (value_error [Txt ''startup.startup_module is required for a BITS instrument''])
         else Inr (BitsInstrumentSource (setting ''startup'' ''startup_module'' c)))
      else if kind = PStr ''happi'' then
        (if \<not> truthy (setting ''startup'' ''happi_path'' c)
         then Inl (value_error [Txt ''startup.happi_path is required for a happi database''])
         else Inr (HappiDatabaseSource (setting ''startup'' ''happi_path'' c)))
      else Inl (value_error [Txt ''Unknown startup.kind '', Rep kind, Txt ('': use 'ipython', 'bits' or 'happi'' @ [CHR 0x27])]))"

text \<open>
  A key that is no string gets as far as the next argument of \<open>Services\<close>, where clipping it raises.
\<close>

definition make_authenticator :: "string \<Rightarrow> config \<Rightarrow> exn + authenticator" where
  "make_authenticator random_key c =
     (if truthy (setting ''http'' ''allow_anonymous'' c) then SingleKeyAuthenticator [] True False
      else if truthy (setting ''http'' ''api_key'' c) then
        (case setting ''http'' ''api_key'' c of
           PStr key \<Rightarrow> SingleKeyAuthenticator key False False
         | v \<Rightarrow> Inl (projl (clip_secret v)))
      else SingleKeyAuthenticator random_key False True)"

text \<open>The authentication that the startup line of the log names.\<close>

definition logged_authentication :: "config \<Rightarrow> string" where
  "logged_authentication c =
     (if truthy (setting ''http'' ''api_key'' c) then ''single-user API key''
      else if truthy (setting ''http'' ''allow_anonymous'' c) then ''anonymous access''
      else ''generated key'')"

text \<open>\<open>s.split(sep, 1)\<close> where \<open>sep\<close> occurs: what is before its first occurrence, and what is behind.\<close>

fun split_first :: "string \<Rightarrow> string \<Rightarrow> (string \<times> string) option" where
  "split_first sep s =
     (if starts_with sep s then Some ([], drop (length sep) s)
      else case s of [] \<Rightarrow> None | c # cs \<Rightarrow> map_option (\<lambda>(h, t). (c # h, t)) (split_first sep cs))"

definition redact_url :: "pyval \<Rightarrow> exn + string" where
  "redact_url url = (case url of
     PStr u \<Rightarrow>
       (case split_first ''://'' u of
          None \<Rightarrow> Inr u
        | Some (scheme, rest) \<Rightarrow>
            if CHR ''@'' \<notin> set u then Inr u
            else (case split_first ''@'' rest of
                None \<Rightarrow> Inl (Exn IndexError [Txt ''list index out of range''])
              | Some (_, after) \<Rightarrow> Inr (scheme @ ''://***@'' @ after)))
   | _ \<Rightarrow> Inl (Exn TypeError []))"

text \<open>The numbers that later parts compute with.\<close>

fun seconds_of :: "pyval \<Rightarrow> rat" where
  "seconds_of (PFloat r) = r"
| "seconds_of (PInt i) = of_int i"
| "seconds_of v = 0"

fun depth_of :: "pyval \<Rightarrow> nat" where
  "depth_of (PInt i) = nat i"
| "depth_of v = 0"

fun text_value :: "pyval \<Rightarrow> string" where
  "text_value (PStr s) = s"
| "text_value v = []"

subsection \<open>Building the application\<close>

text \<open>Up to the registry: the host started, the profile loaded on its thread.\<close>

definition load_registry :: "beginnings \<Rightarrow> config \<Rightarrow> exn + host \<times> registry" where
  "load_registry bg c =
     (let h = snd (start_host (EngineHost_init (truthy (setting ''engine'' ''stream_device_progress'' c)))) in
      case make_source c of
        Inl e \<Rightarrow> Inl e
      | Inr source \<Rightarrow>
          (case load_source (bg_description bg source) (bg_load bg source) (bg_new_engine bg) h of
             (Inl e, _) \<Rightarrow> Inl e
           | (Inr result, h) \<Rightarrow> Inr (h, load_from result empty_registry)))"

text \<open>Queue, sequencer and status on an opened database; the device definitions instantiated.\<close>

definition wire_services ::
  "beginnings \<Rightarrow> config \<Rightarrow> host \<Rightarrow> registry \<Rightarrow> database \<Rightarrow>
   exn + (database sequencer \<times> reporter \<times> database device_service \<times> (string \<times> fstring) list)" where
  "wire_services bg c h reg db =
     (let q = Sequencer_init (QueueService_init db) h (truthy (setting ''engine'' ''require_synced_experiment'' c));
          st = StatusReporter_init (bg_env bg) (seconds_of (setting ''engine'' ''stall_after'' c))
      in case instantiate_all_enabled SqlDeviceDefinitionRepository (bg_world bg) h (DeviceDefinitionService_init db reg) of
           (Inl e, _) \<Rightarrow> Inl e
         | (Inr failures, ds) \<Rightarrow>
             (case start_thread q of
                (Inl e, _) \<Rightarrow> Inl e
              | (Inr _, q) \<Rightarrow> Inr (q, (bump_registry (bg_env bg) ^^ ds_changes ds) st, ds, failures)))"

definition build_services ::
  "beginnings \<Rightarrow> bool \<Rightarrow> config \<Rightarrow> console \<Rightarrow> exn + ((database, database) services \<times> (string \<times> fstring) list)" where
  "build_services bg has_shutdown c captured =
     (case load_registry bg c of Inl e \<Rightarrow> Inl e | Inr (h, reg) \<Rightarrow>
      case redact_url (setting ''database'' ''url'' c) of Inl e \<Rightarrow> Inl e | Inr _ \<Rightarrow>
      case bg_database bg (text_value (setting ''database'' ''url'' c)) of Inl e \<Rightarrow> Inl e | Inr db \<Rightarrow>
      case wire_services bg c h reg db of Inl e \<Rightarrow> Inl e | Inr (q, st, ds, failures) \<Rightarrow>
      case make_authenticator (bg_random_key bg) c of Inl e \<Rightarrow> Inl e | Inr auth \<Rightarrow>
      case to_dict True c of Inl e \<Rightarrow> Inl e | Inr shown \<Rightarrow>
        Inr (\<lparr>sv_seq = q, sv_status = st, sv_registry = ds_registry ds, sv_auth = auth, sv_console = captured,
              sv_definitions = Some (ds_repo ds), sv_device_max_depth = depth_of (setting ''startup'' ''device_max_depth'' c),
              sv_config = shown, sv_has_shutdown = has_shutdown, sv_shutdowns = 0\<rparr>, failures))"

definition build_application ::
  "beginnings \<Rightarrow> bool \<Rightarrow> config \<Rightarrow> std_streams \<Rightarrow>
   (exn + ((database, database) services \<times> (string \<times> fstring) list)) \<times> std_streams" where
  "build_application bg has_shutdown c sys =
     (let captured = ConsoleCapture_init 2000 (bg_console_uid bg);
          (captured, sys) = (if truthy (setting ''engine'' ''capture_console'' c) then install (captured, sys) else (captured, sys))
      in (build_services bg has_shutdown c captured, sys))"

text \<open>\<open>Application.close\<close>.\<close>

definition close_application :: "(database, database) services \<times> std_streams \<Rightarrow> (database, database) services \<times> std_streams" where
  "close_application = (\<lambda>(s, sys).
     let s = snd (via_sequencer close s);
         s = s\<lparr>sv_seq := (sv_seq s)\<lparr>sq_host := shutdown (sq_host (sv_seq s))\<rparr>\<rparr>;
         (captured, sys) = uninstall (sv_console s, sys)
     in (s\<lparr>sv_console := captured\<rparr>, sys))"

subsection \<open>The command line\<close>

record cli_args =
  ar_config :: string
  ar_startup_dir :: pyval
  ar_startup_module :: pyval
  ar_happi_path :: pyval
  ar_database_url :: pyval
  ar_host :: pyval
  ar_port :: pyval
  ar_api_key :: pyval
  ar_allow_anonymous :: bool
  ar_stream_device_progress :: bool
  ar_no_console_capture :: bool
  ar_log_level :: string
  ar_list_plans :: bool

definition flag_override :: "bool \<Rightarrow> bool \<Rightarrow> pyval" where
  "flag_override given v = (if given then PBool v else PNone)"

definition overrides_of :: "cli_args \<Rightarrow> (string \<times> pyval) list" where
  "overrides_of args =
     [(''startup.startup_dir'', ar_startup_dir args), (''startup.startup_module'', ar_startup_module args),
      (''startup.happi_path'', ar_happi_path args), (''database.url'', ar_database_url args), (''http.host'', ar_host args),
      (''http.port'', ar_port args), (''http.api_key'', ar_api_key args),
      (''http.allow_anonymous'', flag_override (ar_allow_anonymous args) True),
      (''engine.stream_device_progress'', flag_override (ar_stream_device_progress args) True),
      (''engine.capture_console'', flag_override (ar_no_console_capture args) False)] @
     (if truthy (ar_startup_module args) then [(''startup.kind'', PStr ''bits'')]
      else if truthy (ar_happi_path args) then [(''startup.kind'', PStr ''happi'')] else [])"

definition configure :: "config_world \<Rightarrow> environ \<Rightarrow> cli_args \<Rightarrow> exn + config" where
  "configure w env args = load_config w (ar_config args) env (overrides_of args)"

text \<open>\<open>_log_load_failure\<close>: the line that goes into the journal.\<close>

datatype journal_line = LoadFailure error_code exn

definition log_load_failure :: "exn \<Rightarrow> journal_line" where
  "log_load_failure e = LoadFailure PROFILE_LOAD e"

text \<open>
  The listing of \<open>--list-plans\<close>: what is logged, the lines that are printed, and the exit status or the exception that ends
  the program. \<open>type_name\<close> and \<open>signature\<close> are what Python says of a device's class and of a plan. The host
  is shut down in any case.
\<close>

definition pad :: "nat \<Rightarrow> string \<Rightarrow> string" where
  "pad n s = s @ replicate (n - length s) CHR '' ''"

definition plan_signature :: "(plan_factory \<Rightarrow> exn + string) \<Rightarrow> plan_factory \<Rightarrow> exn + string" where
  "plan_signature signature plan =
     (case signature plan of
        Inr t \<Rightarrow> Inr t
      | Inl e \<Rightarrow> if exn_class e = TypeError \<or> is_value_error (exn_class e) then Inr ''(...)'' else Inl e)"

fun plan_lines :: "(plan_factory \<Rightarrow> exn + string) \<Rightarrow> (string \<times> plan_factory) list \<Rightarrow> string list \<times> exn option" where
  "plan_lines signature [] = ([], None)"
| "plan_lines signature ((name, plan) # plans) =
     (case plan_signature signature plan of
        Inl e \<Rightarrow> ([], Some e)
      | Inr t \<Rightarrow> (let (ls, e) = plan_lines signature plans in ((''  '' @ pad 28 name @ '' '' @ t) # ls, e)))"

definition list_plans ::
  "beginnings \<Rightarrow> (pyval \<Rightarrow> string) \<Rightarrow> (plan_factory \<Rightarrow> exn + string) \<Rightarrow> config \<Rightarrow>
   journal_line list \<times> string list \<times> (exn + int) \<times> host" where
  "list_plans bg type_name signature c =
     (let h = snd (start_host (EngineHost_init False)) in
      case (case make_source c of Inl e \<Rightarrow> (Inl e, h)
            | Inr source \<Rightarrow> load_source (bg_description bg source) (bg_load bg source) (bg_new_engine bg) h) of
        (Inl e, h) \<Rightarrow>
          (if is_exception (exn_class e) then ([log_load_failure e], [], Inr 1, shutdown h) else ([], [], Inl e, shutdown h))
      | (Inr result, h) \<Rightarrow>
          (let reg = load_from result empty_registry;
               (listed, raised) = plan_lines signature
                 (map (\<lambda>name. (name, the (map_of (reg_plans reg) name))) (sort (map fst (reg_plans reg))))
           in ([], [CHR 0x23 # '' '' @ lr_source_description result,
                CHR 0x23 # '' engine: '' @ (if h_engine_adopted h then ''adopted from profile'' else ''created by qs''),
                [], show_nat (length (reg_devices reg)) @ '' devices''] @
               map (\<lambda>name. ''  '' @ pad 28 name @ '' '' @ type_name (de_device (the (map_of (reg_devices reg) name))))
                 (sort (map fst (reg_devices reg))) @
               [[], show_nat (length (reg_plans reg)) @ '' plans''] @ listed,
               case raised of Some e \<Rightarrow> Inl e | None \<Rightarrow> Inr 0, shutdown h)))"

end
