(* ===== verification/ComposeProperties.thy ===== *)
theory ComposeProperties
  imports Compose
begin

section \<open>Properties of the composed service\<close>

subsection \<open>A fresh service\<close>

lemma load_source_idle:
  assumes "load_source d loaded e h = (Inr result, h')"
  shows "h_state h' = IDLE \<and> loaded = Inr result \<and> h_engine h' \<noteq> None"
  using assms
  by (auto simp: load_source_def submit_def load_source_on_thread_def mark_environment_def adopt_loaded_def install_engine_def emit_def set_state_def Let_def
      split: sum.splits option.splits if_splits)

lemma load_from_profile: "map_of (reg_devices (load_from result empty_registry)) n = Some e \<Longrightarrow> de_origin e = Profile"
  by (auto simp: load_from_def empty_registry_def dict_update_def lookup_fresh Let_def)

text \<open>Whatever database is opened is one that the service itself may have left.\<close>

definition opens_consistent :: "beginnings \<Rightarrow> bool" where
  "opens_consistent bg \<longleftrightarrow> (\<forall>u db. bg_database bg u = Inr db \<longrightarrow> sql_valid db \<and> defs_valid (db_tables db))"

text \<open>
  Starting on any consistent database: when the service comes up, its invariants hold, the profile's devices
  are the registry's, the host is idle with an engine, and nothing runs, whatever was in the queue.
\<close>

lemma fresh_service:
  assumes "build_services bg sd c captured = Inr (s, failures)"
    and "opens_consistent bg"
  shows "services_ok (profile_entry (sv_registry s)) s" "h_state (host_of s) = IDLE" "h_engine (host_of s) \<noteq> None"
    "sq_thread_started (sv_seq s)" "\<not> sq_running (sv_seq s)" "\<not> sq_autostart (sv_seq s)" "sq_running_item (sv_seq s) = None"
    "\<exists>db. bg_database bg (text_value (setting ''database'' ''url'' c)) = Inr db \<and> qs_repo (queue_service_of s) = db"
    "sv_console s = captured"
    "\<exists>result. bg_load bg (projr (make_source c)) = Inr result \<and>
       profile_entry (sv_registry s) = profile_entry (load_from result empty_registry)"
proof -
  from assms(1) obtain h reg db q st ds where steps: "load_registry bg c = Inr (h, reg)"
    "bg_database bg (text_value (setting ''database'' ''url'' c)) = Inr db" "wire_services bg c h reg db = Inr (q, st, ds, failures)"
    and s: "sv_seq s = q" "sv_registry s = ds_registry ds" "sv_definitions s = Some (ds_repo ds)" "sv_console s = captured"
    by (auto simp: build_services_def split: sum.splits prod.splits)
  from steps(1) obtain source result h0 where h: "make_source c = Inr source"
      "load_source (bg_description bg source) (bg_load bg source) (bg_new_engine bg) h0 = (Inr result, h)"
      "reg = load_from result empty_registry"
    by (auto simp: load_registry_def Let_def split: sum.splits prod.splits)
  note idle = load_source_idle [OF h(2)]
  from steps(3) obtain ds' where w: "snd (instantiate_all_enabled SqlDeviceDefinitionRepository (bg_world bg) h (DeviceDefinitionService_init db reg)) = ds"
      "q = snd (start_thread (Sequencer_init (QueueService_init db) h (truthy (setting ''engine'' ''require_synced_experiment'' c))))"
    by (auto simp: wire_services_def start_thread_def Sequencer_init_def Let_def split: sum.splits prod.splits)
  have valid: "sql_valid db \<and> defs_valid (db_tables db)" using assms(2) steps(2) by (simp add: opens_consistent_def)
  have "instances_stored sql_defs (DeviceDefinitionService_init db reg)"
    using load_from_profile h(3) by (fastforce simp: instances_stored_def is_instantiated_def DeviceDefinitionService_init_def)
  then have "device_ok sql_defs (\<lambda>db. defs_valid (db_tables db)) (profile_entry reg) (DeviceDefinitionService_init db reg)"
    using valid by (simp add: device_ok_def DeviceDefinitionService_init_def)
  from keepsD [OF sqldefs.keeps_ok_all this, of "bg_world bg" h] w(1)
  have d: "device_ok sql_defs (\<lambda>db. defs_valid (db_tables db)) (profile_entry reg) ds" by simp
  then have p: "profile_entry (ds_registry ds) = profile_entry reg" by (simp add: device_ok_def)
  show "services_ok (profile_entry (sv_registry s)) s"
    using d p s valid w(2)
    by (simp add: services_ok_def definitions_ok_def device_ok_def instances_stored_def is_instantiated_def start_thread_def
        Sequencer_init_def QueueService_init_def)
  show "h_state (host_of s) = IDLE" "h_engine (host_of s) \<noteq> None"
    "sq_thread_started (sv_seq s)" "\<not> sq_running (sv_seq s)" "\<not> sq_autostart (sv_seq s)" "sq_running_item (sv_seq s) = None"
    "\<exists>db. bg_database bg (text_value (setting ''database'' ''url'' c)) = Inr db \<and> qs_repo (queue_service_of s) = db"
    using s w(2) idle steps(2) by (simp_all add: start_thread_def Sequencer_init_def QueueService_init_def)
  show "sv_console s = captured" by (rule s(4))
  show "\<exists>result. bg_load bg (projr (make_source c)) = Inr result \<and>
       profile_entry (sv_registry s) = profile_entry (load_from result empty_registry)"
    using idle h p s(2) by simp
qed

lemma fresh_pending: "build_services bg sd c captured = Inr (s, failures) \<Longrightarrow> sq_pending_history (sv_seq s) = []"
  by (auto simp: build_services_def wire_services_def start_thread_def Sequencer_init_def Let_def split: sum.splits prod.splits)

text \<open>
  C12: a service that comes up on a consistent database keeps it so: at the start its invariants hold and
  nothing runs, the host idle with an engine, whatever was queued; after any requests the tables are still
  consistent, every live device has a definition, and the profile's devices are those that were loaded.
\<close>

theorem startup_establishes_invariants:
  assumes "build_application bg sd c sys = (Inr (s, failures), sys')"
    and "opens_consistent bg"
  shows "h_state (host_of s) = IDLE \<and> \<not> sq_running (sv_seq s) \<and> sq_running_item (sv_seq s) = None \<and> sq_thread_started (sv_seq s) \<and>
    (\<exists>result. bg_load bg (projr (make_source c)) = Inr result \<and>
      services_ok (profile_entry (load_from result empty_registry)) s \<and>
      services_ok (profile_entry (load_from result empty_registry))
        (snd (handle_requests SqlQueueRepository SqlDeviceDefinitionRepository requests s)))"
proof -
  from assms(1) obtain captured where b: "build_services bg sd c captured = Inr (s, failures)"
    by (auto simp: build_application_def Let_def split: prod.splits if_splits)
  note f = fresh_service [OF b assms(2)]
  from f(10) obtain result where "bg_load bg (projr (make_source c)) = Inr result"
      "profile_entry (sv_registry s) = profile_entry (load_from result empty_registry)" by blast
  with f(1-7) handle_requests_ok [OF f(1)] show ?thesis by auto
qed

definition example_beginnings :: beginnings where
  "example_beginnings = \<lparr>bg_env = example_surroundings, bg_load = (\<lambda>_. Inr \<lparr>lr_devices = [(''det'', PObj 1)], lr_plans = [],
       lr_engine = None, lr_namespace = [], lr_source_description = []\<rparr>), bg_description = (\<lambda>_. ''profile''),
     bg_new_engine = Inr \<lparr>re_state = ''idle'', re_md = Inr [], re_exit_status = PNone, re_reason = PNone, re_run_start_uids = [],
       re_run_bundlers = [], re_call_returns_result = False, re_context_managers = [], re_state_hook = NoHook,
       re_waiting_hook = NoHook, re_loop_running = True\<rparr>,
     bg_database = (\<lambda>_. Inr (qs_repo example_service)), bg_world = example_world, bg_random_key = ''r'', bg_console_uid = ''c''\<rparr>"

definition example_streams :: std_streams where
  "example_streams = \<lparr>sys_stdout = OriginalStream 1, sys_stderr = OriginalStream 2\<rparr>"

definition example_config :: config where
  "example_config = set_setting ''startup'' ''startup_dir'' (PStr ''profile'') Config_init"

lemma example_settings:
  "setting ''startup'' ''kind'' example_config = PStr ''ipython''" "setting ''startup'' ''startup_dir'' example_config = PStr ''profile''"
  "setting ''database'' ''url'' example_config = PStr ''sqlite:///qs.sqlite''" "setting ''http'' ''allow_anonymous'' example_config = PBool False"
  "setting ''http'' ''api_key'' example_config = PNone" "setting ''tiled'' ''api_key'' example_config = PNone"
  by (simp_all add: example_config_def setting_def section_of_def Config_init_def StartupConfig_def DatabaseConfig_def HttpConfig_def
      TiledConfig_def set_setting_def with_section_def)

lemma example_database: "opens_consistent example_beginnings"
proof -
  have "sql_valid (qs_repo example_service)" using example_ready by (simp only: sql_ready_def)
  then show ?thesis by (simp add: opens_consistent_def example_beginnings_def example_service_def defs_valid_def)
qed

lemma example_builds: "\<exists>s. build_application example_beginnings sd example_config sys = (Inr (s, []), snd (build_application example_beginnings sd example_config sys))"
proof -
  have l: "\<exists>h reg. load_registry example_beginnings example_config = Inr (h, reg)"
    by (simp add: load_registry_def make_source_def example_settings load_source_def submit_def load_source_on_thread_def mark_environment_def adopt_loaded_def start_host_def
        EngineHost_init_def set_state_def emit_def example_beginnings_def install_engine_def Let_def)
  then obtain h reg where l: "load_registry example_beginnings example_config = Inr (h, reg)" by blast
  have "fst (instantiate_all_enabled SqlDeviceDefinitionRepository (bg_world example_beginnings) h (DeviceDefinitionService_init (qs_repo example_service) reg)) = Inr []"
    by (simp add: instantiate_all_enabled_def list_definitions_def SqlDeviceDefinitionRepository_def sql_list_definitions_def
        DeviceDefinitionService_init_def example_service_def session_def service_eqs)
  then have w: "\<exists>q st ds. wire_services example_beginnings example_config h reg (qs_repo example_service) = Inr (q, st, ds, [])"
    by (auto simp: wire_services_def start_thread_def Sequencer_init_def Let_def split: sum.splits prod.splits)
  then show ?thesis
    using l
    by (auto simp: build_application_def build_services_def redact_url_def example_settings make_authenticator_def
        SingleKeyAuthenticator_def to_dict_def example_beginnings_def starts_with_def Let_def split: prod.splits)
qed

theorem startup_establishes_invariants_witness:
  "\<exists>s sys'. build_application example_beginnings False example_config example_streams = (Inr (s, []), sys') \<and> h_state (host_of s) = IDLE \<and>
     length (sql_queue (queue_service_of s)) = 2 \<and> \<not> sq_running (sv_seq s)"
proof -
  obtain s sys' where b: "build_application example_beginnings False example_config example_streams = (Inr (s, []), sys')"
    using example_builds by blast
  then obtain captured where "build_services example_beginnings False example_config captured = Inr (s, [])"
    by (auto simp: build_application_def Let_def split: prod.splits if_splits)
  from fresh_service(8) [OF this example_database] have "qs_repo (queue_service_of s) = qs_repo example_service"
    by (simp add: example_beginnings_def)
  then have "sql_queue (queue_service_of s) = sql_queue example_service" by (simp only: sql_queue_def)
  then have "length (sql_queue (queue_service_of s)) = 2" unfolding \<open>sql_queue (queue_service_of s) = sql_queue example_service\<close> by simp
  with startup_establishes_invariants [OF b example_database] b show ?thesis by simp
qed

subsection \<open>Closing\<close>

text \<open>
  Closing undoes what building did to the process: the standard streams are the original ones again, the
  host takes no more commands, and the loop of the sequencer is told to end.
\<close>

theorem close_undoes_startup:
  assumes "build_application bg sd c sys = (Inr (s, failures), sys')" "opens_consistent bg"
    and "co_saved (sv_console s1) = co_saved (sv_console s)" "co_installed (sv_console s1) = co_installed (sv_console s)"
    and "h_started (host_of s1)"
  shows "let (s2, sys2) = close_application (s1, sys') in
    sys2 = sys \<and> \<not> co_installed (sv_console s2) \<and> h_state (host_of s2) = CLOSED \<and> sq_closing (sv_seq s2)"
proof -
  define captured where "captured = (if truthy (setting ''engine'' ''capture_console'' c)
    then install (ConsoleCapture_init 2000 (bg_console_uid bg), sys) else (ConsoleCapture_init 2000 (bg_console_uid bg), sys))"
  from assms(1) have b: "build_services bg sd c (fst captured) = Inr (s, failures)" and sys': "sys' = snd captured"
    by (auto simp: build_application_def captured_def Let_def split: prod.splits if_splits)
  have con: "sv_console s = fst captured" by (rule fresh_service(9) [OF b assms(2)])
  have "snd (uninstall (sv_console s1, snd captured)) = sys"
    using assms(3,4) unfolding con by (simp add: uninstall_def captured_def install_def ConsoleCapture_init_def)
  moreover have "\<not> co_installed (fst (uninstall (sv_console s1, snd captured)))" by (simp add: uninstall_def)
  ultimately show ?thesis
    using assms(5) sys'
    by (simp add: close_application_def via_sequencer_def close_def shutdown_def set_state_def emit_def act_simps case_prod_beta Let_def)
qed

lemma built_started: "build_services bg sd c captured = Inr (s, failures) \<Longrightarrow> h_started (host_of s)"
  by (auto simp: build_services_def load_registry_def wire_services_def start_thread_def Sequencer_init_def load_source_def submit_def
      load_source_on_thread_def mark_environment_def adopt_loaded_def start_host_def EngineHost_init_def set_state_def emit_def install_engine_def Let_def
      split: sum.splits prod.splits option.splits if_splits)

theorem close_undoes_startup_witness:
  "\<exists>s sys'. build_application example_beginnings False example_config example_streams = (Inr (s, []), sys') \<and> snd (close_application (s, sys')) = example_streams"
proof -
  obtain s sys' where b: "build_application example_beginnings False example_config example_streams = (Inr (s, []), sys')"
    using example_builds by blast
  then obtain captured where "build_services example_beginnings False example_config captured = Inr (s, [])"
    by (auto simp: build_application_def Let_def split: prod.splits if_splits)
  from close_undoes_startup [OF b example_database refl refl built_started [OF this]] b show ?thesis by (auto simp: case_prod_beta Let_def)
qed

subsection \<open>Authentication as configured\<close>

text \<open>
  With anonymous access allowed, a configured key protects nothing: every credential is good for every
  scope. The startup line of the log says \<open>single-user API key\<close> all the same.
\<close>

theorem anonymous_overrides_key:
  assumes "truthy (setting ''http'' ''allow_anonymous'' c)"
  shows "\<exists>a. make_authenticator random_key c = Inr a \<and> authenticate a cred = Inr (new_principal ''anonymous'') \<and>
    pr_scopes (new_principal ''anonymous'') = ALL_SCOPES \<and>
    (if truthy (setting ''http'' ''api_key'' c) then logged_authentication c = ''single-user API key''
     else logged_authentication c = ''anonymous access'')"
  using assms
  by (simp add: make_authenticator_def SingleKeyAuthenticator_def authenticate_def new_principal_def logged_authentication_def)

theorem anonymous_overrides_key_witness:
  "\<exists>a. make_authenticator ''r'' (set_setting ''http'' ''api_key'' (PStr ''k'') (set_setting ''http'' ''allow_anonymous'' (PBool True) Config_init)) = Inr a \<and>
     authenticate a no_credential = Inr (new_principal ''anonymous'')"
  using anonymous_overrides_key [of "set_setting ''http'' ''api_key'' (PStr ''k'') (set_setting ''http'' ''allow_anonymous'' (PBool True) Config_init)"
      "''r''" no_credential]
  by auto

subsection \<open>The command line\<close>

lemma overrides_distinct: "distinct (map fst (overrides_of args))"
  by (simp add: overrides_of_def)

text \<open>
  \<open>--startup-dir\<close> does not select the kind of source. Where the environment names a BITS module, that is
  what the service loads, whatever directory the command line gives.
\<close>

theorem startup_dir_option_ignored:
  assumes "configure w env args = Inr c" "env_text env ''QS_STARTUP_MODULE'' \<noteq> []"
    and "ar_startup_module args = PNone" "ar_happi_path args = PNone"
    and "\<forall>m \<in> set SECTIONS. distinct (map fst (as_dict (dget m (file_settings w (ar_config args) env))))"
  shows "make_source c = Inr (BitsInstrumentSource (PStr (env_text env ''QS_STARTUP_MODULE'')))"
proof -
  note src = setting_sources [OF assms(1) [unfolded configure_def] overrides_distinct assms(5) sections(1)]
  have "setting ''startup'' ''kind'' c = PStr ''bits''"
    using assms(2-4) by (subst src) (simp_all add: override_setting_def overrides_of_def env_setting_def Let_def)
  moreover have "setting ''startup'' ''startup_module'' c = PStr (env_text env ''QS_STARTUP_MODULE'')"
    using assms(2-4) by (subst src) (simp_all add: override_setting_def overrides_of_def env_setting_def Let_def)
  ultimately show ?thesis using assms(2) by (simp add: make_source_def)
qed

definition example_args :: cli_args where
  "example_args = \<lparr>ar_config = [], ar_startup_dir = PStr ''profile'', ar_startup_module = PNone, ar_happi_path = PNone,
     ar_database_url = PNone, ar_host = PNone, ar_port = PNone, ar_api_key = PNone, ar_allow_anonymous = False,
     ar_stream_device_progress = False, ar_no_console_capture = False, ar_log_level = ''INFO'',
     ar_list_plans = False\<rparr>"

theorem startup_dir_option_ignored_witness:
  "\<exists>c. configure example_config_world [(''QS_STARTUP_MODULE'', ''beamline.startup'')] example_args = Inr c \<and>
     make_source c = Inr (BitsInstrumentSource (PStr ''beamline.startup''))"
proof -
  let ?env = "[(''QS_STARTUP_MODULE'', ''beamline.startup'')]"
  have "\<exists>c. configure example_config_world ?env example_args = Inr c"
    by (simp add: configure_def overrides_of_def flag_override_def example_args_def load_config_def read_file_def apply_environment_def
        when_given_def flag_from_def number_from_def env_text_def partition_at_def save_settings_def section_of_def set_setting_def
        with_section_def Config_init_def StartupConfig_def Let_def)
  then obtain c where c: "configure example_config_world ?env example_args = Inr c" by blast
  have f: "file_settings example_config_world (ar_config example_args) ?env = []"
    by (simp add: file_settings_def config_file_def example_args_def env_text_def)
  show ?thesis
    using startup_dir_option_ignored [OF c] c unfolding f by (simp add: env_text_def example_args_def dget_def)
qed

subsection \<open>Credentials in the log\<close>

lemma split_first_char: "c \<notin> set h \<Longrightarrow> split_first [c] (h @ c # t) = Some (h, t)"
  by (induction h) (auto simp: starts_with_def)

lemma split_first_scheme: "CHR '':'' \<notin> set h \<Longrightarrow> split_first ''://'' (h @ ''://'' @ t) = Some (h, t)"
  by (induction h) (auto simp: starts_with_def)

text \<open>
  In the logged URL nothing is left of the credentials, up to the first at sign: whatever they were, the
  same text is logged. A password that holds an at sign itself is shown from there on.
\<close>

theorem redaction_of_url:
  assumes "CHR '':'' \<notin> set scheme" "CHR ''@'' \<notin> set credentials"
  shows "redact_url (PStr (scheme @ ''://'' @ credentials @ CHR ''@'' # rest)) = Inr (scheme @ ''://***@'' @ rest)"
  using split_first_scheme [OF assms(1), of "credentials @ CHR ''@'' # rest"] split_first_char [OF assms(2), of rest]
  by (simp add: redact_url_def)

theorem redaction_of_url_witness:
  "redact_url (PStr ''postgresql://user:p@ss@host/db'') = Inr ''postgresql://***@ss@host/db''"
  using redaction_of_url [of "''postgresql''" "''user:p''" "''ss@host/db''"] by simp

end
