(* ===== verification/ServiceProperties.thy ===== *)
theory ServiceProperties
  imports ServiceMachine ComposeProperties
begin

section \<open>Properties of the whole service\<close>

text \<open>
  What the sequencer guarantees among its callers, guaranteed for the composed service: every request
  of every client, the steps of the loop, the engine and failing sessions interleave freely.
\<close>

text \<open>The state of the witnesses: two queued plans, an idle engine, a service with a key.\<close>

definition example_running :: "bool \<Rightarrow> (database, database) running_service" where
  "example_running running = begin_service (example_services\<lparr>sv_seq := (sv_seq example_services)\<lparr>sq_running := running\<rparr>\<rparr>)"

lemma example_allowed: "require_scope ''write:execute'' (sv_auth example_services) example_request = Inr (new_principal ''single_user'')"
  by (rule example_scope) (simp add: ALL_SCOPES_def)

lemma example_running_simps [simp]:
  "sv_auth (rs_services (example_running b)) = sv_auth example_services"
  "sq_running (sv_seq (rs_services (example_running b))) = b"
  "\<not> sq_autostart (sv_seq (rs_services (example_running b)))" "\<not> sq_loop_mode (sv_seq (rs_services (example_running b)))"
  "\<not> sq_closing (sv_seq (rs_services (example_running b)))" "sq_pending_history (sv_seq (rs_services (example_running b))) = []"
  "queue_service_of (rs_services (example_running b)) = example_service"
  "host_of (rs_services (example_running b)) = example_host" "\<not> sq_require_synced (sv_seq (rs_services (example_running b)))"
  "rs_at (example_running b) = AtTop" "rs_started (example_running b) = []" "rs_responses (example_running b) = []"
  by (simp_all add: example_running_def begin_service_def example_services_def Sequencer_init_def)

subsection \<open>Every started item is accounted for\<close>

lemma recorded_is_call: "\<not> touches_history c \<Longrightarrow> keeps (recorded_is R) (on_queue (run_call SqlQueueRepository c))"
  by (intro recorded_is_queue history_is_call)

interpretation records: route_contract SqlQueueRepository "recorded_is R" "\<lambda>r. r = HistoryClear" for R
proof (unfold_locales, goal_cases)
  case (1 s h)
  then show ?case by (rule recorded_is_update) simp_all
qed (simp_all add: recorded_is_call recorded_is_controls recorded_is_start)

fun clears_history :: "service_event \<Rightarrow> bool" where
  "clears_history (Ask out r rq) \<longleftrightarrow> r = QueueRoute HistoryClear"
| "clears_history ev \<longleftrightarrow> False"

lemma accounted_service_step:
  assumes "\<not> clears_history ev" "accounted R (machine_of m)"
  shows "accounted R (machine_of (service_step SqlQueueRepository defs tx pr ev m))"
proof (rule machine_invariant)
  fix out r rq assume ev: "ev = Ask out r rq"
  let ?s = "rs_services m" and ?R = "mset (recorded (sv_seq (rs_services m)))"
  have "recorded_is ?R (sv_seq (snd (handle_request SqlQueueRepository defs out r rq ?s)))"
    by (rule records.request(1)) (use assms ev in \<open>auto simp: recorded_is_def accounted_def\<close>)
  then show "accounted R (machine_of (service_step SqlQueueRepository defs tx pr ev m))"
    using assms(2) ev by (simp add: recorded_is_def accounted_def case_prod_beta)
next
  fix e assume "is_loop_event e"
  then have "quiet_about_history e" by (cases e) simp_all
  then show "accounted R (machine_step SqlQueueRepository tx pr e (machine_of m))" using assms(2) by (rule accounted_step)
qed

lemma accounted_service:
  assumes "\<forall>ev \<in> set evs. \<not> clears_history ev" "accounted R (machine_of m)"
  shows "accounted R (machine_of (run_service SqlQueueRepository defs tx pr evs m))"
  by (rule run_service_invariant) (use assms in \<open>auto intro: accounted_service_step\<close>)

definition opens_ordinary :: "beginnings \<Rightarrow> bool" where
  "opens_ordinary bg \<longleftrightarrow> (\<forall>u db. bg_database bg u = Inr db \<longrightarrow> ordinary_faults db)"

lemma built_accounted:
  assumes "build_application bg sd c sys = (Inr (s, failures), sys')" "opens_consistent bg" "opens_ordinary bg"
    and "\<forall>ev \<in> set evs. \<not> clears_history ev"
  shows "accounted (image_mset he_item (mset (recorded (sv_seq s))))
    (machine_of (run_service SqlQueueRepository defs tx pr evs (begin_service s)))"
proof -
  from assms(1) obtain captured where b: "build_services bg sd c captured = Inr (s, failures)"
    by (auto simp: build_application_def Let_def split: prod.splits if_splits)
  from fresh_service(1,8) [OF b assms(2)] assms(3) have "seq_ok (sv_seq s)"
    by (auto simp: seq_ok_def services_ok_def opens_ordinary_def)
  then have "accounted (image_mset he_item (mset (recorded (sv_seq s)))) (machine_of (begin_service s))"
    by (simp add: accounted_def begin_service_def)
  from accounted_service [OF assms(4) this] show ?thesis .
qed


lemma example_ordinary: "opens_ordinary example_beginnings"
  by (simp add: opens_ordinary_def example_beginnings_def example_service_def ordinary_faults_def)


subsection \<open>Stopping and failing\<close>

fun may_start :: "queue_route \<Rightarrow> bool" where
  "may_start QueueStart = True"
| "may_start ItemExecute = True"
| "may_start QueueAutostart = True"
| "may_start r = False"

lemma keeps_flags:
  assumes "\<And>s. P (flags s) \<Longrightarrow> P (flags (snd (m s)))"
  shows "keeps (\<lambda>s. P (flags s)) m"
  using assms by (simp add: keeps_def)

text \<open>At rest: nothing runs and nothing will by itself.\<close>

definition at_rest :: "'r sequencer \<Rightarrow> bool" where
  "at_rest s \<longleftrightarrow> \<not> sq_autostart s \<and> \<not> sq_running s"

text \<open>Winding down: what runs is to stop.\<close>

definition winding_down :: "'r sequencer \<Rightarrow> bool" where
  "winding_down s \<longleftrightarrow> \<not> sq_autostart s \<and> (sq_running s \<longrightarrow> sq_stop_pending s)"

lemma keeps_on_queue: "(\<And>s q. S (s\<lparr>sq_queue := q\<rparr>) = S s) \<Longrightarrow> keeps S (on_queue m)"
  by (simp add: keeps_def act_simps)

interpretation resting: route_contract ops at_rest may_start for ops :: "'r queue_repository"
  by unfold_locales
    (auto simp: at_rest_def queue_stop_def queue_stop_cancel_def set_loop_mode_def act_simps intro!: keeps_on_queue,
     auto simp: keeps_def act_simps at_rest_def)

interpretation winding: route_contract ops winding_down "\<lambda>r. may_start r \<or> r = QueueStopCancel" for ops :: "'r queue_repository"
  by unfold_locales
    (auto simp: winding_down_def queue_stop_def set_loop_mode_def act_simps intro!: keeps_on_queue,
     auto simp: keeps_def act_simps winding_down_def)

lemma waiting_service_step:
  assumes "\<not> asks_for may_start ev" "waiting its (machine_of m)"
  shows "waiting its (machine_of (service_step ops defs tx pr ev m))"
proof (rule machine_invariant)
  fix out r rq assume ev: "ev = Ask out r rq"
  have "at_rest (sv_seq (rs_services m)) \<Longrightarrow> at_rest (sv_seq (snd (handle_request ops defs out r rq (rs_services m))))"
    by (rule resting.request(1)) (use assms(1) ev in auto)
  then show "waiting its (machine_of (service_step ops defs tx pr ev m))"
    using assms(2) ev by (auto simp: waiting_def at_rest_def case_prod_beta)
next
  fix e assume "is_loop_event e"
  then have "\<not> restarts e" by (cases e) simp_all
  then show "waiting its (machine_step ops tx pr e (machine_of m))" using assms(2) by (rule waiting_step)
qed

lemma stopped_service_step:
  assumes "\<not> asks_for (\<lambda>r. may_start r \<or> r = QueueStopCancel) ev" "stopped n (machine_of m)"
  shows "stopped n (machine_of (service_step ops defs tx pr ev m))"
proof (rule machine_invariant)
  fix out r rq assume ev: "ev = Ask out r rq"
  have "winding_down (sv_seq (rs_services m)) \<Longrightarrow> winding_down (sv_seq (snd (handle_request ops defs out r rq (rs_services m))))"
    by (rule winding.request(1)) (use assms(1) ev in auto)
  then show "stopped n (machine_of (service_step ops defs tx pr ev m))"
    using assms(2) ev by (auto simp: stopped_def winding_down_def case_prod_beta)
next
  fix e assume "is_loop_event e"
  then have "\<not> restarts e" "e \<noteq> EStopCancel" by (cases e; simp)+
  then show "stopped n (machine_step ops tx pr e (machine_of m))" using assms(2) by (rule stopped_step)
qed

lemma waiting_service:
  assumes "\<forall>ev \<in> set evs. \<not> asks_for may_start ev" "waiting its (machine_of m)"
  shows "waiting its (machine_of (run_service ops defs tx pr evs m))"
  by (rule run_service_invariant) (use assms in \<open>auto intro: waiting_service_step\<close>)

lemma stopped_service:
  assumes "\<forall>ev \<in> set evs. \<not> asks_for (\<lambda>r. may_start r \<or> r = QueueStopCancel) ev" "stopped n (machine_of m)"
  shows "stopped n (machine_of (run_service ops defs tx pr evs m))"
  by (rule run_service_invariant) (use assms in \<open>auto intro: stopped_service_step\<close>)

text \<open>A request of somebody who may make it runs its route.\<close>

lemma queue_request:
  assumes "require_scope (queue_route_scope q) (sv_auth s) rq = Inr p"
  shows "handle_request ops defs out (QueueRoute q) rq s =
    answer (ou_env out) (with_dict (queue_route_body ops out q rq p)) s"
  using assms by (simp add: handle_request_def serve_def)

lemma stop_request:
  assumes "require_scope ''write:execute'' (sv_auth s) rq = Inr p" "sq_running (sv_seq s)"
  shows "\<exists>s'. handle_request ops defs out (QueueRoute QueueStop) rq s = (Reply (PDict (ok_body [] [])), s') \<and>
    flags (sv_seq s') = (True, True, sq_autostart (sv_seq s))"
  using assms
  by (simp add: queue_request queue_stop_route_def controlled_def with_dict_def answer_def queue_stop_def via_sequencer_def act_simps flags_def)



text \<open>
  C8: stop and wait. When an item fails, is aborted, stopped or halted and autostart is off, no
  further item starts until somebody asks to start the queue, execute an item or set autostart, whatever
  requests and engine changes arrive in between.
\<close>

theorem failure_makes_service_wait:
  assumes "rs_at m = Busy it t0" "\<not> sq_autostart (sv_seq (rs_services m))" "\<not> succeeded oc"
    and "\<forall>ev \<in> set evs. \<not> asks_for may_start ev"
  shows "rs_started (run_service ops defs tx pr (LoopFinishes fresh oc t1 now # evs) m) = rs_started m"
proof -
  let ?m1 = "service_step ops defs tx pr (LoopFinishes fresh oc t1 now) m"
  have "waiting (rs_started m) (machine_of ?m1)"
    using outcome_waits [of "machine_of m" it t0 oc ops tx pr "sv_registry (rs_services m)" fresh t1 now] assms(1-3)
    by (simp del: machine_step.simps)
  from waiting_service [OF assms(4) this, of ops defs tx pr] show ?thesis by (simp add: waiting_def)
qed

theorem failure_makes_service_wait_witness:
  "rs_started (run_service SqlQueueRepository SqlDeviceDefinitionRepository example_texts (\<lambda>t. ''text'')
     [LoopFinishes (\<lambda>_. (''n'', 0)) (new_outcome ''z'' ''fail'') 1 1, Ask example_outside (QueueRoute ItemAdd) example_request, LoopChecks, LoopTakes 2]
     ((example_running True)\<lparr>rs_at := Busy (example_item ''z'') 0, rs_started := [example_item ''z'']\<rparr>)) = [example_item ''z'']"
proof -
  let ?m = "(example_running True)\<lparr>rs_at := Busy (example_item ''z'') 0, rs_started := [example_item ''z'']\<rparr>"
  have e: "\<forall>ev \<in> set [Ask example_outside (QueueRoute ItemAdd) example_request, LoopChecks, LoopTakes 2]. \<not> asks_for may_start ev"
    "\<not> succeeded (new_outcome ''z'' ''fail'')" by (simp_all add: succeeded_def new_outcome_def)
  from failure_makes_service_wait [OF _ _ e(2,1), of ?m "example_item ''z''" 0 SqlQueueRepository SqlDeviceDefinitionRepository
      example_texts "\<lambda>t. ''text''" "\<lambda>_. (''n'', 0)" 1]
  show ?thesis by (simp del: service_step.simps)
qed

subsection \<open>Strangers\<close>

fun stranger :: "string \<Rightarrow> service_event \<Rightarrow> bool" where
  "stranger k (Ask out r rq) \<longleftrightarrow> cr_value (from_headers_and_query (rq_headers rq) (rq_query rq)) \<noteq> k"
| "stranger k ev \<longleftrightarrow> False"

lemma stranger_step:
  assumes "SingleKeyAuthenticator k False g = Inr (sv_auth (rs_services m))" "stranger k ev"
  shows "\<exists>x. service_step ops defs tx pr ev m = m\<lparr>rs_responses := rs_responses m @ [x]\<rparr>"
proof -
  from assms(2) obtain out r rq where ev: "ev = Ask out r rq"
    "cr_value (from_headers_and_query (rq_headers rq) (rq_query rq)) \<noteq> k" by (cases ev) simp_all
  have "snd (handle_request ops defs out r rq (rs_services m)) = rs_services m"
    using wrong_key_denied [OF assms(1) ev(2), of r ops defs out] open_request [of r ops defs out rq]
    by (cases "required_access r = Open") auto
  then show ?thesis using ev(1) by (intro exI [of _ "fst (handle_request ops defs out r rq (rs_services m))"])
    (simp add: case_prod_beta)
qed

text \<open>The answers aside, two runs that start alike stay alike.\<close>

definition same_service :: "('r, 'd) running_service \<Rightarrow> ('r, 'd) running_service \<Rightarrow> bool" where
  "same_service m n \<longleftrightarrow> rs_services m = rs_services n \<and> rs_at m = rs_at n \<and> rs_started m = rs_started n"

lemma same_service_step: "same_service m n \<Longrightarrow> same_service (service_step ops defs tx pr ev m) (service_step ops defs tx pr ev n)"
  by (cases ev) (simp_all add: same_service_def by_machine_def machine_of_def case_prod_beta Let_def)

lemma strangers_invisible:
  assumes "SingleKeyAuthenticator k False g = Inr (sv_auth (rs_services m))" "same_service m n"
  shows "same_service (run_service ops defs tx pr evs m) (run_service ops defs tx pr (filter (\<lambda>ev. \<not> stranger k ev) evs) n)"
  using assms
proof (induction evs arbitrary: m n)
  case Nil
  then show ?case by simp
next
  case (Cons ev evs)
  have auth: "SingleKeyAuthenticator k False g = Inr (sv_auth (rs_services (service_step ops defs tx pr ev m)))"
    using Cons.prems(1) by (simp add: auth_step)
  show ?case
  proof (cases "stranger k ev")
    case True
    then have "same_service (service_step ops defs tx pr ev m) n"
      using stranger_step [OF Cons.prems(1) True, of ops defs tx pr] Cons.prems(2) by (auto simp: same_service_def)
    from Cons.IH [OF auth this] True show ?thesis by simp
  next
    case False
    from Cons.IH [OF auth same_service_step [OF Cons.prems(2)]] False show ?thesis by simp
  qed
qed

text \<open>
  C9: who does not hold the key cannot influence the service at all. Take any run of a service with a
  key and without anonymous access: requests, loop steps, changes of the engine. Leave out every request that does not
  carry the key: the services, the place of the loop's thread and the items it started end up the same.
\<close>

theorem strangers_do_not_interfere:
  assumes "SingleKeyAuthenticator k False g = Inr (sv_auth (rs_services m))"
  shows "(let m1 = run_service ops defs tx pr evs m; m2 = run_service ops defs tx pr (filter (\<lambda>ev. \<not> stranger k ev) evs) m in
    rs_services m1 = rs_services m2 \<and> rs_at m1 = rs_at m2 \<and> rs_started m1 = rs_started m2)"
  using strangers_invisible [OF assms, of m ops defs tx pr evs] by (simp add: same_service_def Let_def)

theorem strangers_do_not_interfere_witness:
  "rs_services (run_service SqlQueueRepository SqlDeviceDefinitionRepository example_texts (\<lambda>t. ''text'')
     [Ask example_outside (QueueRoute QueueStart) \<lparr>rq_headers = [], rq_query = [(''api_key'', ''guess'')], rq_body = []\<rparr>,
      Ask example_outside (QueueRoute QueueClear) \<lparr>rq_headers = [], rq_query = [], rq_body = []\<rparr>] (example_running False)) =
   rs_services (example_running False)"
proof -
  have a: "SingleKeyAuthenticator ''key'' False False = Inr (sv_auth (rs_services (example_running False)))"
    by (simp add: SingleKeyAuthenticator_def example_services_def)
  from strangers_do_not_interfere [OF a, of SqlQueueRepository SqlDeviceDefinitionRepository example_texts "\<lambda>t. ''text''"
      "[Ask example_outside (QueueRoute QueueStart) \<lparr>rq_headers = [], rq_query = [(''api_key'', ''guess'')], rq_body = []\<rparr>,
        Ask example_outside (QueueRoute QueueClear) \<lparr>rq_headers = [], rq_query = [], rq_body = []\<rparr>]"]
  show ?thesis by (simp add: from_headers_and_query_def text_of_def no_credential_def Let_def del: service_step.simps)
qed

subsection \<open>A started queue runs\<close>

text \<open>One round of the loop: the check, the pop at a time, the end of the plan with the two readings of the clock after it.\<close>

record ending =
  en_begin :: rat
  en_copies :: "nat \<Rightarrow> string \<times> rat"
  en_outcome :: plan_outcome
  en_over :: rat
  en_end :: rat

definition round_of :: "ending \<Rightarrow> service_event list" where
  "round_of e = [LoopChecks, LoopTakes (en_begin e), LoopFinishes (en_copies e) (en_outcome e) (en_over e) (en_end e)]"

definition entry_for :: "queue_item \<Rightarrow> ending \<Rightarrow> history_entry" where
  "entry_for it e = history_of it (en_outcome e) (en_begin e) (en_end e)"

text \<open>The rounds up to the first that does not end in success.\<close>

fun until_failure :: "ending list \<Rightarrow> ending list" where
  "until_failure [] = []"
| "until_failure (e # es) = e # (if succeeded (en_outcome e) then until_failure es else [])"

text \<open>The sequencer with the database up, nothing held in memory and the engine idle.\<close>

definition poised :: "queue_item list \<Rightarrow> history_entry list \<Rightarrow> database sequencer \<Rightarrow> bool" where
  "poised q hs s \<longleftrightarrow> seq_ready s \<and> sql_queue (sq_queue s) = q \<and> sql_history (sq_queue s) = hs \<and> sq_pending_history s = [] \<and>
     \<not> sq_loop_mode s \<and> \<not> sq_closing s \<and> h_state (sq_host s) = IDLE"

lemma check_running:
  assumes "poised q hs s" "flags s = (True, False, False)"
  shows "should_run ops s = (Inr True, s)"
  using assms by (simp add: poised_def flags_def should_run_def act_simps)

lemma take_poised:
  assumes "poised (x # xs) hs s"
  shows "\<exists>s'. take_item SqlQueueRepository s = (Inr (Some x), s') \<and> poised xs hs s' \<and> flags s' = flags s \<and>
    sq_host s' = sq_host s"
proof -
  have "sql_ready (sq_queue s)" using assms by (simp add: poised_def seq_ready_def)
  from pop_ready [OF this] assms show ?thesis
    by (simp add: take_item_def act_simps poised_def seq_ready_def)
qed

lemma take_empty:
  assumes "poised [] hs s" "\<not> sq_autostart s"
  shows "\<exists>s'. take_item SqlQueueRepository s = (Inr None, s') \<and> poised [] hs s' \<and> at_rest s' \<and> sq_host s' = sq_host s"
proof -
  have "sql_ready (sq_queue s)" using assms(1) by (simp add: poised_def seq_ready_def)
  from pop_ready [OF this] assms show ?thesis
    by (simp add: take_item_def act_simps poised_def seq_ready_def at_rest_def)
qed

lemma finish_poised:
  assumes "poised q hs s" "flags s = (True, False, False)"
  shows "\<exists>s'. finish_item SqlQueueRepository tx reg fresh it oc t0 t1 now s = (Inr (), s') \<and>
    poised q (hs @ [history_of it oc t0 now]) s' \<and> flags s' = (succeeded oc, False, False) \<and> sq_host s' = sq_host s"
proof -
  have "seq_ready s" using assms(1) by (simp add: poised_def)
  from record_outcome_ready [OF this, of it oc t0 now] obtain s1 where
    "record_outcome SqlQueueRepository it oc t0 now s = (Inr (), s1)" "poised q (hs @ [history_of it oc t0 now]) s1"
    "flags s1 = (True, False, False)" "sq_host s1 = sq_host s"
    using assms by (auto simp: poised_def)
  then show ?thesis
    by (cases "succeeded oc")
      (auto simp: finish_item_def Let_def act_simps poised_def seq_ready_def flags_def)
qed

lemma round_runs_head:
  assumes "rs_at m = AtTop" "poised (x # xs) hs (sv_seq (rs_services m))" "flags (sv_seq (rs_services m)) = (True, False, False)"
  shows "\<exists>s'. run_service SqlQueueRepository defs tx pr (round_of e) m =
      m\<lparr>rs_services := (rs_services m)\<lparr>sv_seq := s'\<rparr>, rs_started := rs_started m @ [x]\<rparr> \<and>
    poised xs (hs @ [entry_for x e]) s' \<and> flags s' = (succeeded (en_outcome e), False, False)"
proof -
  let ?s = "sv_seq (rs_services m)"
  obtain s1 where t: "take_item SqlQueueRepository ?s = (Inr (Some x), s1)" "poised xs hs s1" "flags s1 = (True, False, False)"
    using take_poised [OF assms(2)] assms(3) by auto
  obtain s2 where f: "finish_item SqlQueueRepository tx (sv_registry (rs_services m)) (en_copies e) x (en_outcome e) (en_begin e)
      (en_over e) (en_end e) s1 = (Inr (), s2)"
    "poised xs (hs @ [entry_for x e]) s2" "flags s2 = (succeeded (en_outcome e), False, False)"
    using finish_poised [OF t(2,3), of tx "sv_registry (rs_services m)" "en_copies e" x "en_outcome e" "en_begin e" "en_over e" "en_end e"]
    unfolding entry_for_def by blast
  show ?thesis
    by (rule exI [of _ s2])
      (use assms(1) check_running [OF assms(2,3)] t(1) f in
        \<open>simp add: round_of_def by_machine_def machine_of_def Let_def\<close>)
qed

lemma by_machine_idle: "machine_step ops tx pr ev (machine_of m) = machine_of m \<Longrightarrow> by_machine ops tx pr ev m = m"
  by (simp add: by_machine_def)

lemma check_at_rest:
  assumes "rs_at m = AtTop" "at_rest (sv_seq (rs_services m))"
  shows "by_machine ops tx pr ECheck m = m"
proof -
  have "should_run ops (sv_seq (rs_services m)) = (Inr False, sv_seq (rs_services m))"
    using assms(2) by (simp add: should_run_def at_rest_def act_simps)
  then show ?thesis using assms(1) by (intro by_machine_idle) (simp add: machine_of_def)
qed

lemma step_at_top:
  assumes "rs_at m = AtTop"
  shows "by_machine ops tx pr (ETake now) m = m" "by_machine ops tx pr (EOutcome reg fresh oc t1 now) m = m"
  using assms by (simp_all add: by_machine_idle)

lemma round_at_rest:
  assumes "rs_at m = AtTop" "at_rest (sv_seq (rs_services m))"
  shows "run_service ops defs tx pr (round_of e) m = m"
  by (simp add: round_of_def check_at_rest [OF assms] step_at_top [OF assms(1)])

lemma rounds_at_rest:
  assumes "rs_at m = AtTop" "at_rest (sv_seq (rs_services m))"
  shows "run_service ops defs tx pr (concat (map round_of es)) m = m"
  by (induction es) (simp_all add: run_service_append round_at_rest [OF assms])

lemma last_check_at_rest:
  assumes "rs_at m = AtTop" "at_rest (sv_seq (rs_services m))"
  shows "run_service ops defs tx pr [LoopChecks, LoopTakes t] m = m"
  by (simp add: check_at_rest [OF assms] step_at_top [OF assms(1)])

lemma rounds_run_queue:
  assumes "rs_at m = AtTop" "poised q hs (sv_seq (rs_services m))" "flags (sv_seq (rs_services m)) = (True, False, False)"
    and "length es = length q"
  shows "\<exists>s'. run_service SqlQueueRepository defs tx pr (concat (map round_of es) @ [LoopChecks, LoopTakes t]) m =
      m\<lparr>rs_services := (rs_services m)\<lparr>sv_seq := s'\<rparr>, rs_started := rs_started m @ take (length (until_failure es)) q\<rparr> \<and>
    poised (drop (length (until_failure es)) q) (hs @ map2 entry_for q (until_failure es)) s' \<and> at_rest s'"
  using assms
proof (induction es arbitrary: m q hs)
  case Nil
  then have q: "poised [] hs (sv_seq (rs_services m))" and a: "\<not> sq_autostart (sv_seq (rs_services m))"
    by (simp_all add: flags_def)
  obtain s' where s': "take_item SqlQueueRepository (sv_seq (rs_services m)) = (Inr None, s')" "poised [] hs s'" "at_rest s'"
    using take_empty [OF q a] by blast
  show ?case
    by (rule exI [of _ s'])
      (use Nil check_running [OF q Nil.prems(3)] s' in \<open>simp add: by_machine_def machine_of_def Let_def\<close>)
next
  case (Cons e es)
  from Cons.prems(4) obtain x xs where q: "q = x # xs" "length es = length xs" by (cases q) auto
  obtain s1 where r: "run_service SqlQueueRepository defs tx pr (round_of e) m =
      m\<lparr>rs_services := (rs_services m)\<lparr>sv_seq := s1\<rparr>, rs_started := rs_started m @ [x]\<rparr>"
    "poised xs (hs @ [entry_for x e]) s1" "flags s1 = (succeeded (en_outcome e), False, False)"
    using round_runs_head [OF Cons.prems(1) Cons.prems(2) [unfolded q] Cons.prems(3), of defs tx pr e] by blast
  let ?m = "m\<lparr>rs_services := (rs_services m)\<lparr>sv_seq := s1\<rparr>, rs_started := rs_started m @ [x]\<rparr>"
  show ?case
  proof (cases "succeeded (en_outcome e)")
    case True
    from Cons.IH [of ?m xs "hs @ [entry_for x e]"] Cons.prems(1) r(2,3) q(2) True
    obtain s' where "run_service SqlQueueRepository defs tx pr (concat (map round_of es) @ [LoopChecks, LoopTakes t]) ?m =
        ?m\<lparr>rs_services := (rs_services ?m)\<lparr>sv_seq := s'\<rparr>, rs_started := rs_started ?m @ take (length (until_failure es)) xs\<rparr>"
      "poised (drop (length (until_failure es)) xs) ((hs @ [entry_for x e]) @ map2 entry_for xs (until_failure es)) s'" "at_rest s'"
      by auto
    then show ?thesis
      by (intro exI [of _ s']) (simp add: run_service_append r(1) q(1) True)
  next
    case False
    then have rest: "at_rest (sv_seq (rs_services ?m))" "rs_at ?m = AtTop"
      using r(3) Cons.prems(1) by (simp_all add: at_rest_def flags_def)
    show ?thesis
      by (rule exI [of _ s1])
        (use r(2) rest(1) False in \<open>simp add: run_service_append r(1) q(1) rounds_at_rest [OF rest(2,1)] last_check_at_rest [OF rest(2,1)]
          del: run_service_simps\<close>)
  qed
qed

lemma start_request:
  assumes "require_scope ''write:execute'' (sv_auth s) rq = Inr p"
    and "seq_ready (sv_seq s)" "\<not> experiment_missing (en_tx (ou_env out)) (en_pr (ou_env out)) (sv_seq s)"
    and "h_state (host_of s) = IDLE" "\<not> sq_autostart (sv_seq s)" "\<not> sq_loop_mode (sv_seq s)" "\<not> sq_closing (sv_seq s)"
    and "sql_queue (queue_service_of s) \<noteq> []"
  shows "\<exists>s'. handle_request SqlQueueRepository defs out (QueueRoute QueueStart) rq s = (Reply (PDict (ok_body [] [])), s\<lparr>sv_seq := s'\<rparr>) \<and>
    poised (sql_queue (queue_service_of s)) (sql_history (queue_service_of s) @ sq_pending_history (sv_seq s)) s' \<and>
    flags s' = (True, False, False) \<and> sq_host s' = host_of s"
proof -
  obtain s' where "queue_start SqlQueueRepository (en_tx (ou_env out)) (en_pr (ou_env out)) (sv_seq s) = (Inr (), s')"
    "poised (sql_queue (queue_service_of s)) (sql_history (queue_service_of s) @ sq_pending_history (sv_seq s)) s'"
    "flags s' = (True, False, False)" "sq_host s' = host_of s"
    using queue_start_ready [OF assms(2,3)] assms(4-8) unfolding poised_def by fastforce
  then show ?thesis
    using assms(1)
    by (intro exI [of _ s'])
      (simp add: queue_request queue_start_route_def controlled_def with_dict_def answer_def via_sequencer_def act_simps)
qed

text \<open>
  C6: a request to start the queue runs it. With the database up, the engine idle, autostart and loop mode off:
  the request is answered with success; then, round by round of the loop, the items start in
  queue order, up to the first that does not succeed; each gets its history entry, in order, behind the entries that
  were held in memory; the failed item's successors stay queued; and the queue is at rest in the end.
\<close>

theorem start_request_runs_queue:
  assumes "require_scope ''write:execute'' (sv_auth (rs_services m)) rq = Inr p" "rs_at m = AtTop"
    and "seq_ready (sv_seq (rs_services m))"
    and "\<not> experiment_missing (en_tx (ou_env out)) (en_pr (ou_env out)) (sv_seq (rs_services m))"
    and "h_state (host_of (rs_services m)) = IDLE" "\<not> sq_autostart (sv_seq (rs_services m))"
    and "\<not> sq_loop_mode (sv_seq (rs_services m))" "\<not> sq_closing (sv_seq (rs_services m))"
    and "sql_queue (queue_service_of (rs_services m)) = q" "q \<noteq> []" "length es = length q"
  shows "(let m' = run_service SqlQueueRepository defs tx pr
        (Ask out (QueueRoute QueueStart) rq # concat (map round_of es) @ [LoopChecks, LoopTakes t]) m;
      s = sv_seq (rs_services m); s' = sv_seq (rs_services m'); ran = until_failure es in
    rs_responses m' = rs_responses m @ [Reply (PDict (ok_body [] []))] \<and>
    rs_started m' = rs_started m @ take (length ran) q \<and>
    sql_queue (sq_queue s') = drop (length ran) q \<and>
    sql_history (sq_queue s') = sql_history (sq_queue s) @ sq_pending_history s @ map2 entry_for q ran \<and>
    sq_pending_history s' = [] \<and> \<not> sq_running s' \<and> rs_at m' = AtTop)"
proof -
  let ?s = "rs_services m"
  obtain s1 where s1: "handle_request SqlQueueRepository defs out (QueueRoute QueueStart) rq ?s =
      (Reply (PDict (ok_body [] [])), ?s\<lparr>sv_seq := s1\<rparr>)"
    "poised q (sql_history (queue_service_of ?s) @ sq_pending_history (sv_seq ?s)) s1" "flags s1 = (True, False, False)"
    using start_request [OF assms(1,3,4,5,6,7,8)] assms(9,10) by blast
  let ?m = "m\<lparr>rs_services := ?s\<lparr>sv_seq := s1\<rparr>, rs_responses := rs_responses m @ [Reply (PDict (ok_body [] []))]\<rparr>"
  have "service_step SqlQueueRepository defs tx pr (Ask out (QueueRoute QueueStart) rq) m = ?m" using s1(1) by simp
  moreover obtain s' where "run_service SqlQueueRepository defs tx pr (concat (map round_of es) @ [LoopChecks, LoopTakes t]) ?m =
      ?m\<lparr>rs_services := (rs_services ?m)\<lparr>sv_seq := s'\<rparr>, rs_started := rs_started ?m @ take (length (until_failure es)) q\<rparr>"
    "poised (drop (length (until_failure es)) q)
       ((sql_history (queue_service_of ?s) @ sq_pending_history (sv_seq ?s)) @ map2 entry_for q (until_failure es)) s'" "at_rest s'"
    using rounds_run_queue [of ?m q "sql_history (queue_service_of ?s) @ sq_pending_history (sv_seq ?s)" es defs tx pr t]
      s1(2,3) assms(2,11) by auto
  ultimately show ?thesis
    using assms(2) by (simp add: Let_def poised_def at_rest_def del: service_step.simps)
qed

theorem start_request_runs_queue_witness:
  "(let m = run_service SqlQueueRepository SqlDeviceDefinitionRepository example_texts (\<lambda>t. ''text'')
      (Ask example_outside (QueueRoute QueueStart) example_request #
       round_of \<lparr>en_begin = 0, en_copies = (\<lambda>_. (''n'', 0)), en_outcome = new_outcome ''a'' ''fail'', en_over = 1, en_end = 1\<rparr> @
       round_of \<lparr>en_begin = 2, en_copies = (\<lambda>_. (''n'', 0)), en_outcome = new_outcome ''b'' ''success'', en_over = 3, en_end = 3\<rparr> @ [LoopChecks, LoopTakes 4])
      (example_running False) in
    rs_started m = [example_item ''a''] \<and> sql_queue (queue_service_of (rs_services m)) = [example_item ''b'']) "
proof -
  let ?es = "[\<lparr>en_begin = 0, en_copies = (\<lambda>_. (''n'', 0)), en_outcome = new_outcome ''a'' ''fail'', en_over = 1, en_end = 1\<rparr>,
    \<lparr>en_begin = 2, en_copies = (\<lambda>_. (''n'', 0)), en_outcome = new_outcome ''b'' ''success'', en_over = 3, en_end = 3\<rparr>]"
  let ?m = "example_running False"
  have r: "seq_ready (sv_seq (rs_services ?m))" by (simp add: seq_ready_def)
  have x: "\<not> experiment_missing (en_tx (ou_env example_outside)) (en_pr (ou_env example_outside)) (sv_seq (rs_services ?m))"
    by (simp add: experiment_missing_def)
  have h: "h_state (host_of (rs_services ?m)) = IDLE" by (simp add: example_host_def)
  have u: "length (until_failure ?es) = 1" by (simp add: succeeded_def new_outcome_def)
  from start_request_runs_queue [of ?m example_request "new_principal ''single_user''" example_outside
      "[example_item ''a'', example_item ''b'']" ?es SqlDeviceDefinitionRepository example_texts "\<lambda>t. ''text''" 4] r x h
  show ?thesis unfolding Let_def u by (simp add: example_allowed del: service_step.simps run_service_simps)
qed

end
