(* ===== verification/LiveService.thy ===== *)
theory LiveService
  imports ServiceProperties
begin

section \<open>The service with its engine (\<open>sequencer/sequencer.py\<close> on \<open>engine/host.py\<close>)\<close>

text \<open>
  The state machine of the service lets any outcome arrive for the item that runs. Here the item is run as
  the code runs it: it is resolved in the registry, its plan goes to the host and through all its pauses,
  and what comes out of that is recorded. The refinement says that such a service does nothing that the
  state machine does not do, so that what holds of the machine holds of it.

  A \<open>run_input\<close> is what the run of one item gets from outside: the fresh uids of the copy that loop mode
  makes, what bluesky replies to the plan and to each directive in a pause, and the clock at the end.
  When the rounds end before the plan does, it is still paused, and the loop waits for good. A request
  that arrives while a plan runs is taken before or after it; the directives of operators are the rounds.
  What a request does that needs the engine thread meanwhile is the subject of \<open>EngineCalls\<close>.
\<close>

record run_input =
  ri_fresh :: "nat \<Rightarrow> string \<times> rat"
  ri_first :: "engine_reply \<times> run_engine"
  ri_rounds :: "pause_round list"
  ri_over :: rat
  ri_end :: rat

datatype live_event = Request outside route request | Checks | Takes rat | Runs run_input

text \<open>\<open>lv_left\<close>: an exception that is no \<open>Exception\<close> has left the thread of the loop.\<close>

record ('r, 'd) live_service =
  lv_service :: "('r, 'd) running_service"
  lv_waiting :: bool
  lv_left :: bool

definition go_live :: "('r, 'd) services \<Rightarrow> ('r, 'd) live_service" where
  "go_live s = \<lparr>lv_service = begin_service s, lv_waiting = False, lv_left = False\<rparr>"

definition run_taken :: "'r queue_repository \<Rightarrow> texts \<Rightarrow> attribute_of \<Rightarrow> run_input \<Rightarrow> queue_item \<Rightarrow> rat \<Rightarrow>
    ('r, 'd) live_service \<Rightarrow> ('r, 'd) live_service" where
  "run_taken ops tx attr i it t0 l =
     (let m = lv_service l; s = rs_services m;
          (x, q) = run_one ops tx attr (sv_registry s) (ri_fresh i) (ri_first i) (ri_rounds i) t0 (ri_over i) (ri_end i) it (sv_seq s);
          m = m\<lparr>rs_services := s\<lparr>sv_seq := q\<rparr>\<rparr>
      in case x of
           Inr StillPaused \<Rightarrow> l\<lparr>lv_service := m, lv_waiting := True\<rparr>
         | Inr (ItemDone oc) \<Rightarrow> l\<lparr>lv_service := m\<lparr>rs_at := AtTop\<rparr>\<rparr>
         | Inr (ThreadEscaped hp exc) \<Rightarrow> l\<lparr>lv_service := m\<lparr>rs_at := Dead\<rparr>, lv_left := True\<rparr>
         | Inl e \<Rightarrow> l\<lparr>lv_service := m\<lparr>rs_at := Dead\<rparr>, lv_left := lv_left l \<or> \<not> is_exception (exn_class e)\<rparr>)"

fun live_step :: "'r queue_repository \<Rightarrow> 'd definition_repository \<Rightarrow> texts \<Rightarrow> (fstring \<Rightarrow> string) \<Rightarrow> attribute_of \<Rightarrow> live_event \<Rightarrow>
    ('r, 'd) live_service \<Rightarrow> ('r, 'd) live_service" where
  "live_step ops defs tx pr attr (Request out r rq) l = l\<lparr>lv_service := service_step ops defs tx pr (Ask out r rq) (lv_service l)\<rparr>"
| "live_step ops defs tx pr attr Checks l = l\<lparr>lv_service := service_step ops defs tx pr LoopChecks (lv_service l)\<rparr>"
| "live_step ops defs tx pr attr (Takes now) l = l\<lparr>lv_service := service_step ops defs tx pr (LoopTakes now) (lv_service l)\<rparr>"
| "live_step ops defs tx pr attr (Runs i) l =
     (case rs_at (lv_service l) of
        Busy it t0 \<Rightarrow> if lv_waiting l then l else run_taken ops tx attr i it t0 l
      | _ \<Rightarrow> l)"

definition live_run :: "'r queue_repository \<Rightarrow> 'd definition_repository \<Rightarrow> texts \<Rightarrow> (fstring \<Rightarrow> string) \<Rightarrow> attribute_of \<Rightarrow>
    live_event list \<Rightarrow> ('r, 'd) live_service \<Rightarrow> ('r, 'd) live_service" where
  "live_run ops defs tx pr attr evs l = fold (live_step ops defs tx pr attr) evs l"

lemma live_run_simps [simp]:
  "live_run ops defs tx pr attr [] l = l"
  "live_run ops defs tx pr attr (e # es) l = live_run ops defs tx pr attr es (live_step ops defs tx pr attr e l)"
  by (simp_all add: live_run_def)

subsection \<open>Each step is one of the state machine, or two, or none\<close>

fun requested :: "live_event \<Rightarrow> service_event list" where
  "requested (Request out r rq) = [Ask out r rq]"
| "requested e = []"

fun is_ask :: "service_event \<Rightarrow> bool" where
  "is_ask (Ask out r rq) = True"
| "is_ask e = False"

lemma refused_is_no_exception: "run_item tx attr reg first rounds it h = (Some (Refused e), h') \<Longrightarrow> \<not> is_exception (exn_class e)"
  by (auto simp: run_item_def split: sum.splits option.splits plan_end.splits prod.splits if_splits)

lemma run_taken_is_machine_run:
  assumes "rs_at (lv_service l) = Busy it t0" "\<not> lv_left (run_taken ops tx attr i it t0 l)"
  shows "\<exists>evs. filter is_ask evs = [] \<and>
    lv_service (run_taken ops tx attr i it t0 l) = run_service ops defs tx pr evs (lv_service l)"
proof -
  let ?m = "lv_service l" and ?s = "rs_services (lv_service l)"
  obtain r h where r: "run_item tx attr (sv_registry ?s) (ri_first i) (ri_rounds i) it (sq_host (sv_seq ?s)) = (r, h)" by force
  let ?q = "(sv_seq ?s)\<lparr>sq_host := h\<rparr>"
  have "\<not> is_exception (exn_class e)" if "r = Some (Refused e)" for e using refused_is_no_exception r that by blast
  then consider (paused) "r = None" | (ended) oc where "r = Some (Ended oc)"
    using assms(2)
    by (cases r; cases "the r") (auto simp: run_taken_def run_one_def Let_def r)
  then show ?thesis
  proof cases
    case paused
    then show ?thesis
      by (intro exI [of _ "[EngineMoves h]"])
        (simp add: run_taken_def run_one_def r by_machine_def machine_of_def Let_def)
  next
    case (ended oc)
    then show ?thesis
      by (intro exI [of _ "[EngineMoves h, LoopFinishes (ri_fresh i) oc (ri_over i) (ri_end i)]"])
        (simp add: run_taken_def run_one_def r by_machine_def machine_of_def assms(1) act_simps Let_def split: sum.split prod.split)
  qed
qed

lemma live_step_is_machine_run:
  assumes "\<not> lv_left (live_step ops defs tx pr attr ev l)"
  shows "\<exists>evs. filter is_ask evs = requested ev \<and>
    lv_service (live_step ops defs tx pr attr ev l) = run_service ops defs tx pr evs (lv_service l)"
proof (cases ev)
  case (Request out r rq)
  then show ?thesis by (intro exI [of _ "[Ask out r rq]"]) simp
next
  case Checks
  then show ?thesis by (intro exI [of _ "[LoopChecks]"]) simp
next
  case (Takes now)
  then show ?thesis by (intro exI [of _ "[LoopTakes now]"]) simp
next
  case (Runs i)
  have still: "\<exists>evs. filter is_ask evs = [] \<and> lv_service l = run_service ops defs tx pr evs (lv_service l)"
    by (rule exI [of _ "[]"]) simp
  with Runs assms run_taken_is_machine_run [of l] show ?thesis
    by (cases "rs_at (lv_service l)") (auto split: if_splits)
qed

lemma left_stays:
  assumes "lv_left l"
  shows "lv_left (live_step ops defs tx pr attr ev l)"
  using assms by (cases ev) (auto simp: run_taken_def Let_def split: thread_at.split prod.split sum.split run_end.split)

lemma left_stays_run: "lv_left l \<Longrightarrow> lv_left (live_run ops defs tx pr attr evs l)"
  by (induction evs arbitrary: l) (simp_all add: left_stays)

lemma live_run_from:
  "\<not> lv_left (live_run ops defs tx pr attr evs l) \<Longrightarrow>
   \<exists>evs'. filter is_ask evs' = concat (map requested evs) \<and>
     lv_service (live_run ops defs tx pr attr evs l) = run_service ops defs tx pr evs' (lv_service l)"
proof (induction evs arbitrary: l)
  case Nil
  show ?case by (rule exI [of _ "[]"]) simp
next
  case (Cons ev evs)
  let ?l = "live_step ops defs tx pr attr ev l"
  from Cons.prems have n: "\<not> lv_left (live_run ops defs tx pr attr evs ?l)" by simp
  then have "\<not> lv_left ?l" using left_stays_run by blast
  with live_step_is_machine_run obtain es where
    es: "filter is_ask es = requested ev" "lv_service ?l = run_service ops defs tx pr es (lv_service l)" by blast
  from Cons.IH [OF n] obtain es' where "filter is_ask es' = concat (map requested evs)"
    "lv_service (live_run ops defs tx pr attr evs ?l) = run_service ops defs tx pr es' (lv_service ?l)" by blast
  with es show ?case by (intro exI [of _ "es @ es'"]) (simp add: run_service_append)
qed


text \<open>
  The three steps of the loop, one after the other, are one pass of \<open>_loop\<close>.
\<close>

theorem pass_is_three_steps:
  assumes "rs_at (lv_service l) = AtTop" "\<not> lv_waiting l"
  shows "sv_seq (rs_services (lv_service (live_run ops defs tx pr attr [Checks, Takes t0, Runs i] l))) =
    snd (loop_pass ops tx attr (sv_registry (rs_services (lv_service l))) (ri_fresh i) (ri_first i) (ri_rounds i) t0 (ri_over i) (ri_end i)
      (sv_seq (rs_services (lv_service l))))"
proof -
  let ?q = "sv_seq (rs_services (lv_service l))"
  have closing: "should_run ops ?q = (Inr False, ?q)" if "sq_closing ?q" using that by (simp add: should_run_def)
  obtain x q1 where c: "should_run ops ?q = (x, q1)" by force
  obtain y q2 where t: "take_item ops q1 = (y, q2)" by force
  consider (no) e where "x = Inl e" | (rest) "x = Inr False" | (go) "x = Inr True" by (cases x) auto
  then show ?thesis
  proof cases
    case go
    then have "\<not> sq_closing ?q" using closing c by auto
    then show ?thesis
      using assms c t go
      by (cases y; cases "projr y")
        (auto simp: loop_pass_def by_machine_def machine_of_def run_taken_def act_simps Let_def split: prod.split sum.split run_end.split)
  qed (use assms c closing in \<open>auto simp: loop_pass_def by_machine_def machine_of_def act_simps Let_def\<close>)
qed

subsection \<open>What is queued is what the engine gets\<close>

definition engine_ready :: "host \<Rightarrow> bool" where
  "engine_ready h \<longleftrightarrow> h_started h \<and> h_engine h \<noteq> None \<and> h_state h = IDLE"

definition resolved_item :: "attribute_of \<Rightarrow> registry \<Rightarrow> queue_item \<Rightarrow> exn + resolved_call" where
  "resolved_item attr reg it = resolve attr (item_name it) (item_args it) (item_kwargs it) reg"

definition engine_call_of :: "attribute_of \<Rightarrow> registry \<Rightarrow> queue_item \<Rightarrow> engine_call" where
  "engine_call_of attr reg it = CallPlan (projr (resolved_item attr reg it)) (item_meta it)"

text \<open>A plan that the engine runs through without a pause, and the outcome of the item then.\<close>

definition runs_through :: "run_input \<Rightarrow> bool" where
  "runs_through i \<longleftrightarrow> (\<exists>r. fst (ri_first i) = Returned r)"

definition outcome_of :: "texts \<Rightarrow> queue_item \<Rightarrow> run_input \<Rightarrow> plan_outcome" where
  "outcome_of tx it i = (case fst (ri_first i) of
     Returned r \<Rightarrow> outcome_from_result tx (item_uid it) r | _ \<Rightarrow> new_outcome (item_uid it) ''fail'')"

definition live_round :: "rat \<times> run_input \<Rightarrow> live_event list" where
  "live_round = (\<lambda>(t, i). [Checks, Takes t, Runs i])"

definition live_ending :: "texts \<Rightarrow> queue_item \<Rightarrow> rat \<times> run_input \<Rightarrow> ending" where
  "live_ending tx it = (\<lambda>(t, i). \<lparr>en_begin = t, en_copies = ri_fresh i, en_outcome = outcome_of tx it i, en_over = ri_over i, en_end = ri_end i\<rparr>)"

lemma run_item_through:
  assumes "engine_ready h" "resolved_item attr reg it = Inr call" "runs_through i"
  shows "\<exists>h'. run_item tx attr reg (ri_first i) (ri_rounds i) it h = (Some (Ended (outcome_of tx it i)), h') \<and> engine_ready h' \<and>
    h_calls h' = h_calls h @ [CallPlan call (item_meta it)]"
proof -
  obtain r where r: "fst (ri_first i) = Returned r" using assms(3) by (auto simp: runs_through_def)
  have c: "check_run_plan h = Inr ()" "\<exists>e. require_engine h = Inr e"
    using assms(1) by (auto simp: engine_ready_def check_run_plan_def require_engine_def)
  then show ?thesis
    using assms(1,2)
    by (auto simp: run_item_def resolved_item_def run_plan_def run_plan_on_thread_def r outcome_of_def engine_ready_def Let_def
        begin_plan_def finish_plan_def set_state_def emit_def engine_called_def)
qed

lemma live_round_runs_head:
  assumes "rs_at (lv_service l) = AtTop" "\<not> lv_waiting l"
    and "poised (x # xs) hs (sv_seq (rs_services (lv_service l)))" "flags (sv_seq (rs_services (lv_service l))) = (True, False, False)"
    and "engine_ready (host_of (rs_services (lv_service l)))"
    and "resolved_item attr (sv_registry (rs_services (lv_service l))) x = Inr call" "runs_through (snd i)"
  shows "\<exists>s'. live_run SqlQueueRepository defs tx pr attr (live_round i) l =
      l\<lparr>lv_service := (lv_service l)\<lparr>rs_services := (rs_services (lv_service l))\<lparr>sv_seq := s'\<rparr>,
        rs_started := rs_started (lv_service l) @ [x]\<rparr>\<rparr> \<and>
    poised xs (hs @ [entry_for x (live_ending tx x i)]) s' \<and> flags s' = (succeeded (en_outcome (live_ending tx x i)), False, False) \<and>
    engine_ready (sq_host s') \<and>
    h_calls (sq_host s') = h_calls (host_of (rs_services (lv_service l))) @ [CallPlan call (item_meta x)]"
proof -
  let ?m = "lv_service l" and ?s = "sv_seq (rs_services (lv_service l))" and ?reg = "sv_registry (rs_services (lv_service l))"
  obtain t0 j where i: "i = (t0, j)" by force
  obtain s1 where t: "take_item SqlQueueRepository ?s = (Inr (Some x), s1)" "poised xs hs s1" "flags s1 = (True, False, False)"
    "sq_host s1 = sq_host ?s"
    using take_poised [OF assms(3)] assms(4) by auto
  obtain h where h: "run_item tx attr ?reg (ri_first j) (ri_rounds j) x (sq_host s1) = (Some (Ended (outcome_of tx x j)), h)"
    "engine_ready h" "h_calls h = h_calls (sq_host ?s) @ [CallPlan call (item_meta x)]"
    using run_item_through [OF assms(5,6), of j tx] assms(7) unfolding t(4) i by auto
  have p: "poised xs hs (s1\<lparr>sq_host := h\<rparr>)" "flags (s1\<lparr>sq_host := h\<rparr>) = (True, False, False)"
    using t(2,3) h(2) by (simp_all add: poised_def seq_ready_def engine_ready_def flags_def)
  obtain s2 where f: "finish_item SqlQueueRepository tx ?reg (ri_fresh j) x (outcome_of tx x j) t0 (ri_over j) (ri_end j) (s1\<lparr>sq_host := h\<rparr>) = (Inr (), s2)"
    "poised xs (hs @ [history_of x (outcome_of tx x j) t0 (ri_end j)]) s2" "flags s2 = (succeeded (outcome_of tx x j), False, False)"
    "sq_host s2 = h"
    using finish_poised [OF p, of tx ?reg "ri_fresh j" x "outcome_of tx x j" t0 "ri_over j" "ri_end j"] by auto
  have "run_one SqlQueueRepository tx attr ?reg (ri_fresh j) (ri_first j) (ri_rounds j) t0 (ri_over j) (ri_end j) x s1 =
      (Inr (ItemDone (outcome_of tx x j)), s2)"
    using h(1) f(1) by (simp add: run_one_def act_simps Let_def)
  then have "live_run SqlQueueRepository defs tx pr attr (live_round i) l =
      l\<lparr>lv_service := ?m\<lparr>rs_services := (rs_services ?m)\<lparr>sv_seq := s2\<rparr>, rs_started := rs_started ?m @ [x]\<rparr>\<rparr>"
    using assms(1,2) check_running [OF assms(3,4)] t(1)
    by (simp add: live_round_def i by_machine_def machine_of_def run_taken_def Let_def)
  then show ?thesis
    using f(2-4) h(2,3) by (intro exI [of _ s2]) (simp add: live_ending_def entry_for_def i)
qed

lemma live_run_append: "live_run ops defs tx pr attr (es @ fs) l = live_run ops defs tx pr attr fs (live_run ops defs tx pr attr es l)"
  by (simp add: live_run_def)

lemma live_at_rest:
  assumes "rs_at (lv_service l) = AtTop" "at_rest (sv_seq (rs_services (lv_service l)))"
  shows "live_run ops defs tx pr attr (concat (map live_round is) @ [Checks, Takes t]) l = l"
proof -
  have "live_run ops defs tx pr attr (live_round i) l = l" for i
    using assms by (cases i) (simp add: live_round_def check_at_rest [OF assms] step_at_top [OF assms(1)])
  then have "live_run ops defs tx pr attr (concat (map live_round is)) l = l" by (induction "is") (simp_all add: live_run_append)
  then show ?thesis
    using assms by (simp add: live_run_append check_at_rest [OF assms] step_at_top [OF assms(1)])
qed

lemma live_rounds_run_queue:
  assumes "rs_at (lv_service l) = AtTop" "\<not> lv_waiting l"
    and "poised q hs (sv_seq (rs_services (lv_service l)))" "flags (sv_seq (rs_services (lv_service l))) = (True, False, False)"
    and "engine_ready (host_of (rs_services (lv_service l)))" "length is = length q"
    and "reg = sv_registry (rs_services (lv_service l))" "\<forall>it \<in> set q. \<exists>call. resolved_item attr reg it = Inr call"
    and "\<forall>i \<in> set is. runs_through (snd i)"
  shows "\<exists>s'. live_run SqlQueueRepository defs tx pr attr (concat (map live_round is) @ [Checks, Takes t]) l =
      l\<lparr>lv_service := (lv_service l)\<lparr>rs_services := (rs_services (lv_service l))\<lparr>sv_seq := s'\<rparr>,
        rs_started := rs_started (lv_service l) @ take (length (until_failure (map2 (live_ending tx) q is))) q\<rparr>\<rparr> \<and>
    poised (drop (length (until_failure (map2 (live_ending tx) q is))) q)
      (hs @ map2 entry_for q (until_failure (map2 (live_ending tx) q is))) s' \<and> at_rest s' \<and>
    h_calls (sq_host s') = h_calls (host_of (rs_services (lv_service l))) @
      map (engine_call_of attr reg) (take (length (until_failure (map2 (live_ending tx) q is))) q)"
  using assms
proof (induction "is" arbitrary: l q hs)
  case Nil
  then have q: "poised [] hs (sv_seq (rs_services (lv_service l)))" and a: "\<not> sq_autostart (sv_seq (rs_services (lv_service l)))"
    by (simp_all add: flags_def)
  obtain s' where s': "take_item SqlQueueRepository (sv_seq (rs_services (lv_service l))) = (Inr None, s')" "poised [] hs s'" "at_rest s'"
    "sq_host s' = host_of (rs_services (lv_service l))"
    using take_empty [OF q a] by blast
  show ?case
    by (rule exI [of _ s'])
      (use Nil check_running [OF q Nil.prems(4)] s' in \<open>simp add: by_machine_def machine_of_def Let_def\<close>)
next
  case (Cons i js)
  from Cons.prems(6) obtain x xs where q: "q = x # xs" "length js = length xs" by (cases q) auto
  from Cons.prems(7,8) q obtain call where call: "resolved_item attr (sv_registry (rs_services (lv_service l))) x = Inr call" by auto
  then have this_call: "engine_call_of attr reg x = CallPlan call (item_meta x)" using Cons.prems(7) by (simp add: engine_call_of_def)
  let ?e = "live_ending tx x i"
  obtain s1 where r: "live_run SqlQueueRepository defs tx pr attr (live_round i) l =
      l\<lparr>lv_service := (lv_service l)\<lparr>rs_services := (rs_services (lv_service l))\<lparr>sv_seq := s1\<rparr>,
        rs_started := rs_started (lv_service l) @ [x]\<rparr>\<rparr>"
    "poised xs (hs @ [entry_for x ?e]) s1" "flags s1 = (succeeded (en_outcome ?e), False, False)" "engine_ready (sq_host s1)"
    "h_calls (sq_host s1) = h_calls (host_of (rs_services (lv_service l))) @ [CallPlan call (item_meta x)]"
    using live_round_runs_head [OF Cons.prems(1,2) Cons.prems(3) [unfolded q] Cons.prems(4,5) call, of i defs tx pr] Cons.prems(9)
    by auto
  let ?l = "l\<lparr>lv_service := (lv_service l)\<lparr>rs_services := (rs_services (lv_service l))\<lparr>sv_seq := s1\<rparr>,
        rs_started := rs_started (lv_service l) @ [x]\<rparr>\<rparr>"
  show ?case
  proof (cases "succeeded (en_outcome ?e)")
    case True
    let ?n = "length (until_failure (map2 (live_ending tx) xs js))"
    from Cons.IH [of ?l xs "hs @ [entry_for x ?e]"] Cons.prems r(2-4) q(2) True q(1)
    obtain s' where "live_run SqlQueueRepository defs tx pr attr (concat (map live_round js) @ [Checks, Takes t]) ?l =
        ?l\<lparr>lv_service := (lv_service ?l)\<lparr>rs_services := (rs_services (lv_service ?l))\<lparr>sv_seq := s'\<rparr>,
          rs_started := rs_started (lv_service ?l) @ take ?n xs\<rparr>\<rparr>"
      "poised (drop ?n xs) ((hs @ [entry_for x ?e]) @ map2 entry_for xs (until_failure (map2 (live_ending tx) xs js))) s'" "at_rest s'"
      "h_calls (sq_host s') = h_calls (sq_host s1) @ map (engine_call_of attr reg) (take ?n xs)"
      by auto
    then show ?thesis
      by (intro exI [of _ s']) (simp add: live_run_append r(1,5) q(1) True this_call del: live_run_simps)
  next
    case False
    then have rest: "rs_at (lv_service ?l) = AtTop" "at_rest (sv_seq (rs_services (lv_service ?l)))"
      using r(3) Cons.prems(1) by (simp_all add: at_rest_def flags_def)
    have "live_run SqlQueueRepository defs tx pr attr (concat (map live_round (i # js)) @ [Checks, Takes t]) l = ?l"
      using live_at_rest [OF rest, of SqlQueueRepository defs tx pr attr js t]
      by (simp add: live_run_append r(1) del: live_run_simps)
    then show ?thesis
      using r(2,5) rest(2) False by (intro exI [of _ s1]) (simp add: q(1) this_call)
  qed
qed

lemma start_drives_engine:
  assumes "require_scope ''write:execute'' (sv_auth s) rq = Inr p" "seq_ready (sv_seq s)"
    and "\<not> experiment_missing (en_tx (ou_env out)) (en_pr (ou_env out)) (sv_seq s)" "engine_ready (host_of s)"
    and "\<not> sq_autostart (sv_seq s)" "\<not> sq_loop_mode (sv_seq s)" "\<not> sq_closing (sv_seq s)"
    and "sql_queue (queue_service_of s) = q" "q \<noteq> []" "length is = length q"
    and "\<forall>it \<in> set q. \<exists>call. resolved_item attr (sv_registry s) it = Inr call" "\<forall>i \<in> set is. runs_through (snd i)"
  shows "(let l = live_run SqlQueueRepository defs tx pr attr
        (Request out (QueueRoute QueueStart) rq # concat (map live_round is) @ [Checks, Takes t]) (go_live s);
      s' = rs_services (lv_service l); ran = until_failure (map2 (live_ending tx) q is) in
    h_calls (host_of s') = h_calls (host_of s) @ map (engine_call_of attr (sv_registry s)) (take (length ran) q) \<and>
    sql_history (queue_service_of s') = sql_history (queue_service_of s) @ sq_pending_history (sv_seq s) @ map2 entry_for q ran \<and>
    sql_queue (queue_service_of s') = drop (length ran) q \<and> \<not> sq_running (sv_seq s') \<and> \<not> lv_left l)"
proof -
  from assms(4) have idle: "h_state (host_of s) = IDLE" by (simp add: engine_ready_def)
  obtain s1 where s1: "handle_request SqlQueueRepository defs out (QueueRoute QueueStart) rq s =
      (Reply (PDict (ok_body [] [])), s\<lparr>sv_seq := s1\<rparr>)"
    "poised q (sql_history (queue_service_of s) @ sq_pending_history (sv_seq s)) s1" "flags s1 = (True, False, False)"
    "sq_host s1 = host_of s"
    using start_request [OF assms(1-3) idle assms(5-7)] assms(8,9) by blast
  let ?l = "\<lparr>lv_service = (begin_service s)\<lparr>rs_services := s\<lparr>sv_seq := s1\<rparr>, rs_responses := [Reply (PDict (ok_body [] []))]\<rparr>,
    lv_waiting = False, lv_left = False\<rparr>"
  have first: "live_step SqlQueueRepository defs tx pr attr (Request out (QueueRoute QueueStart) rq) (go_live s) = ?l"
    using s1(1) by (simp add: go_live_def begin_service_def)
  have top: "rs_at (lv_service ?l) = AtTop" "\<not> lv_waiting ?l" by (simp_all add: begin_service_def)
  have rest: "poised q (sql_history (queue_service_of s) @ sq_pending_history (sv_seq s)) (sv_seq (rs_services (lv_service ?l)))"
    "flags (sv_seq (rs_services (lv_service ?l))) = (True, False, False)" "engine_ready (host_of (rs_services (lv_service ?l)))"
    "sv_registry s = sv_registry (rs_services (lv_service ?l))"
    using s1(2-4) assms(4) by simp_all
  from live_rounds_run_queue [OF top rest(1-3) assms(10) rest(4) assms(11,12), of defs tx pr t] obtain s' where
    r: "live_run SqlQueueRepository defs tx pr attr (concat (map live_round is) @ [Checks, Takes t]) ?l =
      ?l\<lparr>lv_service := (lv_service ?l)\<lparr>rs_services := (rs_services (lv_service ?l))\<lparr>sv_seq := s'\<rparr>,
        rs_started := rs_started (lv_service ?l) @ take (length (until_failure (map2 (live_ending tx) q is))) q\<rparr>\<rparr>"
    "poised (drop (length (until_failure (map2 (live_ending tx) q is))) q)
      ((sql_history (queue_service_of s) @ sq_pending_history (sv_seq s)) @ map2 entry_for q (until_failure (map2 (live_ending tx) q is))) s'"
    "at_rest s'"
    "h_calls (sq_host s') = h_calls (host_of (rs_services (lv_service ?l))) @
      map (engine_call_of attr (sv_registry s)) (take (length (until_failure (map2 (live_ending tx) q is))) q)" by blast
  have "live_run SqlQueueRepository defs tx pr attr
      (Request out (QueueRoute QueueStart) rq # concat (map live_round is) @ [Checks, Takes t]) (go_live s) =
    ?l\<lparr>lv_service := (lv_service ?l)\<lparr>rs_services := (rs_services (lv_service ?l))\<lparr>sv_seq := s'\<rparr>,
        rs_started := rs_started (lv_service ?l) @ take (length (until_failure (map2 (live_ending tx) q is))) q\<rparr>\<rparr>"
    unfolding live_run_simps(2) first by (rule r(1))
  then show ?thesis
    using r(2-4) s1(4) by (simp add: Let_def poised_def at_rest_def del: live_run_simps)
qed


definition example_run :: "run_result \<Rightarrow> run_input" where
  "example_run r = \<lparr>ri_fresh = (\<lambda>_. (''n'', 0)), ri_first = (Returned r, example_engine), ri_rounds = [], ri_over = 9, ri_end = 9\<rparr>"

definition example_rounds :: "(rat \<times> run_input) list" where
  "example_rounds = [(0, example_run (example_result\<lparr>rr_exit_status := PStr ''fail''\<rparr>)), (2, example_run example_result)]"

definition example_attributes :: attribute_of where
  "example_attributes = (\<lambda>_ name. Inl (Exn AttributeError [Rep (PStr name)]))"

lemma example_resolves: "\<exists>call. resolved_item example_attributes example_registry (example_item u) = Inr call"
proof -
  have "\<not> isl (resolve example_attributes ''count'' [PList [PStr ''det'']] [(PStr ''num'', PInt 3)] example_registry)" by code_simp
  then show ?thesis unfolding resolved_item_def example_item_def queue_item.simps by (metis sum.collapse(2))
qed

lemma example_live:
  "require_scope ''write:execute'' (sv_auth example_services) example_request = Inr (new_principal ''single_user'')"
  "seq_ready (sv_seq example_services)"
  "\<not> experiment_missing (en_tx (ou_env example_outside)) (en_pr (ou_env example_outside)) (sv_seq example_services)"
  "engine_ready (host_of example_services)" "\<not> sq_autostart (sv_seq example_services)"
  "\<not> sq_loop_mode (sv_seq example_services)" "\<not> sq_closing (sv_seq example_services)"
  "sql_queue (queue_service_of example_services) = [example_item ''a'', example_item ''b'']"
  "length example_rounds = length [example_item ''a'', example_item ''b'']"
  "\<forall>it \<in> set [example_item ''a'', example_item ''b'']. \<exists>call. resolved_item example_attributes (sv_registry example_services) it = Inr call"
  "\<forall>i \<in> set example_rounds. runs_through (snd i)"
  by (simp add: example_allowed, simp add: seq_ready_def, simp add: experiment_missing_def example_services_def Sequencer_init_def,
    simp add: engine_ready_def example_services_def Sequencer_init_def example_host_def EngineHost_init_def,
    simp_all add: example_services_def Sequencer_init_def example_rounds_def runs_through_def example_run_def example_resolves)

lemma example_ran: "length (until_failure (map2 (live_ending example_texts) [example_item ''a'', example_item ''b''] example_rounds)) = 1"
  by (simp add: example_rounds_def live_ending_def outcome_of_def example_run_def outcome_from_result_def succeeded_def
      new_outcome_def example_result_def py_or_def)



text \<open>
  So the accounts of the state machine are those of the service with its engine.
\<close>

theorem live_service_accounts_for_items:
  assumes "build_application bg sd c sys = (Inr (s, failures), sys')" "opens_consistent bg" "opens_ordinary bg"
    and "\<forall>ev \<in> set (concat (map requested evs)). \<not> clears_history ev"
    and "\<not> lv_left (live_run SqlQueueRepository defs tx pr attr evs (go_live s))"
  shows "let m = lv_service (live_run SqlQueueRepository defs tx pr attr evs (go_live s)) in
    image_mset he_item (mset (recorded (sv_seq (rs_services m)))) + busy_items (rs_at m) =
    image_mset he_item (mset (recorded (sv_seq s))) + mset (rs_started m)"
proof -
  obtain es where es: "filter is_ask es = concat (map requested evs)"
    "lv_service (live_run SqlQueueRepository defs tx pr attr evs (go_live s)) = run_service SqlQueueRepository defs tx pr es (begin_service s)"
    using live_run_from [OF assms(5)] by (auto simp: go_live_def)
  have "\<not> clears_history ev" if "ev \<in> set es" for ev
  proof (cases "is_ask ev")
    case True
    then have "ev \<in> set (filter is_ask es)" using that by simp
    then show ?thesis using assms(4) unfolding es(1) by blast
  next
    case False
    then show ?thesis by (cases ev) simp_all
  qed
  with built_accounted [OF assms(1-3)] show ?thesis unfolding es(2) by (simp add: accounted_def Let_def)
qed

end
