(* ===== verification/Logging.thy ===== *)
theory Logging
  imports Diagnostics PyString
begin

section \<open>Where log records go (\<open>configure_logging\<close> of \<open>diagnostics.py\<close>)\<close>

text \<open>
  The state of the \<open>logging\<close> module that the program sets: the handlers of the root logger, its level, and the
  levels of two loggers of libraries. \<open>emitted\<close> is what the module does with a record then: a logger
  without a level of its own has that of the closest one above it, the dots in its name being the way up.
\<close>

text \<open>\<open>str.upper\<close>. The capitals of two letters lie beyond code point 255; they stay as they are.\<close>

definition upper_char :: "char \<Rightarrow> string" where
  "upper_char c = (let n = of_char c :: nat in
     if 97 \<le> n \<and> n \<le> 122 \<or> 224 \<le> n \<and> n \<le> 254 \<and> n \<noteq> 247 then [char_of (n - 32)]
     else if n = 223 then ''SS'' else [c])"

definition upper :: "string \<Rightarrow> string" where
  "upper s = concat (map upper_char s)"

abbreviation DEBUG :: int where "DEBUG \<equiv> 10"
abbreviation INFO :: int where "INFO \<equiv> 20"
abbreviation WARNING :: int where "WARNING \<equiv> 30"

text \<open>\<open>logging.getLevelName\<close> of a name; a name it does not know gives a text and not a number.\<close>

definition level_names :: "(string \<times> int) list" where
  "level_names = [(''CRITICAL'', 50), (''FATAL'', 50), (''ERROR'', 40), (''WARN'', WARNING), (''WARNING'', WARNING),
     (''INFO'', INFO), (''DEBUG'', DEBUG), (''NOTSET'', 0)]"

definition level_of :: "string \<Rightarrow> int" where
  "level_of name = (case map_of level_names (upper name) of Some n \<Rightarrow> n | None \<Rightarrow> INFO)"

datatype log_stream = Stderr | GivenStream nat

text \<open>A handler that somebody else installed prints what it gets.\<close>

datatype log_handler = StreamHandler log_stream bool | ForeignHandler nat

record logging_state =
  ls_handlers :: "log_handler list"
  ls_root :: int
  ls_levels :: "(string \<times> int) list"

definition configure_logging :: "string \<Rightarrow> log_stream option \<Rightarrow> logging_state \<Rightarrow> logging_state" where
  "configure_logging level stream ls =
     (let numeric = level_of level;
          handler = StreamHandler (case stream of Some s \<Rightarrow> s | None \<Rightarrow> Stderr) (numeric \<le> DEBUG);
          kept = fold remove1 (ls_handlers ls) (ls_handlers ls)
      in \<lparr>ls_handlers = kept @ [handler], ls_root = numeric,
          ls_levels = AList.update ''httpx'' (max numeric WARNING)
            (AList.update ''uvicorn.access'' (max numeric WARNING) (ls_levels ls))\<rparr>)"

subsection \<open>What becomes of a record\<close>

text \<open>The names of the loggers from the one given up to the root, which is left out.\<close>

function loggers_above :: "string \<Rightarrow> string list" where
  "loggers_above name =
     (if name = [] then [] else name # loggers_above (rev (drop 1 (dropWhile (\<lambda>c. c \<noteq> CHR ''.'') (rev name)))))"
  by pat_completeness auto

termination
proof (relation "measure length", goal_cases)
  case (2 name)
  have "length (dropWhile (\<lambda>c. c \<noteq> CHR ''.'') (rev name)) \<le> length name"
    by (metis length_dropWhile_le length_rev)
  moreover have "0 < length name" using 2 by simp
  ultimately show ?case by (simp only: in_measure length_rev length_drop)
qed simp

declare loggers_above.simps [simp del]

text \<open>\<open>getEffectiveLevel\<close>: a level of 0 is no level.\<close>

definition effective_level :: "logging_state \<Rightarrow> string \<Rightarrow> int" where
  "effective_level ls name =
     (case filter (\<lambda>n. n \<noteq> 0) (List.map_filter (map_of (ls_levels ls)) (loggers_above name)) of
        n # _ \<Rightarrow> n | [] \<Rightarrow> ls_root ls)"

fun handled :: "string list \<Rightarrow> (exn_heap \<Rightarrow> nat \<Rightarrow> string) \<Rightarrow> log_handler \<Rightarrow> log_record \<Rightarrow> log_record" where
  "handled dirs format_tb (StreamHandler _ keep_tracebacks) rec = traceback_filter dirs format_tb keep_tracebacks rec"
| "handled dirs format_tb (ForeignHandler _) rec = rec"

text \<open>The filter of a handler changes the record itself, so the next handler gets it changed.\<close>

fun pass_on :: "string list \<Rightarrow> (exn_heap \<Rightarrow> nat \<Rightarrow> string) \<Rightarrow> log_handler list \<Rightarrow> log_record \<Rightarrow> (log_handler \<times> log_record) list" where
  "pass_on dirs format_tb [] rec = []"
| "pass_on dirs format_tb (h # hs) rec =
     (let printed = handled dirs format_tb h rec in (h, printed) # pass_on dirs format_tb hs printed)"

definition emitted ::
  "string list \<Rightarrow> (exn_heap \<Rightarrow> nat \<Rightarrow> string) \<Rightarrow> logging_state \<Rightarrow> string \<Rightarrow> int \<Rightarrow> log_record \<Rightarrow> (log_handler \<times> log_record) list" where
  "emitted dirs format_tb ls name level rec =
     (if effective_level ls name \<le> level then pass_on dirs format_tb (ls_handlers ls) rec else [])"

subsection \<open>Properties\<close>

lemma fold_remove1: "fold remove1 xs (xs @ ys) = ys"
  by (induction xs arbitrary: ys) simp_all

lemma configured:
  "ls_handlers (configure_logging level stream ls) = [StreamHandler (case stream of Some s \<Rightarrow> s | None \<Rightarrow> Stderr) (level_of level \<le> DEBUG)]"
  "ls_root (configure_logging level stream ls) = level_of level"
  "map_of (ls_levels (configure_logging level stream ls)) name =
     (if name \<in> {''uvicorn.access'', ''httpx''} then Some (max (level_of level) WARNING) else map_of (ls_levels ls) name)"
  using fold_remove1 [of "ls_handlers ls" "[]"] by (simp_all add: configure_logging_def Let_def update_conv')

lemma quiet_libraries:
  assumes "name \<in> {''uvicorn.access'', ''httpx''}"
  shows "effective_level (configure_logging level stream ls) name = max (level_of level) WARNING"
proof -
  obtain ns where "loggers_above name = name # ns"
    using assms by (simp add: loggers_above.simps [of name]) auto
  then have "List.map_filter (map_of (ls_levels (configure_logging level stream ls))) (loggers_above name) =
      max (level_of level) WARNING # List.map_filter (map_of (ls_levels (configure_logging level stream ls))) ns"
    using assms by (auto simp: configured(3) map_filter_simps)
  moreover have "max (level_of level) WARNING \<noteq> 0" by simp
  ultimately show ?thesis by (simp add: effective_level_def)
qed

text \<open>
  The journal of the service: however logging was set up before, each record is printed once or not
  at all, by the one handler that the program installs; with a traceback only at DEBUG, otherwise
  with the root cause on the same line; and of what the HTTP server and client log about single
  requests, nothing below a warning appears, whatever the level.
\<close>

theorem journal_policy:
  fixes level stream ls
  defines "configured_state \<equiv> configure_logging level stream ls"
  shows "case emitted dirs format_tb configured_state name n rec of
       [] \<Rightarrow> n < effective_level configured_state name
     | [(h, printed)] \<Rightarrow> effective_level configured_state name \<le> n \<and>
         h = StreamHandler (case stream of Some s \<Rightarrow> s | None \<Rightarrow> Stderr) (level_of level \<le> DEBUG) \<and>
         lr_exc_info printed = (if level_of level \<le> DEBUG then lr_exc_info rec else None) \<and>
         (\<exists>t. lr_msg printed = lr_msg rec @ t) \<and>
         (name \<in> {''uvicorn.access'', ''httpx''} \<longrightarrow> WARNING \<le> n)
     | _ \<Rightarrow> False"
proof -
  have q: "name \<in> {''uvicorn.access'', ''httpx''} \<longrightarrow> WARNING \<le> effective_level configured_state name"
    using quiet_libraries [of name level stream ls] by (auto simp: configured_state_def)
  have f: "lr_exc_info (traceback_filter dirs format_tb k rec) = (if k then lr_exc_info rec else None) \<and>
      (\<exists>t. lr_msg (traceback_filter dirs format_tb k rec) = lr_msg rec @ t)" for k
    by (auto simp: traceback_filter_def Let_def split: option.split)
  show ?thesis
    using q f by (auto simp: emitted_def configured_state_def configured Let_def)
qed

end
