(* ===== verification/DatabaseSetup.thy ===== *)
theory DatabaseSetup
  imports Database
begin

section \<open>Opening the database (\<open>Database\<close> of \<open>persistence/database.py\<close>)\<close>

text \<open>
  What the constructor asks of SQLAlchemy for a URL, what it executes on every new connection, and
  \<open>create_all\<close>, which creates the tables of the metadata that the database has not got and leaves the
  others alone (\<open>checkfirst\<close>, the documented default). A store is a database as it is found: each
  table may be missing.
\<close>

record engine_options =
  eo_url :: string
  eo_echo :: bool
  eo_connect_args :: pydict
  eo_on_connect :: "string list"

definition Database_init :: "string \<Rightarrow> bool \<Rightarrow> engine_options" where
  "Database_init url echo =
     (let sqlite = prefix ''sqlite'' url in
      \<lparr>eo_url = url, eo_echo = echo,
       eo_connect_args = (if sqlite then AList.update (PStr ''check_same_thread'') (PBool False) [] else []),
       eo_on_connect = (if sqlite then [''PRAGMA journal_mode=WAL'', ''PRAGMA foreign_keys=ON''] else [])\<rparr>)"

record store =
  st_queue_items :: "queue_item_row list option"
  st_queue_history :: "history_row list option"
  st_device_definitions :: "device_definition_row list option"

definition create_table :: "'row list option \<Rightarrow> 'row list option" where
  "create_table t = (case t of None \<Rightarrow> Some [] | Some rows \<Rightarrow> Some rows)"

definition create_all :: "store \<Rightarrow> store" where
  "create_all st =
     \<lparr>st_queue_items = create_table (st_queue_items st), st_queue_history = create_table (st_queue_history st),
      st_device_definitions = create_table (st_device_definitions st)\<rparr>"

text \<open>The tables that sessions see, once they are all there.\<close>

definition tables_of :: "store \<Rightarrow> tables option" where
  "tables_of st =
     (case (st_queue_items st, st_queue_history st, st_device_definitions st) of
        (Some q, Some h, Some d) \<Rightarrow> Some \<lparr>t_queue_items = q, t_queue_history = h, t_device_definitions = d\<rparr>
      | _ \<Rightarrow> None)"

definition stored_rows :: "'row list option \<Rightarrow> 'row list" where
  "stored_rows t = (case t of None \<Rightarrow> [] | Some rows \<Rightarrow> rows)"

text \<open>
  Opening a database is safe at every start: afterwards all tables are there, with the rows they had,
  and doing it again changes nothing. So a service that starts on the database of an earlier one
  finds its queue, history and definitions, also when a table was added since.
\<close>

theorem create_all_keeps_rows:
  "tables_of (create_all st) = Some \<lparr>t_queue_items = stored_rows (st_queue_items st),
     t_queue_history = stored_rows (st_queue_history st),
     t_device_definitions = stored_rows (st_device_definitions st)\<rparr> \<and>
   create_all (create_all st) = create_all st \<and> (\<forall>t. tables_of st = Some t \<longrightarrow> create_all st = st)"
  by (auto simp: create_all_def create_table_def tables_of_def stored_rows_def split: option.splits)

end
