(* ===== verification/EntryPoint.thy ===== *)
theory EntryPoint
  imports ComposeProperties Logging DatabaseSetup
begin

section \<open>The program from its first line to its last (\<open>main\<close> of \<open>runtime/main.py\<close>)\<close>

text \<open>
  Logging is set up, the configuration loaded, and either the plans are listed or the application is built
  and served until the server ends; then it is closed. \<open>unfit\<close> is how uvicorn refuses its own
  configuration, given the level for its log; \<open>server\<close> is what happens to the services while it runs, and
  how it ends.
\<close>

datatype program_end = Exits int | Dies exn

record program_run =
  pg_end :: program_end
  pg_logging :: logging_state
  pg_journal :: "journal_line list"
  pg_printed :: "string list"
  pg_application :: "(database, database) services option"
  pg_streams :: std_streams

record process_world =
  pw_config :: config_world
  pw_environ :: environ
  pw_type_name :: "pyval \<Rightarrow> string"
  pw_signature :: "plan_factory \<Rightarrow> exn + string"
  pw_unfit :: "string \<Rightarrow> exn option"
  pw_server :: "(database, database) services \<Rightarrow> exn option \<times> (database, database) services"

definition serve_application ::
  "process_world \<Rightarrow> cli_args \<Rightarrow> (database, database) services \<times> std_streams \<Rightarrow>
   program_end \<times> (database, database) services \<times> std_streams" where
  "serve_application w args = (\<lambda>(s, sys).
     case pw_unfit w (lower (ar_log_level args)) of
       Some e \<Rightarrow> (Dies e, s, sys)
     | None \<Rightarrow>
         (let (raised, s) = pw_server w s; (s, sys) = close_application (s, sys)
          in (case raised of Some e \<Rightarrow> Dies e | None \<Rightarrow> Exits 0, s, sys)))"

definition qs_main :: "beginnings \<Rightarrow> process_world \<Rightarrow> cli_args \<Rightarrow> logging_state \<Rightarrow> std_streams \<Rightarrow> program_run" where
  "qs_main bg w args ls sys =
     (let run = \<lparr>pg_end = Exits 0, pg_logging = configure_logging (ar_log_level args) None ls, pg_journal = [],
                 pg_printed = [], pg_application = None, pg_streams = sys\<rparr> in
      case configure (pw_config w) (pw_environ w) args of
        Inl e \<Rightarrow> run\<lparr>pg_end := Dies e\<rparr>
      | Inr c \<Rightarrow>
          if ar_list_plans args then
            (let (journal, printed, result, h) = list_plans bg (pw_type_name w) (pw_signature w) c
             in run\<lparr>pg_end := (case result of Inl e \<Rightarrow> Dies e | Inr n \<Rightarrow> Exits n), pg_journal := journal,
                     pg_printed := printed\<rparr>)
          else
            (case build_application bg True c sys of
               (Inl e, sys) \<Rightarrow>
                 if is_exception (exn_class e)
                 then run\<lparr>pg_end := Exits 1, pg_journal := [log_load_failure e], pg_streams := sys\<rparr>
                 else run\<lparr>pg_end := Dies e, pg_streams := sys\<rparr>
             | (Inr (s, failures), sys) \<Rightarrow>
                 (let (ending, s, sys) = serve_application w args (s, sys)
                  in run\<lparr>pg_end := ending, pg_application := Some s, pg_streams := sys\<rparr>)))"

subsection \<open>Properties\<close>

definition builds_on :: "beginnings \<Rightarrow> process_world \<Rightarrow> cli_args \<Rightarrow> std_streams \<Rightarrow> config \<Rightarrow>
    (exn + ((database, database) services \<times> (string \<times> fstring) list)) \<Rightarrow> std_streams \<Rightarrow> bool" where
  "builds_on bg w args sys c result sys' \<longleftrightarrow>
     configure (pw_config w) (pw_environ w) args = Inr c \<and> \<not> ar_list_plans args \<and> build_application bg True c sys = (result, sys')"

lemma main_after_building:
  assumes "builds_on bg w args sys c (Inr (s, failures)) sys'"
  shows "pg_end (qs_main bg w args ls sys) = fst (serve_application w args (s, sys'))"
    and "pg_application (qs_main bg w args ls sys) = Some (fst (snd (serve_application w args (s, sys'))))"
    and "pg_streams (qs_main bg w args ls sys) = snd (snd (serve_application w args (s, sys')))"
    and "pg_journal (qs_main bg w args ls sys) = []"
  using assms by (simp_all add: builds_on_def qs_main_def Let_def case_prod_beta)

text \<open>
  What \<open>main\<close> has built it takes down again: however the server ends, by returning or by an exception, the
  engine host is closed, the loop of the sequencer is told to end and the standard streams are those
  of before; the exit status is 0 exactly if the server returned.
\<close>

theorem main_closes_what_it_built:
  assumes "builds_on bg w args sys c (Inr (s, failures)) sys'" "opens_consistent bg"
    and "pw_unfit w (lower (ar_log_level args)) = None" "pw_server w s = (raised, s1)"
    and "co_saved (sv_console s1) = co_saved (sv_console s)" "co_installed (sv_console s1) = co_installed (sv_console s)"
    and "h_started (host_of s1)"
  shows "let run = qs_main bg w args ls sys in
    pg_streams run = sys \<and> (pg_end run = Exits 0 \<longleftrightarrow> raised = None) \<and>
    (\<exists>s2. pg_application run = Some s2 \<and> h_state (host_of s2) = CLOSED \<and> sq_closing (sv_seq s2) \<and>
      \<not> co_installed (sv_console s2))"
proof -
  from assms(1) have b: "build_application bg True c sys = (Inr (s, failures), sys')" by (simp add: builds_on_def)
  obtain s2 sys2 where cl: "close_application (s1, sys') = (s2, sys2)" by force
  have sv: "serve_application w args (s, sys') = (case raised of Some e \<Rightarrow> Dies e | None \<Rightarrow> Exits 0, s2, sys2)"
    by (simp add: serve_application_def assms(3,4) cl)
  from close_undoes_startup [OF b assms(2,5-7)] cl show ?thesis
    by (simp add: Let_def main_after_building [OF assms(1)] sv split: option.split)
qed

definition example_process :: process_world where
  "example_process = \<lparr>pw_config = example_config_world, pw_environ = [], pw_type_name = (\<lambda>_. ''Motor''), pw_signature = (\<lambda>_. Inr ''()''),
     pw_unfit = (\<lambda>level. if level \<in> {''critical'', ''error'', ''warning'', ''info'', ''debug'', ''trace''} then None else Some (Exn KeyError [Rep (PStr level)])),
     pw_server = (\<lambda>s. (None, snd (handle_request SqlQueueRepository SqlDeviceDefinitionRepository example_outside (ResourceRoute Ping) example_request s)))\<rparr>"

lemma configured_example: "configure example_config_world [] example_args = Inr example_config"
  by (simp add: configure_def overrides_of_def flag_override_def example_args_def load_config_def read_file_def apply_environment_def
      when_given_def flag_from_def number_from_def env_text_def partition_at_def save_settings_def section_of_def set_setting_def
      with_section_def Config_init_def StartupConfig_def example_config_def ignored_variables_def Let_def)

lemma example_started:
  obtains s sys' where "build_application example_beginnings True example_config example_streams = (Inr (s, []), sys')"
    "h_started (host_of s)" "h_state (host_of s) = IDLE"
proof -
  obtain s sys' where b: "build_application example_beginnings True example_config example_streams = (Inr (s, []), sys')"
    using example_builds [of True example_streams] by force
  then obtain captured where "build_services example_beginnings True example_config captured = Inr (s, [])"
    by (auto simp: build_application_def Let_def split: prod.splits if_splits)
  from built_started [OF this] fresh_service(2) [OF this example_database] b that show ?thesis by blast
qed

lemma example_main_builds:
  assumes "build_application example_beginnings True example_config example_streams = (result, sys')"
  shows "builds_on example_beginnings example_process (example_args\<lparr>ar_log_level := level\<rparr>) example_streams example_config result sys'"
proof -
  have "configure w env (args\<lparr>ar_log_level := level\<rparr>) = configure w env args" for w env args
    by (simp add: configure_def overrides_of_def)
  with assms configured_example show ?thesis by (simp add: builds_on_def example_process_def) (simp add: example_args_def)
qed

theorem main_closes_what_it_built_witness:
  "pg_end (qs_main example_beginnings example_process example_args \<lparr>ls_handlers = [ForeignHandler 1], ls_root = 30, ls_levels = []\<rparr> example_streams) =
     Exits 0"
proof -
  obtain s sys' where s: "build_application example_beginnings True example_config example_streams = (Inr (s, []), sys')"
    "h_started (host_of s)" by (rule example_started)
  have b: "builds_on example_beginnings example_process example_args example_streams example_config (Inr (s, [])) sys'"
    using example_main_builds [OF s(1), of "ar_log_level example_args"] by simp
  have l: "lower (ar_log_level example_args) = ''info''" by code_simp
  have u: "pw_unfit example_process (lower (ar_log_level example_args)) = None" unfolding l by (simp add: example_process_def)
  have p: "pw_server example_process s = (None, s)"
    by (simp add: example_process_def handle_request_def with_dict_def answer_def act_simps)
  from main_closes_what_it_built [OF b example_database u p refl refl s(2)] show ?thesis by (simp add: Let_def)
qed

text \<open>
  What uvicorn thinks of its configuration comes between building and the clause that closes: a log level
  that \<open>configure_logging\<close> takes for INFO, but uvicorn does not know, ends the program with the
  host open, the thread of the sequencer running and the standard streams replaced.
\<close>

theorem unfit_level_leaves_service_open:
  assumes "builds_on bg w args sys c (Inr (s, failures)) sys'" "opens_consistent bg"
    and "pw_unfit w (lower (ar_log_level args)) = Some e"
  shows "let run = qs_main bg w args ls sys in
    pg_end run = Dies e \<and> pg_application run = Some s \<and> h_state (host_of s) = IDLE \<and> sq_thread_started (sv_seq s) \<and>
    pg_streams run = (if truthy (setting ''engine'' ''capture_console'' c)
      then \<lparr>sys_stdout = TeeOf (sys_stdout sys), sys_stderr = TeeOf (sys_stderr sys)\<rparr> else sys)"
proof -
  from assms(1) have a: "build_application bg True c sys = (Inr (s, failures), sys')" by (simp add: builds_on_def)
  then obtain captured where b: "build_services bg True c captured = Inr (s, failures)"
    by (auto simp: build_application_def Let_def split: prod.splits if_splits)
  have "sys' = (if truthy (setting ''engine'' ''capture_console'' c)
      then \<lparr>sys_stdout = TeeOf (sys_stdout sys), sys_stderr = TeeOf (sys_stderr sys)\<rparr> else sys)"
    using a by (auto simp: build_application_def install_def ConsoleCapture_init_def Let_def)
  with fresh_service(2,4) [OF b assms(2)] show ?thesis
    by (simp add: Let_def main_after_building [OF assms(1)] serve_application_def assms(3))
qed

theorem unfit_level_leaves_service_open_witness:
  "let run = qs_main example_beginnings example_process (example_args\<lparr>ar_log_level := ''verbose''\<rparr>)
       \<lparr>ls_handlers = [], ls_root = 30, ls_levels = []\<rparr> example_streams in
   pg_end run = Dies (Exn KeyError [Rep (PStr ''verbose'')]) \<and> ls_root (pg_logging run) = INFO"
proof -
  obtain s sys' where s: "build_application example_beginnings True example_config example_streams = (Inr (s, []), sys')"
    by (rule example_started)
  note b = example_main_builds [OF s, of "''verbose''"]
  have l: "lower (ar_log_level (example_args\<lparr>ar_log_level := ''verbose''\<rparr>)) = ''verbose''" by code_simp
  have u: "pw_unfit example_process (lower (ar_log_level (example_args\<lparr>ar_log_level := ''verbose''\<rparr>))) =
      Some (Exn KeyError [Rep (PStr ''verbose'')])"
    unfolding l by (simp add: example_process_def)
  have i: "level_of ''verbose'' = INFO" by code_simp
  have g: "ls_root (pg_logging (qs_main example_beginnings example_process (example_args\<lparr>ar_log_level := ''verbose''\<rparr>) ls example_streams)) = INFO" for ls
    using b by (simp add: qs_main_def builds_on_def configured i Let_def split: prod.split)
  from unfit_level_leaves_service_open [OF b example_database u] g show ?thesis by (simp add: Let_def)
qed

text \<open>
  Whatever keeps the service from coming up is logged as a profile that did not load: also a
  database that cannot be opened, after the profile has loaded without a fault.
\<close>

theorem any_failure_blamed_on_profile:
  assumes "configure (pw_config w) (pw_environ w) args = Inr c" "\<not> ar_list_plans args"
    and "load_registry bg c = Inr (h, reg)" "redact_url (setting ''database'' ''url'' c) = Inr shown"
    and "bg_database bg (text_value (setting ''database'' ''url'' c)) = Inl e" "is_exception (exn_class e)"
  shows "pg_end (qs_main bg w args ls sys) = Exits 1 \<and> pg_journal (qs_main bg w args ls sys) = [LoadFailure PROFILE_LOAD e] \<and>
    pg_application (qs_main bg w args ls sys) = None"
proof -
  have "\<exists>sys'. build_application bg True c sys = (Inl e, sys')"
    using assms(3-5) by (simp add: build_application_def build_services_def Let_def case_prod_beta)
  with assms(1,2,6) show ?thesis by (auto simp: qs_main_def log_load_failure_def Let_def)
qed

theorem any_failure_blamed_on_profile_witness:
  "pg_journal (qs_main (example_beginnings\<lparr>bg_database := \<lambda>_. Inl (Exn (OtherException ''OperationalError'') [])\<rparr>) example_process example_args
     \<lparr>ls_handlers = [], ls_root = 30, ls_levels = []\<rparr> example_streams) =
     [LoadFailure PROFILE_LOAD (Exn (OtherException ''OperationalError'') [])]"
proof -
  let ?bg = "example_beginnings\<lparr>bg_database := \<lambda>_. Inl (Exn (OtherException ''OperationalError'') [])\<rparr>"
  have c: "configure (pw_config example_process) (pw_environ example_process) example_args = Inr example_config"
    using configured_example by (simp add: example_process_def)
  have "\<exists>h reg. load_registry ?bg example_config = Inr (h, reg)"
    by (simp add: load_registry_def make_source_def example_settings load_source_def submit_def load_source_on_thread_def mark_environment_def adopt_loaded_def start_host_def
        EngineHost_init_def set_state_def emit_def example_beginnings_def install_engine_def Let_def)
  then obtain h reg where l: "load_registry ?bg example_config = Inr (h, reg)" by blast
  have r: "redact_url (setting ''database'' ''url'' example_config) = Inr ''sqlite:///qs.sqlite''"
    by (simp add: redact_url_def example_settings split: option.split)
  have "\<not> ar_list_plans example_args" by (simp add: example_args_def)
  from any_failure_blamed_on_profile [OF c this l r, of "Exn (OtherException ''OperationalError'') []"] show ?thesis by simp
qed

end
