(* ===== verification/Restart.thy ===== *)
theory Restart
  imports ServiceProperties EntryPoint
begin

section \<open>From one life of the service to the next\<close>

text \<open>
  A service that has run for a while ends, and another one starts on the tables it left. Nothing of the
  first but its database reaches the second.
\<close>

text \<open>The database that the second service opens: the tables as they were left, whatever sessions fail from now on.\<close>

definition reopens :: "beginnings \<Rightarrow> database \<Rightarrow> bool" where
  "reopens bg old \<longleftrightarrow> (\<forall>u db. bg_database bg u = Inr db \<longrightarrow> db_tables db = db_tables old)"

definition held_items :: "database sequencer \<Rightarrow> queue_item multiset" where
  "held_items s = image_mset he_item (mset (sq_pending_history s))"



end
