(* ===== verification/Qsctl.thy ===== *)
theory Qsctl
  imports Sources RouteProperties
begin

section \<open>The command line client (\<open>cli/qsctl.py\<close>)\<close>

text \<open>
  From a parsed command to the HTTP call, from the reply to what is printed and the exit status. The
  transport is a parameter: it answers a call with the JSON object of the reply or raises. \<open>json.loads\<close> and
  \<open>json.dumps\<close> are \<open>loads\<close> and \<open>dumps\<close>; \<open>pn_fmt\<close> is \<open>str\<close> of a value, \<open>pn_text\<close> how a message prints.
\<close>

subsection \<open>Results in sequence\<close>

definition and_then :: "'e + 'a \<Rightarrow> ('a \<Rightarrow> 'e + 'b) \<Rightarrow> 'e + 'b" where
  "and_then r f = (case r of Inl e \<Rightarrow> Inl e | Inr x \<Rightarrow> f x)"

fun each :: "('a \<Rightarrow> 'e + 'b) \<Rightarrow> 'a list \<Rightarrow> 'e + 'b list" where
  "each f [] = Inr []"
| "each f (x # xs) = and_then (f x) (\<lambda>y. and_then (each f xs) (\<lambda>ys. Inr (y # ys)))"

subsection \<open>Commands\<close>

datatype queue_command =
    QGet
  | QAdd string "string option" "string option" "string option"
  | QRemove string
  | QMove string string
  | QClear
  | QStart
  | QStop
  | QStopCancel
  | QAutostart bool

datatype re_command = RPause bool | RResume | RAbort | RStop | RHalt

datatype cli_command =
    CStatus
  | CPlans
  | CDevices
  | CExperiment
  | CHistory bool
  | CQueue queue_command
  | CRe re_command

datatype http_call = Get string | Post string pydict

text \<open>\<open>s.isdigit()\<close> for code points up to 255: the digits and the superscripts.\<close>

definition is_digits :: "string \<Rightarrow> bool" where
  "is_digits s \<longleftrightarrow> s \<noteq> [] \<and> (\<forall>c \<in> set s. let n = of_char c :: nat in 48 \<le> n \<and> n \<le> 57 \<or> n \<in> {178, 179, 185})"

text \<open>\<open>int(pos) if pos.lstrip("-").isdigit() else pos\<close>.\<close>

definition position_value :: "string \<Rightarrow> exn + pyval" where
  "position_value pos =
     (if is_digits (dropWhile (\<lambda>c. c = CHR ''-'') pos) then map_sum id PInt (py_int (PStr pos)) else Inr (PStr pos))"

definition json_or :: "(string \<Rightarrow> exn + pyval) \<Rightarrow> pyval \<Rightarrow> string option \<Rightarrow> exn + pyval" where
  "json_or loads v0 given = (case given of None \<Rightarrow> Inr v0 | Some t \<Rightarrow> if t = [] then Inr v0 else loads t)"

definition add_body :: "string \<Rightarrow> pyval \<Rightarrow> pyval \<Rightarrow> pydict" where
  "add_body plan args kwargs =
     [(PStr ''item'', PDict [(PStr ''item_type'', PStr ''plan''), (PStr ''name'', PStr plan), (PStr ''args'', args), (PStr ''kwargs'', kwargs)])]"

fun queue_call :: "(string \<Rightarrow> exn + pyval) \<Rightarrow> queue_command \<Rightarrow> exn + string \<times> http_call" where
  "queue_call loads QGet = Inr (''queue'', Get ''/queue/get'')"
| "queue_call loads (QAdd plan args kwargs pos) =
     and_then (json_or loads (PList []) args) (\<lambda>a.
     and_then (json_or loads (PDict []) kwargs) (\<lambda>k.
     case pos of
       None \<Rightarrow> Inr (''add'', Post ''/queue/item/add'' (add_body plan a k))
     | Some p \<Rightarrow> and_then (position_value p) (\<lambda>v. Inr (''add'', Post ''/queue/item/add'' (add_body plan a k @ [(PStr ''pos'', v)])))))"
| "queue_call loads (QRemove uid) = Inr (''remove'', Post ''/queue/item/remove'' [(PStr ''uid'', PStr uid)])"
| "queue_call loads (QMove uid pos) = and_then (position_value pos) (\<lambda>v.
     Inr (''move'', Post ''/queue/item/move'' [(PStr ''uid'', PStr uid), (PStr ''pos_dest'', v)]))"
| "queue_call loads QClear = Inr (''clear'', Post ''/queue/clear'' [])"
| "queue_call loads QStart = Inr (''start'', Post ''/queue/start'' [])"
| "queue_call loads QStop = Inr (''stop'', Post ''/queue/stop'' [])"
| "queue_call loads QStopCancel = Inr (''stop-cancel'', Post ''/queue/stop/cancel'' [])"
| "queue_call loads (QAutostart enable) = Inr (''autostart'', Post ''/queue/autostart'' [(PStr ''enable'', PBool enable)])"

fun re_call :: "re_command \<Rightarrow> string \<times> http_call" where
  "re_call (RPause immediate) = (''pause'', Post ''/re/pause'' [(PStr ''option'', PStr (if immediate then ''immediate'' else ''deferred''))])"
| "re_call RResume = (''resume'', Post ''/re/resume'' [])"
| "re_call RAbort = (''abort'', Post ''/re/abort'' [])"
| "re_call RStop = (''stop'', Post ''/re/stop'' [])"
| "re_call RHalt = (''halt'', Post ''/re/halt'' [])"

fun command_call :: "(string \<Rightarrow> exn + pyval) \<Rightarrow> cli_command \<Rightarrow> exn + string \<times> http_call" where
  "command_call loads CStatus = Inr (''status'', Get ''/status'')"
| "command_call loads CPlans = Inr (''plans'', Get ''/plans/allowed'')"
| "command_call loads CDevices = Inr (''devices'', Get ''/devices/allowed'')"
| "command_call loads CExperiment = Inr (''experiment'', Get ''/status'')"
| "command_call loads (CHistory wipe) = Inr (if wipe then (''clear'', Post ''/history/clear'' []) else (''history'', Get ''/history/get''))"
| "command_call loads (CQueue q) = queue_call loads q"
| "command_call loads (CRe r) = Inr (re_call r)"

subsection \<open>Output\<close>

record printing =
  pn_fmt :: "pyval \<Rightarrow> string"
  pn_text :: "fstring \<Rightarrow> string"
  pn_dumps :: "pyval \<Rightarrow> exn + string"
  pn_dumps_indented :: "pyval \<Rightarrow> exn + string"

definition say :: "printing \<Rightarrow> pyval \<Rightarrow> string" where
  "say pn v = py_str (pn_fmt pn) v"

text \<open>\<open>d[k]\<close>, and \<open>d.get(k)\<close> on what should be a dictionary.\<close>

definition need :: "string \<Rightarrow> pyval \<Rightarrow> exn + pyval" where
  "need k v = (case v of
     PDict d \<Rightarrow> (case map_of d (PStr k) of None \<Rightarrow> Inl (Exn KeyError [Rep (PStr k)]) | Some x \<Rightarrow> Inr x)
   | _ \<Rightarrow> Inl (Exn TypeError []))"

definition lookup :: "string \<Rightarrow> pyval \<Rightarrow> pyval \<Rightarrow> exn + pyval" where
  "lookup k v0 v = (case v of PDict d \<Rightarrow> Inr (dget_or k v0 d) | _ \<Rightarrow> Inl (Exn AttributeError []))"

text \<open>\<open>for x in v\<close> on a value; \<open>v.items()\<close>.\<close>

definition elements :: "pyval \<Rightarrow> exn + pyval list" where
  "elements v = py_list v"

definition pairs :: "pyval \<Rightarrow> exn + pydict" where
  "pairs v = (case v of PDict d \<Rightarrow> Inr d | _ \<Rightarrow> Inl (Exn AttributeError []))"

text \<open>\<open>s.splitlines()[-1]\<close> and \<open>s[:8]\<close>.\<close>

definition last_line :: "string \<Rightarrow> exn + string" where
  "last_line s = (case splitlines s of [] \<Rightarrow> Inl (Exn IndexError [Txt ''list index out of range'']) | l # ls \<Rightarrow> Inr (last (l # ls)))"

definition last_line_of :: "pyval \<Rightarrow> exn + string" where
  "last_line_of v = (case v of PStr s \<Rightarrow> last_line s | _ \<Rightarrow> Inl (Exn AttributeError []))"

fun first_eight :: "pyval \<Rightarrow> exn + string" where
  "first_eight (PStr s) = Inr (take 8 s)"
| "first_eight v = Inl (Exn TypeError [])"

definition lines :: "string list \<Rightarrow> string" where
  "lines ls = join_with [LF] ls"

text \<open>\<open>_args\<close>.\<close>

definition item_args :: "printing \<Rightarrow> pyval \<Rightarrow> exn + string" where
  "item_args pn it =
     and_then (lookup ''args'' (PList []) it) (\<lambda>args.
     and_then (elements args) (\<lambda>args.
     and_then (each (pn_dumps pn) args) (\<lambda>positional.
     and_then (lookup ''kwargs'' PNone it) (\<lambda>kwargs.
     and_then (pairs (py_or kwargs (PDict []))) (\<lambda>kwargs.
     and_then (each (\<lambda>(k, v). and_then (pn_dumps pn v) (\<lambda>t. Inr (say pn k @ ''='' @ t))) kwargs) (\<lambda>named.
     Inr (join_with '', '' (positional @ named))))))))"

definition error_line :: "printing \<Rightarrow> pydict \<Rightarrow> string" where
  "error_line pn reply =
     ''error: '' @ say pn (py_or (dget ''msg'' reply) (py_or (dget ''detail'' reply) (PDict reply)))"

definition status_lines :: "printing \<Rightarrow> pydict \<Rightarrow> exn + string" where
  "status_lines pn reply =
     (let r = PDict reply; show_it = say pn in
      and_then (need ''manager_state'' r) (\<lambda>manager.
      and_then (need ''re_state'' r) (\<lambda>engine.
      and_then (need ''items_in_queue'' r) (\<lambda>queued.
      and_then (need ''items_in_history'' r) (\<lambda>past.
      and_then (need ''queue_autostart_enabled'' r) (\<lambda>autostart.
      and_then (need ''queue_stop_pending'' r) (\<lambda>stopping.
      let qs = dget_or ''qs'' (PDict []) reply in
      and_then (lookup ''experiment'' PNone qs) (\<lambda>experiment.
      and_then
        (if \<not> truthy experiment then Inr []
         else and_then (lookup ''username'' (PStr ''-'') experiment) (\<lambda>who.
              and_then (lookup ''data_session'' (PStr ''-'') experiment) (\<lambda>session.
              and_then (lookup ''cycle'' (PStr ''-'') experiment) (\<lambda>cycle.
              Inr [''experiment: '' @ show_it session @ '' cycle '' @ show_it cycle @ '' ('' @ show_it who @ '')'']))))
        (\<lambda>experiment_line.
      and_then (lookup ''last_error'' PNone qs) (\<lambda>err.
      and_then (if \<not> truthy err then Inr [] else and_then (last_line (show_it err)) (\<lambda>l. Inr [''last error: '' @ l])) (\<lambda>error_part.
      and_then (lookup ''database_ok'' PNone qs) (\<lambda>ok.
      and_then (lookup ''database_error'' PNone qs) (\<lambda>why.
      and_then (lookup ''pending_history'' PNone qs) (\<lambda>held.
      Inr (lines
        ([''manager: '' @ show_it manager @ ''   engine: '' @ show_it engine @ ''   '' @
            ''queue: '' @ show_it queued @ '' item(s)   history: '' @ show_it past,
          ''running: '' @ show_it (py_or (dget ''running_item_uid'' reply) (PStr ''-'')) @ ''   autostart: '' @ show_it autostart @
            ''   stop pending: '' @ show_it stopping] @
         experiment_line @ error_part @
         (if ok = PBool False then [''DATABASE UNAVAILABLE: '' @ show_it why @ '' ('' @ show_it held @ '' pending)''] else [])))))))))))))))))"

definition queue_line :: "printing \<Rightarrow> pyval \<Rightarrow> exn + string" where
  "queue_line pn it =
     and_then (need ''item_uid'' it) (\<lambda>uid.
     and_then (first_eight uid) (\<lambda>uid.
     and_then (need ''name'' it) (\<lambda>name.
     and_then (item_args pn it) (\<lambda>args.
     Inr (uid @ ''  '' @ say pn name @ ''('' @ args @ '')'')))))"

text \<open>\<open>f"{s:8s}"\<close>; \<open>len(xs)\<close>.\<close>

definition padded :: "nat \<Rightarrow> string \<Rightarrow> string" where
  "padded n s = s @ replicate (n - length s) CHR '' ''"

definition history_line :: "printing \<Rightarrow> pyval \<Rightarrow> exn + string" where
  "history_line pn it =
     and_then (need ''result'' it) (\<lambda>r.
     and_then (lookup ''msg'' PNone r) (\<lambda>msg.
     and_then (if truthy msg then last_line_of msg else Inr []) (\<lambda>msg.
     and_then (lookup ''run_uids'' (PList []) r) (\<lambda>runs.
     and_then (elements runs) (\<lambda>runs.
     and_then (need ''exit_status'' r) (\<lambda>status.
     and_then (need ''name'' it) (\<lambda>name.
     and_then (item_args pn it) (\<lambda>args.
     Inr (padded 8 (say pn status) @ '' '' @ say pn name @ ''('' @ args @ '')  runs='' @ show_nat (length runs) @ ''  '' @ msg)))))))))"

definition listing :: "(printing \<Rightarrow> pyval \<Rightarrow> exn + string) \<Rightarrow> string \<Rightarrow> printing \<Rightarrow> pydict \<Rightarrow> exn + string" where
  "listing line_of nothing pn reply =
     (let its = dget_or ''items'' (PList []) reply in
      if \<not> truthy its then Inr nothing
      else and_then (elements its) (\<lambda>its. and_then (each (line_of pn) its) (\<lambda>ls. Inr (lines ls))))"

definition device_line :: "printing \<Rightarrow> pyval \<times> pyval \<Rightarrow> exn + string" where
  "device_line pn = (\<lambda>(name, v).
     and_then (lookup ''classname'' (PStr []) v) (\<lambda>cls.
     and_then (lookup ''is_movable'' PNone v) (\<lambda>movable.
     and_then (lookup ''is_readable'' PNone v) (\<lambda>readable.
     Inr (padded 24 (say pn name) @ '' '' @ say pn cls @ (if truthy movable then '' movable'' else []) @
        (if truthy readable then '' readable'' else []))))))"

text \<open>\<open>sorted\<close> on the string keys of a JSON object.\<close>

definition sorted_keys :: "printing \<Rightarrow> pydict \<Rightarrow> string list" where
  "sorted_keys pn d = sort (map (say pn \<circ> fst) d)"

definition summarise :: "printing \<Rightarrow> string \<Rightarrow> pydict \<Rightarrow> exn + string" where
  "summarise pn command reply =
     (if \<not> truthy (dget_or ''success'' (PBool True) reply) then Inr (error_line pn reply)
      else if command = ''status'' then status_lines pn reply
      else if command = ''queue'' then listing queue_line ''(queue empty)'' pn reply
      else if command = ''history'' then listing history_line ''(history empty)'' pn reply
      else if command = ''plans'' then
        and_then (pairs (dget_or ''plans_allowed'' (PDict []) reply)) (\<lambda>d. Inr (lines (sorted_keys pn d)))
      else if command = ''devices'' then
        and_then (pairs (dget_or ''devices_allowed'' (PDict []) reply)) (\<lambda>d.
        and_then (each (\<lambda>k. device_line pn (PStr k, dget k d)) (sorted_keys pn d)) (\<lambda>ls. Inr (lines ls)))
      else if command = ''experiment'' then
        and_then (lookup ''experiment'' (PDict []) (dget_or ''qs'' (PDict []) reply)) (\<lambda>e.
        if truthy e then pn_dumps_indented pn e else Inr ''(no experiment synced)'')
      else if is_dict (dget ''item'' reply) then
        Inr (''ok  '' @ say pn (dget_or ''item_uid'' (PStr []) (as_dict (dget ''item'' reply))) @ ''  queue size '' @
          say pn (dget_or ''qsize'' (PStr ''?'') reply))
      else Inr (''ok'' @ (if truthy (dget ''msg'' reply) then ''  '' @ say pn (dget ''msg'' reply) else [])))"

subsection \<open>The whole command\<close>

text \<open>What the process does: it prints and exits with a status, or ends with a traceback.\<close>

datatype cli_end = Exit string nat | Crash exn

fun is_transport_error :: "exn_class \<Rightarrow> bool" where
  "is_transport_error (OtherException n) = (n = ''HTTPError'' \<or> n = ''ConnectError'' \<or> n = ''ReadTimeout'' \<or> n = ''ConnectTimeout'')"
| "is_transport_error c = False"

definition run_command ::
  "(string \<Rightarrow> exn + pyval) \<Rightarrow> printing \<Rightarrow> (http_call \<Rightarrow> exn + pydict) \<Rightarrow> bool \<Rightarrow> string \<Rightarrow> cli_command \<Rightarrow> cli_end" where
  "run_command loads pn transport json url command =
     (case and_then (command_call loads command) (\<lambda>(kind, call). and_then (transport call) (\<lambda>reply. Inr (kind, reply))) of
        Inl e \<Rightarrow> (if is_transport_error (exn_class e)
                 then Exit (''error: cannot reach qs at '' @ url @ '': '' @ pn_text pn (exn_text e)) 1 else Crash e)
      | Inr (kind, reply) \<Rightarrow>
          (case (if json then pn_dumps_indented pn (PDict reply) else summarise pn kind reply) of
             Inl e \<Rightarrow> Crash e
           | Inr text \<Rightarrow> Exit text (if truthy (dget_or ''success'' (PBool True) reply) then 0 else 1)))"

text \<open>
  \<open>_watch\<close> on the replies it polls, each with the time of day as it is printed: what it prints. A
  line break in a summary is followed by nine blanks, the width of the time.
\<close>

definition indent_breaks :: "string \<Rightarrow> string" where
  "indent_breaks s = concat (map (\<lambda>c. if c = newline then c # replicate 9 CHR '' '' else [c]) s)"

definition watch_line :: "string \<Rightarrow> string \<Rightarrow> string" where
  "watch_line stamp line = stamp @ '' '' @ indent_breaks line"

fun watch_polled :: "printing \<Rightarrow> (string \<times> pydict) list \<Rightarrow> string option \<Rightarrow> exn + string list" where
  "watch_polled pn [] prev = Inr []"
| "watch_polled pn ((stamp, reply) # polls) prev =
     and_then (summarise pn ''status'' reply) (\<lambda>line.
     if prev = Some line then watch_polled pn polls prev
     else and_then (watch_polled pn polls (Some line)) (\<lambda>ls. Inr (watch_line stamp line # ls)))"

subsection \<open>Against the server\<close>

text \<open>The routes behind the calls, and the request as it arrives: header names in lower case.\<close>

definition route_of_call :: "http_call \<Rightarrow> route option" where
  "route_of_call call = (case call of
     Get path \<Rightarrow>
       (if path = ''/status'' then Some (ResourceRoute StatusRoute) else if path = ''/plans/allowed'' then Some (ResourceRoute PlansAllowed)
        else if path = ''/devices/allowed'' then Some (ResourceRoute DevicesAllowed) else if path = ''/history/get'' then Some (QueueRoute HistoryGet)
        else if path = ''/queue/get'' then Some (QueueRoute QueueGet) else None)
   | Post path _ \<Rightarrow>
       map_of [(''/history/clear'', QueueRoute HistoryClear), (''/queue/item/add'', QueueRoute ItemAdd),
         (''/queue/item/remove'', QueueRoute ItemRemove), (''/queue/item/move'', QueueRoute ItemMove), (''/queue/clear'', QueueRoute QueueClear),
         (''/queue/start'', QueueRoute QueueStart), (''/queue/stop'', QueueRoute QueueStop), (''/queue/stop/cancel'', QueueRoute QueueStopCancel),
         (''/queue/autostart'', QueueRoute QueueAutostart), (''/re/pause'', EngineRoute RePause), (''/re/resume'', EngineRoute ReResume),
         (''/re/abort'', EngineRoute ReAbort), (''/re/stop'', EngineRoute ReStop), (''/re/halt'', EngineRoute ReHalt)] path)"

definition request_of :: "(pydict \<Rightarrow> string) \<Rightarrow> string \<Rightarrow> http_call \<Rightarrow> request" where
  "request_of encode key call =
     \<lparr>rq_headers = (if key = [] then [] else [(''authorization'', ''ApiKey '' @ key)]), rq_query = [],
      rq_body = (case call of Get _ \<Rightarrow> [] | Post _ body \<Rightarrow> encode body)\<rparr>"

text \<open>The JSON body of a response; FastAPI answers a refusal with its \<open>detail\<close>.\<close>

definition json_body :: "surroundings \<Rightarrow> response \<Rightarrow> exn + pydict" where
  "json_body env r = (case r of
     Reply (PDict d) \<Rightarrow> Inr d
   | Reply v \<Rightarrow> Inl (Exn AttributeError [])
   | Denied h \<Rightarrow> Inr [(PStr ''detail'', PStr (en_pr env (hx_detail h)))]
   | Broken d \<Rightarrow> Inr d
   | Escaping e \<Rightarrow> Inl (Exn (OtherException ''HTTPError'') []))"

definition talk ::
  "'r queue_repository \<Rightarrow> 'd definition_repository \<Rightarrow> outside \<Rightarrow> (pydict \<Rightarrow> string) \<Rightarrow> string \<Rightarrow> ('r, 'd) services \<Rightarrow> http_call \<Rightarrow> exn + pydict" where
  "talk ops defs out encode key s call = (case route_of_call call of
     None \<Rightarrow> Inr [(PStr ''detail'', PStr ''Not Found'')]
   | Some r \<Rightarrow> json_body (ou_env out) (fst (handle_request ops defs out r (request_of encode key call) s)))"

subsection \<open>Properties\<close>

lemma queue_calls_have_routes: "queue_call loads q = Inr (kind, call) \<Longrightarrow> route_of_call call \<noteq> None"
  by (cases q) (auto simp: route_of_call_def and_then_def split: sum.splits option.splits)

lemma re_calls_have_routes: "route_of_call (snd (re_call r)) \<noteq> None"
  by (cases r) (auto simp: route_of_call_def)

lemma commands_have_routes:
  assumes "command_call loads c = Inr (kind, call)"
  shows "route_of_call call \<noteq> None"
proof (cases c)
  case (CQueue q)
  with assms queue_calls_have_routes show ?thesis by auto
next
  case (CRe r)
  with assms re_calls_have_routes [of r] show ?thesis by simp
qed (use assms in \<open>auto simp: route_of_call_def split: if_splits\<close>)

definition changes_something :: "string \<Rightarrow> bool" where
  "changes_something kind \<longleftrightarrow> kind \<notin> {''status'', ''queue'', ''history'', ''plans'', ''devices'', ''experiment''}"

text \<open>
  C40: with a wrong key, or none, the server refuses and changes nothing; but its reply has no field
  \<open>success\<close>, and the client takes that for a success: a command that should have changed something
  prints \<open>ok\<close> and exits with 0, and \<open>qsctl queue get\<close> calls the queue empty.
\<close>

theorem refused_command_reports_ok:
  assumes "SingleKeyAuthenticator k False g = Inr (sv_auth s)" "command_call loads c = Inr (kind, call)"
    and "cr_value (from_headers_and_query (rq_headers (request_of encode key call)) []) \<noteq> k"
  shows "\<exists>r. route_of_call call = Some r \<and> snd (handle_request ops defs out r (request_of encode key call) s) = s \<and>
    (if changes_something kind then run_command loads pn (talk ops defs out encode key s) False url c = Exit ''ok'' 0
     else if kind = ''queue'' then run_command loads pn (talk ops defs out encode key s) False url c = Exit ''(queue empty)'' 0
     else True)"
proof -
  obtain r where r: "route_of_call call = Some r" using commands_have_routes [OF assms(2)] by blast
  have q: "rq_query (request_of encode key call) = []" by (simp add: request_of_def)
  have "required_access r \<noteq> Open" using r by (auto simp: route_of_call_def split: http_call.splits if_splits)
  from wrong_key_denied [OF assms(1) _ this, of "request_of encode key call" ops defs out] assms(3) q
  obtain detail where d: "handle_request ops defs out r (request_of encode key call) s = (Denied \<lparr>hx_status = 401, hx_detail = detail\<rparr>, s)"
    by auto
  then have t: "talk ops defs out encode key s call = Inr [(PStr ''detail'', PStr (en_pr (ou_env out) detail))]"
    by (simp add: talk_def r json_body_def)
  show ?thesis
    using r d t assms(2)
    by (auto simp: run_command_def and_then_def summarise_def changes_something_def dget_or_def dget_def listing_def)
qed

lemma client_key: "\<forall>c \<in> set key. \<not> is_space c \<Longrightarrow> key \<noteq> [] \<Longrightarrow>
  cr_value (from_headers_and_query (rq_headers (request_of encode key call)) []) = key"
proof -
  assume k: "\<forall>c \<in> set key. \<not> is_space c" "key \<noteq> []"
  have p: "partition_at CHR '' '' (''ApiKey '' @ key) = (''ApiKey'', True, key)"
    using partition_at_append [of "CHR '' ''" "''ApiKey''" key] by simp
  have s: "lower (strip ''ApiKey'') = ''apikey''" by code_simp
  show ?thesis
    using k no_space_strip [of key] by (simp add: request_of_def from_headers_and_query_def text_of_def p [simplified] s Let_def)
qed

theorem refused_command_reports_ok_witness:
  "run_command (\<lambda>_. Inr PNone) \<lparr>pn_fmt = (\<lambda>_. []), pn_text = (\<lambda>_. []), pn_dumps = (\<lambda>_. Inr []), pn_dumps_indented = (\<lambda>_. Inr [])\<rparr>
     (talk SqlQueueRepository SqlDeviceDefinitionRepository example_outside (\<lambda>_. []) ''guess'' example_services) False [] (CQueue QStart) =
   Exit ''ok'' 0"
proof -
  have a: "SingleKeyAuthenticator ''key'' False False = Inr (sv_auth example_services)"
    by (simp add: SingleKeyAuthenticator_def example_services_def)
  have "cr_value (from_headers_and_query (rq_headers (request_of (\<lambda>_. []) ''guess'' (Post ''/queue/start'' []))) []) = ''guess''"
    by (rule client_key) (simp_all add: is_space_def)
  then show ?thesis
    using refused_command_reports_ok [OF a, of "\<lambda>_. Inr PNone" "CQueue QStart" "''start''" "Post ''/queue/start'' []" "\<lambda>_. []" "''guess''"
        SqlQueueRepository SqlDeviceDefinitionRepository example_outside]
    by (auto simp: changes_something_def)
qed

text \<open>
  \<open>qsctl watch\<close> prints the summaries it polls, stamped, and leaves out exactly those that are the same as the
  one before.
\<close>

definition summaries :: "printing \<Rightarrow> (string \<times> pydict) list \<Rightarrow> exn + (string \<times> string) list" where
  "summaries pn = each (\<lambda>(stamp, reply). and_then (summarise pn ''status'' reply) (\<lambda>line. Inr (stamp, line)))"

definition changes :: "string option \<Rightarrow> (string \<times> string) list \<Rightarrow> (string \<times> string) list" where
  "changes prev ls = map fst (filter (\<lambda>((_, line), before). before \<noteq> Some line) (zip ls (prev # map (Some \<circ> snd) ls)))"

lemma watch_from:
  "watch_polled pn polls prev =
     and_then (summaries pn polls) (\<lambda>ls. Inr (map (\<lambda>(stamp, line). watch_line stamp line) (changes prev ls)))"
proof (induction polls arbitrary: prev)
  case (Cons p ps)
  obtain stamp r where p: "p = (stamp, r)" by force
  have c: "changes prev ((stamp, l) # ls) = (if prev = Some l then changes prev ls else (stamp, l) # changes (Some l) ls)" for l ls
    by (simp add: changes_def)
  show ?case
    by (cases "summarise pn ''status'' r"; cases "summaries pn ps") (auto simp: p summaries_def and_then_def Cons.IH c)
qed (simp add: and_then_def summaries_def changes_def)

theorem watch_prints_changes:
  "watch_polled pn polls None =
     and_then (summaries pn polls) (\<lambda>ls. Inr (map (\<lambda>(stamp, line). watch_line stamp line) (changes None ls)))"
  by (rule watch_from)

end
