(* ===== verification/EndToEnd.thy ===== *)
theory EndToEnd
  imports Qsctl RouteFaults
begin

section \<open>From the command line to the queue\<close>

text \<open>
  \<open>qsctl queue add\<close> against the modelled server: what the operator types becomes a call, the call a request, the
  request an item in the database, the answer a line on the terminal and an exit status. That the server's
  decoder reads what the client's encoder wrote is a hypothesis.
\<close>

lemma client_allowed:
  assumes "SingleKeyAuthenticator k False g = Inr (sv_auth s)" "k \<noteq> []" "is_ascii k" "\<forall>c \<in> set k. \<not> is_space c"
    and "scope \<in> set ALL_SCOPES"
  shows "require_scope scope (sv_auth s) (request_of encode k call) = Inr (new_principal ''single_user'')"
proof -
  have "rq_query (request_of encode k call) = []" by (simp add: request_of_def)
  with access_iff_key [OF assms(1,5), of "request_of encode k call"] client_key [OF assms(4,2), of encode call] assms(2,3)
  show ?thesis by (simp add: Let_def)
qed

lemma add_request_payload:
  assumes "en_loads env (encode body) = Inr (PDict body)" "encode body \<noteq> []"
  shows "read_payload (en_loads env) (request_of encode k (Post path body)) = Inr (dict_update [] body)"
  using assms by (simp add: read_payload_def request_of_def)

text \<open>The position as typed, if any.\<close>

definition typed_position :: "string option \<Rightarrow> exn + pyval" where
  "typed_position pos = (case pos of None \<Rightarrow> Inr PNone | Some p \<Rightarrow> position_value p)"

lemma add_call:
  assumes "json_or loads (PList []) args = Inr a" "json_or loads (PDict []) kwargs = Inr b" "typed_position pos = Inr v"
  shows "\<exists>body. queue_call loads (QAdd plan args kwargs pos) = Inr (''add'', Post ''/queue/item/add'' body) \<and>
    dget ''item'' body = PDict [(PStr ''item_type'', PStr ''plan''), (PStr ''name'', PStr plan), (PStr ''args'', a), (PStr ''kwargs'', b)] \<and>
    dget ''pos'' body = v \<and> dget ''before_uid'' body = PNone \<and> dget ''after_uid'' body = PNone \<and> distinct (map fst body)"
  using assms
  by (cases pos) (auto simp: and_then_def add_body_def dget_def typed_position_def)

definition typed_item :: "surroundings \<Rightarrow> string \<Rightarrow> pyval list \<Rightarrow> pydict \<Rightarrow> queue_item" where
  "typed_item env plan xs ks = \<lparr>item_name = plan, item_type = ''plan'', item_args = xs, item_kwargs = ks, item_meta = [],
     item_uid = fst (en_fresh env 0), item_user = ''single_user'', item_user_group = ''primary'', item_created_at = snd (en_fresh env 0)\<rparr>"

lemma typed_item_read:
  assumes "dget ''item'' payload = PDict [(PStr ''item_type'', PStr ''plan''), (PStr ''name'', PStr plan), (PStr ''args'', PList xs),
      (PStr ''kwargs'', PDict ks)]" "fst (en_fresh env 0) \<noteq> []"
  shows "item_from_payload env payload (new_principal ''single_user'') = Inr (typed_item env plan xs ks)"
  unfolding item_from_payload_def assms(1) Let_def using assms(2)
  by (cases xs; cases ks)
    (simp_all add: dhas_def item_from_dict_def dget_def dget_or_def py_or_def typed_item_def new_principal_def)

lemma add_exits:
  assumes "reply = (case target of
      Inr (i :: nat) \<Rightarrow> ok_body [] [(PStr ''qsize'', num n), (PStr ''item'', item_val it)]
    | Inl e \<Rightarrow> fail_body (text e) None [(PStr ''qsize'', num m), (PStr ''item'', v)])"
  shows "case target of
      Inr i \<Rightarrow> summarise pn ''add'' reply = Inr (''ok  '' @ item_uid it @ ''  queue size '' @ show_nat n) \<and>
        truthy (dget_or ''success'' (PBool True) reply)
    | Inl e \<Rightarrow> summarise pn ''add'' reply = Inr (error_line pn reply) \<and> \<not> truthy (dget_or ''success'' (PBool True) reply)"
proof -
  have ok: "dget_or ''success'' (PBool True) (ok_body [] x) = PBool True" if "map_of x (PStr ''success'') = None" "distinct (map fst x)" for x
    using that by (simp add: dget_or_def ok_body_def map_of_dict_update map_add_def split: option.split)
  have bad: "dget_or ''success'' (PBool True) (fail_body t None x) = PBool False"
    if "map_of x (PStr ''success'') = None" "distinct (map fst x)" for t x
    using that by (simp add: dget_or_def fail_body_def Let_def map_of_dict_update map_add_def split: option.split)
  have q: "dget_or ''qsize'' (PStr ''?'') (ok_body [] [(PStr ''qsize'', x), (PStr ''item'', y)]) = x" for x y
    by (simp add: dget_or_def ok_body_def map_of_dict_update map_add_def)
  have u: "dget_or ''item_uid'' (PStr []) (item_to_dict it) = PStr (item_uid it)"
    by (simp add: dget_or_def item_to_dict_def)
  show ?thesis
    by (cases target)
      (simp_all add: assms summarise_def ok bad q u dget_ok item_val_def say_def num_def show_int_def)
qed

text \<open>
  C11: an operator types \<open>qsctl queue add\<close> with the key of the server. If the plan and its arguments fit the
  registry and the position makes sense, the item is in the database at that position, under the operator's name and a fresh
  uid, and the terminal shows the uid and the new size of the queue, status 0; otherwise an error line, status 1, and
  the queue as before.
\<close>

theorem qsctl_add_reaches_queue:
  assumes "sql_ready (queue_service_of s)" "fst (en_fresh (ou_env out) 0) \<noteq> []"
    and "\<forall>i. fst (en_fresh (ou_env out) i) \<notin> set (uids (sql_queue (queue_service_of s)))"
    and "SingleKeyAuthenticator k False g = Inr (sv_auth s)" "k \<noteq> []" "is_ascii k" "\<forall>c \<in> set k. \<not> is_space c"
    and "json_or loads (PList []) args = Inr (PList xs)" "json_or loads (PDict []) kwargs = Inr (PDict ks)"
    and "typed_position pos = Inr v"
    and "command_call loads (CQueue (QAdd plan args kwargs pos)) = Inr (kind, Post path body)"
    and "en_loads (ou_env out) (encode body) = Inr (PDict body)" "encode body \<noteq> []"
  shows "let q = sql_queue (queue_service_of s); it = typed_item (ou_env out) plan xs ks;
      s' = snd (handle_request SqlQueueRepository defs out (QueueRoute ItemAdd) (request_of encode k (Post path body)) s);
      ends = run_command loads pn (talk SqlQueueRepository defs out encode k s) False url (CQueue (QAdd plan args kwargs pos));
      target = (case validate (sv_registry s) it of Inl e \<Rightarrow> Inl e | Inr _ \<Rightarrow> spec_position q v PNone PNone)
    in case target of
      Inr i \<Rightarrow> ends = Exit (''ok  '' @ item_uid it @ ''  queue size '' @ show_nat (length q + 1)) 0 \<and>
        sql_queue (queue_service_of s') = insert_at i it q
    | Inl e \<Rightarrow> (\<exists>why. ends = Exit (''error: '' @ why) 1) \<and> sql_queue (queue_service_of s') = q"
proof -
  let ?env = "ou_env out" and ?q = "sql_queue (queue_service_of s)" and ?rq = "request_of encode k (Post path body)"
  let ?it = "typed_item ?env plan xs ks"
  obtain body' where "queue_call loads (QAdd plan args kwargs pos) = Inr (''add'', Post ''/queue/item/add'' body')"
    "dget ''item'' body' = PDict [(PStr ''item_type'', PStr ''plan''), (PStr ''name'', PStr plan), (PStr ''args'', PList xs), (PStr ''kwargs'', PDict ks)]"
    "dget ''pos'' body' = v" "dget ''before_uid'' body' = PNone" "dget ''after_uid'' body' = PNone" "distinct (map fst body')"
    using add_call [OF assms(8,9,10)] by blast
  with assms(11) have b: "kind = ''add''" "path = ''/queue/item/add''" "distinct (map fst body)"
    "dget ''item'' body = PDict [(PStr ''item_type'', PStr ''plan''), (PStr ''name'', PStr plan), (PStr ''args'', PList xs), (PStr ''kwargs'', PDict ks)]"
    "dget ''pos'' body = v" "dget ''before_uid'' body = PNone" "dget ''after_uid'' body = PNone" by simp_all
  let ?payload = "dict_update [] body"
  have pay: "read_payload (en_loads ?env) ?rq = Inr ?payload" by (rule add_request_payload [of ?env encode body, OF assms(12,13)])
  have get: "dget x ?payload = dget x body" for x by (rule dget_dict_update [OF b(3)])
  have item: "item_from_payload ?env ?payload (new_principal ''single_user'') = Inr ?it"
    by (rule typed_item_read [OF _ assms(2)]) (simp add: get b(4))
  have new: "added_item (en_fresh ?env 1) ?it ?q = ?it"
    using assms(3) by (simp add: added_item_def typed_item_def del: set_map)
  define target where "target = (case validate (sv_registry s) ?it of Inl e \<Rightarrow> Inl e | Inr _ \<Rightarrow> spec_position ?q v PNone PNone)"
  have fresh1: "fst (en_fresh ?env 1) \<notin> set (uids ?q)" using assms(3) by blast
  have tgt: "add_target (sv_registry s) ?it ?payload ?q = target"
    unfolding add_target_def target_def get b(5-7) by (rule refl)
  define reply where "reply = (case target of
       Inr i \<Rightarrow> ok_body [] [(PStr ''qsize'', num (length ?q + 1)), (PStr ''item'', item_val ?it)]
     | Inl e \<Rightarrow> fail_body (text_of_exn ?env e) None [(PStr ''qsize'', num (length ?q)), (PStr ''item'', dget_or ''item'' (PDict []) ?payload)])"
  obtain s' where out: "item_add SqlQueueRepository ?env ?rq (new_principal ''single_user'') s = (Inr reply, s')"
    "sql_queue (queue_service_of s') = (case target of Inr i \<Rightarrow> insert_at i ?it ?q | Inl e \<Rightarrow> ?q)"
    using item_add_outcome [OF assms(1) fresh1 pay item] unfolding tgt new reply_def by blast
  have "require_scope ''write:queue'' (sv_auth s) ?rq = Inr (new_principal ''single_user'')"
    by (rule client_allowed [OF assms(4,5,6,7)]) (simp add: ALL_SCOPES_def)
  then have h: "handle_request SqlQueueRepository defs out (QueueRoute ItemAdd) ?rq s = (Reply (PDict reply), s')"
    by (simp add: handle_request_def serve_def with_dict_def answer_def act_simps out(1))
  have t: "talk SqlQueueRepository defs out encode k s (Post path body) = Inr reply"
    using h by (simp add: talk_def route_of_call_def b(2) json_body_def)
  have "run_command loads pn (talk SqlQueueRepository defs out encode k s) False url (CQueue (QAdd plan args kwargs pos)) =
      (case summarise pn ''add'' reply of Inl e \<Rightarrow> Crash e
       | Inr text \<Rightarrow> Exit text (if truthy (dget_or ''success'' (PBool True) reply) then 0 else 1))"
    using assms(11) t b(1) by (simp add: run_command_def and_then_def)
  with add_exits [OF reply_def, of pn] h out(2) show ?thesis
    unfolding Let_def target_def [symmetric] by (cases target) (simp_all add: error_line_def)
qed

theorem qsctl_add_reaches_queue_witness:
  "\<exists>body. command_call (\<lambda>_. Inr (PList [PList [PStr ''det'']])) (CQueue (QAdd ''count'' (Some ''[[det]]'') None (Some ''front''))) =
       Inr (''add'', Post ''/queue/item/add'' body) \<and>
     run_command (\<lambda>_. Inr (PList [PList [PStr ''det'']]))
       \<lparr>pn_fmt = (\<lambda>_. []), pn_text = (\<lambda>_. []), pn_dumps = (\<lambda>_. Inr []), pn_dumps_indented = (\<lambda>_. Inr [])\<rparr>
       (talk SqlQueueRepository SqlDeviceDefinitionRepository (example_outside\<lparr>ou_env := decoding body\<rparr>) (\<lambda>_. ''B'') ''key'' example_services)
       False [] (CQueue (QAdd ''count'' (Some ''[[det]]'') None (Some ''front''))) =
     Exit (''ok  '' @ fst (en_fresh example_surroundings 0) @ ''  queue size 3'') 0"
proof -
  let ?loads = "\<lambda>_ :: string. (Inr (PList [PList [PStr ''det'']]) :: exn + pyval)"
  let ?body = "add_body ''count'' (PList [PList [PStr ''det'']]) (PDict []) @ [(PStr ''pos'', PStr ''front'')]"
  let ?out = "example_outside\<lparr>ou_env := decoding ?body\<rparr>"
  have c: "command_call ?loads (CQueue (QAdd ''count'' (Some ''[[det]]'') None (Some ''front''))) = Inr (''add'', Post ''/queue/item/add'' ?body)"
    by (simp add: json_or_def and_then_def position_value_def is_digits_def)
  have f: "fst (en_fresh (ou_env ?out) 0) \<noteq> []"
    "\<forall>i. fst (en_fresh (ou_env ?out) i) \<notin> set (uids (sql_queue (queue_service_of example_services)))"
    by (auto simp: decoding_def example_surroundings_def)
  have a: "SingleKeyAuthenticator ''key'' False False = Inr (sv_auth example_services)"
    by (simp add: SingleKeyAuthenticator_def example_services_def)
  have k: "is_ascii ''key''" "\<forall>c \<in> set ''key''. \<not> is_space c" by (simp_all add: is_ascii_def is_space_def)
  have j: "json_or ?loads (PList []) (Some ''[[det]]'') = Inr (PList [PList [PStr ''det'']])"
    "json_or ?loads (PDict []) None = Inr (PDict [])" "typed_position (Some ''front'') = Inr (PStr ''front'')"
    by (simp_all add: json_or_def typed_position_def position_value_def is_digits_def)
  have l: "en_loads (ou_env ?out) ((\<lambda>_. ''B'') ?body) = Inr (PDict ?body)" "(\<lambda>_. ''B'') ?body \<noteq> []" by (simp_all add: decoding_def)
  have v: "validate (sv_registry example_services) (typed_item (ou_env ?out) ''count'' [PList [PStr ''det'']] []) = Inr ()"
    by (simp add: validate_def typed_item_def get_plan_def example_services_def example_registry_def check_parameters_def bind_item_def
        bind_call_def Let_def)
  have p: "spec_position (sql_queue (queue_service_of example_services)) (PStr ''front'') PNone PNone = Inr 0" by (simp add: spec_position_def)
  have u: "item_uid (typed_item (ou_env ?out) ''count'' [PList [PStr ''det'']] []) = fst (en_fresh example_surroundings 0)"
    by (simp add: typed_item_def decoding_def)
  have n: "length (sql_queue (queue_service_of example_services)) = 2" "show_nat (2 + 1) = ''3''" by (simp, code_simp)
  from qsctl_add_reaches_queue [OF _ f a _ k j c l, of SqlDeviceDefinitionRepository
      "\<lparr>pn_fmt = (\<lambda>_. []), pn_text = (\<lambda>_. []), pn_dumps = (\<lambda>_. Inr []), pn_dumps_indented = (\<lambda>_. Inr [])\<rparr>" "[]"]
  have "run_command ?loads \<lparr>pn_fmt = (\<lambda>_. []), pn_text = (\<lambda>_. []), pn_dumps = (\<lambda>_. Inr []), pn_dumps_indented = (\<lambda>_. Inr [])\<rparr>
       (talk SqlQueueRepository SqlDeviceDefinitionRepository ?out (\<lambda>_. ''B'') ''key'' example_services)
       False [] (CQueue (QAdd ''count'' (Some ''[[det]]'') None (Some ''front''))) =
     Exit (''ok  '' @ fst (en_fresh example_surroundings 0) @ ''  queue size 3'') 0"
    unfolding Let_def v p u n by simp
  with c show ?thesis by blast
qed

end
