(* ===== verification/Dispatch.thy ===== *)
theory Dispatch
  imports Qsctl
begin

section \<open>From the path of a request to its route (\<open>api/app.py\<close> and the decorators of \<open>api/routers\<close>)\<close>

text \<open>
  The application declares its routes router by router, in the order of the decorators. Which route a
  request takes is the framework's choice, a parameter here; what the program relies on is what FastAPI
  documents: the paths are tried in the order of their declaration, the first that matches method and path is
  taken, and a parameter in braces stands for one part of the path, which is not empty. The redirect of a path that
  only lacks a slash at its end, and the framework's own pages, are left out; the websockets are in \<open>Websockets\<close>.
\<close>

datatype http_method = GET | POST | PUT | DELETE

datatype endpoint = Plain route | StreamConsole | SmokePage

datatype segment = Fixed string | Parameter

type_synonym decorated = "http_method \<times> string \<times> (string list \<Rightarrow> endpoint)"

type_synonym table_entry = "http_method \<times> segment list \<times> (string list \<Rightarrow> endpoint)"

fun segments :: "string \<Rightarrow> string \<Rightarrow> string list" where
  "segments acc [] = [acc]"
| "segments acc (c # cs) = (if c = CHR ''/'' then acc # segments [] cs else segments (acc @ [c]) cs)"

definition template :: "string \<Rightarrow> segment list" where
  "template path = map (\<lambda>s. if take 1 s = ''{'' then Parameter else Fixed s) (segments [] path)"

fun matches :: "segment list \<Rightarrow> string list \<Rightarrow> string list option" where
  "matches [] [] = Some []"
| "matches (Fixed t # ts) (s # ss) = (if t = s then matches ts ss else None)"
| "matches (Parameter # ts) (s # ss) = (if s = [] then None else map_option (\<lambda>ps. s # ps) (matches ts ss))"
| "matches _ _ = None"

datatype routing = Found endpoint | WrongMethod | NoSuchPath

fun find_route :: "table_entry list \<Rightarrow> http_method \<Rightarrow> string list \<Rightarrow> endpoint option" where
  "find_route [] m ss = None"
| "find_route ((m', ts, f) # table) m ss =
     (case (if m' = m then matches ts ss else None) of
        Some ps \<Rightarrow> Some (f ps) | None \<Rightarrow> find_route table m ss)"

type_synonym routing_choice = "table_entry list \<Rightarrow> http_method \<Rightarrow> string \<Rightarrow> routing"

definition documented_routing :: "routing_choice \<Rightarrow> bool" where
  "documented_routing rt \<longleftrightarrow>
     (\<forall>table m path e. rt table m path = Found e \<longleftrightarrow> find_route table m (segments [] path) = Some e)"

text \<open>A framework of this kind: it answers 405 where only the method is wrong, and 404 else.\<close>

definition dispatch :: routing_choice where
  "dispatch table m path =
     (let ss = segments [] path in
      case find_route table m ss of
        Some e \<Rightarrow> Found e
      | None \<Rightarrow> if list_ex (\<lambda>(m', ts, f). matches ts ss \<noteq> None) table then WrongMethod else NoSuchPath)"

lemma dispatch_documented: "documented_routing dispatch"
  by (auto simp: documented_routing_def dispatch_def Let_def split: option.splits)

lemma found_by: "documented_routing rt \<Longrightarrow> rt table m path = Found e \<longleftrightarrow> find_route table m (segments [] path) = Some e"
  by (simp add: documented_routing_def)

subsection \<open>The table\<close>

abbreviation to :: "route \<Rightarrow> string list \<Rightarrow> endpoint" where
  "to r \<equiv> (\<lambda>_. Plain r)"

definition status_table :: "decorated list" where
  "status_table =
     [(GET, ''/ping'', to (ResourceRoute Ping)), (GET, ''/'', to (ResourceRoute Ping)),
      (GET, ''/status'', to (ResourceRoute StatusRoute)), (GET, ''/config/get'', to (ResourceRoute ConfigGet))]"

definition queue_table :: "decorated list" where
  "queue_table =
     [(GET, ''/queue/get'', to (QueueRoute QueueGet)),
      (GET, ''/queue/item/get'', to (QueueRoute ItemGet)),
      (GET, ''/queue/item/{item_uid}'', \<lambda>ps. Plain (QueueRoute (ItemGetByPath (hd ps)))),
      (POST, ''/queue/item/add'', to (QueueRoute ItemAdd)),
      (POST, ''/queue/item/add/batch'', to (QueueRoute ItemAddBatch)),
      (POST, ''/queue/item/update'', to (QueueRoute ItemUpdate)),
      (POST, ''/queue/item/move'', to (QueueRoute ItemMove)),
      (POST, ''/queue/item/move/batch'', to (QueueRoute ItemMoveBatch)),
      (POST, ''/queue/item/remove'', to (QueueRoute ItemRemove)),
      (POST, ''/queue/item/remove/batch'', to (QueueRoute ItemRemoveBatch)),
      (POST, ''/queue/item/execute'', to (QueueRoute ItemExecute)),
      (POST, ''/queue/clear'', to (QueueRoute QueueClear)),
      (POST, ''/queue/start'', to (QueueRoute QueueStart)),
      (POST, ''/queue/stop'', to (QueueRoute QueueStop)),
      (POST, ''/queue/stop/cancel'', to (QueueRoute QueueStopCancel)),
      (POST, ''/queue/autostart'', to (QueueRoute QueueAutostart)),
      (POST, ''/queue/mode/set'', to (QueueRoute QueueModeSet)),
      (POST, ''/queue/upload/spreadsheet'', to (QueueRoute QueueUpload)),
      (GET, ''/history/get'', to (QueueRoute HistoryGet)),
      (POST, ''/history/clear'', to (QueueRoute HistoryClear))]"

definition engine_table :: "decorated list" where
  "engine_table =
     [(POST, ''/re/pause'', to (EngineRoute RePause)), (POST, ''/re/resume'', to (EngineRoute ReResume)),
      (POST, ''/re/abort'', to (EngineRoute ReAbort)), (POST, ''/re/stop'', to (EngineRoute ReStop)),
      (POST, ''/re/halt'', to (EngineRoute ReHalt)), (GET, ''/re/metadata'', to (EngineRoute ReMetadata)),
      (POST, ''/re/runs'', to (EngineRoute ReRuns)), (GET, ''/re/runs/active'', to (EngineRoute ReRunsActive)),
      (GET, ''/re/runs/open'', to (EngineRoute ReRunsOpen)), (GET, ''/re/runs/closed'', to (EngineRoute ReRunsClosed)),
      (POST, ''/environment/open'', to (EngineRoute EnvironmentOpen)),
      (POST, ''/environment/destroy'', to (EngineRoute EnvironmentClose)),
      (POST, ''/environment/close'', to (EngineRoute EnvironmentClose)),
      (POST, ''/environment/update'', to (EngineRoute EnvironmentUpdate))]"

definition resources_table :: "decorated list" where
  "resources_table =
     [(GET, ''/plans/allowed'', to (ResourceRoute PlansAllowed)), (GET, ''/plans/existing'', to (ResourceRoute PlansExisting)),
      (GET, ''/devices/allowed'', to (ResourceRoute DevicesAllowed)), (GET, ''/devices/existing'', to (ResourceRoute DevicesExisting)),
      (GET, ''/permissions/get'', to (ResourceRoute PermissionsGet)), (POST, ''/permissions/set'', to (ResourceRoute PermissionsSet)),
      (POST, ''/permissions/reload'', to (ResourceRoute PermissionsReload))]"

definition misc_table :: "decorated list" where
  "misc_table =
     [(GET, ''/task/status'', to (MiscRoute TaskStatus)), (GET, ''/task/result'', to (MiscRoute TaskResult)),
      (POST, ''/lock'', to (MiscRoute LockRoute)), (GET, ''/lock/info'', to (MiscRoute LockInfo)),
      (POST, ''/unlock'', to (MiscRoute UnlockRoute)), (POST, ''/function/execute'', to (MiscRoute FunctionExecute)),
      (POST, ''/script/upload'', to (MiscRoute ScriptUpload)), (GET, ''/console_output'', to (MiscRoute ConsoleOutput)),
      (GET, ''/console_output/uid'', to (MiscRoute ConsoleOutputUid)),
      (GET, ''/console_output_update'', to (MiscRoute ConsoleOutputUpdate)),
      (GET, ''/stream_console_output'', \<lambda>_. StreamConsole),
      (POST, ''/manager/stop'', to (MiscRoute ManagerStop)), (POST, ''/kernel/interrupt'', to (MiscRoute KernelInterrupt)),
      (POST, ''/test/manager/kill'', to (MiscRoute ManagerKill)), (GET, ''/test/server/sleep'', to (MiscRoute ServerSleep))]"

definition auth_table :: "decorated list" where
  "auth_table =
     [(GET, ''/auth/whoami'', to (AuthRoute Whoami)), (GET, ''/auth/scopes'', to (AuthRoute AuthScopes)),
      (POST, ''/auth/apikey'', to (AuthRoute ApikeyCreate)), (GET, ''/auth/apikey'', to (AuthRoute ApikeyGet)),
      (DELETE, ''/auth/apikey'', to (AuthRoute ApikeyDelete)), (POST, ''/auth/logout'', to (AuthRoute Logout)),
      (GET, ''/auth/principal'', to (AuthRoute PrincipalList)),
      (GET, ''/auth/principal/{uuid}'', \<lambda>ps. Plain (AuthRoute (PrincipalGet (hd ps)))),
      (POST, ''/auth/principal/{uuid}/apikey'', \<lambda>ps. Plain (AuthRoute (PrincipalApikey (hd ps)))),
      (POST, ''/auth/session/refresh'', to (AuthRoute SessionRefresh)),
      (DELETE, ''/auth/session/revoke/{session_id}'', \<lambda>ps. Plain (AuthRoute (SessionRevoke (hd ps))))]"

definition devices_table :: "decorated list" where
  "devices_table =
     [(GET, ''/qs/devices'', to (DeviceRoute ListDevices)), (POST, ''/qs/devices'', to (DeviceRoute CreateDevice)),
      (GET, ''/qs/devices/{name}'', \<lambda>ps. Plain (DeviceRoute (GetDevice (hd ps)))),
      (PUT, ''/qs/devices/{name}'', \<lambda>ps. Plain (DeviceRoute (UpdateDevice (hd ps)))),
      (DELETE, ''/qs/devices/{name}'', \<lambda>ps. Plain (DeviceRoute (DeleteDevice (hd ps)))),
      (POST, ''/qs/devices/{name}/instantiate'', \<lambda>ps. Plain (DeviceRoute (InstantiateDevice (hd ps)))),
      (POST, ''/qs/devices/{name}/remove'', \<lambda>ps. Plain (DeviceRoute (RemoveDeviceInstance (hd ps))))]"

text \<open>\<open>include_router\<close> puts the prefix before every path and compiles the template.\<close>

definition include_router :: "string \<Rightarrow> decorated list \<Rightarrow> table_entry list" where
  "include_router start router = map (\<lambda>(m, path, f). (m, template (start @ path), f)) router"

definition app_table :: "bool \<Rightarrow> table_entry list" where
  "app_table smoke_page =
     concat (map (include_router ''/api'')
       [status_table, queue_table, engine_table, resources_table, misc_table, auth_table, devices_table]) @
     (if smoke_page then include_router [] [(GET, ''/'', \<lambda>_. SmokePage)] else [])"

subsection \<open>The table compiled\<close>

lemma segments_acc: "segments acc s = (acc @ hd (segments [] s)) # tl (segments [] s)"
proof (induction s arbitrary: acc)
  case (Cons c cs)
  show ?case using Cons [of "acc @ [c]"] Cons [of "[c]"] by simp
qed simp

lemma segments_free: "CHR ''/'' \<notin> set s \<Longrightarrow> segments acc s = [acc @ s]"
  by (induction s arbitrary: acc) auto

lemma segments_slash: "segments acc (s @ CHR ''/'' # s') = segments acc s @ segments [] s'"
  by (induction s arbitrary: acc) auto

lemma segments_no_slash: "\<lbrakk>CHR ''/'' \<notin> set acc; t \<in> set (segments acc s)\<rbrakk> \<Longrightarrow> CHR ''/'' \<notin> set t"
proof (induction s arbitrary: acc)
  case (Cons c cs)
  then show ?case using Cons.IH [of "[]"] Cons.IH [of "acc @ [c]"] by (auto split: if_splits)
qed simp

primrec or_else :: "'a option \<Rightarrow> 'a option \<Rightarrow> 'a option" where
  "or_else None b = b"
| "or_else (Some e) b = Some e"

lemma or_else_Some: "or_else a b = Some e \<longleftrightarrow> a = Some e \<or> a = None \<and> b = Some e"
  by (cases a) auto

lemma find_route_Cons:
  "find_route ((m', ts, f) # table) m ss =
     or_else (if m' = m then map_option f (matches ts ss) else None) (find_route table m ss)"
  by (cases "matches ts ss") auto

lemma find_route_append: "find_route (table @ table') m ss = or_else (find_route table m ss) (find_route table' m ss)"
proof (induction table)
  case (Cons entry table)
  obtain m' ts f where e: "entry = (m', ts, f)" by (cases entry)
  then show ?case
    by (cases "if m' = m then map_option f (matches ts ss) else None")
      (simp_all only: append_Cons find_route_Cons or_else.simps Cons)
qed simp

lemma find_route_in:
  "find_route table m ss = Some e \<Longrightarrow> \<exists>ts f ps. (m, ts, f) \<in> set table \<and> matches ts ss = Some ps \<and> e = f ps"
proof (induction table)
  case (Cons entry table)
  obtain m' ts f where e: "entry = (m', ts, f)" by (cases entry)
  from Cons.prems consider "m' = m" "map_option f (matches ts ss) = Some e" | "find_route table m ss = Some e"
    unfolding e find_route_Cons or_else_Some by (auto split: if_splits)
  then show ?case
  proof cases
    case 1
    then show ?thesis using e by auto
  next
    case 2
    then show ?thesis using Cons.IH by auto
  qed
qed simp

lemma find_in_app:
  "find_route (app_table smoke_page) m ss =
     or_else (find_route (include_router ''/api'' status_table) m ss)
    (or_else (find_route (include_router ''/api'' queue_table) m ss)
    (or_else (find_route (include_router ''/api'' engine_table) m ss)
    (or_else (find_route (include_router ''/api'' resources_table) m ss)
    (or_else (find_route (include_router ''/api'' misc_table) m ss)
    (or_else (find_route (include_router ''/api'' auth_table) m ss)
    (or_else (find_route (include_router ''/api'' devices_table) m ss)
    (find_route (if smoke_page then [(GET, [Fixed [], Fixed []], \<lambda>_. SmokePage)] else []) m ss)))))))"
  by (simp add: app_table_def find_route_append include_router_def [of "[]"] template_def del: find_route.simps)

lemmas compiled_status =
  include_router_def [of "''/api''" status_table, unfolded template_def, simplified status_table_def, simplified, folded status_table_def]

lemmas compiled_queue =
  include_router_def [of "''/api''" queue_table, unfolded template_def, simplified queue_table_def, simplified, folded queue_table_def]

lemmas compiled_engine =
  include_router_def [of "''/api''" engine_table, unfolded template_def, simplified engine_table_def, simplified, folded engine_table_def]

lemmas compiled_resources =
  include_router_def [of "''/api''" resources_table, unfolded template_def, simplified resources_table_def, simplified, folded resources_table_def]

lemmas compiled_misc =
  include_router_def [of "''/api''" misc_table, unfolded template_def, simplified misc_table_def, simplified, folded misc_table_def]

lemmas compiled_auth =
  include_router_def [of "''/api''" auth_table, unfolded template_def, simplified auth_table_def, simplified, folded auth_table_def]

lemmas compiled_devices =
  include_router_def [of "''/api''" devices_table, unfolded template_def, simplified devices_table_def, simplified, folded devices_table_def]

lemmas compiled_table = compiled_status compiled_queue compiled_engine compiled_resources compiled_misc compiled_auth compiled_devices

subsection \<open>Addresses\<close>

text \<open>The address that a client uses for a route.\<close>

primrec queue_address :: "queue_route \<Rightarrow> http_method \<times> string" where
  "queue_address QueueGet = (GET, ''/api/queue/get'')"
| "queue_address ItemGet = (GET, ''/api/queue/item/get'')"
| "queue_address (ItemGetByPath u) = (GET, ''/api/queue/item/'' @ u)"
| "queue_address ItemAdd = (POST, ''/api/queue/item/add'')"
| "queue_address ItemAddBatch = (POST, ''/api/queue/item/add/batch'')"
| "queue_address ItemUpdate = (POST, ''/api/queue/item/update'')"
| "queue_address ItemMove = (POST, ''/api/queue/item/move'')"
| "queue_address ItemMoveBatch = (POST, ''/api/queue/item/move/batch'')"
| "queue_address ItemRemove = (POST, ''/api/queue/item/remove'')"
| "queue_address ItemRemoveBatch = (POST, ''/api/queue/item/remove/batch'')"
| "queue_address ItemExecute = (POST, ''/api/queue/item/execute'')"
| "queue_address QueueClear = (POST, ''/api/queue/clear'')"
| "queue_address QueueStart = (POST, ''/api/queue/start'')"
| "queue_address QueueStop = (POST, ''/api/queue/stop'')"
| "queue_address QueueStopCancel = (POST, ''/api/queue/stop/cancel'')"
| "queue_address QueueAutostart = (POST, ''/api/queue/autostart'')"
| "queue_address QueueModeSet = (POST, ''/api/queue/mode/set'')"
| "queue_address QueueUpload = (POST, ''/api/queue/upload/spreadsheet'')"
| "queue_address HistoryGet = (GET, ''/api/history/get'')"
| "queue_address HistoryClear = (POST, ''/api/history/clear'')"

primrec engine_address :: "engine_route \<Rightarrow> http_method \<times> string" where
  "engine_address RePause = (POST, ''/api/re/pause'')"
| "engine_address ReResume = (POST, ''/api/re/resume'')"
| "engine_address ReAbort = (POST, ''/api/re/abort'')"
| "engine_address ReStop = (POST, ''/api/re/stop'')"
| "engine_address ReHalt = (POST, ''/api/re/halt'')"
| "engine_address ReMetadata = (GET, ''/api/re/metadata'')"
| "engine_address ReRuns = (POST, ''/api/re/runs'')"
| "engine_address ReRunsActive = (GET, ''/api/re/runs/active'')"
| "engine_address ReRunsOpen = (GET, ''/api/re/runs/open'')"
| "engine_address ReRunsClosed = (GET, ''/api/re/runs/closed'')"
| "engine_address EnvironmentOpen = (POST, ''/api/environment/open'')"
| "engine_address EnvironmentClose = (POST, ''/api/environment/close'')"
| "engine_address EnvironmentUpdate = (POST, ''/api/environment/update'')"

primrec resource_address :: "resource_route \<Rightarrow> http_method \<times> string" where
  "resource_address Ping = (GET, ''/api/ping'')"
| "resource_address StatusRoute = (GET, ''/api/status'')"
| "resource_address ConfigGet = (GET, ''/api/config/get'')"
| "resource_address PlansAllowed = (GET, ''/api/plans/allowed'')"
| "resource_address PlansExisting = (GET, ''/api/plans/existing'')"
| "resource_address DevicesAllowed = (GET, ''/api/devices/allowed'')"
| "resource_address DevicesExisting = (GET, ''/api/devices/existing'')"
| "resource_address PermissionsGet = (GET, ''/api/permissions/get'')"
| "resource_address PermissionsSet = (POST, ''/api/permissions/set'')"
| "resource_address PermissionsReload = (POST, ''/api/permissions/reload'')"

primrec misc_address :: "misc_route \<Rightarrow> http_method \<times> string" where
  "misc_address TaskStatus = (GET, ''/api/task/status'')"
| "misc_address TaskResult = (GET, ''/api/task/result'')"
| "misc_address LockRoute = (POST, ''/api/lock'')"
| "misc_address LockInfo = (GET, ''/api/lock/info'')"
| "misc_address UnlockRoute = (POST, ''/api/unlock'')"
| "misc_address FunctionExecute = (POST, ''/api/function/execute'')"
| "misc_address ScriptUpload = (POST, ''/api/script/upload'')"
| "misc_address ConsoleOutput = (GET, ''/api/console_output'')"
| "misc_address ConsoleOutputUid = (GET, ''/api/console_output/uid'')"
| "misc_address ConsoleOutputUpdate = (GET, ''/api/console_output_update'')"
| "misc_address ManagerStop = (POST, ''/api/manager/stop'')"
| "misc_address KernelInterrupt = (POST, ''/api/kernel/interrupt'')"
| "misc_address ManagerKill = (POST, ''/api/test/manager/kill'')"
| "misc_address ServerSleep = (GET, ''/api/test/server/sleep'')"

primrec auth_address :: "auth_route \<Rightarrow> http_method \<times> string" where
  "auth_address Whoami = (GET, ''/api/auth/whoami'')"
| "auth_address AuthScopes = (GET, ''/api/auth/scopes'')"
| "auth_address ApikeyCreate = (POST, ''/api/auth/apikey'')"
| "auth_address ApikeyGet = (GET, ''/api/auth/apikey'')"
| "auth_address ApikeyDelete = (DELETE, ''/api/auth/apikey'')"
| "auth_address Logout = (POST, ''/api/auth/logout'')"
| "auth_address PrincipalList = (GET, ''/api/auth/principal'')"
| "auth_address (PrincipalGet u) = (GET, ''/api/auth/principal/'' @ u)"
| "auth_address (PrincipalApikey u) = (POST, ''/api/auth/principal/'' @ u @ ''/apikey'')"
| "auth_address SessionRefresh = (POST, ''/api/auth/session/refresh'')"
| "auth_address (SessionRevoke u) = (DELETE, ''/api/auth/session/revoke/'' @ u)"

primrec device_address :: "device_route \<Rightarrow> http_method \<times> string" where
  "device_address ListDevices = (GET, ''/api/qs/devices'')"
| "device_address CreateDevice = (POST, ''/api/qs/devices'')"
| "device_address (GetDevice u) = (GET, ''/api/qs/devices/'' @ u)"
| "device_address (UpdateDevice u) = (PUT, ''/api/qs/devices/'' @ u)"
| "device_address (DeleteDevice u) = (DELETE, ''/api/qs/devices/'' @ u)"
| "device_address (InstantiateDevice u) = (POST, ''/api/qs/devices/'' @ u @ ''/instantiate'')"
| "device_address (RemoveDeviceInstance u) = (POST, ''/api/qs/devices/'' @ u @ ''/remove'')"

primrec address :: "route \<Rightarrow> http_method \<times> string" where
  "address (QueueRoute r) = queue_address r"
| "address (EngineRoute r) = engine_address r"
| "address (ResourceRoute r) = resource_address r"
| "address (MiscRoute r) = misc_address r"
| "address (AuthRoute r) = auth_address r"
| "address (DeviceRoute r) = device_address r"

text \<open>The part of the path that a route takes as its parameter.\<close>

definition route_parameter :: "route \<Rightarrow> string option" where
  "route_parameter r = (case r of
     QueueRoute (ItemGetByPath u) \<Rightarrow> Some u
   | AuthRoute (PrincipalGet u) \<Rightarrow> Some u | AuthRoute (PrincipalApikey u) \<Rightarrow> Some u | AuthRoute (SessionRevoke u) \<Rightarrow> Some u
   | DeviceRoute (GetDevice u) \<Rightarrow> Some u | DeviceRoute (UpdateDevice u) \<Rightarrow> Some u | DeviceRoute (DeleteDevice u) \<Rightarrow> Some u
   | DeviceRoute (InstantiateDevice u) \<Rightarrow> Some u | DeviceRoute (RemoveDeviceInstance u) \<Rightarrow> Some u
   | _ \<Rightarrow> None)"

definition addressable :: "route \<Rightarrow> bool" where
  "addressable r \<longleftrightarrow> r \<noteq> QueueRoute (ItemGetByPath ''get'') \<and>
     (case route_parameter r of None \<Rightarrow> True | Some u \<Rightarrow> u \<noteq> [] \<and> CHR ''/'' \<notin> set u)"

lemma segments_part: "CHR ''/'' \<notin> set u \<Longrightarrow> segments acc (u @ CHR ''/'' # s) = (acc @ u) # segments [] s"
  by (simp add: segments_slash segments_free)

lemma queue_addresses:
  assumes "addressable (QueueRoute r)"
  shows "find_route (app_table b) (fst (queue_address r)) (segments [] (snd (queue_address r))) = Some (Plain (QueueRoute r))"
  using assms
  by (cases r) (auto simp: find_in_app compiled_table segments_part segments_free addressable_def route_parameter_def)

lemma engine_addresses:
  assumes "addressable (EngineRoute r)"
  shows "find_route (app_table b) (fst (engine_address r)) (segments [] (snd (engine_address r))) = Some (Plain (EngineRoute r))"
  using assms
  by (cases r) (simp_all add: find_in_app compiled_table segments_part segments_free addressable_def route_parameter_def)

lemma resource_addresses:
  assumes "addressable (ResourceRoute r)"
  shows "find_route (app_table b) (fst (resource_address r)) (segments [] (snd (resource_address r))) = Some (Plain (ResourceRoute r))"
  using assms
  by (cases r) (simp_all add: find_in_app compiled_table segments_part segments_free addressable_def route_parameter_def)

lemma misc_addresses:
  assumes "addressable (MiscRoute r)"
  shows "find_route (app_table b) (fst (misc_address r)) (segments [] (snd (misc_address r))) = Some (Plain (MiscRoute r))"
  using assms
  by (cases r) (simp_all add: find_in_app compiled_table segments_part segments_free addressable_def route_parameter_def)

lemma auth_addresses:
  assumes "addressable (AuthRoute r)"
  shows "find_route (app_table b) (fst (auth_address r)) (segments [] (snd (auth_address r))) = Some (Plain (AuthRoute r))"
  using assms
  by (cases r) (simp_all add: find_in_app compiled_table segments_part segments_free addressable_def route_parameter_def)

lemma device_addresses:
  assumes "addressable (DeviceRoute r)"
  shows "find_route (app_table b) (fst (device_address r)) (segments [] (snd (device_address r))) = Some (Plain (DeviceRoute r))"
  using assms
  by (cases r) (simp_all add: find_in_app compiled_table segments_part segments_free addressable_def route_parameter_def)

lemma matches_Some:
  "matches [] ss = Some ps \<longleftrightarrow> ss = [] \<and> ps = []"
  "matches (Fixed t # ts) ss = Some ps \<longleftrightarrow> (\<exists>ss'. ss = t # ss' \<and> matches ts ss' = Some ps)"
  "matches (Parameter # ts) ss = Some ps \<longleftrightarrow>
     (\<exists>s ss' ps'. ss = s # ss' \<and> s \<noteq> [] \<and> matches ts ss' = Some ps' \<and> ps = s # ps')"
  by (cases ss; auto)+

lemma found_is_addressable:
  assumes "find_route (app_table smoke_page) m ss = Some (Plain r)" "\<forall>s \<in> set ss. CHR ''/'' \<notin> set s"
  shows "addressable r"
proof -
  let ?in = "\<lambda>t. find_route (include_router ''/api'' t) m ss = Some (Plain r)"
  note entries = matches_Some addressable_def route_parameter_def
  have "addressable r" if "?in status_table" using find_route_in [OF that] by (auto simp: compiled_status entries)
  moreover have "addressable r" if q: "?in queue_table"
  proof -
    from q have "r \<noteq> QueueRoute (ItemGetByPath ''get'')"
    proof (rule contrapos_pn)
      assume r: "r = QueueRoute (ItemGetByPath ''get'')"
      from find_route_in [OF q] have "m = GET" "ss = [[], ''api'', ''queue'', ''item'', ''get'']"
        unfolding r by (auto simp: compiled_queue matches_Some)
      then show "\<not> ?in queue_table" unfolding r by (simp add: compiled_queue)
    qed
    then show ?thesis using find_route_in [OF q] assms(2) by (auto simp: compiled_queue entries)
  qed
  moreover have "addressable r" if "?in engine_table" using find_route_in [OF that] by (auto simp: compiled_engine entries)
  moreover have "addressable r" if "?in resources_table" using find_route_in [OF that] by (auto simp: compiled_resources entries)
  moreover have "addressable r" if "?in misc_table" using find_route_in [OF that] by (auto simp: compiled_misc entries)
  moreover have "addressable r" if "?in auth_table" using find_route_in [OF that] assms(2) by (auto simp: compiled_auth entries)
  moreover have "addressable r" if "?in devices_table" using find_route_in [OF that] assms(2) by (auto simp: compiled_devices entries)
  moreover have "find_route (if smoke_page then [(GET, [Fixed [], Fixed []], \<lambda>_. SmokePage)] else []) m ss \<noteq> Some (Plain r)"
    using find_route_in [of _ m ss "Plain r"] by fastforce
  ultimately show ?thesis using assms(1) by (auto simp: find_in_app or_else_Some)
qed

lemma address_is_found:
  assumes "documented_routing rt" "addressable r"
  shows "rt (app_table smoke_page) (fst (address r)) (snd (address r)) = Found (Plain r)"
  using assms(2) unfolding found_by [OF assms(1)]
  by (cases r) (simp_all add: queue_addresses engine_addresses resource_addresses misc_addresses auth_addresses device_addresses)

lemma identifiers_are_addressable:
  assumes "is_identifier n"
  shows "addressable (DeviceRoute (GetDevice n))"
proof -
  have "\<not> identifier_part (CHR ''/'')" by (simp add: identifier_part_def identifier_start_def)
  then have "CHR ''/'' \<notin> set n" using assms
    by (cases n) (auto simp: list_all_iff identifier_part_def)
  then show ?thesis using assms by (cases n) (auto simp: addressable_def route_parameter_def)
qed

text \<open>The client's own routing (\<open>Qsctl\<close>) is that of the application.\<close>

lemma calls_reach_their_routes:
  assumes "documented_routing rt" "route_of_call call = Some r"
  shows "rt (app_table smoke_page) (case call of Get _ \<Rightarrow> GET | Post _ _ \<Rightarrow> POST)
    (''/api'' @ (case call of Get path \<Rightarrow> path | Post path _ \<Rightarrow> path)) = Found (Plain r)"
proof -
  have "addressable r \<and> address r = (case call of Get _ \<Rightarrow> GET | Post _ _ \<Rightarrow> POST,
      ''/api'' @ (case call of Get path \<Rightarrow> path | Post path _ \<Rightarrow> path))"
    using assms(2) by (auto simp: route_of_call_def addressable_def route_parameter_def split: http_call.splits if_splits)
  then show ?thesis using address_is_found [OF assms(1), of r smoke_page] by simp
qed

text \<open>
  C33: c0:
  Under the documented routing the address of a route leads to that very route, with its parameter. The
  exceptions are the routes that no path can name (an empty parameter, one with a slash
  in it, or the item whose identifier is \<open>get\<close>, which an earlier route shadows): no method and
  path whatever leads to them.\<close>

theorem routes_and_their_addresses:
  assumes "documented_routing rt"
  shows "if addressable r then rt (app_table smoke_page) (fst (address r)) (snd (address r)) = Found (Plain r)
   else \<forall>m path. rt (app_table smoke_page) m path \<noteq> Found (Plain r)"
proof (cases "addressable r")
  case False
  have "rt (app_table smoke_page) m path \<noteq> Found (Plain r)" for m path
    using found_is_addressable [of smoke_page m "segments [] path" r] segments_no_slash [of "[]" _ path] False
    by (auto simp: found_by [OF assms])
  then show ?thesis using False by simp
qed (simp add: address_is_found assms)

theorem routes_and_their_addresses_witness:
  "dispatch (app_table True) PUT ''/api/qs/devices/motor'' = Found (Plain (DeviceRoute (UpdateDevice ''motor''))) \<and>
   dispatch (app_table True) GET ''/api/queue/item/get'' \<noteq> Found (Plain (QueueRoute (ItemGetByPath ''get'')))"
  using routes_and_their_addresses [OF dispatch_documented, of "DeviceRoute (UpdateDevice ''motor'')" True]
    routes_and_their_addresses [OF dispatch_documented, of "QueueRoute (ItemGetByPath ''get'')" True]
  by (simp add: addressable_def route_parameter_def)

end
