(* ===== verification/Websockets.thy ===== *)
theory Websockets
  imports StatusProperties Services Streams
begin

section \<open>The three websockets (\<open>api/routers/ws.py\<close>)\<close>

text \<open>
  What a socket does between accepting and closing: authentication on the handshake or by a first message,
  then a loop that sends documents. A turn of a loop is one pass through its body: what the clock and
  the event queue gave it. The turns end when the client's side closes.
\<close>

subsection \<open>Authentication\<close>

text \<open>What \<open>receive_text\<close> does within the ten seconds: a frame, nothing (timeout or disconnect), another exception.\<close>

datatype first_frame = Frame string | NoFrame | BadFrame exn

definition message_credential :: "(pyval \<Rightarrow> string) \<Rightarrow> pydict \<Rightarrow> credential \<Rightarrow> credential" where
  "message_credential fmt data c =
     (if dget ''type'' data \<noteq> PStr ''auth'' then c
      else if truthy (dget ''api_key'' data) then \<lparr>cr_scheme = ''message'', cr_value = py_str fmt (dget ''api_key'' data)\<rparr>
      else if truthy (dget ''access_token'' data) then \<lparr>cr_scheme = ''bearer'', cr_value = py_str fmt (dget ''access_token'' data)\<rparr>
      else c)"

definition socket_credential :: "surroundings \<Rightarrow> request \<Rightarrow> first_frame \<Rightarrow> exn + credential" where
  "socket_credential env rq frame =
     (let c = from_headers_and_query (rq_headers rq) (rq_query rq) in
      if cr_value c \<noteq> [] then Inr c
      else (case frame of
          NoFrame \<Rightarrow> Inr c
        | BadFrame e \<Rightarrow> Inl e
        | Frame raw \<Rightarrow> (case en_loads env raw of
            Inl e \<Rightarrow> (if exn_class e = json_error then Inr c else Inl e)
          | Inr (PDict data) \<Rightarrow> Inr (message_credential (tx_fmt (en_tx env)) data c)
          | Inr _ \<Rightarrow> Inr c)))"

fun is_authentication_error :: "exn_class \<Rightarrow> bool" where
  "is_authentication_error (AuthenticationError n) = True"
| "is_authentication_error c = False"

text \<open>\<open>_authenticate\<close>: \<open>None\<close> when the socket may go on, else the code it is closed with.\<close>

definition authenticate_socket :: "surroundings \<Rightarrow> authenticator \<Rightarrow> request \<Rightarrow> first_frame \<Rightarrow> exn + int option" where
  "authenticate_socket env a rq frame =
     (case socket_credential env rq frame of
        Inl e \<Rightarrow> Inl e
      | Inr c \<Rightarrow> (case authenticate a c of
          Inr _ \<Rightarrow> Inr None
        | Inl e \<Rightarrow> (if is_authentication_error (exn_class e)
                   then Inr (Some (if cr_scheme c = ''bearer'' then 4001 else 4401)) else Inl e)))"

subsection \<open>The loops\<close>

text \<open>The services of the status reporter, and what the socket has sent.\<close>

record 'r socket =
  sk_services :: "'r reporting"
  sk_sent :: "pyval list"

type_synonym ('r, 'a) socket_act = "('r socket, exn, 'a) act"

definition send :: "pyval \<Rightarrow> ('r, unit) socket_act" where
  "send frame = modify (\<lambda>k. k\<lparr>sk_sent := sk_sent k @ [frame]\<rparr>)"

definition ask_status :: "'r queue_repository \<Rightarrow> surroundings \<Rightarrow> ('r, pydict) socket_act" where
  "ask_status ops env = on_part sk_services (\<lambda>s k. k\<lparr>sk_services := s\<rparr>) (snapshot ops env)"

text \<open>\<open>json_safe\<close> of what a dictionary of the program holds; \<open>item\<close> is as in \<open>json_safe\<close>.\<close>

type_synonym item_of = "nat \<Rightarrow> pyval option"

definition safe_doc :: "surroundings \<Rightarrow> item_of \<Rightarrow> pydict \<Rightarrow> pyval" where
  "safe_doc env item d = json_safe (tx_fmt (en_tx env)) item (PDict d)"

text \<open>
  \<open>_status_body\<close>: a document per turn; what the turn waits for, and drains, only decides when the next one
  begins.
\<close>

fun status_body :: "'r queue_repository \<Rightarrow> item_of \<Rightarrow> surroundings list \<Rightarrow> ('r, unit) socket_act" where
  "status_body ops item [] = ret ()"
| "status_body ops item (env # turns) =
     chain (ask_status ops env) (\<lambda>doc.
     chain (send (safe_doc env item doc)) (\<lambda>_.
     status_body ops item turns))"

text \<open>
  A turn of \<open>_info_body\<close>: the clock at its start, with the surroundings of a snapshot; the event it waited
  for, with its time; the clock after an event, with the surroundings of the snapshot made then.
\<close>

record info_turn =
  tn_env :: surroundings
  tn_event :: "(rat \<times> event) option"
  tn_later :: surroundings

definition info_status :: "surroundings \<Rightarrow> item_of \<Rightarrow> rat \<Rightarrow> pydict \<Rightarrow> pyval" where
  "info_status env item now doc = PDict [(PStr ''time'', PFloat now), (PStr ''msg'', PDict [(PStr ''status'', safe_doc env item doc)])]"

definition safe_payload :: "surroundings \<Rightarrow> item_of \<Rightarrow> (string \<times> payload_value) list \<Rightarrow> pyval" where
  "safe_payload env item payload =
     PDict (map (\<lambda>(k, v). (PStr k, json_safe_payload (en_pr env) (tx_fmt (en_tx env)) item v)) payload)"

definition info_progress :: "surroundings \<Rightarrow> item_of \<Rightarrow> rat \<Rightarrow> event \<Rightarrow> pyval" where
  "info_progress env item time ev =
     PDict [(PStr ''time'', PFloat time), (PStr ''msg'', PDict [(PStr ''device_progress'', safe_payload env item (ev_payload ev))])]"

definition send_status :: "'r queue_repository \<Rightarrow> item_of \<Rightarrow> surroundings \<Rightarrow> ('r, unit) socket_act" where
  "send_status ops item env = chain (ask_status ops env) (\<lambda>doc. send (info_status env item (en_now env) doc))"

fun info_body :: "'r queue_repository \<Rightarrow> item_of \<Rightarrow> info_turn list \<Rightarrow> rat \<Rightarrow> ('r, unit) socket_act" where
  "info_body ops item [] last_status = ret ()"
| "info_body ops item (t # turns) last_status =
     (let now = en_now (tn_env t); due = (1 \<le> now - last_status); last_status = (if due then now else last_status) in
      chain (if due then send_status ops item (tn_env t) else ret ()) (\<lambda>_.
      case tn_event t of
        None \<Rightarrow> info_body ops item turns last_status
      | Some (time, ev) \<Rightarrow>
          if ev_kind ev = DEVICE_PROGRESS
          then chain (send (info_progress (tn_env t) item time ev)) (\<lambda>_. info_body ops item turns last_status)
          else chain (send_status ops item (tn_later t)) (\<lambda>_. info_body ops item turns (en_now (tn_later t)))))"

text \<open>\<open>_console_body\<close>: the payload's own time, else that of the event.\<close>

definition payload_get :: "(string \<times> payload_value) list \<Rightarrow> string \<Rightarrow> payload_value \<Rightarrow> payload_value" where
  "payload_get p k v0 = (case map_of p k of None \<Rightarrow> v0 | Some v \<Rightarrow> v)"

definition console_frame :: "surroundings \<Rightarrow> item_of \<Rightarrow> rat \<Rightarrow> event \<Rightarrow> pyval" where
  "console_frame env item time ev =
     PDict [(PStr ''time'', json_safe_payload (en_pr env) (tx_fmt (en_tx env)) item (payload_get (ev_payload ev) ''time'' (PV (PFloat time)))),
            (PStr ''msg'', json_safe_payload (en_pr env) (tx_fmt (en_tx env)) item (payload_get (ev_payload ev) ''msg'' (PV (PStr []))))]"

fun console_body :: "surroundings \<Rightarrow> item_of \<Rightarrow> (rat \<times> event) option list \<Rightarrow> ('r, unit) socket_act" where
  "console_body env item [] = ret ()"
| "console_body env item (None # turns) = console_body env item turns"
| "console_body env item (Some (time, ev) # turns) =
     chain (send (console_frame env item time ev)) (\<lambda>_. console_body env item turns)"

text \<open>The predicates of the three sockets.\<close>

definition status_events :: "event \<Rightarrow> bool" where
  "status_events ev \<longleftrightarrow> ev_kind ev \<in> set STATUS_CHANGE_KINDS"

definition info_events :: "event \<Rightarrow> bool" where
  "info_events ev \<longleftrightarrow> ev_kind ev \<in> set STATUS_CHANGE_KINDS \<union> {DEVICE_PROGRESS}"

definition console_events :: "event \<Rightarrow> bool" where
  "console_events ev \<longleftrightarrow> ev_kind ev = CONSOLE_OUTPUT"

text \<open>\<open>_serve\<close>: how a socket ends. A disconnection and any \<open>RuntimeError\<close> of the body end it quietly.\<close>

datatype socket_end = Refused int | Over | Failed exn

fun ends_quietly :: "exn_class \<Rightarrow> bool" where
  "ends_quietly RuntimeError = True"
| "ends_quietly EngineHostError = True"
| "ends_quietly (SequencerError _) = True"
| "ends_quietly (OtherException n) = (n = ''WebSocketDisconnect'')"
| "ends_quietly c = False"

definition serve_socket ::
  "surroundings \<Rightarrow> authenticator \<Rightarrow> request \<Rightarrow> first_frame \<Rightarrow> ('r, unit) socket_act \<Rightarrow> 'r socket \<Rightarrow> socket_end \<times> 'r socket" where
  "serve_socket env a rq frame body k =
     (case authenticate_socket env a rq frame of
        Inl e \<Rightarrow> (Failed e, k)
      | Inr (Some code) \<Rightarrow> (Refused code, k)
      | Inr None \<Rightarrow> (case body k of
          (Inr _, k) \<Rightarrow> (Over, k)
        | (Inl e, k) \<Rightarrow> (if ends_quietly (exn_class e) then Over else Failed e, k)))"

subsection \<open>Properties\<close>

text \<open>
  C32: a socket opens for the configured key, given on the handshake or in the first message, and for nobody
  else: a wrong credential gets finch's close code, unless it has characters beyond ASCII. Then the
  comparison raises and the socket breaks, where the HTTP routes answer 401.
\<close>

theorem socket_opens_iff_key:
  assumes "SingleKeyAuthenticator k False g = Inr a" "is_ascii k" "socket_credential env rq frame = Inr c"
  shows "case authenticate_socket env a rq frame of
      Inr None \<Rightarrow> cr_value c = k
    | Inr (Some code) \<Rightarrow> cr_value c \<noteq> k \<and> is_ascii (cr_value c) \<and> code = (if cr_scheme c = ''bearer'' then 4001 else 4401)
    | Inl e \<Rightarrow> \<not> is_ascii (cr_value c) \<and> exn_class e = TypeError"
proof -
  have a: "a = \<lparr>au_key = k, au_allow_anonymous = False, au_generated = g\<rparr>" "k \<noteq> []"
    using assms(1) by (auto simp: SingleKeyAuthenticator_def split: if_splits)
  show ?thesis
    using assms(2,3) a(2) unfolding a(1)
    by (cases "cr_value c = k"; cases "is_ascii (cr_value c)")
      (auto simp: authenticate_socket_def authenticate_def compare_digest_def is_ascii_def)
qed

theorem socket_opens_iff_key_witness:
  "authenticate_socket example_surroundings \<lparr>au_key = ''key'', au_allow_anonymous = False, au_generated = False\<rparr>
     \<lparr>rq_headers = [], rq_query = [(''api_key'', ''no'')], rq_body = []\<rparr> NoFrame = Inr (Some 4401)"
proof -
  let ?rq = "\<lparr>rq_headers = [], rq_query = [(''api_key'', ''no'')], rq_body = []\<rparr>"
  have k: "SingleKeyAuthenticator ''key'' False False = Inr \<lparr>au_key = ''key'', au_allow_anonymous = False, au_generated = False\<rparr>"
    by (simp add: SingleKeyAuthenticator_def)
  have c: "socket_credential example_surroundings ?rq NoFrame = Inr \<lparr>cr_scheme = ''query'', cr_value = ''no''\<rparr>"
    by (simp add: socket_credential_def from_headers_and_query_def text_of_def partition_at_def Let_def strip_def lower_def)
  show ?thesis
    using socket_opens_iff_key [OF k _ c] by (auto simp: is_ascii_def split: sum.splits option.splits)
qed

text \<open>What a run of the info socket sends of an event: the event itself, if it is progress.\<close>

fun progress_frames :: "item_of \<Rightarrow> info_turn list \<Rightarrow> pyval list" where
  "progress_frames item [] = []"
| "progress_frames item (t # turns) =
     (case tn_event t of
        Some (time, ev) \<Rightarrow> (if ev_kind ev = DEVICE_PROGRESS then [info_progress (tn_env t) item time ev] else [])
      | None \<Rightarrow> []) @ progress_frames item turns"

definition is_progress_frame :: "pyval \<Rightarrow> bool" where
  "is_progress_frame f \<longleftrightarrow> dhas ''device_progress'' (as_dict (dget ''msg'' (as_dict f)))"

lemma frame_kinds [simp]:
  "is_progress_frame (info_progress env item t ev)" "\<not> is_progress_frame (info_status env item t doc)"
  by (simp_all add: is_progress_frame_def info_progress_def info_status_def dget_def dhas_def)

lemma send_status_frames:
  "send_status ops item env k = (Inr (), k') \<Longrightarrow> \<exists>doc. sk_sent k' = sk_sent k @ [info_status env item (en_now env) doc]"
  by (auto simp: send_status_def ask_status_def send_def act_simps split: sum.splits)

lemma chain_ok: "chain m f s = (Inr x, s') \<Longrightarrow> \<exists>y s1. m s = (Inr y, s1) \<and> f y s1 = (Inr x, s')"
  by (cases "m s"; cases "fst (m s)") (auto simp: act_simps)

text \<open>
  As long as the status can be asked for, the info socket sends every progress event it takes from its
  queue, in order and once, between its status documents.
\<close>

theorem info_sends_progress_in_order:
  assumes "info_body ops item turns last_status k = (Inr (), k')"
  shows "filter is_progress_frame (sk_sent k') = filter is_progress_frame (sk_sent k) @ progress_frames item turns"
  using assms
proof (induction turns arbitrary: last_status k)
  case Nil
  then show ?case by (simp add: act_simps)
next
  case (Cons t turns)
  let ?due = "1 \<le> en_now (tn_env t) - last_status"
  let ?last = "if ?due then en_now (tn_env t) else last_status"
  from Cons.prems obtain k1 where k1: "(if ?due then send_status ops item (tn_env t) else ret ()) k = (Inr (), k1)"
    and rest: "(case tn_event t of
        None \<Rightarrow> info_body ops item turns ?last
      | Some (time, ev) \<Rightarrow>
          if ev_kind ev = DEVICE_PROGRESS
          then chain (send (info_progress (tn_env t) item time ev)) (\<lambda>_. info_body ops item turns ?last)
          else chain (send_status ops item (tn_later t)) (\<lambda>_. info_body ops item turns (en_now (tn_later t)))) k1 = (Inr (), k')"
    using chain_ok [OF Cons.prems [unfolded info_body.simps Let_def]] by auto
  have same: "filter is_progress_frame (sk_sent k1) = filter is_progress_frame (sk_sent k)"
    using k1 send_status_frames by (auto simp: act_simps split: if_splits) fastforce
  show ?case
  proof (cases "tn_event t")
    case None
    with Cons.IH [of ?last k1] rest same show ?thesis by simp
  next
    case (Some te)
    obtain time ev where te: "te = (time, ev)" by force
    show ?thesis
    proof (cases "ev_kind ev = DEVICE_PROGRESS")
      case True
      with rest Some te have "info_body ops item turns ?last (k1\<lparr>sk_sent := sk_sent k1 @ [info_progress (tn_env t) item time ev]\<rparr>) = (Inr (), k')"
        by (simp add: send_def act_simps)
      from Cons.IH [OF this] same Some te True show ?thesis by simp
    next
      case False
      with rest Some te obtain k2 where k2: "send_status ops item (tn_later t) k1 = (Inr (), k2)"
        "info_body ops item turns (en_now (tn_later t)) k2 = (Inr (), k')"
        by (auto dest: chain_ok)
      from send_status_frames [OF k2(1)] Cons.IH [OF k2(2)] same Some te False show ?thesis by auto
    qed
  qed
qed

theorem info_sends_progress_in_order_witness:
  "\<exists>k. info_body SqlQueueRepository (\<lambda>_. None)
       [\<lparr>tn_env = example_surroundings, tn_event = Some (7, event_of DEVICE_PROGRESS []), tn_later = example_surroundings\<rparr>] 100
       \<lparr>sk_services = example_reporting, sk_sent = []\<rparr> = (Inr (), k) \<and> length (filter is_progress_frame (sk_sent k)) = 1"
proof -
  let ?t = "\<lparr>tn_env = example_surroundings, tn_event = Some (7, event_of DEVICE_PROGRESS []), tn_later = example_surroundings\<rparr>"
  have "\<exists>k. info_body SqlQueueRepository (\<lambda>_. None) [?t] 100 \<lparr>sk_services = example_reporting, sk_sent = []\<rparr> = (Inr (), k)"
    by (simp add: act_simps send_def event_of_def example_surroundings_def)
  then obtain k where k: "info_body SqlQueueRepository (\<lambda>_. None) [?t] 100 \<lparr>sk_services = example_reporting, sk_sent = []\<rparr> = (Inr (), k)"
    by blast
  from info_sends_progress_in_order [OF k] k show ?thesis by (auto simp: event_of_def)
qed

end
