(* ===== verification/ConsoleStream.thy ===== *)
theory ConsoleStream
  imports Websockets RouteProperties "HOL-Library.Word"
begin

section \<open>The console as a stream of bytes (\<open>/stream_console_output\<close> of \<open>api/routers/misc.py\<close>)\<close>

text \<open>
  The route answers with a response that never ends: a subscription to the console events, each of
  which is sent as its text in UTF-8. The path is the one of every event: the console announces a line,
  the broadcaster puts it into the queue of the subscriber, the generator takes it off. At the end of
  the theory the three are put together.
\<close>

definition EventBroadcaster_max_queue :: int where
  "EventBroadcaster_max_queue = 1000"

subsection \<open>UTF-8, for the characters up to code point 255\<close>

definition utf8_char :: "char \<Rightarrow> 8 word list" where
  "utf8_char c = (let n = of_char c :: nat in
     if n < 128 then [of_nat n] else [of_nat (192 + n div 64), of_nat (128 + n mod 64)])"

definition encode_text :: "string \<Rightarrow> 8 word list" where
  "encode_text s = concat (map utf8_char s)"

text \<open>What a client does with the bytes; \<open>None\<close> for a sequence that is no text of these characters.\<close>

fun decode_text :: "8 word list \<Rightarrow> string option" where
  "decode_text [] = Some []"
| "decode_text (b # bs) =
     (if unat b < 128 then map_option ((#) (char_of (unat b))) (decode_text bs)
      else case bs of
        [] \<Rightarrow> None
      | b2 # bs' \<Rightarrow>
          if unat b div 4 = 48 \<and> unat b2 div 64 = 2
          then map_option ((#) (char_of ((unat b - 192) * 64 + (unat b2 - 128)))) (decode_text bs')
          else None)"

lemma of_char_bound: "of_char c < (256 :: nat)"
  using range_nat_of_char by (metis atLeastLessThan_iff rangeI)

lemma unat_small: "n < 256 \<Longrightarrow> unat (of_nat n :: 8 word) = n"
  by (simp add: unat_of_nat take_bit_nat_eq_self_iff)

lemma decode_char: "decode_text (utf8_char c @ bs) = map_option ((#) c) (decode_text bs)"
proof -
  let ?n = "of_char c :: nat"
  note b = of_char_bound [of c]
  show ?thesis
  proof (cases "?n < 128")
    case True
    then show ?thesis using b unat_small [OF b] by (simp add: utf8_char_def)
  next
    case False
    have d: "?n div 64 < 4" using b by (intro less_mult_imp_div_less) simp
    have h: "unat (of_nat (192 + ?n div 64) :: 8 word) = 192 + ?n div 64" by (rule unat_small) (use d in linarith)
    have l: "unat (of_nat (128 + ?n mod 64) :: 8 word) = 128 + ?n mod 64" by (rule unat_small) simp
    have q: "(192 + ?n div 64) div 4 = 48" using d by arith
    have r: "(128 + ?n mod 64) div 64 = 2" by (simp add: div_add1_eq)
    have n: "?n div 64 * 64 + ?n mod 64 = ?n" by simp
    show ?thesis using False b by (simp add: utf8_char_def Let_def h l q r n del: of_nat_add)
  qed
qed

lemma decode_encode: "decode_text (encode_text s @ bs) = map_option ((@) s) (decode_text bs)"
  by (induction s) (simp_all add: encode_text_def decode_char option.map_comp o_def option.map_ident)

lemma encode_text_append: "encode_text (s @ t) = encode_text s @ encode_text t"
  by (simp add: encode_text_def)

lemma encode_concat: "concat (map encode_text lines) = encode_text (concat lines)"
  by (induction lines) (simp_all add: encode_text_def)

subsection \<open>The generator\<close>

definition no_encode :: exn where
  "no_encode = Exn AttributeError [Txt ''object has no attribute '', Rep (PStr ''encode'')]"

text \<open>\<open>(event.payload.get("msg") or "").encode()\<close>: what has no \<open>encode\<close> raises.\<close>

definition chunk_of :: "(fstring \<Rightarrow> string) \<Rightarrow> event \<Rightarrow> exn + 8 word list" where
  "chunk_of pr ev =
     (case payload_get (ev_payload ev) ''msg'' (PV PNone) of
        PText t \<Rightarrow> Inr (encode_text (pr t))
      | PV (PStr s) \<Rightarrow> Inr (encode_text s)
      | PV v \<Rightarrow> (if truthy v then Inl no_encode else Inr [])
      | POutcome _ \<Rightarrow> Inl no_encode)"

text \<open>The chunks sent for the events taken off the queue, and the exception that ends the response.\<close>

fun generate :: "(fstring \<Rightarrow> string) \<Rightarrow> event list \<Rightarrow> 8 word list list \<times> exn option" where
  "generate pr [] = ([], None)"
| "generate pr (ev # evs) =
     (case chunk_of pr ev of
        Inl e \<Rightarrow> ([], Some e)
      | Inr c \<Rightarrow> (let (cs, e) = generate pr evs in (c # cs, e)))"

text \<open>\<open>steps\<close> is what happens on the bus and how fast the client reads while the response lasts.\<close>

definition stream_console_output ::
  "surroundings \<Rightarrow> stream_step list \<Rightarrow> request \<Rightarrow> ('r, 'd) services \<Rightarrow> http_refusal + (8 word list list \<times> exn option)" where
  "stream_console_output env steps rq s =
     (case require_scope ''read:console'' (sv_auth s) rq of
        Inl r \<Rightarrow> Inl r
      | Inr _ \<Rightarrow> Inr (generate (en_pr env) (snd (stream_run (Some console_events) EventBroadcaster_max_queue steps ([], [])))))"

subsection \<open>From the print statement to the client\<close>

text \<open>The texts that an event of the console carries.\<close>

definition carries :: "event list \<Rightarrow> string list \<Rightarrow> bool" where
  "carries evs lines \<longleftrightarrow> map (\<lambda>e. map_of (ev_payload e) ''msg'') evs = map (\<lambda>l. Some (PV (PStr l))) lines"

lemma carries_append: "carries es ls \<Longrightarrow> carries es' ls' \<Longrightarrow> carries (es @ es') (ls @ ls')"
  by (simp add: carries_def)

lemma carries_split: "carries (es @ es') ls \<Longrightarrow> \<exists>us vs. ls = us @ vs \<and> carries es us \<and> carries es' vs"
  by (auto simp: carries_def append_eq_map_conv)

lemma carries_subseq: "subseq es es' \<Longrightarrow> carries es' ls' \<Longrightarrow> \<exists>ls. subseq ls ls' \<and> carries es ls"
proof (induction es es' arbitrary: ls' rule: list_emb.induct)
  case (list_emb_Nil ys)
  then show ?case by (intro exI [of _ "[]"]) (simp add: carries_def)
next
  case (list_emb_Cons xs ys y)
  from list_emb_Cons.prems obtain l ls where "ls' = l # ls" "carries ys ls"
    by (cases ls') (auto simp: carries_def)
  with list_emb_Cons.IH [of ls] show ?case by (auto intro: list_emb.list_emb_Cons)
next
  case (list_emb_Cons2 x y xs ys)
  from list_emb_Cons2.prems list_emb_Cons2.hyps obtain l ls where
    l: "ls' = l # ls" "carries ys ls" "map_of (ev_payload x) ''msg'' = Some (PV (PStr l))"
    by (cases ls') (auto simp: carries_def)
  with list_emb_Cons2.IH obtain ls0 where "subseq ls0 ls" "carries xs ls0" by blast
  with l show ?case by (intro exI [of _ "l # ls0"]) (auto simp: carries_def)
qed

lemma generate_lines: "carries evs lines \<Longrightarrow> generate pr evs = (map encode_text lines, None)"
proof (induction evs arbitrary: lines)
  case (Cons ev evs)
  then obtain l ls where "lines = l # ls" "carries evs ls" "map_of (ev_payload ev) ''msg'' = Some (PV (PStr l))"
    by (cases lines) (auto simp: carries_def)
  with Cons.IH show ?case by (simp add: chunk_of_def payload_get_def)
qed (simp add: carries_def)

definition complete_line :: "string \<Rightarrow> bool" where
  "complete_line l \<longleftrightarrow> (\<exists>h. l = h @ [newline] \<and> newline \<notin> set h)"

lemma append_messages_announces:
  "\<exists>es. co_events (append_messages stamp ls c) = co_events c @ es \<and> carries es ls"
proof (induction ls arbitrary: stamp c)
  case (Cons l ls)
  let ?c = "append_message (stamp 0) l c"
  from Cons.IH [of "\<lambda>i. stamp (Suc i)" ?c] obtain es where
    es: "co_events (append_messages (\<lambda>i. stamp (Suc i)) ls ?c) = co_events ?c @ es" "carries es ls" by blast
  obtain e where e: "co_events ?c = co_events c @ [e]" "map_of (ev_payload e) ''msg'' = Some (PV (PStr l))"
    by (simp add: append_message_def Let_def case_prod_beta event_of_def)
  from es e show ?case by (intro exI [of _ "e # es"]) (simp add: carries_def)
qed (simp add: carries_def)

fun feed_all :: "((nat \<Rightarrow> rat \<times> string) \<times> string) list \<Rightarrow> console \<Rightarrow> console" where
  "feed_all [] c = c"
| "feed_all ((stamp, t) # writes) c = feed_all writes (feed stamp t c)"

text \<open>What the console announces from a state on, when it is fed.\<close>

lemma feeding_announces:
  assumes "newline \<notin> set (co_pending c)"
  shows "\<exists>es lines. co_events (feed_all writes c) = co_events c @ es \<and> carries es lines \<and> list_all complete_line lines \<and>
      concat lines @ co_pending (feed_all writes c) = co_pending c @ concat (map snd writes)"
  using assms
proof (induction writes arbitrary: c)
  case Nil
  show ?case by (simp add: carries_def)
next
  case (Cons w ws)
  obtain stamp t where w: "w = (stamp, t)" by force
  obtain ls left where r: "take_lines (co_pending c @ t) = (ls, left)" by force
  note p = take_lines_props [OF r]
  have "\<exists>es. co_events (feed stamp t c) = co_events c @ es \<and> carries es ls \<and> co_pending (feed stamp t c) = left"
  proof (cases "t = []")
    case True
    have "take_lines (co_pending c) = ([], co_pending c)"
      using Cons.prems by (simp add: take_lines.simps [of "co_pending c"] partition_at_absent)
    with True r show ?thesis by (simp add: feed_def carries_def)
  next
    case False
    with r append_messages_announces [of stamp ls "c\<lparr>co_pending := left\<rparr>"] show ?thesis by (simp add: feed_def)
  qed
  then obtain es where es: "co_events (feed stamp t c) = co_events c @ es" "carries es ls"
    "co_pending (feed stamp t c) = left" by blast
  from p es(3) have n: "newline \<notin> set (co_pending (feed stamp t c))" by simp
  obtain es' lines where t: "co_events (feed_all ws (feed stamp t c)) = co_events (feed stamp t c) @ es'" "carries es' lines"
    "list_all complete_line lines" "concat lines @ co_pending (feed_all ws (feed stamp t c)) = left @ concat (map snd ws)"
    using Cons.IH [OF n] es(3) by auto
  have "list_all complete_line (ls @ lines)" using p t(3) by (auto simp: list_all_iff complete_line_def)
  moreover have "concat (ls @ lines) @ co_pending (feed_all ws (feed stamp t c)) = co_pending c @ t @ concat (map snd ws)"
    using p t(4) by (metis append.assoc concat_append)
  ultimately show ?case
    using es(1) t(1) carries_append [OF es(2) t(2)] unfolding w by (intro exI [of _ "es @ es'"] exI [of _ "ls @ lines"]) simp
qed

text \<open>The client keeps up as long as no event finds the queue full.\<close>

fun keeps_up :: "(event \<Rightarrow> bool) \<Rightarrow> int \<Rightarrow> stream_step list \<Rightarrow> nat \<Rightarrow> bool" where
  "keeps_up p m [] n = True"
| "keeps_up p m (Published ev # steps) n =
     (if p ev then (0 < m \<longrightarrow> int n < m) \<and> keeps_up p m steps (Suc n) else keeps_up p m steps n)"
| "keeps_up p m (Taken_off # steps) n = keeps_up p m steps (n - 1)"

lemma stream_run_complete:
  assumes "keeps_up p m steps (length q)" "stream_run (Some p) m steps (q, got) = (q', got')"
  shows "got' @ q' = got @ q @ relevant (Some p) steps"
  using assms
proof (induction "Some p" m steps "(q, got)" arbitrary: q got rule: stream_run.induct)
  case (2 m ev steps q got)
  then show ?case by (cases "p ev") (auto simp: on_event_def deliver_def queue_full_def)
next
  case (3 m steps q got)
  then show ?case by (cases q) auto
qed simp

text \<open>
  C24: what is printed while \<open>/stream_console_output\<close> is open reaches the client as text. The bytes
  decode to complete lines, in the order in which they were printed, none twice. A client that keeps
  up has them from the first on, and what it has not got yet is in its queue or an unfinished line.
\<close>

theorem console_stream_delivers:
  assumes "newline \<notin> set (co_pending c)"
    and "c' = feed_all writes c"
    and "co_events c' = co_events c @ relevant (Some console_events) steps"
    and "require_scope ''read:console'' (sv_auth s) rq = Inr p"
  shows "\<exists>printed sent chunks. concat printed @ co_pending c' = co_pending c @ concat (map snd writes) \<and>
    list_all complete_line printed \<and> subseq sent printed \<and>
    stream_console_output env steps rq s = Inr (chunks, None) \<and> decode_text (concat chunks) = Some (concat sent) \<and>
    (keeps_up console_events EventBroadcaster_max_queue steps 0 \<longrightarrow>
      (\<exists>waiting. printed = sent @ waiting \<and> int (length waiting) \<le> EventBroadcaster_max_queue))"
proof -
  let ?m = EventBroadcaster_max_queue and ?p = console_events
  obtain q got where run: "stream_run (Some ?p) ?m steps ([], []) = (q, got)" by force
  from feeding_announces [OF assms(1), of writes] assms(2,3) obtain printed where
    pr: "carries (relevant (Some ?p) steps) printed" "list_all complete_line printed"
      "concat printed @ co_pending c' = co_pending c @ concat (map snd writes)"
    by auto
  have order: "subseq (got @ q) (relevant (Some ?p) steps)" "int (length q) \<le> ?m"
    using stream_run_order [OF run] by (auto simp: EventBroadcaster_max_queue_def)
  from carries_subseq [OF order(1) pr(1)] obtain ls where "subseq ls printed" "carries (got @ q) ls" by blast
  then obtain sent waiting where ls: "subseq (sent @ waiting) printed" "carries got sent" "carries q waiting"
    by (blast dest: carries_split)
  have "subseq sent printed" using ls(1) subseq_order.order_trans [OF subseq_rev_drop_many [OF subseq_order.refl]] by blast
  moreover have "stream_console_output env steps rq s = Inr (map encode_text sent, None)"
    by (simp add: stream_console_output_def assms(4) run generate_lines [OF ls(2)])
  moreover have "decode_text (concat (map encode_text sent)) = Some (concat sent)"
    using decode_encode [of "concat sent" "[]"] by (simp add: encode_concat)
  moreover have "printed = sent @ waiting \<and> int (length waiting) \<le> ?m" if "keeps_up ?p ?m steps 0"
  proof -
    have "got @ q = relevant (Some ?p) steps" using stream_run_complete [OF _ run] that by simp
    with carries_append [OF ls(2,3)] pr(1) have "map (Some \<circ> PV \<circ> PStr) (sent @ waiting) = map (Some \<circ> PV \<circ> PStr) printed"
      by (simp add: carries_def o_def)
    moreover have "inj (Some \<circ> PV \<circ> PStr)" by (auto intro: injI)
    ultimately have "sent @ waiting = printed" by (metis inj_map_eq_map)
    moreover have "length waiting = length q" using ls(3) by (metis carries_def length_map)
    ultimately show ?thesis using order(2) by simp
  qed
  ultimately show ?thesis using pr by blast
qed

definition example_print :: event where
  "example_print = event_of CONSOLE_OUTPUT [(''time'', PV (PFloat 0)), (''msg'', PV (PStr (''run 1 at 20'' @ [CHR 0xB0, newline])))]"

theorem console_stream_delivers_witness:
  "\<exists>chunks. stream_console_output example_surroundings [Published example_print, Published (event_of STATE []), Taken_off]
     example_request example_services = Inr (chunks, None) \<and> decode_text (concat chunks) = Some (''run 1 at 20'' @ [CHR 0xB0, newline])"
proof -
  let ?w = "[(\<lambda>_. (0, ''u''), ''run 1''), (\<lambda>_. (0, ''u''), '' at 20'' @ [CHR 0xB0, newline, CHR ''o''])]"
  let ?c = "ConsoleCapture_init 5 ''u''" and ?steps = "[Published example_print, Published (event_of STATE []), Taken_off]"
  have t: "take_lines ''run 1'' = ([], ''run 1'')"
    "take_lines (''run 1'' @ '' at 20'' @ [CHR 0xB0, newline, CHR ''o'']) = ([''run 1 at 20'' @ [CHR 0xB0, newline]], ''o'')"
    by code_simp+
  have c: "co_pending (feed_all ?w ?c) = ''o''" "co_events (feed_all ?w ?c) = [example_print]"
    using t by (simp_all add: feed_def ConsoleCapture_init_def append_message_def example_print_def)
  have r: "relevant (Some console_events) ?steps = [example_print]"
    by (simp add: console_events_def example_print_def event_of_def)
  have k: "keeps_up console_events EventBroadcaster_max_queue ?steps 0"
    by (simp add: console_events_def example_print_def event_of_def EventBroadcaster_max_queue_def)
  have a: "require_scope ''read:console'' (sv_auth example_services) example_request = Inr (new_principal ''single_user'')"
    by (rule example_scope) (simp add: ALL_SCOPES_def)
  have i: "newline \<notin> set (co_pending ?c)" "co_pending ?c = []" by (simp_all add: ConsoleCapture_init_def)
  have e: "co_events (feed_all ?w ?c) = co_events ?c @ relevant (Some console_events) ?steps"
    unfolding c(2) r by (simp add: ConsoleCapture_init_def)
  from console_stream_delivers [OF i(1) refl e a, of example_surroundings] k obtain printed sent chunks waiting where
    d: "concat printed @ ''o'' = concat (map snd ?w)" "printed = sent @ waiting"
      "stream_console_output example_surroundings ?steps example_request example_services = Inr (chunks, None)"
      "decode_text (concat chunks) = Some (concat sent)"
    unfolding c(1) i(2) by auto
  have "stream_console_output example_surroundings ?steps example_request example_services =
      Inr ([encode_text (''run 1 at 20'' @ [CHR 0xB0, newline])], None)"
    using a by (simp add: stream_console_output_def on_event_def deliver_def queue_full_def console_events_def
        example_print_def event_of_def EventBroadcaster_max_queue_def chunk_of_def payload_get_def)
  with d(3) have "chunks = [encode_text (''run 1 at 20'' @ [CHR 0xB0, newline])]" by simp
  with d(3) decode_encode [of "''run 1 at 20'' @ [CHR 0xB0, newline]" "[]"] show ?thesis by simp
qed

end
