(* ===== verification/SourceProperties.thy ===== *)
theory SourceProperties
  imports Sources
begin

section \<open>Properties of the profile sources\<close>

subsection \<open>Patching\<close>

text \<open>Lines that are put together with line feeds come apart as the same lines.\<close>

definition unbroken :: "string \<Rightarrow> bool" where
  "unbroken l \<longleftrightarrow> (\<forall>c \<in> set l. \<not> is_break c)"

lemma lf_break [simp]: "is_break LF" by (simp add: is_break_def)

lemma break_lines_one: "unbroken l \<Longrightarrow> break_lines acc (l @ LF # rest) = (acc @ l) # break_lines [] rest"
proof (induction l arbitrary: acc)
  case Nil
  then show ?case by (cases rest) auto
next
  case (Cons c l)
  then have c: "\<not> is_break c" "c \<noteq> CR" "unbroken l" by (auto simp: unbroken_def is_break_def)
  obtain d ds where d: "l @ LF # rest = d # ds" by (cases l) auto
  have "break_lines acc (c # d # ds) = break_lines (acc @ [c]) (d # ds)" using c by simp
  with Cons.IH [OF c(3), of "acc @ [c]"] d show ?case by simp
qed

lemma splitlines_join: "ls \<noteq> [] \<Longrightarrow> \<forall>l \<in> set ls. unbroken l \<Longrightarrow> splitlines (join_with [LF] ls @ [LF]) = ls"
proof (induction ls)
  case (Cons l ls)
  show ?case
  proof (cases ls)
    case Nil
    with Cons show ?thesis using break_lines_one [of l "[]" "[]"] by (simp add: splitlines_def)
  next
    case (Cons m ms)
    have "join_with [LF] (l # m # ms) @ [LF] = l @ LF # (join_with [LF] (m # ms) @ [LF])" by simp
    with Cons.IH Cons.prems Cons show ?thesis using break_lines_one [of l "[]"] by (simp add: splitlines_def)
  qed
qed simp

lemma break_lines_unbroken: "unbroken acc \<Longrightarrow> l \<in> set (break_lines acc s) \<Longrightarrow> unbroken l"
proof (induction acc s rule: break_lines.induct)
  case (1 acc)
  then show ?case by (auto split: if_splits)
next
  case (2 acc c)
  then show ?case by (auto simp: unbroken_def split: if_splits)
next
  case (3 acc c d cs)
  have u: "unbroken []" "\<not> is_break c \<Longrightarrow> unbroken (acc @ [c])" using 3(4) by (auto simp: unbroken_def)
  show ?case
  proof (cases "c = CR \<and> d = LF")
    case True
    with 3(1) [OF True u(1)] 3(4,5) show ?thesis by auto
  next
    case other: False
    show ?thesis
    proof (cases "is_break c")
      case True
      with 3(2) [OF other True u(1)] 3(4,5) other show ?thesis by auto
    next
      case False
      with 3(3) [OF other False u(2)] 3(5) other show ?thesis by auto
    qed
  qed
qed

lemma dropWhile_rev_prefix: "\<exists>t. s = rev (dropWhile P (rev s)) @ t \<and> (\<forall>c \<in> set t. P c)"
proof -
  have "s = rev (dropWhile P (rev s)) @ rev (takeWhile P (rev s))"
    by (metis rev_append rev_rev_ident takeWhile_dropWhile_id)
  then show ?thesis by (metis set_rev set_takeWhileD)
qed

lemma set_rstrip: "set (rstrip s) \<subseteq> set s"
  using dropWhile_rev_prefix [of s is_space] by (metis Un_upper1 rstrip_def set_append)

lemma patch_line_unbroken: "unbroken l \<Longrightarrow> unbroken (patch_line l)"
proof -
  assume u: "unbroken l"
  have f: "unbroken skipped_magic" "unbroken rebind_get_ipython"
    by (simp_all add: unbroken_def skipped_magic_def rebind_get_ipython_def is_break_def)
  show ?thesis using u f set_rstrip [of l] by (auto simp: patch_line_def unbroken_def)
qed

lemma is_magic_line_filter:
  "is_magic_line l \<longleftrightarrow> (case filter (\<lambda>c. \<not> is_space c) l of [] \<Rightarrow> False | c # _ \<Rightarrow> c = CHR 0x25 \<or> c = CHR 0x21)"
  by (induction l) (auto simp: is_magic_line_def)

lemma filter_rstrip: "filter (\<lambda>c. \<not> is_space c) (rstrip l) = filter (\<lambda>c. \<not> is_space c) l"
proof -
  obtain t where t: "l = rstrip l @ t" "\<forall>c \<in> set t. is_space c"
    using dropWhile_rev_prefix [of l is_space] by (auto simp: rstrip_def)
  then have "filter (\<lambda>c. \<not> is_space c) t = []" by (simp add: filter_empty_conv)
  with t(1) show ?thesis by (metis append_Nil2 filter_append)
qed

lemma patched_not_magic: "\<not> is_magic_line (patch_line l)"
proof (cases "is_magic_line l")
  case True
  then show ?thesis by (simp add: patch_line_def is_magic_line_filter skipped_magic_def is_space_def)
next
  case False
  have "filter (\<lambda>c. \<not> is_space c) rebind_get_ipython = CHR '';'' # filter (\<lambda>c. \<not> is_space c) (tl rebind_get_ipython)"
    by (simp add: rebind_get_ipython_def is_space_def)
  with False show ?thesis by (auto simp: patch_line_def is_magic_line_filter filter_rstrip split: list.splits)
qed

text \<open>
  Patching changes a profile line by line: the numbers of the lines stay what they were, each line is
  patched for itself, and no line is left that IPython would treat as a magic or a shell escape.
\<close>

theorem patch_line_by_line:
  "splitlines (patch_profile_code code) = (if splitlines code = [] then [[]] else map patch_line (splitlines code)) \<and>
   list_all (\<lambda>l. \<not> is_magic_line l) (splitlines (patch_profile_code code))"
proof -
  have u: "\<forall>l \<in> set (map patch_line (splitlines code)). unbroken l"
  proof -
    have "unbroken []" by (simp add: unbroken_def)
    then show ?thesis using break_lines_unbroken patch_line_unbroken unfolding splitlines_def by auto
  qed
  have lines: "splitlines (patch_profile_code code) = (if splitlines code = [] then [[]] else map patch_line (splitlines code))"
    using splitlines_join [OF _ u] by (simp add: patch_profile_code_def splitlines_def)
  show ?thesis unfolding lines using patched_not_magic by (auto simp: list_all_iff is_magic_line_def)
qed

text \<open>
  The rebinding of \<open>get_ipython\<close> is appended to the line: where the import has a comment behind it, the
  rebinding is part of the comment, and the profile runs with IPython's own \<open>get_ipython\<close>.
\<close>

theorem rebinding_lost_in_comment:
  assumes "imports_get_ipython line" "\<not> is_magic_line line" "CHR 0x23 \<in> set line"
  shows "takeWhile (\<lambda>c. c \<noteq> CHR 0x23) (patch_line line) = takeWhile (\<lambda>c. c \<noteq> CHR 0x23) line"
proof -
  obtain t where t: "line = rstrip line @ t" "\<forall>c \<in> set t. is_space c"
    using dropWhile_rev_prefix [of line is_space] by (auto simp: rstrip_def)
  have "\<not> is_space (CHR 0x23)" by (simp add: is_space_def)
  with t assms(3) have "CHR 0x23 \<in> set (rstrip line)" by (metis Un_iff set_append)
  then have "takeWhile (\<lambda>c. c \<noteq> CHR 0x23) (rstrip line @ x) = takeWhile (\<lambda>c. c \<noteq> CHR 0x23) (rstrip line)" for x
    by (intro takeWhile_append1) auto
  then show ?thesis using assms(1,2) t(1) by (metis patch_line_def)
qed

theorem rebinding_lost_in_comment_witness:
  "takeWhile (\<lambda>c. c \<noteq> CHR 0x23) (patch_line (''from IPython import get_ipython '' @ CHR 0x23 # '' noqa'')) =
   ''from IPython import get_ipython ''"
proof -
  let ?l = "''from IPython import get_ipython '' @ CHR 0x23 # '' noqa''"
  have "imports_get_ipython ?l" by code_simp
  moreover have "\<not> is_magic_line ?l" by code_simp
  ultimately show ?thesis using rebinding_lost_in_comment [of ?l] by simp
qed

subsection \<open>Loading a startup directory\<close>

text \<open>What executing the files one after the other makes of the namespace, when none raises.\<close>

definition after_file :: "profile_world \<Rightarrow> string \<Rightarrow> string \<Rightarrow> pyval names \<Rightarrow> pyval names" where
  "after_file w dir name ns =
     snd (pw_exec w (patch_profile_code (projr (pw_read w (file_path dir name))))
       (AList.update ''__file__'' (PStr (file_path dir name)) ns))"

lemma run_file_ok:
  "run_file w dir name s = (Inr u, s') \<Longrightarrow> s' = s\<lparr>ps_namespace := after_file w dir name (ps_namespace s)\<rparr>"
  by (auto simp: run_file_def after_file_def Let_def split: sum.splits option.splits prod.splits)

lemma run_files_ok:
  "for_each (run_file w dir) names s = (Inr us, s') \<Longrightarrow> ps_namespace s' = fold (after_file w dir) names (ps_namespace s)"
proof (induction names arbitrary: s us)
  case (Cons name names)
  then obtain u s1 us' where f: "run_file w dir name s = (Inr u, s1)" "for_each (run_file w dir) names s1 = (Inr us', s')"
    by (auto simp: act_simps split: sum.splits prod.splits) (metis prod.collapse)+
  show ?case using Cons.IH [OF f(2)] run_file_ok [OF f(1)] by simp
qed (simp add: act_simps)

lemma startup_files_sorted: "sorted (startup_files entries)"
  by (simp add: startup_files_def Let_def sorted_filter [of id, simplified])

lemma startup_files_members:
  "set (startup_files entries) = {en_name p |p. p \<in> set entries \<and> en_is_file p \<and> path_suffix (en_name p) = ''.py''}"
  by (auto simp: startup_files_def Let_def)


definition example_profile :: profile_world where
  "example_profile = \<lparr>pw_is_dir = True,
     pw_entries = [\<lparr>en_name = ''20-b.py'', en_is_file = True\<rparr>, \<lparr>en_name = ''00-a.py'', en_is_file = True\<rparr>, \<lparr>en_name = ''x.ipy'', en_is_file = True\<rparr>],
     pw_read = (\<lambda>p. Inr p), pw_compile = (\<lambda>c p. None), pw_exec = (\<lambda>c ns. (None, ns @ [(c, PObj (length ns))]))\<rparr>"

definition device_look :: object_look where
  "device_look = \<lparr>ol_device = True, ol_callable = False, ol_class = False, ol_bluesky_plan = False, ol_generator = False,
     ol_engine = None, ol_factory = \<lparr>pf_id = 0, pf_signature = None\<rparr>\<rparr>"

lemma example_files: "startup_files (pw_entries example_profile) = [''00-a.py'', ''20-b.py'']"
  by (simp add: startup_files_def example_profile_def path_suffix_def Let_def)

definition example_source :: ipython_source where
  "example_source = new_ipython_source (\<lambda>p. p) ''d'' None True"


subsection \<open>From the namespace to the registry\<close>

lemma map_of_filter_key: "distinct (map fst xs) \<Longrightarrow> map_of (filter P xs) k = (case map_of xs k of Some v \<Rightarrow> if P (k, v) then Some v else None | None \<Rightarrow> None)"
proof (induction xs)
  case (Cons x xs)
  obtain l v where x: "x = (l, v)" by force
  have "k = l \<Longrightarrow> map_of xs k = None" using Cons.prems x by (auto simp: map_of_eq_None_iff)
  with Cons x show ?case by (auto split: option.splits)
qed simp

text \<open>
  After a profile was loaded, the registry of a fresh service offers under a public name exactly the
  device or the plan that the namespace has there; private names and other objects are not offered.
\<close>

theorem namespace_to_registry:
  assumes "distinct (map fst ns)"
  shows "let reg = load_from (collect_namespace look description None ns) empty_registry in
    map_of (reg_devices reg) name = (case map_of ns name of
       Some obj \<Rightarrow> if public_name name \<and> ol_device (look obj) then Some \<lparr>de_name = name, de_device = obj, de_origin = Profile\<rparr> else None
     | None \<Rightarrow> None) \<and>
    map_of (reg_plans reg) name = (case map_of ns name of
       Some obj \<Rightarrow> if public_name name \<and> is_plan look obj then Some (ol_factory (look obj)) else None
     | None \<Rightarrow> None)"
proof -
  have p: "map_of (map (\<lambda>(n, obj). (n, ol_factory (look obj))) xs) name = map_option (\<lambda>obj. ol_factory (look obj)) (map_of xs name)" for xs
    by (induction xs) auto
  show ?thesis
    using assms
    by (simp add: load_from_def collect_namespace_def empty_registry_def dict_update_def lookup_fresh p iter_devices_def iter_plans_def
        Let_def map_of_filter_key split: option.splits)
qed

theorem namespace_to_registry_witness:
  "map_of (reg_devices (load_from (collect_namespace (\<lambda>_. device_look) ''d'' None [(''det'', PObj 1), (''_m'', PObj 2)]) empty_registry)) ''det'' =
     Some \<lparr>de_name = ''det'', de_device = PObj 1, de_origin = Profile\<rparr>"
  using namespace_to_registry [of "[(''det'', PObj 1), (''_m'', PObj 2)]" "\<lambda>_. device_look" "''d''" "''det''"]
  by (simp add: Let_def public_name_def starts_with_def device_look_def)

subsection \<open>happi\<close>

lemma load_entries_covers:
  assumes "load_entries entries devices failures = Inr (ds, fs)"
  shows "fst ` set ds = fst ` set devices \<union> {he_name e |e. e \<in> set entries \<and> he_active e \<and> \<not> isl (he_loaded e)} \<and>
    fst ` set fs = fst ` set failures \<union> {he_name e |e. e \<in> set entries \<and> he_active e \<and> isl (he_loaded e)}"
  using assms
proof (induction entries arbitrary: devices failures)
  case (Cons entry rest)
  show ?case
  proof (cases "he_active entry")
    case False
    with Cons show ?thesis by auto
  next
    case True
    show ?thesis
    proof (cases "he_loaded entry")
      case (Inr dev)
      with True Cons.prems have "load_entries rest (AList.update (he_name entry) dev devices) failures = Inr (ds, fs)" by simp
      from Cons.IH [OF this] True Inr show ?thesis by (auto simp: dom_update)
    next
      case (Inl e)
      with True Cons.prems have "load_entries rest devices (AList.update (he_name entry) (typed_text e) failures) = Inr (ds, fs)"
        by (simp split: if_splits)
      from Cons.IH [OF this] True Inl show ?thesis by (auto simp: dom_update)
    qed
  qed
qed simp

lemma load_entries_returns:
  "\<forall>entry \<in> set entries. \<forall>e. he_loaded entry = Inl e \<longrightarrow> is_exception (exn_class e) \<Longrightarrow> \<exists>r. load_entries entries devices failures = Inr r"
  by (induction entries arbitrary: devices failures) (auto split: sum.split)

text \<open>
  One bad entry of a happi database does not stop the load: every active entry ends up among the devices
  or among the failures, and inactive ones in neither.
\<close>

theorem happi_covers_entries:
  assumes "\<forall>entry \<in> set entries. \<forall>e. he_loaded entry = Inl e \<longrightarrow> is_exception (exn_class e)"
  shows "\<exists>ds fs. load_entries entries [] [] = Inr (ds, fs) \<and>
    fst ` set ds = {he_name e |e. e \<in> set entries \<and> he_active e \<and> \<not> isl (he_loaded e)} \<and>
    fst ` set fs = {he_name e |e. e \<in> set entries \<and> he_active e \<and> isl (he_loaded e)}"
proof -
  obtain ds fs where l: "load_entries entries [] [] = Inr (ds, fs)"
    using load_entries_returns [OF assms, of "[]" "[]"] by force
  from load_entries_covers [OF l] l show ?thesis by simp
qed

theorem happi_covers_entries_witness:
  "\<exists>ds fs. load_entries [\<lparr>he_name = ''m'', he_active = True, he_loaded = Inl (Exn ValueError [])\<rparr>,
      \<lparr>he_name = ''d'', he_active = True, he_loaded = Inr (PObj 1)\<rparr>] [] [] = Inr (ds, fs) \<and> ''d'' \<in> fst ` set ds \<and> ''m'' \<in> fst ` set fs"
proof -
  let ?es = "[\<lparr>he_name = ''m'', he_active = True, he_loaded = Inl (Exn ValueError [])\<rparr>,
      \<lparr>he_name = ''d'', he_active = True, he_loaded = Inr (PObj 1)\<rparr>]"
  obtain ds fs where r: "load_entries ?es [] [] = Inr (ds, fs)"
    "fst ` set ds = {he_name e |e. e \<in> set ?es \<and> he_active e \<and> \<not> isl (he_loaded e)}"
    "fst ` set fs = {he_name e |e. e \<in> set ?es \<and> he_active e \<and> isl (he_loaded e)}"
    using happi_covers_entries [of ?es] by auto
  have "''d'' \<in> fst ` set ds" unfolding r(2) by force
  moreover have "''m'' \<in> fst ` set fs" unfolding r(3) by force
  ultimately show ?thesis using r(1) by blast
qed

end
