(* ===== verification/FakeShell.thy ===== *)
theory FakeShell
  imports SourceProperties
begin

section \<open>What a profile finds instead of IPython (\<open>FakeIPython\<close> of \<open>sources/ipython_profile.py\<close>)\<close>

text \<open>
  A profile that asks for \<open>get_ipython()\<close> gets a stand-in. \<open>use\<close> is one thing a profile does to an object
  it has got: ask for an attribute, or call it. The two dictionaries of the stand-in are real ones and
  their methods are those of the language, which end the path here; names with two leading underscores,
  which every object has, are left aside. The texts of the exceptions, which nothing reads, are abridged.
\<close>

datatype shell_object = Shell | NoOp | Method string | UserNamespace | NamespaceTable | NoneObject

record usage =
  us_args :: "pyval list"
  us_keywords :: "string list"

datatype shell_use = Attribute string | CallWith usage

text \<open>The parameters of the methods that the class defines, \<open>self\<close> aside.\<close>

definition required :: "string \<Rightarrow> parameter" where
  "required n = \<lparr>par_name = n, par_kind = POSITIONAL_OR_KEYWORD, par_has_default = False\<rparr>"

definition shell_methods :: "(string \<times> parameter list) list" where
  "shell_methods =
     [(''run_line_magic'', [required ''magic_name'', (required ''line'')\<lparr>par_has_default := True\<rparr>]),
      (''run_cell_magic'', [required ''magic_name'', required ''line'', required ''cell'']),
      (''magic'', [required ''arg_s'']),
      (''register_magics'', [\<lparr>par_name = ''args'', par_kind = VAR_POSITIONAL, par_has_default = False\<rparr>]),
      (''register_magic_function'', [\<lparr>par_name = ''args'', par_kind = VAR_POSITIONAL, par_has_default = False\<rparr>,
         \<lparr>par_name = ''kwargs'', par_kind = VAR_KEYWORD, par_has_default = False\<rparr>])]"

definition no_attribute :: "string \<Rightarrow> exn" where
  "no_attribute name = Exn AttributeError [Txt ''object has no attribute '', Rep (PStr name)]"

definition wrong_call :: exn where
  "wrong_call = Exn TypeError [Txt ''wrong arguments'']"

definition not_callable :: exn where
  "not_callable = Exn TypeError [Txt ''object is not callable'']"

text \<open>\<open>__getattr__\<close> is asked for what the instance and its class do not have.\<close>

fun shell_attribute :: "shell_object \<Rightarrow> string \<Rightarrow> exn + shell_object" where
  "shell_attribute Shell name =
     Inr (if name = ''user_ns'' then UserNamespace else if name = ''ns_table'' then NamespaceTable
          else if map_of shell_methods name \<noteq> None then Method name else NoOp)"
| "shell_attribute NoOp name = Inr NoOp"
| "shell_attribute _ name = Inl (no_attribute name)"

fun shell_call :: "shell_object \<Rightarrow> usage \<Rightarrow> exn + shell_object" where
  "shell_call NoOp u = Inr NoneObject"
| "shell_call (Method name) u =
     (case map_of shell_methods name of
        None \<Rightarrow> Inl not_callable
      | Some sig \<Rightarrow> (case bind_call sig (us_args u) (us_keywords u) of
           Some _ \<Rightarrow> Inl wrong_call | None \<Rightarrow> Inr NoneObject))"
| "shell_call _ u = Inl not_callable"

primrec use_object :: "shell_object \<Rightarrow> shell_use \<Rightarrow> exn + shell_object" where
  "use_object ob (Attribute name) = shell_attribute ob name"
| "use_object ob (CallWith u) = shell_call ob u"

fun use_path :: "shell_object \<Rightarrow> shell_use list \<Rightarrow> exn + shell_object" where
  "use_path ob [] = Inr ob"
| "use_path ob (u # us) = (case use_object ob u of Inl e \<Rightarrow> Inl e | Inr ob' \<Rightarrow> use_path ob' us)"

subsection \<open>Properties\<close>

lemma no_op_path: "use_path NoOp (map Attribute names) = Inr NoOp"
  by (induction names) simp_all

text \<open>
  What a profile usually does to IPython does nothing and goes on: from any attribute that the
  stand-in does not define itself, any path of attributes, and a call at its end with any
  arguments. But the call returns \<open>None\<close>, so going on from its result raises.
\<close>

theorem shell_tolerates:
  assumes "name \<notin> {''user_ns'', ''ns_table''} \<union> fst ` set shell_methods"
  shows "use_path Shell (map Attribute (name # names)) = Inr NoOp \<and>
    use_path Shell (map Attribute (name # names) @ [CallWith u]) = Inr NoneObject \<and>
    use_path Shell (map Attribute (name # names) @ [CallWith u, Attribute more_name]) = Inl (no_attribute more_name)"
proof -
  have "map_of shell_methods name = None" using assms by (simp add: map_of_eq_None_iff)
  with assms have s: "shell_attribute Shell name = Inr NoOp" by simp
  have p: "use_path ob (us @ vs) = (case use_path ob us of Inl e \<Rightarrow> Inl e | Inr ob' \<Rightarrow> use_path ob' vs)" for ob us vs
    by (induction us arbitrary: ob) (simp_all split: sum.split)
  show ?thesis by (simp add: p s no_op_path del: shell_attribute.simps(1))
qed

theorem shell_tolerates_witness:
  "use_path Shell [Attribute ''events'', Attribute ''register'', CallWith \<lparr>us_args = [PStr ''post_run''], us_keywords = []\<rparr>] = Inr NoneObject"
  using shell_tolerates [of "''events''" "[''register'']" "\<lparr>us_args = [PStr ''post_run''], us_keywords = []\<rparr>" "[]"]
  by (simp add: shell_methods_def)

lemma method_call:
  "map_of shell_methods n = Some sig \<Longrightarrow> n \<noteq> ''user_ns'' \<Longrightarrow> n \<noteq> ''ns_table'' \<Longrightarrow>
   use_path Shell [Attribute n, CallWith \<lparr>us_args = xs, us_keywords = ks\<rparr>] =
     (if bind_call sig xs ks = None then Inr NoneObject else Inl wrong_call)"
  by (simp split: option.split)

text \<open>
  A magic run through the stand-in does nothing when it is called as IPython is, and is refused
  like a wrong call of IPython otherwise.
\<close>

theorem magics_are_ignored:
  "use_path Shell [Attribute ''run_line_magic'', CallWith \<lparr>us_args = [m], us_keywords = []\<rparr>] = Inr NoneObject \<and>
   use_path Shell [Attribute ''run_line_magic'', CallWith \<lparr>us_args = [m, l], us_keywords = []\<rparr>] = Inr NoneObject \<and>
   use_path Shell [Attribute ''run_cell_magic'', CallWith \<lparr>us_args = [m, l, b], us_keywords = []\<rparr>] = Inr NoneObject \<and>
   use_path Shell [Attribute ''register_magic_function'', CallWith \<lparr>us_args = args, us_keywords = ks\<rparr>] = Inr NoneObject \<and>
   use_path Shell [Attribute ''magic'', CallWith \<lparr>us_args = [], us_keywords = []\<rparr>] =
     Inl wrong_call"
proof -
  have kws: "bind_keywords [] ks True = None" for ks :: "string list" by (cases ks) simp_all
  have any: "bind_call [\<lparr>par_name = ''args'', par_kind = VAR_POSITIONAL, par_has_default = False\<rparr>,
      \<lparr>par_name = ''kwargs'', par_kind = VAR_KEYWORD, par_has_default = False\<rparr>] args ks = None"
    by (cases args) (simp_all add: bind_call_def kws)
  show ?thesis
    by (intro conjI; subst method_call, simp add: shell_methods_def, simp, simp, simp add: any)
      (simp_all add: bind_call_def required_def)
qed

text \<open>
  A profile sees the stand-in under both names, unless the namespace it was given brings a
  \<open>get_ipython\<close> of its own; the patched import lines still reach the stand-in.
\<close>

theorem profile_sees_stand_in:
  "map_of (startup_namespace builtins patch []) ''get_ipython'' = Some patch \<and>
   (distinct (map fst extra) \<longrightarrow>
     map_of (startup_namespace builtins patch extra) ''get_ipython'' =
       (case map_of extra ''get_ipython'' of Some own \<Rightarrow> Some own | None \<Rightarrow> Some patch) \<and>
     (''_qs_get_ipython_patch'' \<notin> fst ` set extra \<longrightarrow>
       map_of (startup_namespace builtins patch extra) ''_qs_get_ipython_patch'' = Some patch))"
proof -
  have m: "map_of (startup_namespace builtins patch extra) = map_of [(''__name__'', PStr ''__main__''), (''__builtins__'', builtins),
      (''_qs_get_ipython_patch'', patch), (''get_ipython'', patch)] ++ map_of extra" if "distinct (map fst extra)" for extra
    unfolding startup_namespace_def by (rule map_of_dict_update [OF that])
  have "map_of extra k = None" if "k \<notin> fst ` set extra" for k using that by (simp add: map_of_eq_None_iff)
  then show ?thesis using m [of "[]"] m [of extra] by (simp add: map_add_def split: option.split)
qed

end
