(* ===== verification/Spec2Isabelle.thy ===== *)
theory Spec2Isabelle
  imports FlushRace EngineCalls Progress ServiceRefinement LiveService Restart EndToEnd Dispatch ConsoleStream FakeShell
begin

text \<open>
  The queue server: a verification library.

  qs (\<open>src/src/qs\<close>) runs the experiments of a beamline. Clients send plans over HTTP; they wait in a queue
  kept in a database; a sequencer takes them one by one and hands them to an engine (bluesky's \<open>RunEngine\<close>)
  on a thread of its own; operators pause, resume and stop what runs; the outcome goes to the history; status
  documents and events go out to the clients.

  Conventions. A Python value is a \<open>pyval\<close>, a dictionary an association list in insertion order, a string a
  list of characters up to code point 255, a float the rational it denotes, an f-string the list of its
  parts (how \<open>repr\<close> and \<open>str\<close> print containers is a parameter). A class is a record of its attributes. An
  operation is an action: it maps the state to a result (\<open>Inl\<close> an exception with its class and text,
  \<open>Inr\<close> a value) and the state left behind, also when it raises; \<open>chain\<close> is sequencing and \<open>handle\<close> is
  \<open>except\<close>. Fresh uids, the clock, and what other programs answer are arguments. Log lines are left out.

  The theories, in the order of the program's layers.

  \<^item> Foundations: \<open>Prelude\<close> (actions, \<open>keeps\<close> for invariants, simulation, list positions), \<open>PyValue\<close>,
    \<open>PyString\<close>, \<open>ErrorCodes\<close> (\<open>errors.py\<close>), \<open>Diagnostics\<close> (\<open>diagnostics.py\<close>; exceptions as a heap, whose
    chains may be cyclic: \<open>root_loop\<close> has a set of visited references and ends), \<open>Logging\<close> (its
    \<open>configure_logging\<close>, and what becomes of a record), \<open>EngineEvents\<close>
    (\<open>engine/events.py\<close>).
  \<^item> The queue: \<open>QueueModels\<close> (\<open>queue/models.py\<close>), \<open>QueueRepo\<close> (the protocol of \<open>queue/repository.py\<close> as a record
    and its laws as the locale \<open>repository\<close>), \<open>MemoryRepo\<close> and \<open>SqlRepo\<close> (\<open>persistence/\<close>, interpretations of
    the locale; \<open>Database\<close> has tables and transactions, in which any session may fail, \<open>DatabaseSetup\<close> opens it), \<open>PlanBinding\<close> and
    \<open>Registry\<close> (\<open>registry/registry.py\<close>, with the binding of arguments to signatures), \<open>QueueService\<close>
    (\<open>queue/service.py\<close>). \<open>QueueSpec\<close>, \<open>QueueRefinement\<close> and \<open>SqlRefinement\<close> show that the service on either
    repository refines the service on one abstract list; \<open>QueueProperties\<close> draws the consequences.
  \<^item> The engine: \<open>RunEngine\<close> (what the program sees of it), \<open>EngineHost\<close> and \<open>HostLoop\<close> (\<open>engine/host.py\<close>;
    commands, directives, outcomes; the loop of the thread), \<open>HostProperties\<close>, \<open>DirectiveProtocol\<close> (operators
    against the waiting thread, step by step), \<open>EngineCalls\<close> (requests that wait for the engine thread), \<open>Progress\<close> (\<open>engine/progress.py\<close>).
  \<^item> The sequencer (\<open>sequencer/sequencer.py\<close>): \<open>Sequencer\<close>, \<open>SequencerMachine\<close> (the loop thread and the API threads as a
    step relation), \<open>SequencerProperties\<close>, \<open>SequencerControl\<close>, \<open>OutcomeRecords\<close> (every started item is accounted
    for), \<open>LoopFaults\<close>, \<open>FlushRace\<close> (two flushes at once).
  \<^item> Devices: \<open>DeviceDefs\<close> (\<open>devices/models.py\<close>, \<open>devices/repository.py\<close>, \<open>persistence/device_repository.py\<close>, with
    the locale \<open>definition_repository\<close>), \<open>DeviceService\<close> (\<open>devices/service.py\<close>), \<open>DeviceProperties\<close>.
  \<^item> The API: \<open>ApiBasics\<close> (\<open>api/responses.py\<close>, \<open>api/payload.py\<close>), \<open>Auth\<close> (\<open>api/auth.py\<close>, \<open>api/deps.py\<close>), \<open>Console\<close>,
    \<open>Streams\<close>, \<open>Describe\<close>, \<open>StatusReport\<close> with \<open>StatusProperties\<close>, \<open>Services\<close> (the object behind the routes and what the
    application does around a route), the routers \<open>QueueRoutes\<close>, \<open>EngineRoutes\<close> and \<open>DeviceRoutes\<close>, \<open>Routes\<close> (all
    routes with their scopes, one request, a sequence of requests), \<open>RouteProperties\<close>, \<open>BatchMove\<close>, \<open>RouteFaults\<close>,
    \<open>Websockets\<close> (\<open>api/routers/ws.py\<close>), \<open>ConsoleStream\<close> (the endless reply with the console's lines as bytes).
  \<^item> Around it: \<open>Config\<close> and \<open>ConfigProperties\<close> (\<open>runtime/config.py\<close>), \<open>Sources\<close>, \<open>SourceProperties\<close> and
    \<open>FakeShell\<close> (\<open>sources/\<close>), \<open>Compose\<close> and \<open>ComposeProperties\<close> (\<open>runtime/compose.py\<close>), \<open>EntryPoint\<close> (\<open>runtime/main.py\<close>),
    \<open>Qsctl\<close> (\<open>cli/qsctl.py\<close>, also run against the modelled server), \<open>Dispatch\<close> (\<open>api/app.py\<close>: the table of
    the routes with their paths; the framework's choice among them is a parameter).
  \<^item> The whole: \<open>ServiceMachine\<close> (the composed service as one state machine: requests on any route, the steps of
    the loop's thread, changes of the engine, in any order; the locale \<open>route_contract\<close> carries a property of the
    sequencer through all routes at once), \<open>ServiceProperties\<close>, \<open>ServiceRefinement\<close> (the service over tables
    refines the service over a list), \<open>LiveService\<close> (the loop with the engine host below it, which refines the
    state machine), \<open>Restart\<close> (from one life of the service to the next), \<open>EndToEnd\<close> (from a
    typed command to the database and back to the terminal).

  What the lemmas show. Each repository keeps its contract, also when sessions fail, so that the queue
  service has one meaning; uids stay unique and positions dense. The sequencer starts nothing after a stop
  or a failure, and the outcome of everything it started is in the history or held in memory. The host comes
  back to idle from every ordinary end of a plan, and reports every change. Requests keep the invariants
  that starting the service establishes, and no request without the key changes anything. The threads of the server and of the
  engine can wait for each other in one way only, which is named. For the composed
  service, in any interleaving: every started item is accounted for, also over a restart; a stop and a
  failure hold until somebody starts the queue; a start request runs the queue in order up to the first
  failure, and the engine gets exactly these items, resolved; strangers do not interfere with anybody; and no client can tell which repository is behind it.
  The configuration follows its precedence; a profile is loaded file by file in order; what is printed
  arrives at a client of the console stream. Each group also has
  theorems on how the code departs from what it says: they are stated as behaviour of the model, with
  a concrete run as witness.

  Bounds. Loops over data are structural recursions. The search for the root cause and the description of
  devices recurse on a measure (references not yet seen, levels left), so no fuel can run out. The
  loops of threads and sockets are functions of the steps they are given, or step relations: a theorem
  about them holds for any number of steps. The flush of held history ends after two steps per entry.

  Not modelled. The \<open>RunEngine\<close>, ophyd devices, the profile's own code, the database engine, the YAML, JSON and
  argument parsers, the HTTP framework and client, and Python's introspection are not part of the repository: what they
  answer is an argument. \<open>engine/protocol.py\<close> declares two abstract methods, \<open>__init__.py\<close> the version. Left out
  are the wake-up event of the sequencer (it shortens waits), the texts of log lines, the properties that only
  read an attribute, and the HTTP server that runs the application, of which what it does to the services and how
  it ends are inputs. The scripts under \<open>tools/\<close> drive a browser and define example devices.
\<close>

end
